(* ===== verification/Prelude.thy ===== *)
theory Prelude
  imports Main
begin

text \<open>
  Shared vocabulary of the development: the collections the component proofs draw on, the Python
  and SQL idioms the sources use over and over (an \<open>UPDATE ... WHERE\<close>, a \<open>SELECT ... ORDER BY
  ... LIMIT 1\<close>, text comparison in SQLite's BINARY collation, \<open>str.strip\<close>, slices), and the
  generic lemmas about them.
\<close>

named_theorems sql_simps \<open>how the SQL idioms act on a table\<close>
named_theorems step_simps \<open>the statements the queue operations are made of\<close>
named_theorems inv_intros \<open>preservation of the invariants, one lemma per operation\<close>

subsection \<open>Text order\<close>

text \<open>
  SQLite compares TEXT values byte by byte (the BINARY collation): \<open>text_less a b\<close> is
  \<open>a < b\<close> there, and \<open>text_le\<close> is \<open>a <= b\<close>.
\<close>

fun text_less :: "string \<Rightarrow> string \<Rightarrow> bool" where
  "text_less [] [] = False"
| "text_less [] (y # ys) = True"
| "text_less (x # xs) [] = False"
| "text_less (x # xs) (y # ys) =
     (if x = y then text_less xs ys else (of_char x :: nat) < of_char y)"

definition text_le :: "string \<Rightarrow> string \<Rightarrow> bool" where
  "text_le a b \<longleftrightarrow> a = b \<or> text_less a b"

lemma text_less_irrefl [simp]: "\<not> text_less a a"
  by (induction a) auto

lemma text_less_total: "a \<noteq> b \<Longrightarrow> text_less a b \<or> text_less b a"
proof (induction a b rule: text_less.induct)
  case (4 x xs y ys)
  have "x \<noteq> y \<Longrightarrow> (of_char x :: nat) < of_char y \<or> (of_char y :: nat) < of_char x"
    using of_char_eq_iff [where 'a = nat, of x y] by linarith
  with 4 show ?case by (cases "x = y") auto
qed auto

lemma text_less_trans: "text_less a b \<Longrightarrow> text_less b c \<Longrightarrow> text_less a c"
proof (induction a b arbitrary: c rule: text_less.induct)
  case (2 y ys)
  then show ?case by (cases c) auto
next
  case (4 x xs y ys)
  then show ?case by (cases c) (auto split: if_splits)
qed auto

lemma text_less_asym: "text_less a b \<Longrightarrow> \<not> text_less b a"
  using text_less_trans text_less_irrefl by blast

lemma text_le_refl [simp]: "text_le a a"
  by (simp add: text_le_def)

lemma text_le_trans: "text_le a b \<Longrightarrow> text_le b c \<Longrightarrow> text_le a c"
  unfolding text_le_def using text_less_trans by blast

lemma text_le_antisym: "text_le a b \<Longrightarrow> text_le b a \<Longrightarrow> a = b"
  unfolding text_le_def using text_less_asym by blast

lemma text_le_total: "text_le a b \<or> text_le b a"
  unfolding text_le_def using text_less_total by blast

lemma not_text_le: "\<not> text_le a b \<longleftrightarrow> text_less b a"
  unfolding text_le_def using text_less_total text_less_asym by blast

lemma text_less_append:
  "length a = length a' \<Longrightarrow>
   text_less (a @ b) (a' @ b') \<longleftrightarrow> text_less a a' \<or> (a = a' \<and> text_less b b')"
  by (induction a a' rule: list_induct2) auto

subsection \<open>Tables\<close>

text \<open>
  A table is the list of its rows in rowid order. \<open>upd_where p f\<close> is
  \<open>UPDATE ... SET f WHERE p\<close>, \<open>count_where p\<close> the number of rows \<open>p\<close> selects, and
  \<open>first_min le\<close> is \<open>ORDER BY ... LIMIT 1\<close>: the least row in a total preorder, the earlier one
  of two equivalent rows.
\<close>

definition upd_where :: "('r \<Rightarrow> bool) \<Rightarrow> ('r \<Rightarrow> 'r) \<Rightarrow> 'r list \<Rightarrow> 'r list" where
  "upd_where p f rows = map (\<lambda>r. if p r then f r else r) rows"

definition count_where :: "('r \<Rightarrow> bool) \<Rightarrow> 'r list \<Rightarrow> nat" where
  "count_where p rows = length (filter p rows)"

fun first_min :: "('r \<Rightarrow> 'r \<Rightarrow> bool) \<Rightarrow> 'r list \<Rightarrow> 'r option" where
  "first_min le [] = None"
| "first_min le (x # xs) =
     (case first_min le xs of None \<Rightarrow> Some x | Some y \<Rightarrow> if le x y then Some x else Some y)"

lemma upd_where_simps [simp]:
  "upd_where p f [] = []"
  "upd_where p f (r # rs) = (if p r then f r else r) # upd_where p f rs"
  "length (upd_where p f rs) = length rs"
  by (simp_all add: upd_where_def)

lemma upd_where_append [simp]: "upd_where p f (rs @ ss) = upd_where p f rs @ upd_where p f ss"
  by (simp add: upd_where_def)

lemma set_upd_where [sql_simps]:
  "set (upd_where p f rows) = f ` {r \<in> set rows. p r} \<union> {r \<in> set rows. \<not> p r}"
  by (auto simp: upd_where_def)

lemma upd_whereI: "r \<in> set rows \<Longrightarrow> p r \<Longrightarrow> f r \<in> set (upd_where p f rows)"
  by (simp add: sql_simps)

lemma upd_where_otherI: "r \<in> set rows \<Longrightarrow> \<not> p r \<Longrightarrow> r \<in> set (upd_where p f rows)"
  by (simp add: sql_simps)

lemma upd_where_none: "(\<And>r. r \<in> set rows \<Longrightarrow> \<not> p r) \<Longrightarrow> upd_where p f rows = rows"
  by (induction rows) auto

lemma map_upd_where [sql_simps]:
  "(\<And>r. g (f r) = g r) \<Longrightarrow> map g (upd_where p f rows) = map g rows"
  by (induction rows) auto

lemma find_upd_where:
  "(\<And>r. q (f r) = q r) \<Longrightarrow>
   find q (upd_where p f rows) = map_option (\<lambda>r. if p r then f r else r) (find q rows)"
  by (induction rows) auto

lemma count_where_simps [simp]:
  "count_where p [] = 0"
  "count_where p (r # rs) = (if p r then Suc (count_where p rs) else count_where p rs)"
  "count_where p (rs @ ss) = count_where p rs + count_where p ss"
  by (simp_all add: count_where_def)

lemma count_where_le: "count_where p rows \<le> length rows"
  by (simp add: count_where_def)

lemma count_where_mono: "(\<And>r. r \<in> set rows \<Longrightarrow> p r \<Longrightarrow> q r) \<Longrightarrow> count_where p rows \<le> count_where q rows"
  by (induction rows) (auto intro: le_SucI)

lemma count_where_split:
  "count_where p rows = count_where (\<lambda>r. p r \<and> q r) rows + count_where (\<lambda>r. p r \<and> \<not> q r) rows"
  by (induction rows) auto

lemma count_where_upd:
  "(\<And>r. r \<in> set rows \<Longrightarrow> p r \<Longrightarrow> q (f r) = q r) \<Longrightarrow> count_where q (upd_where p f rows) = count_where q rows"
  by (induction rows) auto

lemma count_where_upd_le: "count_where q (upd_where p f rows) \<le> count_where q rows + count_where p rows"
  by (induction rows) auto

lemma count_where_upd_out:
  "(\<And>r. p r \<Longrightarrow> \<not> q (f r)) \<Longrightarrow>
   count_where q (upd_where p f rows) = count_where (\<lambda>r. q r \<and> \<not> p r) rows"
  by (induction rows) auto

lemma count_where_key:
  "distinct (map key rows) \<Longrightarrow> count_where (\<lambda>r. key r = k \<and> p r) rows \<le> 1"
proof (induction rows)
  case (Cons a rows)
  then show ?case by (cases "key a = k") (auto simp: count_where_def filter_empty_conv image_iff)
qed simp

lemma first_min_None [simp]: "first_min le xs = None \<longleftrightarrow> xs = []"
  by (cases xs) (auto split: option.splits)

lemma first_min_in: "first_min le xs = Some x \<Longrightarrow> x \<in> set xs"
  by (induction xs arbitrary: x) (auto split: option.splits if_splits)

lemma first_min_least:
  assumes total: "\<And>a b. le a b \<or> le b a" and trans: "\<And>a b c. le a b \<Longrightarrow> le b c \<Longrightarrow> le a c"
  shows "first_min le xs = Some x \<Longrightarrow> y \<in> set xs \<Longrightarrow> le x y"
proof (induction xs arbitrary: x y)
  case (Cons z zs)
  show ?case
  proof (cases "first_min le zs")
    case None
    then show ?thesis using Cons.prems total by auto
  next
    case (Some w)
    note IH = Cons.IH [OF this]
    show ?thesis
    proof (cases "le z w")
      case True
      then have "x = z" using Cons.prems(1) Some by simp
      then show ?thesis using Cons.prems(2) IH trans [OF True] total by auto
    next
      case False
      then have "x = w" "le w z" using Cons.prems(1) Some total by auto
      then show ?thesis using Cons.prems(2) IH by auto
    qed
  qed
qed simp

text \<open>
  \<open>ORDER BY\<close>: a stable sort by a total preorder, rows that compare equal keeping their order.
\<close>

fun insert_by :: "('r \<Rightarrow> 'r \<Rightarrow> bool) \<Rightarrow> 'r \<Rightarrow> 'r list \<Rightarrow> 'r list" where
  "insert_by le x [] = [x]"
| "insert_by le x (y # ys) = (if le x y then x # y # ys else y # insert_by le x ys)"

definition order_by :: "('r \<Rightarrow> 'r \<Rightarrow> bool) \<Rightarrow> 'r list \<Rightarrow> 'r list" where
  "order_by le rows = foldr (insert_by le) rows []"

lemma order_by_simps [simp]:
  "order_by le [] = []" "order_by le (x # xs) = insert_by le x (order_by le xs)"
  by (simp_all add: order_by_def)

lemma set_insert_by [simp]: "set (insert_by le x xs) = insert x (set xs)"
  by (induction xs) auto

lemma set_order_by [simp]: "set (order_by le xs) = set xs"
  by (induction xs) auto

lemma length_insert_by [simp]: "length (insert_by le x xs) = Suc (length xs)"
  by (induction xs) auto

lemma length_order_by [simp]: "length (order_by le xs) = length xs"
  by (induction xs) auto

lemma distinct_insert_by: "distinct (insert_by le x xs) \<longleftrightarrow> x \<notin> set xs \<and> distinct xs"
  by (induction xs) auto

lemma distinct_order_by [simp]: "distinct (order_by le xs) = distinct xs"
  by (induction xs) (auto simp: distinct_insert_by)

lemma count_insert_by [simp]: "count_where p (insert_by le x xs) = count_where p (x # xs)"
  by (induction xs) auto

lemma count_order_by [simp]: "count_where p (order_by le xs) = count_where p xs"
  by (induction xs) auto

text \<open>Rows that compare equal keep their order.\<close>

lemma filter_insert_by: "(\<And>y. p x \<Longrightarrow> p y \<Longrightarrow> le x y) \<Longrightarrow> filter p (insert_by le x ys) = filter p (x # ys)"
  by (induction ys) auto

lemma filter_order_by: "(\<And>x y. p x \<Longrightarrow> p y \<Longrightarrow> le x y) \<Longrightarrow> filter p (order_by le xs) = filter p xs"
  by (induction xs) (simp_all add: filter_insert_by)

lemma sorted_insert_by:
  assumes total: "\<And>a b. le a b \<or> le b a" and trans: "\<And>a b c. le a b \<Longrightarrow> le b c \<Longrightarrow> le a c"
  shows "sorted_wrt le xs \<Longrightarrow> sorted_wrt le (insert_by le x xs)"
proof (induction xs)
  case (Cons y ys)
  show ?case
  proof (cases "le x y")
    case True
    then show ?thesis using Cons.prems trans by auto
  next
    case False
    then have "le y x" using total by blast
    then show ?thesis using Cons False by auto
  qed
qed simp

lemma sorted_order_by:
  assumes "\<And>a b. le a b \<or> le b a" "\<And>a b c. le a b \<Longrightarrow> le b c \<Longrightarrow> le a c"
  shows "sorted_wrt le (order_by le xs)"
  using sorted_insert_by [of le, OF assms] by (induction xs) auto

subsection \<open>Rows keyed by an id\<close>

lemma find_unique:
  "distinct (map key rows) \<Longrightarrow> r \<in> set rows \<Longrightarrow> find (\<lambda>x. key x = key r) rows = Some r"
  by (induction rows) (auto simp: image_iff)

lemma find_key_None: "find (\<lambda>x. key x = k) rows = None \<longleftrightarrow> k \<notin> key ` set rows"
  by (induction rows) auto

lemma find_keyD: "find p rows = Some r \<Longrightarrow> r \<in> set rows \<and> p r"
  by (auto simp: find_Some_iff)

lemma map_sum_Inr: "map_sum f g x = Inr y \<longleftrightarrow> (\<exists>z. x = Inr z \<and> y = g z)"
  by (cases x) auto

lemma map_sum_Inl: "map_sum f g x = Inl y \<longleftrightarrow> (\<exists>z. x = Inl z \<and> y = f z)"
  by (cases x) auto

subsection \<open>Reachable states and invariants\<close>

inductive reach :: "('s \<Rightarrow> bool) \<Rightarrow> ('s \<Rightarrow> 's \<Rightarrow> bool) \<Rightarrow> 's \<Rightarrow> bool" for start step where
  reach_start: "start s \<Longrightarrow> reach start step s"
| reach_step: "reach start step s \<Longrightarrow> step s t \<Longrightarrow> reach start step t"

locale invariant_system =
  fixes start :: "'s \<Rightarrow> bool"
    and step :: "'s \<Rightarrow> 's \<Rightarrow> bool"
    and inv :: "'s \<Rightarrow> bool"
  assumes start_inv: "start s \<Longrightarrow> inv s"
    and step_inv: "step s t \<Longrightarrow> inv s \<Longrightarrow> inv t"
begin

lemma reach_inv: "reach start step s \<Longrightarrow> inv s"
  by (induction rule: reach.induct) (auto intro: start_inv step_inv)

lemma steps_inv: "step\<^sup>*\<^sup>* s t \<Longrightarrow> inv s \<Longrightarrow> inv t"
  by (induction rule: rtranclp_induct) (auto intro: step_inv)

lemma reach_steps: "step\<^sup>*\<^sup>* s t \<Longrightarrow> reach start step s \<Longrightarrow> reach start step t"
  by (induction rule: rtranclp_induct) (auto intro: reach_step)

end

subsection \<open>Python strings\<close>

text \<open>\<open>str.isspace\<close> on a single ASCII character, \<open>str.strip\<close>, \<open>str.startswith\<close>, \<open>str.lower\<close>.\<close>

definition is_space :: "char \<Rightarrow> bool" where
  "is_space c \<longleftrightarrow> (let n = (of_char c :: nat) in (9 \<le> n \<and> n \<le> 13) \<or> (28 \<le> n \<and> n \<le> 32))"

definition lstrip :: "string \<Rightarrow> string" where
  "lstrip s = dropWhile is_space s"

definition rstrip :: "string \<Rightarrow> string" where
  "rstrip s = rev (dropWhile is_space (rev s))"

definition strip :: "string \<Rightarrow> string" where
  "strip s = rstrip (lstrip s)"

definition startswith :: "string \<Rightarrow> string \<Rightarrow> bool" where
  "startswith s p \<longleftrightarrow> take (length p) s = p"

definition endswith :: "string \<Rightarrow> string \<Rightarrow> bool" where
  "endswith s p \<longleftrightarrow> length p \<le> length s \<and> drop (length s - length p) s = p"

definition lower_char :: "char \<Rightarrow> char" where
  "lower_char c = (let n = (of_char c :: nat) in if 65 \<le> n \<and> n \<le> 90 then char_of (n + 32) else c)"

definition lower :: "string \<Rightarrow> string" where
  "lower s = map lower_char s"

lemma length_rstrip: "length (rstrip s) \<le> length s"
  using length_dropWhile_le [of is_space "rev s"] by (simp add: rstrip_def)

lemma rstrip_prefix: "\<exists>t. s = rstrip s @ t \<and> (\<forall>c \<in> set t. is_space c)"
proof -
  have "rev s = takeWhile is_space (rev s) @ dropWhile is_space (rev s)" by simp
  then have "s = rstrip s @ rev (takeWhile is_space (rev s))"
    unfolding rstrip_def by (metis rev_append rev_rev_ident)
  then show ?thesis by (intro exI [of _ "rev (takeWhile is_space (rev s))"])
      (auto dest: set_takeWhileD)
qed

lemma rstrip_eq_Nil: "rstrip s = [] \<longleftrightarrow> (\<forall>c \<in> set s. is_space c)"
  by (simp add: rstrip_def dropWhile_eq_Nil_conv)

lemma rstrip_split:
  obtains t where "take k xs = rstrip (take k xs) @ t" "xs = rstrip (take k xs) @ t @ drop k xs"
    "\<forall>c \<in> set t. is_space c"
proof -
  obtain t where t: "take k xs = rstrip (take k xs) @ t" "\<forall>c \<in> set t. is_space c"
    using rstrip_prefix by blast
  have "xs = (rstrip (take k xs) @ t) @ drop k xs"
    by (subst t(1) [symmetric]) simp
  then have "xs = rstrip (take k xs) @ t @ drop k xs" by (simp only: append_assoc)
  with t show thesis by (intro that)
qed

lemma rstrip_take_next:
  assumes "k \<le> length xs" "length (rstrip (take k xs)) < k"
  shows "is_space (xs ! length (rstrip (take k xs)))"
proof -
  obtain t where t: "take k xs = rstrip (take k xs) @ t" "xs = rstrip (take k xs) @ t @ drop k xs"
    "\<forall>c \<in> set t. is_space c" by (rule rstrip_split)
  have "length (rstrip (take k xs)) + length t = k"
    using arg_cong [OF t(1), of length] assms(1) by simp
  then obtain c cs where c: "t = c # cs" using assms(2) by (cases t) auto
  have "xs ! length (rstrip (take k xs)) = (rstrip (take k xs) @ c # cs @ drop k xs) ! length (rstrip (take k xs))"
    using t(2) unfolding c by simp
  also have "\<dots> = c" by (rule nth_append_length)
  finally show ?thesis using t(3) c by simp
qed

lemma rstrip_take: "rstrip (take k xs) = take (length (rstrip (take k xs))) xs"
proof -
  obtain t where "xs = rstrip (take k xs) @ t @ drop k xs" by (rule rstrip_split)
  then show ?thesis by (metis append_eq_conv_conj)
qed

lemma rstrip_last: "s \<noteq> [] \<Longrightarrow> \<not> is_space (last s) \<Longrightarrow> rstrip s = s"
  by (cases s rule: rev_cases) (simp_all add: rstrip_def)

lemma last_rstrip: "rstrip s \<noteq> [] \<Longrightarrow> \<not> is_space (last (rstrip s))"
  using hd_dropWhile [of is_space "rev s"] by (simp add: rstrip_def last_rev)

lemma rstrip_length_le: "length (rstrip (take k xs)) \<le> k"
  using length_rstrip [of "take k xs"] by simp

lemma last_take: "0 < e \<Longrightarrow> e \<le> length xs \<Longrightarrow> last (take e xs) = xs ! (e - 1)"
  by (subst last_conv_nth) (auto simp: min_def)

lemma rstrip_take_Nil: "k \<le> length xs \<Longrightarrow> rstrip (take k xs) = [] \<longleftrightarrow> (\<forall>i < k. is_space (xs ! i))"
  by (simp add: rstrip_eq_Nil all_set_conv_all_nth)

end
