(* ===== verification/Iso_Time.thy ===== *)
theory Iso_Time
  imports Prelude
begin

text \<open>
  The ISO-8601 stamps the queue, the journals and the grant table are written in: the proleptic
  Gregorian calendar of \<open>datetime\<close>, \<open>datetime.isoformat\<close> and the extended-format part of
  \<open>datetime.fromisoformat\<close>. The two facts every component rests on are proved here: parsing a
  printed stamp gives the instant back, and two UTC stamps
  compare as text exactly as their instants do, whether or not they carry a fraction. The locale \<open>stamps\<close> is the interface the
  components use, interpreted on \<open>iso_utc\<close> and \<open>parse_instant\<close>.

  The week-date and basic spellings \<open>fromisoformat\<close> also reads, and offsets with seconds, are
  outside the grammar: no writer of the modelled tables produces them.
\<close>

section \<open>The proleptic Gregorian calendar\<close>

definition is_leap :: "nat \<Rightarrow> bool" where
  "is_leap y \<longleftrightarrow> y mod 4 = 0 \<and> (y mod 100 \<noteq> 0 \<or> y mod 400 = 0)"

definition days_in_month :: "nat \<Rightarrow> nat \<Rightarrow> nat" where
  "days_in_month y m =
     (if m = 2 then (if is_leap y then 29 else 28)
      else if m = 4 \<or> m = 6 \<or> m = 9 \<or> m = 11 then 30 else 31)"

definition days_before_year :: "nat \<Rightarrow> nat" where
  "days_before_year y =
     (let p = y - 1 in p * 365 + p div 4 + p div 400 - p div 100)"

fun days_before_month :: "nat \<Rightarrow> nat \<Rightarrow> nat" where
  "days_before_month y 0 = 0"
| "days_before_month y (Suc m) =
     days_before_month y m + (if m = 0 then 0 else days_in_month y m)"

definition valid_ymd :: "nat \<times> nat \<times> nat \<Rightarrow> bool" where
  "valid_ymd = (\<lambda>(y, m, d). 1 \<le> y \<and> 1 \<le> m \<and> m \<le> 12 \<and> 1 \<le> d \<and> d \<le> days_in_month y m)"

definition ymd_to_days :: "nat \<times> nat \<times> nat \<Rightarrow> nat" where
  "ymd_to_days = (\<lambda>(y, m, d). days_before_year y + days_before_month y m + (d - 1))"

lemma div_Suc_step: "0 < k \<Longrightarrow> Suc p div k = p div k + (if Suc p mod k = 0 then 1 else 0)"
  by (simp add: div_Suc)

lemma div_100_le_4: "(p::nat) div 100 \<le> p div 4"
  by (rule div_le_mono2) simp_all

lemma days_before_year_Suc:
  assumes "1 \<le> y"
  shows "days_before_year (Suc y) = days_before_year y + (if is_leap y then 366 else 365)"
proof -
  obtain p where y: "y = Suc p" using assms by (cases y) auto
  have "Suc p mod 400 = 0 \<Longrightarrow> Suc p mod 100 = 0" and "Suc p mod 100 = 0 \<Longrightarrow> Suc p mod 4 = 0"
    using dvd_trans [of 100 400 "Suc p"] dvd_trans [of 4 100 "Suc p"]
    by (simp_all add: mod_eq_0_iff_dvd)
  then show ?thesis
    using div_100_le_4 [of p]
    by (auto simp: y days_before_year_def is_leap_def Let_def div_Suc_step algebra_simps)
qed

lemma days_before_month_13: "days_before_month y 13 = (if is_leap y then 366 else 365)"
  by (simp add: eval_nat_numeral days_in_month_def)

lemma days_before_month_mono: "m \<le> m' \<Longrightarrow> days_before_month y m \<le> days_before_month y m'"
  by (rule lift_Suc_mono_le [of "days_before_month y"]) simp_all

lemma days_before_month_step:
  "1 \<le> m \<Longrightarrow> m < m' \<Longrightarrow> days_before_month y m + days_in_month y m \<le> days_before_month y m'"
  using days_before_month_mono [of "Suc m" m' y] by simp

lemma days_before_year_mono: "1 \<le> y \<Longrightarrow> y \<le> y' \<Longrightarrow> days_before_year y \<le> days_before_year y'"
proof (induction y')
  case (Suc n)
  then show ?case by (cases "y = Suc n") (simp_all add: days_before_year_Suc)
qed simp

lemma ymd_in_year:
  assumes "valid_ymd (y, m, d)"
  shows "ymd_to_days (y, m, d) < days_before_year (Suc y)"
proof -
  have "days_before_month y m + days_in_month y m \<le> days_before_month y 13"
    using assms by (intro days_before_month_step) (auto simp: valid_ymd_def)
  then show ?thesis using assms
    by (auto simp: valid_ymd_def ymd_to_days_def days_before_year_Suc days_before_month_13)
qed

definition ymd_less :: "nat \<times> nat \<times> nat \<Rightarrow> nat \<times> nat \<times> nat \<Rightarrow> bool" where
  "ymd_less = (\<lambda>(y, m, d) (y', m', d').
     y < y' \<or> (y = y' \<and> (m < m' \<or> (m = m' \<and> d < d'))))"

lemma ymd_less_days:
  assumes "valid_ymd a" "valid_ymd b" "ymd_less a b"
  shows "ymd_to_days a < ymd_to_days b"
proof -
  obtain y m d y' m' d' where a: "a = (y, m, d)" and b: "b = (y', m', d')"
    by (metis prod_cases3)
  consider "y < y'" | "y = y'" "m < m'" | "y = y'" "m = m'" "d < d'"
    using assms(3) by (auto simp: a b ymd_less_def)
  then show ?thesis
  proof cases
    case 1
    have "ymd_to_days a < days_before_year (Suc y)" using ymd_in_year assms(1) a by simp
    also have "\<dots> \<le> days_before_year y'" using 1 assms(1)
      by (intro days_before_year_mono) (auto simp: a valid_ymd_def)
    also have "\<dots> \<le> ymd_to_days b" by (simp add: b ymd_to_days_def)
    finally show ?thesis .
  next
    case 2
    then show ?thesis using assms(1,2) days_before_month_step [of m m' y]
      by (auto simp: a b valid_ymd_def ymd_to_days_def)
  next
    case 3
    then show ?thesis using assms(1) by (auto simp: a b valid_ymd_def ymd_to_days_def)
  qed
qed

lemma ymd_to_days_less_iff:
  assumes "valid_ymd a" "valid_ymd b"
  shows "ymd_to_days a < ymd_to_days b \<longleftrightarrow> ymd_less a b"
proof -
  have "ymd_less a b \<or> a = b \<or> ymd_less b a"
    by (cases a; cases b) (auto simp: ymd_less_def)
  then show ?thesis using ymd_less_days assms by fastforce
qed

lemma ymd_to_days_inj: "valid_ymd a \<Longrightarrow> valid_ymd b \<Longrightarrow> ymd_to_days a = ymd_to_days b \<Longrightarrow> a = b"
  using ymd_to_days_less_iff [of a b] ymd_to_days_less_iff [of b a]
  by (cases a; cases b) (auto simp: ymd_less_def)

lemma days_before_year_ge: "y - 1 \<le> days_before_year y"
  unfolding days_before_year_def Let_def using div_100_le_4 [of "y - 1"] by linarith

function year_search :: "nat \<Rightarrow> nat \<Rightarrow> nat" where
  "year_search y n = (if days_before_year (Suc y) \<le> n then year_search (Suc y) n else y)"
  by pat_completeness auto
termination
proof (relation "measure (\<lambda>(y, n). Suc n - y)", goal_cases)
  case (2 y n)
  then show ?case using days_before_year_ge [of "Suc y"] by simp
qed simp

declare year_search.simps [simp del]

function month_search :: "nat \<Rightarrow> nat \<Rightarrow> nat \<Rightarrow> nat \<times> nat" where
  "month_search y m r =
     (if m < 12 \<and> days_in_month y m \<le> r then month_search y (Suc m) (r - days_in_month y m)
      else (m, r))"
  by pat_completeness auto
termination
  by (relation "measure (\<lambda>(y, m, r). 12 - m)") auto

declare month_search.simps [simp del]

definition days_to_ymd :: "nat \<Rightarrow> nat \<times> nat \<times> nat" where
  "days_to_ymd n =
     (let y = year_search (n div 366 + 1) n; (m, r) = month_search y 1 (n - days_before_year y)
      in (y, m, r + 1))"

lemma year_search_bounds:
  assumes "1 \<le> y" "days_before_year y \<le> n"
  shows "1 \<le> year_search y n \<and> days_before_year (year_search y n) \<le> n \<and>
         n < days_before_year (Suc (year_search y n))"
  using assms
proof (induction y n rule: year_search.induct)
  case (1 y n)
  then show ?case
    by (cases "days_before_year (Suc y) \<le> n") (simp_all add: year_search.simps [of y n])
qed

lemma days_before_year_start: "days_before_year (n div 366 + 1) \<le> n"
proof -
  have "p * 365 + p div 4 + p div 400 - p div 100 \<le> p * 366" for p :: nat
  proof -
    have "p div 4 + p div 400 \<le> p" by simp
    then show ?thesis by simp
  qed
  then have "days_before_year (n div 366 + 1) \<le> n div 366 * 366"
    by (simp add: days_before_year_def Let_def)
  also have "\<dots> \<le> n" by simp
  finally show ?thesis .
qed

lemma month_search_sound:
  assumes "1 \<le> m" "m \<le> 12" "r < days_before_month y 13 - days_before_month y m"
    "month_search y m r = (m', r')"
  shows "1 \<le> m' \<and> m' \<le> 12 \<and> r' < days_in_month y m' \<and>
         days_before_month y m' + r' = days_before_month y m + r"
  using assms
proof (induction y m r rule: month_search.induct)
  case (1 y m r)
  show ?case
  proof (cases "m < 12 \<and> days_in_month y m \<le> r")
    case True
    then show ?thesis using 1 by (auto simp: month_search.simps [of y m r])
  next
    case False
    then have "m' = m" "r' = r" using 1(5) by (auto simp: month_search.simps [of y m r])
    moreover have "r < days_in_month y m"
    proof (cases "m < 12")
      case True
      then show ?thesis using False by simp
    next
      case False
      then have "m = 12" using 1(3) by simp
      then show ?thesis using 1(4) by (simp add: eval_nat_numeral)
    qed
    ultimately show ?thesis using 1(2,3) by simp
  qed
qed

lemma days_to_ymd_correct: "valid_ymd (days_to_ymd n) \<and> ymd_to_days (days_to_ymd n) = n"
proof -
  define y where "y = year_search (n div 366 + 1) n"
  have y: "1 \<le> y" "days_before_year y \<le> n" "n < days_before_year (Suc y)"
    unfolding y_def using year_search_bounds [OF _ days_before_year_start] by simp_all
  obtain m r where mr: "month_search y 1 (n - days_before_year y) = (m, r)" by force
  have "n - days_before_year y < days_before_month y 13 - days_before_month y 1"
    using y by (simp add: days_before_year_Suc days_before_month_13)
  note ms = month_search_sound [OF _ _ this mr]
  have "days_to_ymd n = (y, m, r + 1)"
    unfolding days_to_ymd_def Let_def y_def [symmetric] mr by simp
  then show ?thesis using ms y by (auto simp: valid_ymd_def ymd_to_days_def)
qed

lemma days_to_ymd_inverse [simp]: "valid_ymd a \<Longrightarrow> days_to_ymd (ymd_to_days a) = a"
  using days_to_ymd_correct ymd_to_days_inj by blast


section \<open>Decimal fields\<close>

definition digit :: "nat \<Rightarrow> char" where
  "digit n = ''0123456789'' ! n"

fun pad :: "nat \<Rightarrow> nat \<Rightarrow> string" where
  "pad 0 n = []"
| "pad (Suc w) n = pad w (n div 10) @ [digit (n mod 10)]"

definition is_digit :: "char \<Rightarrow> bool" where
  "is_digit c \<longleftrightarrow> 48 \<le> (of_char c :: nat) \<and> (of_char c :: nat) \<le> 57"

definition digit_val :: "char \<Rightarrow> nat" where
  "digit_val c = of_char c - 48"

definition dec :: "string \<Rightarrow> nat" where
  "dec s = foldl (\<lambda>n c. 10 * n + digit_val c) 0 s"

definition num :: "string \<Rightarrow> nat option" where
  "num s = (if s \<noteq> [] \<and> list_all is_digit s then Some (dec s) else None)"

lemma of_char_digit: "n < 10 \<Longrightarrow> (of_char (digit n) :: nat) = 48 + n"
  by (auto simp: digit_def numeral_eq_Suc less_Suc_eq)

lemma is_digit_digit [simp]: "n < 10 \<Longrightarrow> is_digit (digit n)"
  by (simp add: is_digit_def of_char_digit)

lemma digit_val_digit [simp]: "n < 10 \<Longrightarrow> digit_val (digit n) = n"
  by (simp add: digit_val_def of_char_digit)

lemma pad_numeral: "pad (numeral k) n = pad (pred_numeral k) (n div 10) @ [digit (n mod 10)]"
  by (subst numeral_eq_Suc) (rule pad.simps)

lemma length_pad [simp]: "length (pad w n) = w"
  by (induction w arbitrary: n) auto

lemma list_all_pad [simp]: "list_all is_digit (pad w n)"
  by (induction w arbitrary: n) auto

lemma dec_snoc: "dec (s @ [c]) = 10 * dec s + digit_val c"
  by (simp add: dec_def)

lemma dec_pad: "n < 10 ^ w \<Longrightarrow> dec (pad w n) = n"
proof (induction w arbitrary: n)
  case 0
  then show ?case by (simp add: dec_def)
next
  case (Suc w)
  then have "n div 10 < 10 ^ w" by (simp add: less_mult_imp_div_less mult.commute)
  then show ?case using Suc.IH by (simp add: dec_snoc)
qed

lemma num_pad: "n < 10 ^ w \<Longrightarrow> 0 < w \<Longrightarrow> num (pad w n) = Some n"
  using length_pad [of w n] by (auto simp: num_def dec_pad simp del: length_pad)

lemma radix_less:
  assumes "r < k" "r' < (k::nat)"
  shows "q * k + r < q' * k + r' \<longleftrightarrow> q < q' \<or> (q = q' \<and> r < r')"
proof -
  have mono: "a * k + b < a' * k + b'" if "a < a'" "b < k" for a a' b b'
  proof -
    have "Suc a * k \<le> a' * k" using that(1) by (intro mult_le_mono1) simp
    then show ?thesis using that(2) by simp
  qed
  show ?thesis
  proof (cases q q' rule: linorder_cases)
    case greater
    then show ?thesis using mono [of q' q r' r] assms(2) by (auto dest: less_asym)
  qed (use assms(1) mono [of q q' r r'] in auto)
qed

lemma divmod_less:
  "0 < (k::nat) \<Longrightarrow> n < n' \<longleftrightarrow> n div k < n' div k \<or> (n div k = n' div k \<and> n mod k < n' mod k)"
  using radix_less [of "n mod k" k "n' mod k" "n div k" "n' div k"] by simp

lemma text_less_pad:
  "n < 10 ^ w \<Longrightarrow> n' < 10 ^ w \<Longrightarrow> text_less (pad w n) (pad w n') \<longleftrightarrow> n < n'"
proof (induction w arbitrary: n n')
  case (Suc w)
  have "n div 10 < 10 ^ w" "n' div 10 < 10 ^ w"
    using Suc.prems by (simp_all add: less_mult_imp_div_less mult.commute)
  note IH = Suc.IH [OF this] and eq = dec_pad [OF this(1)] dec_pad [OF this(2)]
  have "pad w (n div 10) = pad w (n' div 10) \<longleftrightarrow> n div 10 = n' div 10" using eq by metis
  moreover note divmod_less [of 10 n n']
  moreover have "digit (n mod 10) = digit (n' mod 10) \<longleftrightarrow> n mod 10 = n' mod 10"
    by (metis digit_val_digit mod_less_divisor zero_less_numeral)
  ultimately show ?case by (auto simp: text_less_append IH of_char_digit)
qed simp

lemma pad_eq_iff: "n < 10 ^ w \<Longrightarrow> n' < 10 ^ w \<Longrightarrow> pad w n = pad w n' \<longleftrightarrow> n = n'"
  using dec_pad by metis


section \<open>Date and time stamps as text\<close>

record datetime =
  wall :: nat
  offset :: "int option"

abbreviation day_us :: nat where "day_us \<equiv> 86400000000"
abbreviation minute_us :: int where "minute_us \<equiv> 60000000"

definition date_text :: "nat \<Rightarrow> string" where
  "date_text n = (case days_to_ymd n of (y, m, d) \<Rightarrow> pad 4 y @ ''-'' @ pad 2 m @ ''-'' @ pad 2 d)"

definition clock_text :: "nat \<Rightarrow> string" where
  "clock_text s = pad 2 (s div 3600) @ '':'' @ pad 2 (s div 60 mod 60) @ '':'' @ pad 2 (s mod 60)"

definition fraction_text :: "nat \<Rightarrow> string" where
  "fraction_text us = (if us = 0 then [] else ''.'' @ pad 6 us)"

definition offset_text :: "int option \<Rightarrow> string" where
  "offset_text o' = (case o' of None \<Rightarrow> []
     | Some k \<Rightarrow> (if k < 0 then ''-'' else ''+'') @ pad 2 (nat \<bar>k\<bar> div 60) @ '':'' @ pad 2 (nat \<bar>k\<bar> mod 60))"

definition isoformat :: "datetime \<Rightarrow> string" where
  "isoformat dt =
     (let t = wall dt mod day_us
      in date_text (wall dt div day_us) @ ''T'' @ clock_text (t div 1000000)
         @ fraction_text (t mod 1000000) @ offset_text (offset dt))"

definition parse_date :: "string \<Rightarrow> nat option" where
  "parse_date s =
     (if length s = 10 \<and> s ! 4 = CHR ''-'' \<and> s ! 7 = CHR ''-'' then
        (case (num (take 4 s), num (take 2 (drop 5 s)), num (drop 8 s)) of
           (Some y, Some m, Some d) \<Rightarrow> if valid_ymd (y, m, d) then Some (ymd_to_days (y, m, d)) else None
         | _ \<Rightarrow> None)
      else None)"

definition parse_clock :: "string \<Rightarrow> nat option" where
  "parse_clock s =
     (let hh = num (take 2 s);
          mm = (if length s = 2 then Some 0
                else if s ! 2 = CHR '':'' then num (take 2 (drop 3 s)) else None);
          ss = (if length s \<le> 5 then Some 0
                else if s ! 5 = CHR '':'' then num (drop 6 s) else None)
      in if length s = 2 \<or> length s = 5 \<or> length s = 8 then
           (case (hh, mm, ss) of
              (Some h, Some m, Some x) \<Rightarrow>
                if h < 24 \<and> m < 60 \<and> x < 60 then Some (h * 3600 + m * 60 + x) else None
            | _ \<Rightarrow> None)
         else None)"

definition parse_fraction :: "string \<Rightarrow> nat option" where
  "parse_fraction s = (case s of [] \<Rightarrow> Some 0
     | c # f \<Rightarrow> if c = CHR ''.'' \<or> c = CHR '','' then
                   (if f \<noteq> [] \<and> list_all is_digit f then Some (dec (take 6 (f @ ''000000''))) else None)
                 else None)"

definition parse_time :: "string \<Rightarrow> nat option" where
  "parse_time s =
     (let n = (if length s < 8 then length s else 8)
      in case (parse_clock (take n s), parse_fraction (drop n s)) of
           (Some t, Some f) \<Rightarrow> Some (t * 1000000 + f) | _ \<Rightarrow> None)"

definition parse_offset :: "string \<Rightarrow> int option option" where
  "parse_offset s = (case s of [] \<Rightarrow> Some None
     | c # r \<Rightarrow>
         if c = CHR ''Z'' then (if r = [] then Some (Some 0) else None)
         else (case (num (take 2 r),
                     if length r = 2 then Some 0
                     else if length r = 5 \<and> r ! 2 = CHR '':'' then num (drop 3 r) else None) of
                 (Some h, Some m) \<Rightarrow>
                   if h * 60 + m < 1440
                   then Some (Some ((if c = CHR ''-'' then -1 else 1) * int (h * 60 + m))) else None
               | _ \<Rightarrow> None))"

definition is_zone_start :: "char \<Rightarrow> bool" where
  "is_zone_start c \<longleftrightarrow> c = CHR ''+'' \<or> c = CHR ''-'' \<or> c = CHR ''Z''"

definition fromisoformat :: "string \<Rightarrow> datetime option" where
  "fromisoformat s =
     (case parse_date (take 10 s) of None \<Rightarrow> None
      | Some n \<Rightarrow>
          (case drop 10 s of [] \<Rightarrow> Some \<lparr>wall = n * day_us, offset = None\<rparr>
           | sep # r \<Rightarrow>
               (case (parse_time (takeWhile (\<lambda>c. \<not> is_zone_start c) r),
                      parse_offset (dropWhile (\<lambda>c. \<not> is_zone_start c) r)) of
                  (Some t, Some o') \<Rightarrow> Some \<lparr>wall = n * day_us + t, offset = o'\<rparr>
                | _ \<Rightarrow> None)))"

definition max_wall :: nat where
  "max_wall = days_before_year 10000 * day_us"

definition valid_datetime :: "datetime \<Rightarrow> bool" where
  "valid_datetime dt \<longleftrightarrow> wall dt < max_wall \<and>
     (case offset dt of None \<Rightarrow> True | Some k \<Rightarrow> \<bar>k\<bar> < 1440)"

lemma max_wall_eq [simp]: "max_wall = 315537897600000000"
  by (simp add: max_wall_def days_before_year_def)

lemma days_to_ymd_fields:
  assumes "n < days_before_year 10000" "days_to_ymd n = (y, m, d)"
  shows "y < 10 ^ 4 \<and> m < 10 ^ 2 \<and> d < 10 ^ 2 \<and> valid_ymd (y, m, d) \<and> ymd_to_days (y, m, d) = n"
proof -
  have v: "valid_ymd (y, m, d)" and n: "ymd_to_days (y, m, d) = n"
    using days_to_ymd_correct [of n] assms(2) by simp_all
  have "y < 10000"
  proof (rule ccontr)
    assume "\<not> y < 10000"
    then have "days_before_year 10000 \<le> days_before_year y"
      by (intro days_before_year_mono) simp_all
    also have "\<dots> \<le> n" unfolding n [symmetric] by (simp add: ymd_to_days_def)
    finally show False using assms(1) by simp
  qed
  moreover have "d \<le> 31" using v
    by (auto simp: valid_ymd_def days_in_month_def split: if_splits)
  ultimately show ?thesis using v n by (auto simp: valid_ymd_def)
qed

lemma length_date_text [simp]: "length (date_text n) = 10"
  by (simp add: date_text_def split: prod.split)

lemma length_clock_text [simp]: "length (clock_text s) = 8"
  by (simp add: clock_text_def)

lemma parse_date_text: "n < days_before_year 10000 \<Longrightarrow> parse_date (date_text n) = Some n"
  using days_to_ymd_fields [of n]
  by (auto simp: parse_date_def date_text_def num_pad nth_append split: prod.split)

lemma text_less_date:
  assumes "n < days_before_year 10000" "n' < days_before_year 10000"
  shows "text_less (date_text n) (date_text n') \<longleftrightarrow> n < n'"
proof -
  obtain y m d y' m' d' where e: "days_to_ymd n = (y, m, d)" "days_to_ymd n' = (y', m', d')"
    by (metis prod_cases3)
  note f = days_to_ymd_fields [OF assms(1) e(1)] days_to_ymd_fields [OF assms(2) e(2)]
  have "n < n' \<longleftrightarrow> ymd_less (y, m, d) (y', m', d')"
    using ymd_to_days_less_iff [of "(y, m, d)" "(y', m', d')"] f by auto
  then show ?thesis using f
    by (auto simp: date_text_def e text_less_append text_less_pad pad_eq_iff ymd_less_def)
qed

lemma hms_split: "s div 3600 = s div 60 div (60::nat)"
  by (simp add: div_mult2_eq [symmetric])

lemma hms_sum: "(s::nat) div 3600 * 3600 + s div 60 mod 60 * 60 + s mod 60 = s"
  using div_mult_mod_eq [of "s div 60" 60] div_mult_mod_eq [of s 60] unfolding hms_split by linarith

lemma parse_clock_text:
  assumes "s < 86400"
  shows "parse_clock (clock_text s) = Some s"
proof -
  have "s div 3600 < 24" "s div 3600 < 10 ^ 2" using assms by simp_all
  then show ?thesis using hms_sum [of s]
    by (auto simp: parse_clock_def clock_text_def num_pad nth_append)
qed

lemma text_less_clock:
  assumes "s < 86400" "s' < 86400"
  shows "text_less (clock_text s) (clock_text s') \<longleftrightarrow> s < s'"
proof -
  have "s div 3600 < 10 ^ 2" "s' div 3600 < 10 ^ 2" using assms by simp_all
  moreover have "s div 60 div 60 = s' div 60 div 60 \<Longrightarrow> s div 60 mod 60 = s' div 60 mod 60 \<Longrightarrow>
      s div 60 = s' div 60"
    by (metis div_mult_mod_eq)
  ultimately show ?thesis
    using divmod_less [of 60 s s'] divmod_less [of 60 "s div 60" "s' div 60"]
    by (auto simp: clock_text_def text_less_append text_less_pad pad_eq_iff hms_split)
qed

lemma parse_fraction_text: "us < 1000000 \<Longrightarrow> parse_fraction (fraction_text us) = Some us"
  using length_pad [of 6 us]
  by (auto simp: parse_fraction_def fraction_text_def dec_pad simp del: length_pad)

lemma int_hm: "int (a div 60) * 60 + int (a mod 60) = int a"
  by (metis div_mult_mod_eq of_nat_add of_nat_mult of_nat_numeral)

lemma parse_offset_text:
  assumes "case z of None \<Rightarrow> True | Some k \<Rightarrow> \<bar>k\<bar> < 1440"
  shows "parse_offset (offset_text z) = Some z"
proof (cases z)
  case (Some k)
  let ?m = "nat \<bar>k\<bar>"
  have m: "?m div 60 < 10 ^ 2" "?m mod 60 < 10 ^ 2" "?m div 60 < 24" "?m mod 60 < 60" using assms Some by auto
  have "int (?m div 60) * 60 + int (?m mod 60) = \<bar>k\<bar>" using int_hm [of ?m] by simp
  then show ?thesis using m Some
    by (cases "k < 0") (simp_all add: parse_offset_def offset_text_def num_pad nth_append)
qed (simp add: parse_offset_def offset_text_def)

lemma zone_start_text:
  "z \<noteq> None \<Longrightarrow> \<exists>c r. offset_text z = c # r \<and> is_zone_start c"
  by (auto simp: offset_text_def is_zone_start_def)

lemma not_zone_digit: "is_digit c \<Longrightarrow> \<not> is_zone_start c"
  by (auto simp: is_digit_def is_zone_start_def)

lemma not_zone_pad: "c \<in> set (pad w n) \<Longrightarrow> \<not> is_zone_start c"
  using list_all_pad [of w n] by (auto simp: list_all_iff dest: not_zone_digit)

lemma not_zone_time: "c \<in> set (clock_text s @ fraction_text us) \<Longrightarrow> \<not> is_zone_start c"
  by (auto simp: clock_text_def fraction_text_def dest: not_zone_pad split: if_splits)
     (simp_all add: is_zone_start_def)

lemma span_time:
  assumes "\<And>c. c \<in> set a \<Longrightarrow> \<not> is_zone_start c"
  shows "takeWhile (\<lambda>c. \<not> is_zone_start c) (a @ offset_text z) = a"
    and "dropWhile (\<lambda>c. \<not> is_zone_start c) (a @ offset_text z) = offset_text z"
proof -
  have "offset_text z = [] \<or> (\<exists>c r. offset_text z = c # r \<and> is_zone_start c)"
    using zone_start_text [of z] by (cases z) (auto simp: offset_text_def)
  then have "takeWhile (\<lambda>c. \<not> is_zone_start c) (offset_text z) = []"
    and "dropWhile (\<lambda>c. \<not> is_zone_start c) (offset_text z) = offset_text z" by auto
  then show "takeWhile (\<lambda>c. \<not> is_zone_start c) (a @ offset_text z) = a"
    and "dropWhile (\<lambda>c. \<not> is_zone_start c) (a @ offset_text z) = offset_text z"
    using assms by (simp_all add: takeWhile_append2 dropWhile_append2)
qed

lemma parse_time_text:
  assumes "s < 86400" "us < 1000000"
  shows "parse_time (clock_text s @ fraction_text us) = Some (s * 1000000 + us)"
  using assms by (simp add: parse_time_def Let_def parse_clock_text parse_fraction_text)

lemma wall_split: "w div day_us * day_us + (w mod day_us div 1000000 * 1000000 + w mod day_us mod 1000000) = w"
  by (simp only: div_mult_mod_eq)

theorem fromisoformat_isoformat:
  assumes "valid_datetime dt"
  shows "fromisoformat (isoformat dt) = Some dt"
proof -
  have w: "wall dt div day_us < days_before_year 10000"
    using assms by (simp add: valid_datetime_def days_before_year_def less_mult_imp_div_less)
  define s us where "s = wall dt mod day_us div 1000000" and "us = wall dt mod day_us mod 1000000"
  have "wall dt mod day_us < 86400 * 1000000" by simp
  then have su: "s < 86400" "us < 1000000"
    unfolding s_def us_def by (simp_all add: less_mult_imp_div_less)
  define tt where "tt = clock_text s @ fraction_text us"
  have iso: "isoformat dt = date_text (wall dt div day_us) @ CHR ''T'' # tt @ offset_text (offset dt)"
    by (simp add: isoformat_def Let_def s_def us_def tt_def)
  have zone: "parse_offset (offset_text (offset dt)) = Some (offset dt)"
    using assms by (intro parse_offset_text) (simp add: valid_datetime_def)
  have span: "takeWhile (\<lambda>c. \<not> is_zone_start c) (tt @ offset_text (offset dt)) = tt"
    "dropWhile (\<lambda>c. \<not> is_zone_start c) (tt @ offset_text (offset dt)) = offset_text (offset dt)"
    unfolding tt_def by (rule span_time, erule not_zone_time)+
  have "parse_time tt = Some (s * 1000000 + us)"
    unfolding tt_def using su by (rule parse_time_text)
  then show ?thesis using w zone wall_split [of "wall dt"]
    by (simp add: fromisoformat_def iso parse_date_text span s_def [symmetric] us_def [symmetric])
qed

lemma text_less_fraction:
  assumes "us < 1000000" "us' < 1000000"
  shows "text_less (fraction_text us @ CHR ''+'' # r) (fraction_text us' @ CHR ''+'' # r) \<longleftrightarrow> us < us'"
  using assms
  by (auto simp: fraction_text_def text_less_append text_less_pad pad_eq_iff)

text \<open>Two stamps written at the same non-negative offset are ordered as their wall clocks.\<close>

lemma text_less_isoformat:
  assumes "wall a < max_wall" "wall b < max_wall" "offset a = Some k" "offset b = Some k" "0 \<le> k"
  shows "text_less (isoformat a) (isoformat b) \<longleftrightarrow> wall a < wall b"
proof -
  have days: "wall a div day_us < days_before_year 10000" "wall b div day_us < days_before_year 10000"
    using assms(1,2) by (simp_all add: days_before_year_def less_mult_imp_div_less)
  define sa ua sb ub where d: "sa = wall a mod day_us div 1000000" "ua = wall a mod day_us mod 1000000"
    "sb = wall b mod day_us div 1000000" "ub = wall b mod day_us mod 1000000"
  have "wall a mod day_us < 86400 * 1000000" "wall b mod day_us < 86400 * 1000000" by simp_all
  then have secs: "sa < 86400" "sb < 86400" "ua < 1000000" "ub < 1000000"
    unfolding d by (simp_all add: less_mult_imp_div_less)
  obtain r where r: "offset_text (Some k) = CHR ''+'' # r"
    using assms(5) by (simp add: offset_text_def)
  have date_eq: "date_text (wall a div day_us) = date_text (wall b div day_us) \<longleftrightarrow>
      wall a div day_us = wall b div day_us"
    using days parse_date_text by (metis option.inject)
  have clock_eq: "clock_text sa = clock_text sb \<longleftrightarrow> sa = sb"
    using secs parse_clock_text by (metis option.inject)
  have "isoformat a = date_text (wall a div day_us) @ CHR ''T'' # clock_text sa @ fraction_text ua @ CHR ''+'' # r"
    "isoformat b = date_text (wall b div day_us) @ CHR ''T'' # clock_text sb @ fraction_text ub @ CHR ''+'' # r"
    by (simp_all add: isoformat_def Let_def d assms(3,4) r)
  moreover have "wall a < wall b \<longleftrightarrow> wall a div day_us < wall b div day_us \<or>
      (wall a div day_us = wall b div day_us \<and> (sa < sb \<or> (sa = sb \<and> ua < ub)))"
    using divmod_less [of day_us "wall a" "wall b"]
      divmod_less [of 1000000 "wall a mod day_us" "wall b mod day_us"] by (simp add: d)
  ultimately show ?thesis
    using days secs by (simp add: text_less_append text_less_date text_less_clock
        text_less_fraction date_eq clock_eq)
qed

section \<open>Instants\<close>

definition utc :: "nat \<Rightarrow> datetime" where
  "utc n = \<lparr>wall = n, offset = Some 0\<rparr>"

definition instant :: "datetime \<Rightarrow> int" where
  "instant dt = int (wall dt) - minute_us * (case offset dt of None \<Rightarrow> 0 | Some k \<Rightarrow> k)"

definition iso_utc :: "nat \<Rightarrow> string" where
  "iso_utc n = isoformat (utc n)"

definition parse_instant :: "string \<Rightarrow> int option" where
  "parse_instant s = map_option instant (fromisoformat s)"

abbreviation in_range :: "nat \<Rightarrow> bool" where
  "in_range n \<equiv> n < max_wall"

lemma fromisoformat_iso_utc [simp]: "in_range n \<Longrightarrow> fromisoformat (iso_utc n) = Some (utc n)"
  by (simp add: iso_utc_def fromisoformat_isoformat valid_datetime_def utc_def)

lemma parse_iso_utc [simp]: "in_range n \<Longrightarrow> parse_instant (iso_utc n) = Some (int n)"
  by (simp add: parse_instant_def iso_utc_def fromisoformat_isoformat valid_datetime_def utc_def instant_def)

lemma iso_utc_less [simp]: "in_range a \<Longrightarrow> in_range b \<Longrightarrow> text_less (iso_utc a) (iso_utc b) \<longleftrightarrow> a < b"
  by (simp add: iso_utc_def text_less_isoformat utc_def)

lemma iso_utc_eq [simp]: "in_range a \<Longrightarrow> in_range b \<Longrightarrow> iso_utc a = iso_utc b \<longleftrightarrow> a = b"
  using parse_iso_utc by (metis of_nat_eq_iff option.inject)

lemma iso_utc_le [simp]: "in_range a \<Longrightarrow> in_range b \<Longrightarrow> text_le (iso_utc a) (iso_utc b) \<longleftrightarrow> a \<le> b"
  by (auto simp: text_le_def)


text \<open>Rewriting with these evaluates \<^const>\<open>isoformat\<close> and \<^const>\<open>fromisoformat\<close> on a closed stamp.\<close>

lemmas iso_eval = iso_utc_def isoformat_def utc_def date_text_def days_to_ymd_def year_search.simps
  month_search.simps days_before_year_def days_in_month_def is_leap_def clock_text_def pad_numeral
  fraction_text_def offset_text_def digit_def Let_def

lemmas parse_eval = parse_instant_def fromisoformat_def parse_date_def parse_time_def parse_clock_def
  parse_fraction_def parse_offset_def is_zone_start_def num_def dec_def digit_val_def is_digit_def
  valid_ymd_def ymd_to_days_def days_before_year_def days_in_month_def is_leap_def Let_def
  instant_def

section \<open>What the clients rely on\<close>

locale stamps =
  fixes stamp :: "nat \<Rightarrow> string"
    and parse :: "string \<Rightarrow> int option"
    and le :: "string \<Rightarrow> string \<Rightarrow> bool"
    and ok :: "nat \<Rightarrow> bool"
  assumes parse_stamp: "ok n \<Longrightarrow> parse (stamp n) = Some (int n)"
    and le_stamp: "ok a \<Longrightarrow> ok b \<Longrightarrow> le (stamp a) (stamp b) \<longleftrightarrow> a \<le> b"
    and ok_mono: "ok b \<Longrightarrow> a \<le> b \<Longrightarrow> ok a"
begin

lemma stamp_inj: "ok a \<Longrightarrow> ok b \<Longrightarrow> stamp a = stamp b \<Longrightarrow> a = b"
  using parse_stamp by (metis of_nat_eq_iff option.inject)

lemma later_not_le: "ok b \<Longrightarrow> a < b \<Longrightarrow> \<not> le (stamp b) (stamp a)"
  using le_stamp [of b a] ok_mono [of b a] by simp

lemma earlier_le: "ok b \<Longrightarrow> a \<le> b \<Longrightarrow> le (stamp a) (stamp b)"
  using le_stamp [of a b] ok_mono [of b a] by simp

lemma parsed_order: "ok a \<Longrightarrow> ok b \<Longrightarrow> parse (stamp a) = Some i \<Longrightarrow> parse (stamp b) = Some j \<Longrightarrow>
    le (stamp a) (stamp b) \<longleftrightarrow> i \<le> j"
  by (auto simp: parse_stamp le_stamp)

end

interpretation iso: stamps iso_utc parse_instant text_le in_range
  by unfold_locales simp_all

end
