(* ===== verification/Json.thy ===== *)
theory Json
  imports Prelude
begin

text \<open>
  JSON values as Python's \<open>json\<close> module builds them, and the TEXT columns that hold them. A column
  written with \<open>json.dumps(v)\<close> is \<open>JDoc v\<close>; any other text is \<open>JRaw s\<close>, and that is text that
  \<open>json.loads\<close> refuses (the empty string included). \<open>dumps\<close> is the text itself, with the
  separators of \<open>json.dumps\<close>; it is what a comparison or a slice of the column sees. Numbers are
  integers, the only ones the modelled columns carry. \<open>py_error\<close> lists the exceptions of the language
  and its libraries that the modelled code can raise.
\<close>

datatype py_error =
  AttributeError | IndexError | IntegrityError | JSONDecodeError | KeyError | OverflowError | RuntimeError
  | TypeError | ValueError

datatype json =
    JNull
  | JBool bool
  | JInt int
  | JStr string
  | JArr "json list"
  | JObj "(string \<times> json) list"

datatype jtext = JDoc json | JRaw string

fun nat_text :: "nat \<Rightarrow> string" where
  "nat_text n =
     (if n < 10 then [''0123456789'' ! n] else nat_text (n div 10) @ [''0123456789'' ! (n mod 10)])"

declare nat_text.simps [simp del]

definition int_text :: "int \<Rightarrow> string" where
  "int_text i = (if i < 0 then ''-'' @ nat_text (nat (- i)) else nat_text (nat i))"

text \<open>The escapes of \<open>json.dumps\<close> with \<open>ensure_ascii\<close>; a character is a code point below 256.\<close>

definition escape_char :: "char \<Rightarrow> string" where
  "escape_char c =
     (let n = of_char c :: nat; hex = ''0123456789abcdef'' in
      if c = CHR 0x22 then [CHR 0x5C, CHR 0x22] else if c = CHR 0x5C then [CHR 0x5C, CHR 0x5C]
      else if c = CHR 0x0A then [CHR 0x5C, CHR ''n''] else if c = CHR 0x0D then [CHR 0x5C, CHR ''r'']
      else if c = CHR 0x09 then [CHR 0x5C, CHR ''t''] else if c = CHR 0x08 then [CHR 0x5C, CHR ''b'']
      else if c = CHR 0x0C then [CHR 0x5C, CHR ''f'']
      else if n < 32 \<or> 126 < n then [CHR 0x5C] @ ''u00'' @ [hex ! (n div 16), hex ! (n mod 16)]
      else [c])"

definition string_text :: "string \<Rightarrow> string" where
  "string_text s = [CHR 0x22] @ concat (map escape_char s) @ [CHR 0x22]"

fun join :: "string \<Rightarrow> string list \<Rightarrow> string" where
  "join sep [] = []"
| "join sep [x] = x"
| "join sep (x # y # ys) = x @ sep @ join sep (y # ys)"

fun dumps :: "json \<Rightarrow> string" where
  "dumps JNull = ''null''"
| "dumps (JBool b) = (if b then ''true'' else ''false'')"
| "dumps (JInt i) = int_text i"
| "dumps (JStr s) = string_text s"
| "dumps (JArr vs) = ''['' @ join '', '' (map dumps vs) @ '']''"
| "dumps (JObj kvs) =
     ''{'' @ join '', '' (map (\<lambda>(k, v). string_text k @ '': '' @ dumps v) kvs) @ ''}''"

definition column_text :: "jtext \<Rightarrow> string" where
  "column_text t = (case t of JDoc v \<Rightarrow> dumps v | JRaw s \<Rightarrow> s)"

text \<open>A slice \<open>text[:n]\<close>: a document that fits stays a document, one that is cut does not parse.\<close>

definition clip :: "nat \<Rightarrow> jtext \<Rightarrow> jtext" where
  "clip n t = (if length (column_text t) \<le> n then t else JRaw (take n (column_text t)))"

definition loads :: "jtext \<Rightarrow> json option" where
  "loads t = (case t of JDoc v \<Rightarrow> Some v | JRaw _ \<Rightarrow> None)"

definition as_obj :: "json \<Rightarrow> (string \<times> json) list option" where
  "as_obj v = (case v of JObj kvs \<Rightarrow> Some kvs | _ \<Rightarrow> None)"

text \<open>\<open>d.get(k)\<close>: the missing key and the \<open>null\<close> value are the same answer.\<close>

definition dict_get :: "(string \<times> json) list \<Rightarrow> string \<Rightarrow> json" where
  "dict_get kvs k = (case map_of kvs k of None \<Rightarrow> JNull | Some v \<Rightarrow> v)"

text \<open>\<open>d[k] = v\<close>: a key keeps its place, a new key goes to the end.\<close>

fun dict_set :: "(string \<times> json) list \<Rightarrow> string \<Rightarrow> json \<Rightarrow> (string \<times> json) list" where
  "dict_set [] k v = [(k, v)]"
| "dict_set ((k', v') # kvs) k v = (if k' = k then (k, v) # kvs else (k', v') # dict_set kvs k v)"

fun truthy :: "json \<Rightarrow> bool" where
  "truthy JNull = False"
| "truthy (JBool b) = b"
| "truthy (JInt i) = (i \<noteq> 0)"
| "truthy (JStr s) = (s \<noteq> [])"
| "truthy (JArr vs) = (vs \<noteq> [])"
| "truthy (JObj kvs) = (kvs \<noteq> [])"

text \<open>
  \<open>str(v)\<close> and \<open>repr(v)\<close>: a string prints as itself at the top and in single quotes inside a
  container (the quote-switching of \<open>repr\<close> for strings that hold a quote is not modelled).
\<close>

fun py_repr :: "json \<Rightarrow> string" where
  "py_repr JNull = ''None''"
| "py_repr (JBool b) = (if b then ''True'' else ''False'')"
| "py_repr (JInt i) = int_text i"
| "py_repr (JStr s) = [CHR 0x27] @ s @ [CHR 0x27]"
| "py_repr (JArr vs) = ''['' @ join '', '' (map py_repr vs) @ '']''"
| "py_repr (JObj kvs) =
     ''{'' @ join '', '' (map (\<lambda>(k, v). [CHR 0x27] @ k @ [CHR 0x27] @ '': '' @ py_repr v) kvs) @ ''}''"

definition py_str :: "json \<Rightarrow> string" where
  "py_str v = (case v of JStr s \<Rightarrow> s | _ \<Rightarrow> py_repr v)"

text \<open>\<open>int(v)\<close>: integers, booleans and decimal strings convert, everything else raises.\<close>

definition all_digits :: "string \<Rightarrow> bool" where
  "all_digits s \<longleftrightarrow> s \<noteq> [] \<and> list_all (\<lambda>c. c \<in> set ''0123456789'') s"

definition digits_val :: "string \<Rightarrow> int" where
  "digits_val s = foldl (\<lambda>n c. 10 * n + (int (of_char c) - 48)) 0 s"

definition py_int :: "json \<Rightarrow> int option" where
  "py_int v = (case v of JInt i \<Rightarrow> Some i
     | JBool b \<Rightarrow> Some (if b then 1 else 0)
     | JStr s \<Rightarrow>
         (let t = strip s; sgn = (if startswith t ''-'' then -1 else 1);
              d = (if startswith t ''-'' \<or> startswith t ''+'' then tl t else t)
          in if all_digits d then Some (sgn * digits_val d) else None)
     | _ \<Rightarrow> None)"

definition int_of :: "json \<Rightarrow> py_error + int" where
  "int_of v = (case py_int v of Some i \<Rightarrow> Inr i
     | None \<Rightarrow> (case v of JStr _ \<Rightarrow> Inl ValueError | _ \<Rightarrow> Inl TypeError))"

text \<open>
  Idioms of the language: \<open>d.get(k, default)\<close>, \<open>a or b\<close>, \<open>str(a or "")\<close> of a field that holds text, the items of a list
  or of an object, and \<open>" ".join(s.split())\<close>.
\<close>

definition get_or :: "(string \<times> json) list \<Rightarrow> string \<Rightarrow> json \<Rightarrow> json" where
  "get_or m k d = (case map_of m k of None \<Rightarrow> d | Some v \<Rightarrow> v)"

definition str_of :: "json \<Rightarrow> string" where
  "str_of v = (case v of JStr s \<Rightarrow> s | _ \<Rightarrow> [])"

definition py_or :: "json \<Rightarrow> json \<Rightarrow> json" where
  "py_or a b = (if truthy a then a else b)"

definition json_items :: "json \<Rightarrow> json list" where
  "json_items v = (case v of JArr vs \<Rightarrow> vs | _ \<Rightarrow> [])"

definition obj_items :: "json \<Rightarrow> (string \<times> json) list" where
  "obj_items v = (case v of JObj kvs \<Rightarrow> kvs | _ \<Rightarrow> [])"

fun words_from :: "string \<Rightarrow> string \<Rightarrow> string list" where
  "words_from acc [] = (if acc = [] then [] else [rev acc])"
| "words_from acc (c # cs) =
     (if is_space c then (if acc = [] then words_from [] cs else rev acc # words_from [] cs)
      else words_from (c # acc) cs)"

definition squash :: "string \<Rightarrow> string" where
  "squash s = join '' '' (words_from [] s)"

lemma dict_get_set: "dict_get (dict_set kvs k v) k' = (if k' = k then v else dict_get kvs k')"
  by (induction kvs k v rule: dict_set.induct) (auto simp: dict_get_def)

lemma map_of_dict_set: "map_of (dict_set kvs k v) = (map_of kvs)(k \<mapsto> v)"
  by (induction kvs k v rule: dict_set.induct) (auto simp: fun_eq_iff)

lemma column_text_empty: "column_text t = [] \<longleftrightarrow> t = JRaw []"
proof (cases t)
  case (JDoc v)
  have "nat_text n \<noteq> []" for n by (simp add: nat_text.simps)
  then show ?thesis using JDoc
    by (cases v) (simp_all add: column_text_def int_text_def string_text_def)
qed (simp add: column_text_def)

lemma loads_clip: "loads (clip n t) = Some v \<Longrightarrow> loads t = Some v"
  by (auto simp: loads_def clip_def split: if_splits jtext.splits)

lemma length_clip: "length (column_text (clip n t)) \<le> n"
  by (auto simp: clip_def column_text_def)

text \<open>Introduction rules for the branches of a decision, used with the predicate fixed.\<close>

lemma branch:
  "(\<And>x. r = Inl x \<Longrightarrow> P (f x)) \<Longrightarrow> (\<And>y. r = Inr y \<Longrightarrow> P (g y)) \<Longrightarrow> P (case r of Inl x \<Rightarrow> f x | Inr y \<Rightarrow> g y)"
  "(oo = None \<Longrightarrow> P d) \<Longrightarrow> (\<And>y. oo = Some y \<Longrightarrow> P (h y)) \<Longrightarrow> P (case oo of None \<Rightarrow> d | Some y \<Rightarrow> h y)"
  "(b \<Longrightarrow> P d) \<Longrightarrow> (\<not> b \<Longrightarrow> P e) \<Longrightarrow> P (if b then d else e)"
  "P d \<Longrightarrow> (\<And>c cs. v = JStr (c # cs) \<Longrightarrow> P (k c cs)) \<Longrightarrow> P (case v of JStr (c # cs) \<Rightarrow> k c cs | _ \<Rightarrow> d)"
  "P d \<Longrightarrow> (\<And>i. v = JInt i \<Longrightarrow> P (l i)) \<Longrightarrow> P (case v of JInt i \<Rightarrow> l i | _ \<Rightarrow> d)"
  "(\<And>a b. p = (a, b) \<Longrightarrow> P (q a b)) \<Longrightarrow> P (case p of (a, b) \<Rightarrow> q a b)"
  by (auto split: sum.split option.split json.split list.split prod.split)

end
