(* ===== verification/Queue_Tables.thy ===== *)
theory Queue_Tables
  imports Iso_Time Json
begin

text \<open>
  The tables of \<open>workers.db\<close> (\<open>workers/queue.py\<close>, \<open>_SCHEMA\<close>), the values its readers build from
  them, and the module-level helpers: age-adjusted priority, stamp parsing, summary shortening and
  the one \<open>INSERT\<close> into \<open>runs\<close>.

  A clock reading \<open>now\<close> is a number of microseconds since 0001-01-01T00:00 UTC; an operation takes
  the one reading it works with. A duration is an exact number of microseconds.
\<close>

section \<open>Rows\<close>

datatype qstate = Queued | Claimed | Running | Completed | Poisoned | Quarantined

record queue_row =
  q_id :: nat
  q_source :: string
  q_kind :: string
  q_priority :: int
  q_payload_json :: jtext
  q_dedup_key :: "string option"
  q_state :: qstate
  q_attempts :: int
  q_enqueued_at :: string
  q_claimed_at :: "string option"
  q_claimed_by :: "string option"
  q_completed_at :: "string option"
  q_error :: "string option"
  q_not_before :: "string option"
  q_current_run_id :: "string option"
  q_triaged_at :: "string option"
  q_triage_json :: "jtext option"

record run_row =
  r_run_id :: string
  r_queue_id :: "nat option"
  r_source :: string
  r_task_id :: "string option"
  r_status :: string
  r_started_at :: string
  r_completed_at :: string
  r_duration :: int
  r_summary :: string
  r_artifact_path :: string
  r_response_json :: jtext
  r_meta_json :: "jtext option"
  r_claims_json :: "jtext option"
  r_kind :: "string option"

record watermark_row =
  w_source :: string
  w_key :: string
  w_value :: jtext
  w_updated_at :: string

record pause_row =
  p_id :: nat
  p_at :: string
  p_value :: string
  p_holder_kind :: string
  p_actor :: string
  p_hold_id :: "nat option"

record hold_row =
  h_id :: nat
  h_at :: string
  h_gate :: string
  h_value :: string
  h_held_sources :: "string list option"
  h_detail :: "string option"
  h_hold_id :: "nat option"

text \<open>
  The database file together with the one attribute of a \<open>WorkQueue\<close> object that its operations
  read, \<open>max_attempts\<close>. The three sequence fields are the AUTOINCREMENT counters.
\<close>

record store =
  queue :: "queue_row list"
  queue_seq :: nat
  runs :: "run_row list"
  watermarks :: "watermark_row list"
  pause_journal :: "pause_row list"
  pause_seq :: nat
  hold_journal :: "hold_row list"
  hold_seq :: nat
  max_attempts :: int

section \<open>The item a claim hands out\<close>

record queue_item =
  i_id :: nat
  i_source :: string
  i_kind :: string
  i_priority :: int
  i_payload :: json
  i_dedup_key :: "string option"
  i_state :: qstate
  i_attempts :: int
  i_enqueued_at :: string
  i_claimed_at :: "string option"
  i_claimed_by :: "string option"
  i_completed_at :: "string option"
  i_error :: "string option"
  i_not_before :: "string option"
  i_triaged_at :: "string option"
  i_triage :: "(string \<times> json) list option"

definition loads_or_none :: "jtext option \<Rightarrow> (string \<times> json) list option" where
  "loads_or_none raw = (case raw of None \<Rightarrow> None
     | Some t \<Rightarrow> (case loads t of None \<Rightarrow> None | Some v \<Rightarrow> as_obj v))"

definition from_row :: "queue_row \<Rightarrow> py_error + queue_item" where
  "from_row row =
     (case (if column_text (q_payload_json row) = [] then Some (JObj []) else loads (q_payload_json row)) of
        None \<Rightarrow> Inl JSONDecodeError
      | Some p \<Rightarrow> Inr \<lparr>i_id = q_id row, i_source = q_source row, i_kind = q_kind row,
          i_priority = q_priority row, i_payload = p, i_dedup_key = q_dedup_key row,
          i_state = q_state row, i_attempts = q_attempts row, i_enqueued_at = q_enqueued_at row,
          i_claimed_at = q_claimed_at row, i_claimed_by = q_claimed_by row,
          i_completed_at = q_completed_at row, i_error = q_error row,
          i_not_before = q_not_before row, i_triaged_at = q_triaged_at row,
          i_triage = loads_or_none (q_triage_json row)\<rparr>)"

fun state_text :: "qstate \<Rightarrow> string" where
  "state_text Queued = ''queued''"
| "state_text Claimed = ''claimed''"
| "state_text Running = ''running''"
| "state_text Completed = ''completed''"
| "state_text Poisoned = ''poisoned''"
| "state_text Quarantined = ''quarantined''"

definition opt_str :: "string option \<Rightarrow> json" where
  "opt_str s = (case s of None \<Rightarrow> JNull | Some t \<Rightarrow> JStr t)"

definition to_dict :: "queue_item \<Rightarrow> (string \<times> json) list" where
  "to_dict it =
     [(''id'', JInt (int (i_id it))), (''source'', JStr (i_source it)), (''kind'', JStr (i_kind it)),
      (''priority'', JInt (i_priority it)), (''payload'', i_payload it),
      (''dedup_key'', opt_str (i_dedup_key it)), (''state'', JStr (state_text (i_state it))),
      (''attempts'', JInt (i_attempts it)), (''enqueued_at'', JStr (i_enqueued_at it)),
      (''claimed_at'', opt_str (i_claimed_at it)), (''claimed_by'', opt_str (i_claimed_by it)),
      (''completed_at'', opt_str (i_completed_at it)), (''error'', opt_str (i_error it)),
      (''triaged_at'', opt_str (i_triaged_at it)),
      (''triage'', (case i_triage it of None \<Rightarrow> JNull | Some d \<Rightarrow> JObj d))]"

section \<open>Constants\<close>

definition DEFAULT_MAX_ATTEMPTS :: int where "DEFAULT_MAX_ATTEMPTS = 3"
definition CLAIM_RACE_RETRIES :: nat where "CLAIM_RACE_RETRIES = 5"
definition CLAIM_CAP_SCAN_LIMIT :: nat where "CLAIM_CAP_SCAN_LIMIT = 64"
definition AGING_PERIOD_HOURS :: int where "AGING_PERIOD_HOURS = 6"
definition AGING_POINTS_PER_PERIOD :: int where "AGING_POINTS_PER_PERIOD = 15"
definition AGING_FLOOR_PRIORITY :: int where "AGING_FLOOR_PRIORITY = 10"
definition PENDING_WAIT_BOUND_SECONDS :: int where "PENDING_WAIT_BOUND_SECONDS = 3600"
definition HOLD_JOURNAL_MAX_AGE_DAYS :: nat where "HOLD_JOURNAL_MAX_AGE_DAYS = 30"
definition SUMMARY_MAX_CHARS :: nat where "SUMMARY_MAX_CHARS = 500"
definition SUMMARY_MARKER :: string where "SUMMARY_MARKER = ''...''"
definition NO_KIND :: string where "NO_KIND = ''__none__''"

section \<open>Stamps\<close>

definition now_iso :: "nat \<Rightarrow> string" where
  "now_iso now = iso_utc now"

definition iso_or_none :: "string option \<Rightarrow> int option" where
  "iso_or_none raw = (case raw of None \<Rightarrow> None | Some s \<Rightarrow> parse_instant s)"

definition iso_seconds_between :: "string \<Rightarrow> string \<Rightarrow> int" where
  "iso_seconds_between start_iso end_iso =
     (case (parse_instant start_iso, parse_instant end_iso) of
        (Some s, Some e) \<Rightarrow> max 0 (e - s) | _ \<Rightarrow> 0)"

section \<open>Age-adjusted priority\<close>

text \<open>
  SQLite's \<open>strftime('%s', t)\<close>: the instant rounded to the millisecond, in whole seconds, or NULL;
  its integer division truncates towards zero and is NULL for a zero divisor.
\<close>

definition sqlite_seconds :: "string \<Rightarrow> int option" where
  "sqlite_seconds s = map_option (\<lambda>i. (i + 500) div 1000 div 1000) (parse_instant s)"

definition sqlite_div :: "int \<Rightarrow> int \<Rightarrow> int option" where
  "sqlite_div a b = (if b = 0 then None else Some (sgn a * sgn b * (\<bar>a\<bar> div \<bar>b\<bar>)))"

definition age_credit :: "nat \<Rightarrow> queue_row \<Rightarrow> int" where
  "age_credit now row =
     (case sqlite_seconds (q_enqueued_at row) of None \<Rightarrow> 0
      | Some e \<Rightarrow>
          (case sqlite_div (int now div 1000000 - e) (AGING_PERIOD_HOURS * 3600) of None \<Rightarrow> 0
           | Some d \<Rightarrow> max 0 d * AGING_POINTS_PER_PERIOD))"

definition effective_priority :: "nat \<Rightarrow> queue_row \<Rightarrow> int" where
  "effective_priority now row =
     min (q_priority row) (max (q_priority row - age_credit now row) AGING_FLOOR_PRIORITY)"

section \<open>Run records\<close>

fun back_off :: "string \<Rightarrow> nat \<Rightarrow> nat" where
  "back_off text 0 = 0"
| "back_off text (Suc e) = (if is_space (text ! e) then Suc e else back_off text e)"

definition shorten_summary :: "string \<Rightarrow> nat \<Rightarrow> py_error + string" where
  "shorten_summary text limit =
     (if length text \<le> limit then Inr text
      else
        let room = max 1 (limit - length SUMMARY_MARKER) in
        if length text \<le> room then Inl IndexError
        else
          let end' = (if is_space (text ! room) then room else back_off text room);
              kept = rstrip (take end' text)
          in if kept = []
             then let kept' = rstrip (take room text)
                  in Inr (if kept' \<noteq> [] then kept' @ SUMMARY_MARKER else take limit text)
             else Inr (kept @ SUMMARY_MARKER))"

definition non_empty :: "jtext option \<Rightarrow> jtext option" where
  "non_empty t = (case t of None \<Rightarrow> None
     | Some x \<Rightarrow> if column_text x = [] then None else Some x)"

definition insert_run :: "run_row \<Rightarrow> store \<Rightarrow> py_error + store" where
  "insert_run raw st =
     (case shorten_summary (r_summary raw) SUMMARY_MAX_CHARS of Inl e \<Rightarrow> Inl e
      | Inr s \<Rightarrow>
          if r_run_id raw \<in> r_run_id ` set (runs st) then Inl IntegrityError
          else Inr (st\<lparr>runs := runs st @
                 [raw\<lparr>r_summary := s, r_response_json := clip 50000 (r_response_json raw),
                      r_meta_json := map_option (clip 20000) (non_empty (r_meta_json raw)),
                      r_claims_json := map_option (clip 20000) (non_empty (r_claims_json raw))\<rparr>]\<rparr>))"

definition stamp_compact :: "nat \<Rightarrow> string" where
  "stamp_compact now =
     (case days_to_ymd (now div day_us) of (y, m, d) \<Rightarrow>
        (let t = now mod day_us div 1000000
         in pad 4 y @ pad 2 m @ pad 2 d @ ''_'' @ pad 2 (t div 3600) @ pad 2 (t div 60 mod 60) @ pad 2 (t mod 60)))"

definition new_run_id :: "string \<Rightarrow> nat \<Rightarrow> string \<Rightarrow> string" where
  "new_run_id src now hex = ''run_'' @ src @ ''_'' @ stamp_compact now @ ''_'' @ take 6 hex"

section \<open>Facts about the helpers\<close>

lemma sqlite_div_pos: "0 \<le> a \<Longrightarrow> 0 < b \<Longrightarrow> sqlite_div a b = Some (a div b)"
  by (cases "a = 0") (auto simp: sqlite_div_def)

lemma age_credit_nonneg: "0 \<le> age_credit now row"
  by (auto simp: age_credit_def AGING_POINTS_PER_PERIOD_def split: option.splits)

lemma effective_priority_le: "effective_priority now row \<le> q_priority row"
  by (simp add: effective_priority_def)

lemma effective_priority_floor:
  "AGING_FLOOR_PRIORITY \<le> q_priority row \<Longrightarrow> AGING_FLOOR_PRIORITY \<le> effective_priority now row"
  by (simp add: effective_priority_def)

lemma effective_priority_fixed:
  "q_priority row \<le> AGING_FLOOR_PRIORITY \<Longrightarrow> effective_priority now row = q_priority row"
  using age_credit_nonneg [of now row] by (simp add: effective_priority_def)

lemma back_off_le: "back_off text e \<le> e"
  by (induction e) auto

lemma back_off_boundary: "back_off text e = 0 \<or> is_space (text ! (back_off text e - 1))"
  by (induction e) auto

end
