(* ===== verification/Work_Queue.thy ===== *)
theory Work_Queue
  imports Queue_Tables
begin

text \<open>
  The state-changing operations of \<open>class WorkQueue\<close> (\<open>workers/queue.py\<close>), one definition per
  method, in the order of the file.
\<close>

section \<open>The retry ceiling\<close>

definition valid_cap :: "json \<Rightarrow> int" where
  "valid_cap v = (case py_int v of None \<Rightarrow> DEFAULT_MAX_ATTEMPTS
     | Some cap \<Rightarrow> if cap < 1 then 1 else cap)"

definition set_max_attempts :: "json \<Rightarrow> store \<Rightarrow> int \<times> store" where
  "set_max_attempts v st = (valid_cap v, st\<lparr>max_attempts := valid_cap v\<rparr>)"

definition cap_error :: "int \<Rightarrow> int \<Rightarrow> string \<Rightarrow> string" where
  "cap_error attempts cap action =
     ''max_attempts='' @ int_text cap @ '' reached: '' @ action @ '' refused because the row already carries ''
     @ int_text attempts @ '' attempt(s), which is the cap on claims. Poisoned instead of persisting attempts above the cap.''"

definition poison_at_cap :: "nat \<Rightarrow> queue_row \<Rightarrow> int \<Rightarrow> string \<Rightarrow> store \<Rightarrow> store" where
  "poison_at_cap now row cap action st =
     st\<lparr>queue := upd_where (\<lambda>r. q_id r = q_id row \<and> q_state r = q_state row)
         (\<lambda>r. r\<lparr>q_state := Poisoned, q_completed_at := Some (now_iso now),
                q_error := Some (take 2000 (cap_error (q_attempts row) cap action)),
                q_dedup_key := None\<rparr>) (queue st)\<rparr>"

definition empty_store :: "json \<Rightarrow> store" where
  "empty_store cap = \<lparr>queue = [], queue_seq = 0, runs = [], watermarks = [], pause_journal = [],
     pause_seq = 0, hold_journal = [], hold_seq = 0, max_attempts = valid_cap cap\<rparr>"

section \<open>Enqueue\<close>

definition live_state :: "qstate \<Rightarrow> bool" where
  "live_state s \<longleftrightarrow> s = Queued \<or> s = Claimed \<or> s = Running"

definition in_flight :: "qstate \<Rightarrow> bool" where
  "in_flight s \<longleftrightarrow> s = Claimed \<or> s = Running"

definition new_row :: "nat \<Rightarrow> string \<Rightarrow> string \<Rightarrow> (string \<times> json) list \<Rightarrow> int \<Rightarrow> string option \<Rightarrow> nat \<Rightarrow> queue_row" where
  "new_row now src kd payload prio dedup n =
     \<lparr>q_id = n, q_source = src, q_kind = kd, q_priority = prio, q_payload_json = JDoc (JObj payload),
      q_dedup_key = dedup, q_state = Queued, q_attempts = 0, q_enqueued_at = now_iso now,
      q_claimed_at = None, q_claimed_by = None, q_completed_at = None, q_error = None,
      q_not_before = None, q_current_run_id = None, q_triaged_at = None, q_triage_json = None\<rparr>"

definition insert_queue ::
    "nat \<Rightarrow> string \<Rightarrow> string \<Rightarrow> (string \<times> json) list \<Rightarrow> int \<Rightarrow> string option \<Rightarrow> store \<Rightarrow> py_error + (nat option \<times> store)" where
  "insert_queue now src kd payload prio dedup st =
     (if dedup \<noteq> None \<and> dedup \<in> q_dedup_key ` set (queue st) then Inl IntegrityError
      else let n = Suc (queue_seq st)
           in Inr (Some n, st\<lparr>queue := queue st @ [new_row now src kd payload prio dedup n], queue_seq := n\<rparr>))"

definition enqueue ::
    "nat \<Rightarrow> string \<Rightarrow> string \<Rightarrow> (string \<times> json) list \<Rightarrow> int \<Rightarrow> string option \<Rightarrow> store \<Rightarrow> py_error + (nat option \<times> store)" where
  "enqueue now src kd payload prio dedup st =
     (case dedup of
        Some (c # cs) \<Rightarrow>
          (case find (\<lambda>r. q_dedup_key r = dedup) (queue st) of
             Some ex \<Rightarrow>
               if live_state (q_state ex) then Inr (None, st)
               else insert_queue now src kd payload prio dedup
                      (st\<lparr>queue := upd_where (\<lambda>r. q_id r = q_id ex) (\<lambda>r. r\<lparr>q_dedup_key := None\<rparr>) (queue st)\<rparr>)
           | None \<Rightarrow> insert_queue now src kd payload prio dedup st)
      | _ \<Rightarrow> insert_queue now src kd payload prio dedup st)"

definition has_live :: "string \<Rightarrow> store \<Rightarrow> bool" where
  "has_live key st \<longleftrightarrow> list_ex (\<lambda>r. q_dedup_key r = Some key \<and> live_state (q_state r)) (queue st)"

section \<open>Claim\<close>

definition inflight_count :: "store \<Rightarrow> string \<Rightarrow> int" where
  "inflight_count st src = int (count_where (\<lambda>r. in_flight (q_state r) \<and> q_source r = src) (queue st))"

definition saturated :: "store \<Rightarrow> (string \<times> int option) list \<Rightarrow> string list" where
  "saturated st quotas =
     map fst (filter (\<lambda>(src, quota). case quota of None \<Rightarrow> False | Some n \<Rightarrow> n \<le> inflight_count st src) quotas)"

definition claimable :: "nat \<Rightarrow> string set \<Rightarrow> queue_row \<Rightarrow> bool" where
  "claimable now excluded r \<longleftrightarrow> q_state r = Queued \<and>
     (case q_not_before r of None \<Rightarrow> True | Some nb \<Rightarrow> text_le nb (now_iso now)) \<and>
     q_source r \<notin> excluded"

definition claim_before :: "nat \<Rightarrow> queue_row \<Rightarrow> queue_row \<Rightarrow> bool" where
  "claim_before now a b \<longleftrightarrow>
     (let ea = effective_priority now a; eb = effective_priority now b
      in ea < eb \<or> (ea = eb \<and> (q_priority a < q_priority b \<or>
           (q_priority a = q_priority b \<and> text_le (q_enqueued_at a) (q_enqueued_at b)))))"

definition select_claim :: "nat \<Rightarrow> string set \<Rightarrow> store \<Rightarrow> queue_row option" where
  "select_claim now excluded st = first_min (claim_before now) (filter (claimable now excluded) (queue st))"

definition claim_update :: "nat \<Rightarrow> string \<Rightarrow> nat \<Rightarrow> store \<Rightarrow> store" where
  "claim_update now worker n st =
     st\<lparr>queue := upd_where (\<lambda>r. q_id r = n \<and> q_state r = Queued)
         (\<lambda>r. r\<lparr>q_state := Claimed, q_claimed_at := Some (now_iso now), q_claimed_by := Some worker,
                q_attempts := q_attempts r + 1, q_current_run_id := None\<rparr>) (queue st)\<rparr>"

definition won_claim :: "string \<Rightarrow> queue_row option \<Rightarrow> bool" where
  "won_claim worker refreshed \<longleftrightarrow>
     (case refreshed of None \<Rightarrow> False
      | Some r \<Rightarrow> q_state r = Claimed \<and> q_claimed_by r = Some worker)"

text \<open>
  The claim loop. Another process writes to the same file, so between any two statements of the loop
  (the quota count and the first SELECT, a SELECT and the UPDATE it leads to, an UPDATE and the
  statement after it) the store may change: \<open>race k\<close> is what happened at the \<open>k\<close>-th such point.
\<close>

function claim_loop ::
    "(nat \<Rightarrow> store \<Rightarrow> store) \<Rightarrow> nat \<Rightarrow> string \<Rightarrow> int \<Rightarrow> string set \<Rightarrow> nat \<Rightarrow> nat \<Rightarrow> nat \<Rightarrow> store
      \<Rightarrow> (py_error + queue_item option) \<times> store" where
  "claim_loop race now worker cap excluded k losses sweeps st =
     (if CLAIM_RACE_RETRIES \<le> losses then (Inr None, st)
      else
        (case select_claim now excluded st of
           None \<Rightarrow> (Inr None, st)
         | Some row \<Rightarrow>
             let st1 = race k st in
             if cap \<le> q_attempts row then
               (if CLAIM_CAP_SCAN_LIMIT \<le> sweeps then (Inr None, st1)
                else claim_loop race now worker cap excluded (k + 2) losses (Suc sweeps)
                       (race (Suc k) (poison_at_cap now row cap ''claim'' st1)))
             else
               let st2 = race (Suc k) (claim_update now worker (q_id row) st1);
                   refreshed = find (\<lambda>r. q_id r = q_id row) (queue st2)
               in if won_claim worker refreshed
                  then (map_sum id Some (from_row (the refreshed)), st2)
                  else claim_loop race now worker cap excluded (k + 3) (Suc losses) sweeps (race (k + 2) st2)))"
  by pat_completeness auto
termination
  by (relation "measure (\<lambda>(_, _, _, _, _, _, losses, sweeps, _).
        (CLAIM_RACE_RETRIES - losses) + (CLAIM_CAP_SCAN_LIMIT - sweeps))") auto

declare claim_loop.simps [simp del]

definition claim_next_race ::
    "(nat \<Rightarrow> store \<Rightarrow> store) \<Rightarrow> nat \<Rightarrow> string \<Rightarrow> (string \<times> int option) list \<Rightarrow> string list \<Rightarrow> store
      \<Rightarrow> (py_error + queue_item option) \<times> store" where
  "claim_next_race race now worker quotas exclude st =
     claim_loop race now worker (max_attempts st) (set (saturated st quotas) \<union> set exclude) 1 0 0 (race 0 st)"

definition claim_next ::
    "nat \<Rightarrow> string \<Rightarrow> (string \<times> int option) list \<Rightarrow> string list \<Rightarrow> store
      \<Rightarrow> (py_error + queue_item option) \<times> store" where
  "claim_next = claim_next_race (\<lambda>_ s. s)"

section \<open>Run outcomes\<close>

definition mark_running :: "nat \<Rightarrow> string option \<Rightarrow> store \<Rightarrow> store" where
  "mark_running n run_id st =
     st\<lparr>queue := upd_where (\<lambda>r. q_id r = n \<and> q_state r = Claimed)
         (\<lambda>r. r\<lparr>q_state := Running, q_current_run_id := run_id\<rparr>) (queue st)\<rparr>"

definition deferral :: "nat \<Rightarrow> string option \<Rightarrow> string option" where
  "deferral now nb = (case nb of None \<Rightarrow> None
     | Some s \<Rightarrow> (case fromisoformat s of None \<Rightarrow> None
         | Some dt \<Rightarrow>
             let aware = (if offset dt = None then dt\<lparr>offset := Some 0\<rparr> else dt)
             in if int now < instant aware then Some (isoformat aware) else None))"

definition mark_completed :: "nat \<Rightarrow> nat \<Rightarrow> bool \<Rightarrow> string option \<Rightarrow> store \<Rightarrow> store" where
  "mark_completed now n dedup_release nb st =
     (case deferral now nb of
        Some d \<Rightarrow>
          st\<lparr>queue := upd_where (\<lambda>r. q_id r = n)
              (\<lambda>r. r\<lparr>q_state := Queued, q_claimed_at := None, q_claimed_by := None,
                     q_completed_at := None, q_error := None, q_not_before := Some d\<rparr>) (queue st)\<rparr>
      | None \<Rightarrow>
          st\<lparr>queue := upd_where (\<lambda>r. q_id r = n)
              (\<lambda>r. if dedup_release
                   then r\<lparr>q_state := Completed, q_completed_at := Some (now_iso now), q_error := None, q_dedup_key := None\<rparr>
                   else r\<lparr>q_state := Completed, q_completed_at := Some (now_iso now), q_error := None\<rparr>) (queue st)\<rparr>)"

definition backoff_seconds :: "int \<Rightarrow> nat" where
  "backoff_seconds attempts = min 600 (30 * 2 ^ nat (max 0 (attempts - 1)))"

datatype fail_result = Missing | FailedTo qstate

definition mark_failed :: "nat \<Rightarrow> nat \<Rightarrow> string \<Rightarrow> int option \<Rightarrow> store \<Rightarrow> fail_result \<times> store" where
  "mark_failed now n err cap_arg st =
     (let cap = (case cap_arg of None \<Rightarrow> max_attempts st | Some c \<Rightarrow> c) in
      case find (\<lambda>r. q_id r = n) (queue st) of
        None \<Rightarrow> (Missing, st)
      | Some row \<Rightarrow>
          if cap \<le> q_attempts row then
            (FailedTo Poisoned, st\<lparr>queue := upd_where (\<lambda>r. q_id r = n)
               (\<lambda>r. r\<lparr>q_state := Poisoned, q_completed_at := Some (now_iso now),
                      q_error := Some (take 2000 err), q_dedup_key := None\<rparr>) (queue st)\<rparr>)
          else
            (FailedTo Queued, st\<lparr>queue := upd_where (\<lambda>r. q_id r = n)
               (\<lambda>r. r\<lparr>q_state := Queued, q_claimed_at := None, q_claimed_by := None,
                      q_error := Some (take 2000 err),
                      q_not_before := Some (iso_utc (now + backoff_seconds (q_attempts row) * 1000000))\<rparr>)
               (queue st)\<rparr>))"

section \<open>Crash recovery\<close>

definition INTERRUPTED_SUMMARY :: string where
  "INTERRUPTED_SUMMARY = ''recovered: no live owner at pool start''"

definition owned_by :: "string list \<Rightarrow> queue_row \<Rightarrow> bool" where
  "owned_by workers r \<longleftrightarrow> workers = [] \<or> (\<exists>w \<in> set workers. q_claimed_by r = Some w)"

definition or_else :: "string option \<Rightarrow> string \<Rightarrow> string" where
  "or_else a b = (case a of Some (c # cs) \<Rightarrow> c # cs | _ \<Rightarrow> b)"

definition already_recorded :: "queue_row \<Rightarrow> string \<Rightarrow> store \<Rightarrow> bool" where
  "already_recorded row claimed_at st =
     (case parse_instant claimed_at of None \<Rightarrow> False
      | Some claim \<Rightarrow>
          list_ex (\<lambda>r. r_queue_id r = Some (q_id row) \<and>
             (case parse_instant (r_started_at r) of None \<Rightarrow> False | Some t \<Rightarrow> claim \<le> t)) (runs st))"

definition interrupted_run :: "nat \<Rightarrow> (nat \<Rightarrow> string) \<Rightarrow> queue_row \<Rightarrow> store \<Rightarrow> run_row" where
  "interrupted_run now hex row st =
     (let claimed_at = or_else (q_claimed_at row) (q_enqueued_at row);
          payload = (case loads_or_none (Some (q_payload_json row)) of None \<Rightarrow> [] | Some d \<Rightarrow> d);
          task_id = dict_get payload ''task_id'';
          minted = new_run_id (q_source row) now (hex (q_id row));
          stamped = or_else (q_current_run_id row) []
      in \<lparr>r_run_id = (if stamped = [] \<or> stamped \<in> r_run_id ` set (runs st) then minted else stamped),
          r_queue_id = Some (q_id row), r_source = q_source row,
          r_task_id = (if task_id = JNull then None else Some (py_str task_id)),
          r_status = ''interrupted'', r_started_at = claimed_at, r_completed_at = now_iso now,
          r_duration = iso_seconds_between claimed_at (now_iso now),
          r_summary = INTERRUPTED_SUMMARY, r_artifact_path = [], r_response_json = JRaw [],
          r_meta_json = Some (JDoc (JObj [(''interrupted'', JBool True)])), r_claims_json = None,
          r_kind = Some (q_kind row)\<rparr>)"

definition record_interrupted_run ::
    "nat \<Rightarrow> (nat \<Rightarrow> string) \<Rightarrow> queue_row \<Rightarrow> store \<Rightarrow> py_error + (nat \<times> store)" where
  "record_interrupted_run now hex row st =
     (let claimed_at = or_else (q_claimed_at row) (q_enqueued_at row) in
      if claimed_at = [] then Inr (0, st)
      else if already_recorded row claimed_at st then Inr (0, st)
      else map_sum id (\<lambda>s. (1, s)) (insert_run (interrupted_run now hex row st) st))"

text \<open>One INSERT after the other: the runs recorded before one that raises are on disk already.\<close>

fun record_swept :: "nat \<Rightarrow> (nat \<Rightarrow> string) \<Rightarrow> queue_row list \<Rightarrow> store \<Rightarrow> (py_error + nat) \<times> store" where
  "record_swept now hex [] st = (Inr 0, st)"
| "record_swept now hex (row # rows) st =
     (case record_interrupted_run now hex row st of Inl e \<Rightarrow> (Inl e, st)
      | Inr (n, st') \<Rightarrow> apfst (map_sum id (\<lambda>m. n + m)) (record_swept now hex rows st'))"

definition swept_rows :: "string list \<Rightarrow> store \<Rightarrow> queue_row list" where
  "swept_rows workers st = filter (\<lambda>r. in_flight (q_state r) \<and> owned_by workers r) (queue st)"

definition recover_poison :: "nat \<Rightarrow> string list \<Rightarrow> store \<Rightarrow> store" where
  "recover_poison now workers st =
     fold (\<lambda>row. poison_at_cap now row (max_attempts st) ''crash recovery'')
       (filter (\<lambda>r. max_attempts st \<le> q_attempts r) (swept_rows workers st)) st"

definition requeueable :: "int \<Rightarrow> string list \<Rightarrow> queue_row \<Rightarrow> bool" where
  "requeueable cap workers r \<longleftrightarrow> in_flight (q_state r) \<and> q_attempts r < cap \<and> owned_by workers r"

definition recover_requeue :: "string list \<Rightarrow> store \<Rightarrow> store" where
  "recover_requeue workers st =
     st\<lparr>queue := upd_where (requeueable (max_attempts st) workers)
         (\<lambda>r. r\<lparr>q_state := Queued, q_claimed_at := None, q_claimed_by := None, q_current_run_id := None\<rparr>)
         (queue st)\<rparr>"

text \<open>
  The sweep, statement by statement: the connection is in autocommit mode, so the store after
  \<open>recover_poison\<close> and the store after \<open>recover_requeue\<close> are each on disk before the next
  statement runs, and an error in the last stage leaves the earlier ones, and the runs recorded so
  far, in place.
\<close>

definition recover_claimed ::
    "nat \<Rightarrow> (nat \<Rightarrow> string) \<Rightarrow> string list \<Rightarrow> store \<Rightarrow> (py_error + nat) \<times> store" where
  "recover_claimed now hex workers st =
     (let st1 = recover_poison now workers st;
          n = count_where (requeueable (max_attempts st) workers) (queue st1);
          st2 = recover_requeue workers st1
      in case record_swept now hex (swept_rows workers st) st2 of
           (Inl e, st3) \<Rightarrow> (Inl e, st3)
         | (Inr _, st3) \<Rightarrow> (Inr n, st3))"

section \<open>Poison triage\<close>

definition revive :: "nat \<Rightarrow> nat \<Rightarrow> int \<Rightarrow> int \<Rightarrow> (string \<times> json) list \<Rightarrow> store \<Rightarrow> bool \<times> store" where
  "revive now n attempts delay_us triage st =
     (list_ex (\<lambda>r. q_id r = n \<and> q_state r = Poisoned) (queue st),
      st\<lparr>queue := upd_where (\<lambda>r. q_id r = n \<and> q_state r = Poisoned)
         (\<lambda>r. r\<lparr>q_state := Queued, q_attempts := attempts, q_claimed_at := None, q_claimed_by := None,
                q_completed_at := None, q_not_before := Some (iso_utc (now + nat (max 0 delay_us))),
                q_triaged_at := Some (now_iso now), q_triage_json := Some (JDoc (JObj triage))\<rparr>) (queue st)\<rparr>)"

definition quarantine :: "nat \<Rightarrow> nat \<Rightarrow> (string \<times> json) list \<Rightarrow> store \<Rightarrow> bool \<times> store" where
  "quarantine now n triage st =
     (list_ex (\<lambda>r. q_id r = n \<and> q_state r = Poisoned) (queue st),
      st\<lparr>queue := upd_where (\<lambda>r. q_id r = n \<and> q_state r = Poisoned)
         (\<lambda>r. r\<lparr>q_state := Quarantined,
                q_completed_at := (case q_completed_at r of None \<Rightarrow> Some (now_iso now) | Some c \<Rightarrow> Some c),
                q_dedup_key := None, q_triaged_at := Some (now_iso now),
                q_triage_json := Some (JDoc (JObj triage))\<rparr>) (queue st)\<rparr>)"

definition has_open_sibling :: "string \<Rightarrow> string \<Rightarrow> json \<Rightarrow> nat \<Rightarrow> store \<Rightarrow> bool" where
  "has_open_sibling src kd payload n st \<longleftrightarrow>
     list_ex (\<lambda>r. q_source r = src \<and> q_kind r = kd \<and>
        column_text (q_payload_json r) = dumps (if truthy payload then payload else JObj []) \<and>
        q_id r \<noteq> n \<and> live_state (q_state r)) (queue st)"

section \<open>Runs\<close>

definition record_run :: "run_row \<Rightarrow> store \<Rightarrow> py_error + store" where
  "record_run raw st = insert_run raw st"

end
