(* ===== verification/Queue_Safety.thy ===== *)
theory Queue_Safety
  imports Work_Queue
begin

text \<open>
  What every sequence of queue operations keeps true of \<open>workers.db\<close>: ids and live dedup keys are
  unique and the columns of a row agree with its state. None of it needs a caller's discipline:
  a finished row may be marked failed or completed again, and the ceiling may move down as well as
  up. How high the attempts of a row can get is a second invariant, \<open>attempts_upto\<close>, bounded by
  the highest ceiling ever set.
\<close>

section \<open>The invariant\<close>

definition terminal :: "qstate \<Rightarrow> bool" where
  "terminal s \<longleftrightarrow> s = Completed \<or> s = Poisoned \<or> s = Quarantined"

definition row_ok :: "queue_row \<Rightarrow> bool" where
  "row_ok r \<longleftrightarrow> 0 \<le> q_attempts r \<and>
     (q_state r = Queued \<longrightarrow> q_claimed_at r = None \<and> q_claimed_by r = None) \<and>
     (in_flight (q_state r) \<longrightarrow> q_claimed_at r \<noteq> None \<and> q_claimed_by r \<noteq> None \<and> 1 \<le> q_attempts r) \<and>
     (terminal (q_state r) \<longrightarrow> q_completed_at r \<noteq> None) \<and>
     (q_state r = Poisoned \<or> q_state r = Quarantined \<longrightarrow> q_dedup_key r = None)"

definition keys_unique :: "queue_row list \<Rightarrow> bool" where
  "keys_unique rows \<longleftrightarrow> (\<forall>r \<in> set rows. \<forall>s \<in> set rows.
     q_dedup_key r \<noteq> None \<longrightarrow> q_dedup_key r = q_dedup_key s \<longrightarrow> q_id r = q_id s)"

definition ids_ok :: "store \<Rightarrow> bool" where
  "ids_ok st \<longleftrightarrow> distinct (map q_id (queue st)) \<and> (\<forall>r \<in> set (queue st). q_id r \<le> queue_seq st)"

definition attempts_upto :: "int \<Rightarrow> store \<Rightarrow> bool" where
  "attempts_upto hi st \<longleftrightarrow> max_attempts st \<le> hi \<and> (\<forall>r \<in> set (queue st). q_attempts r \<le> hi)"

definition queue_inv :: "store \<Rightarrow> bool" where
  "queue_inv st \<longleftrightarrow> ids_ok st \<and> keys_unique (queue st) \<and> 1 \<le> max_attempts st \<and>
     (\<forall>r \<in> set (queue st). row_ok r) \<and> distinct (map r_run_id (runs st))"

lemmas row_ok_simps = row_ok_def terminal_def in_flight_def

lemma valid_cap_pos: "1 \<le> valid_cap v"
  by (auto simp: valid_cap_def DEFAULT_MAX_ATTEMPTS_def split: option.splits)

lemma queue_inv_empty: "queue_inv (empty_store cap)"
  by (simp add: queue_inv_def ids_ok_def keys_unique_def empty_store_def valid_cap_pos)

text \<open>Every UPDATE of the module is of this shape: it keeps the ids, and a dedup key is kept or cleared.\<close>

lemma keys_unique_upd:
  assumes "keys_unique rows" and "\<And>r. q_id (f r) = q_id r"
    and "\<And>r. q_dedup_key (f r) = q_dedup_key r \<or> q_dedup_key (f r) = None"
  shows "keys_unique (upd_where p f rows)"
proof -
  let ?g = "\<lambda>r. if p r then f r else r"
  have g: "q_id (?g r) = q_id r" "q_dedup_key (?g r) = q_dedup_key r \<or> q_dedup_key (?g r) = None" for r
    using assms(2,3) by auto
  show ?thesis unfolding keys_unique_def upd_where_def set_map
    using assms(1) [unfolded keys_unique_def] g by (metis (no_types, lifting) imageE)
qed

lemma keys_unique_snoc:
  "keys_unique rows \<Longrightarrow> q_dedup_key r = None \<or> q_dedup_key r \<notin> q_dedup_key ` set rows \<Longrightarrow>
   keys_unique (rows @ [r])"
  unfolding keys_unique_def by (metis UnE empty_iff image_eqI insert_iff list.set(1) list.simps(15) set_append)

lemma queue_inv_upd:
  assumes inv: "queue_inv st" and ids: "\<And>r. q_id (f r) = q_id r"
    and keys: "\<And>r. q_dedup_key (f r) = q_dedup_key r \<or> q_dedup_key (f r) = None"
    and rows: "\<And>r. r \<in> set (queue st) \<Longrightarrow> p r \<Longrightarrow> row_ok r \<Longrightarrow> row_ok (f r)"
  shows "queue_inv (st\<lparr>queue := upd_where p f (queue st)\<rparr>)"
proof -
  have "keys_unique (upd_where p f (queue st))"
    using inv keys_unique_upd [OF _ ids keys] by (simp add: queue_inv_def)
  moreover have "ids_ok (st\<lparr>queue := upd_where p f (queue st)\<rparr>)"
    using inv ids by (auto simp: queue_inv_def ids_ok_def sql_simps)
  ultimately show ?thesis
    using inv rows by (auto simp: queue_inv_def sql_simps)
qed

lemma queue_inv_unique:
  assumes "queue_inv st" "r \<in> set (queue st)" "s \<in> set (queue st)" "q_id r = q_id s"
  shows "r = s"
  using assms by (auto simp: queue_inv_def ids_ok_def distinct_map dest: inj_onD)

lemma queue_inv_key_unique:
  assumes "queue_inv st" "r \<in> set (queue st)" "s \<in> set (queue st)"
    "q_dedup_key r = Some k" "q_dedup_key s = Some k"
  shows "r = s"
proof -
  have "q_id r = q_id s" using assms unfolding queue_inv_def keys_unique_def
    by (metis option.distinct(1))
  then show ?thesis using queue_inv_unique assms by blast
qed

lemma queue_inv_find:
  "queue_inv st \<Longrightarrow> r \<in> set (queue st) \<Longrightarrow> find (\<lambda>x. q_id x = q_id r) (queue st) = Some r"
  by (simp add: queue_inv_def ids_ok_def find_unique)

section \<open>One lemma per operation\<close>

lemma queue_inv_set_max_attempts [inv_intros]:
  "queue_inv st \<Longrightarrow> queue_inv (snd (set_max_attempts v st))"
  by (auto simp: queue_inv_def ids_ok_def set_max_attempts_def valid_cap_pos row_ok_def)

lemma queue_inv_poison [inv_intros]: "queue_inv st \<Longrightarrow> queue_inv (poison_at_cap now row cap action st)"
  unfolding poison_at_cap_def by (rule queue_inv_upd) (auto simp: row_ok_simps)

lemma queue_inv_insert:
  assumes inv: "queue_inv st" and ins: "insert_queue now src kd payload prio dedup st = Inr (res, st')"
  shows "queue_inv st'"
proof -
  let ?row = "new_row now src kd payload prio dedup (Suc (queue_seq st))"
  have st': "st' = st\<lparr>queue := queue st @ [?row], queue_seq := Suc (queue_seq st)\<rparr>"
    and fresh: "dedup = None \<or> dedup \<notin> q_dedup_key ` set (queue st)"
    using ins by (auto simp: insert_queue_def Let_def split: if_splits)
  have new: "q_id ?row = Suc (queue_seq st)" "q_dedup_key ?row = dedup" "row_ok ?row"
    using inv by (auto simp: new_row_def queue_inv_def row_ok_simps)
  have "keys_unique (queue st @ [?row])"
    using inv fresh by (simp add: keys_unique_snoc new(2) queue_inv_def)
  moreover have "ids_ok st'"
    using inv new by (auto simp: st' queue_inv_def ids_ok_def)
  ultimately show ?thesis using inv new(3) by (simp add: st' queue_inv_def ball_Un)
qed

lemma queue_inv_enqueue [inv_intros]:
  assumes "queue_inv st" and "enqueue now src kd payload prio dedup st = Inr (res, st')"
  shows "queue_inv st'"
proof -
  have rel: "queue_inv (st\<lparr>queue := upd_where p (\<lambda>r. r\<lparr>q_dedup_key := None\<rparr>) (queue st)\<rparr>)" for p
    using assms(1) by (rule queue_inv_upd) (auto simp: row_ok_def)
  show ?thesis using assms queue_inv_insert [OF rel] queue_inv_insert [OF assms(1)]
    by (auto simp: enqueue_def split: option.splits list.splits if_splits)
qed

lemma claimableD: "claimable now ex r \<Longrightarrow> q_state r = Queued \<and> q_source r \<notin> ex"
  by (simp add: claimable_def)

lemma select_claimD:
  assumes "select_claim now ex st = Some row"
  shows "row \<in> set (queue st)" "claimable now ex row"
  using first_min_in [of "claim_before now" "filter (claimable now ex) (queue st)" row] assms
  by (auto simp: select_claim_def)

lemma queue_inv_claim_update: "queue_inv st \<Longrightarrow> queue_inv (claim_update now worker n st)"
  unfolding claim_update_def by (rule queue_inv_upd) (auto simp: row_ok_simps)

lemma queue_inv_claim_loop:
  "queue_inv st \<Longrightarrow>
   queue_inv (snd (claim_loop (\<lambda>_ s. s) now worker cap ex k losses sweeps st))"
proof (induction "(\<lambda>_ s. s) :: nat \<Rightarrow> store \<Rightarrow> store" now worker cap ex k losses sweeps st
    rule: claim_loop.induct)
  case (1 now worker cap ex k losses sweeps st)
  show ?case
  proof (cases "CLAIM_RACE_RETRIES \<le> losses \<or> select_claim now ex st = None")
    case True
    then show ?thesis using 1(3) by (subst claim_loop.simps) auto
  next
    case False
    then obtain row where row: "select_claim now ex st = Some row" by auto
    have inv: "queue_inv (poison_at_cap now row cap ''claim'' st)"
      "queue_inv (claim_update now worker (q_id row) st)"
      using 1(3) by (auto intro: inv_intros queue_inv_claim_update)
    show ?thesis using 1 False row inv
      by (subst claim_loop.simps) (auto simp: Let_def not_le split: if_splits)
  qed
qed

lemma queue_inv_claim_next [inv_intros]:
  "queue_inv st \<Longrightarrow> queue_inv (snd (claim_next now worker quotas exclude st))"
  unfolding claim_next_def claim_next_race_def by (rule queue_inv_claim_loop)

lemma queue_inv_mark_running [inv_intros]: "queue_inv st \<Longrightarrow> queue_inv (mark_running n run_id st)"
  unfolding mark_running_def by (rule queue_inv_upd) (auto simp: row_ok_simps)

lemma queue_inv_mark_completed [inv_intros]:
  assumes "queue_inv st"
  shows "queue_inv (mark_completed now n rel nb st)"
proof (cases "deferral now nb")
  case None
  then show ?thesis using assms unfolding mark_completed_def option.case(1)
    by simp (rule queue_inv_upd, auto simp: row_ok_simps)
next
  case (Some d)
  then show ?thesis using assms unfolding mark_completed_def option.case(2)
    by simp (rule queue_inv_upd, auto simp: row_ok_simps)
qed

lemma queue_inv_mark_failed [inv_intros]:
  assumes "queue_inv st"
  shows "queue_inv (snd (mark_failed now n err cap st))"
  using assms by (auto simp: mark_failed_def Let_def row_ok_simps
      split: option.splits intro!: queue_inv_upd)

lemma queue_inv_fold:
  "(\<And>x s. queue_inv s \<Longrightarrow> queue_inv (f x s)) \<Longrightarrow> queue_inv st \<Longrightarrow> queue_inv (fold f xs st)"
  by (induction xs arbitrary: st) auto

lemma queue_inv_recover_poison: "queue_inv st \<Longrightarrow> queue_inv (recover_poison now workers st)"
  unfolding recover_poison_def by (rule queue_inv_fold) (auto intro: inv_intros)

lemma queue_inv_recover_requeue: "queue_inv st \<Longrightarrow> queue_inv (recover_requeue workers st)"
  unfolding recover_requeue_def by (rule queue_inv_upd) (auto simp: row_ok_simps requeueable_def)

lemma insert_runD:
  assumes "insert_run raw st = Inr st'"
  shows "queue st' = queue st" "queue_seq st' = queue_seq st" "max_attempts st' = max_attempts st"
    "r_run_id raw \<notin> r_run_id ` set (runs st)"
    "\<exists>run. runs st' = runs st @ [run] \<and> r_run_id run = r_run_id raw \<and> r_queue_id run = r_queue_id raw \<and>
       r_started_at run = r_started_at raw \<and> r_status run = r_status raw \<and> r_kind run = r_kind raw \<and>
       r_source run = r_source raw"
  using assms by (auto simp: insert_run_def split: sum.splits if_splits)

lemma queue_inv_insert_run [inv_intros]: "queue_inv st \<Longrightarrow> insert_run raw st = Inr st' \<Longrightarrow> queue_inv st'"
  using insert_runD [of raw st st'] by (auto simp: queue_inv_def ids_ok_def)

lemma queue_inv_record_swept:
  "queue_inv st \<Longrightarrow> queue_inv (snd (record_swept now hex rows st))"
proof (induction rows arbitrary: st)
  case (Cons row rows)
  have "queue_inv st1" if "record_interrupted_run now hex row st = Inr (m, st1)" for m st1
    using that Cons.prems
    by (auto simp: record_interrupted_run_def Let_def map_sum_Inr split: if_splits
        intro: queue_inv_insert_run)
  then show ?case using Cons by (auto split: sum.splits)
qed simp

lemma queue_inv_recover [inv_intros]:
  assumes "queue_inv st"
  shows "queue_inv (snd (recover_claimed now hex workers st))"
  using queue_inv_record_swept [OF queue_inv_recover_requeue [OF queue_inv_recover_poison [OF assms]],
      of now hex "swept_rows workers st" workers now workers]
  by (auto simp: recover_claimed_def Let_def split: prod.splits sum.splits)

lemma queue_inv_revive [inv_intros]:
  "queue_inv st \<Longrightarrow> 0 \<le> attempts \<Longrightarrow>
   queue_inv (snd (revive now n attempts delay triage st))"
  unfolding revive_def snd_conv by (rule queue_inv_upd) (auto simp: row_ok_simps)

lemma queue_inv_quarantine [inv_intros]: "queue_inv st \<Longrightarrow> queue_inv (snd (quarantine now n triage st))"
  unfolding quarantine_def snd_conv by (rule queue_inv_upd) (auto simp: row_ok_simps split: option.splits)

section \<open>The attempts of a row\<close>

lemma attempts_upto_upd:
  assumes "attempts_upto hi st"
    and "\<And>r. r \<in> set (queue st) \<Longrightarrow> p r \<Longrightarrow> q_attempts r \<le> hi \<Longrightarrow> q_attempts (f r) \<le> hi"
  shows "attempts_upto hi (st\<lparr>queue := upd_where p f (queue st)\<rparr>)"
  using assms by (auto simp: attempts_upto_def sql_simps)

lemma attempts_upto_poison: "attempts_upto hi st \<Longrightarrow> attempts_upto hi (poison_at_cap now row cap action st)"
  unfolding poison_at_cap_def by (rule attempts_upto_upd) auto

lemma attempts_upto_insert:
  "attempts_upto hi st \<Longrightarrow> 0 \<le> hi \<Longrightarrow> insert_queue now src kd payload prio dedup st = Inr (res, st') \<Longrightarrow>
   attempts_upto hi st'"
  by (auto simp: insert_queue_def attempts_upto_def new_row_def Let_def split: if_splits)

lemma attempts_upto_enqueue [inv_intros]:
  assumes "attempts_upto hi st" "0 \<le> hi" "enqueue now src kd payload prio dedup st = Inr (res, st')"
  shows "attempts_upto hi st'"
proof -
  have rel: "attempts_upto hi (st\<lparr>queue := upd_where p (\<lambda>r. r\<lparr>q_dedup_key := None\<rparr>) (queue st)\<rparr>)" for p
    using assms(1) by (rule attempts_upto_upd) auto
  show ?thesis using assms attempts_upto_insert [OF rel assms(2)] attempts_upto_insert [OF assms(1,2)]
    by (auto simp: enqueue_def split: option.splits list.splits if_splits)
qed

lemma attempts_upto_claim_update:
  assumes "queue_inv st" "attempts_upto hi st" "row \<in> set (queue st)" "q_attempts row < hi"
  shows "attempts_upto hi (claim_update now worker (q_id row) st)"
  unfolding claim_update_def
  using assms(2)
proof (rule attempts_upto_upd)
  fix r assume "r \<in> set (queue st)" "q_id r = q_id row \<and> q_state r = Queued"
  then have "r = row" using queue_inv_unique [OF assms(1) _ assms(3)] by simp
  then show "q_attempts (r\<lparr>q_state := Claimed, q_claimed_at := Some (now_iso now), q_claimed_by := Some worker,
      q_attempts := q_attempts r + 1, q_current_run_id := None\<rparr>) \<le> hi" using assms(4) by simp
qed

lemma attempts_upto_claim_loop:
  "queue_inv st \<Longrightarrow> attempts_upto hi st \<Longrightarrow> cap \<le> hi \<Longrightarrow>
   attempts_upto hi (snd (claim_loop (\<lambda>_ s. s) now worker cap ex k losses sweeps st))"
proof (induction "(\<lambda>_ s. s) :: nat \<Rightarrow> store \<Rightarrow> store" now worker cap ex k losses sweeps st
    rule: claim_loop.induct)
  case (1 now worker cap ex k losses sweeps st)
  show ?case
  proof (cases "CLAIM_RACE_RETRIES \<le> losses \<or> select_claim now ex st = None")
    case True
    then show ?thesis using 1(4) by (subst claim_loop.simps) auto
  next
    case False
    then obtain row where row: "select_claim now ex st = Some row" by auto
    have inv: "queue_inv (poison_at_cap now row cap ''claim'' st)"
      "queue_inv (claim_update now worker (q_id row) st)"
      using 1(3) by (auto intro: inv_intros queue_inv_claim_update)
    have upto: "attempts_upto hi (poison_at_cap now row cap ''claim'' st)"
      "q_attempts row < cap \<Longrightarrow> attempts_upto hi (claim_update now worker (q_id row) st)"
      using 1(3-5) select_claimD [OF row]
      by (auto intro: attempts_upto_poison attempts_upto_claim_update)
    show ?thesis using 1 False row inv upto
      by (subst claim_loop.simps) (auto simp: Let_def not_le split: if_splits)
  qed
qed

lemma attempts_upto_claim_next [inv_intros]:
  "queue_inv st \<Longrightarrow> attempts_upto hi st \<Longrightarrow> attempts_upto hi (snd (claim_next now worker quotas exclude st))"
  unfolding claim_next_def claim_next_race_def
  by (rule attempts_upto_claim_loop) (auto simp: attempts_upto_def)

lemma attempts_upto_settle [inv_intros]:
  assumes "attempts_upto hi st"
  shows "attempts_upto hi (mark_running n run_id st)" "attempts_upto hi (mark_completed now n rel nb st)"
    "attempts_upto hi (snd (mark_failed now n err cap st))" "attempts_upto hi (snd (quarantine now n triage st))"
    "attempts \<le> hi \<Longrightarrow> attempts_upto hi (snd (revive now n attempts delay triage st))"
  using assms
  by (auto simp: attempts_upto_def sql_simps mark_running_def mark_completed_def mark_failed_def
      quarantine_def revive_def Let_def split: option.splits)

lemma attempts_upto_fold:
  "(\<And>x s. attempts_upto hi s \<Longrightarrow> attempts_upto hi (f x s)) \<Longrightarrow> attempts_upto hi st \<Longrightarrow>
   attempts_upto hi (fold f xs st)"
  by (induction xs arbitrary: st) auto

lemma attempts_upto_record: "insert_run raw st = Inr st' \<Longrightarrow> attempts_upto hi st \<Longrightarrow> attempts_upto hi st'"
  by (auto simp: attempts_upto_def dest: insert_runD)

lemma attempts_upto_swept:
  "attempts_upto hi st \<Longrightarrow> attempts_upto hi (snd (record_swept now hex rows st))"
proof (induction rows arbitrary: st)
  case (Cons row rows)
  have "attempts_upto hi st1" if "record_interrupted_run now hex row st = Inr (m, st1)" for m st1
    using that Cons.prems
    by (auto simp: record_interrupted_run_def Let_def map_sum_Inr split: if_splits intro: attempts_upto_record)
  then show ?case using Cons by (auto split: sum.splits)
qed simp

lemma attempts_upto_recover [inv_intros]:
  assumes "attempts_upto hi st"
  shows "attempts_upto hi (snd (recover_claimed now hex workers st))"
proof -
  have "attempts_upto hi (recover_poison now workers st)" unfolding recover_poison_def
    using attempts_upto_poison assms by (rule attempts_upto_fold)
  then have "attempts_upto hi (recover_requeue workers (recover_poison now workers st))"
    unfolding recover_requeue_def by (rule attempts_upto_upd) simp
  from attempts_upto_swept [OF this, of now hex "swept_rows workers st"]
  show ?thesis by (auto simp: recover_claimed_def Let_def split: prod.splits sum.splits)
qed

end
