(* ===== verification/Queue_Claims.thy ===== *)
theory Queue_Claims
  imports Queue_Safety
begin

text \<open>
  What \<open>claim_next\<close> hands out: the first row of the age-adjusted order among the rows that may be
  claimed and still have an attempt left, whatever saturated, held or exhausted rows stand in front
  of it; never more rows of a source than its quota; and never a row another process won.
\<close>

section \<open>The claim order\<close>

lemma claim_before_total: "claim_before now a b \<or> claim_before now b a"
  using text_le_total by (auto simp: claim_before_def Let_def)

lemma claim_before_trans: "claim_before now a b \<Longrightarrow> claim_before now b c \<Longrightarrow> claim_before now a c"
  using text_le_trans by (auto simp: claim_before_def Let_def)

lemma select_claim_least:
  "select_claim now ex st = Some row \<Longrightarrow> r \<in> set (queue st) \<Longrightarrow> claimable now ex r \<Longrightarrow> claim_before now row r"
  unfolding select_claim_def
  using first_min_least [of "claim_before now", OF claim_before_total claim_before_trans] by auto

lemma select_claim_None: "select_claim now ex st = None \<longleftrightarrow> (\<forall>r \<in> set (queue st). \<not> claimable now ex r)"
  by (auto simp: select_claim_def filter_empty_conv)

section \<open>One round of the loop\<close>

definition eligible :: "nat \<Rightarrow> int \<Rightarrow> string set \<Rightarrow> queue_row \<Rightarrow> bool" where
  "eligible now cap ex r \<longleftrightarrow> claimable now ex r \<and> q_attempts r < cap"

definition exhausted :: "nat \<Rightarrow> int \<Rightarrow> string set \<Rightarrow> queue_row \<Rightarrow> bool" where
  "exhausted now cap ex r \<longleftrightarrow> claimable now ex r \<and> cap \<le> q_attempts r"

definition claimed :: "nat \<Rightarrow> string \<Rightarrow> queue_row \<Rightarrow> queue_row" where
  "claimed now worker r = r\<lparr>q_state := Claimed, q_claimed_at := Some (now_iso now),
     q_claimed_by := Some worker, q_attempts := q_attempts r + 1, q_current_run_id := None\<rparr>"

lemma claim_refreshed:
  assumes "queue_inv st" "row \<in> set (queue st)" "q_state row = Queued"
  shows "find (\<lambda>r. q_id r = q_id row) (queue (claim_update now worker (q_id row) st)) = Some (claimed now worker row)"
  using queue_inv_find [OF assms(1,2)] assms(3)
  by (simp add: claim_update_def claimed_def find_upd_where)

text \<open>The loop with nobody else writing: a row under the ceiling is won at once.\<close>

lemma claim_loop_alone:
  assumes "queue_inv st" "losses < CLAIM_RACE_RETRIES"
  shows "claim_loop (\<lambda>_ s. s) now worker cap ex k losses sweeps st =
    (case select_claim now ex st of None \<Rightarrow> (Inr None, st)
     | Some row \<Rightarrow>
         if cap \<le> q_attempts row then
           (if CLAIM_CAP_SCAN_LIMIT \<le> sweeps then (Inr None, st)
            else claim_loop (\<lambda>_ s. s) now worker cap ex (k + 2) losses (Suc sweeps)
                   (poison_at_cap now row cap ''claim'' st))
         else (map_sum id Some (from_row (claimed now worker row)), claim_update now worker (q_id row) st))"
proof (cases "select_claim now ex st")
  case None
  then show ?thesis by (subst claim_loop.simps) simp
next
  case (Some row)
  then have "find (\<lambda>r. q_id r = q_id row) (queue (claim_update now worker (q_id row) st)) = Some (claimed now worker row)"
    using select_claimD [OF Some] assms(1) claimableD claim_refreshed by blast
  then show ?thesis using assms(2) Some
    by (subst claim_loop.simps) (simp add: Let_def won_claim_def claimed_def)
qed

lemma poison_others:
  assumes "queue_inv st" "row \<in> set (queue st)" "r \<in> set (queue st)" "q_id r \<noteq> q_id row"
  shows "r \<in> set (queue (poison_at_cap now row cap action st))"
  using assms by (auto simp: poison_at_cap_def sql_simps)

lemma poison_eligible:
  assumes "queue_inv st" "row \<in> set (queue st)" "cap \<le> q_attempts row"
  shows "{r \<in> set (queue (poison_at_cap now row cap action st)). eligible now cap ex r} =
         {r \<in> set (queue st). eligible now cap ex r}" (is "?new = ?old")
proof
  show "?new \<subseteq> ?old"
    by (auto simp: poison_at_cap_def sql_simps eligible_def claimable_def)
  show "?old \<subseteq> ?new"
    using assms(3) poison_others [OF assms(1,2)] queue_inv_unique [OF assms(1) _ assms(2)]
    unfolding eligible_def by (metis (mono_tags, lifting) mem_Collect_eq not_le subsetI)
qed

lemma poison_exhausted:
  assumes "queue_inv st" "row \<in> set (queue st)" "exhausted now cap ex row"
  shows "Suc (count_where (exhausted now cap ex) (queue (poison_at_cap now row cap action st)))
         \<le> count_where (exhausted now cap ex) (queue st)"
proof -
  let ?p = "\<lambda>r. q_id r = q_id row \<and> q_state r = q_state row"
  let ?e = "exhausted now cap ex"
  have "count_where ?e (queue (poison_at_cap now row cap action st)) = count_where (\<lambda>r. ?e r \<and> \<not> ?p r) (queue st)"
    by (simp add: poison_at_cap_def count_where_upd_out exhausted_def claimable_def)
  moreover have "1 \<le> count_where (\<lambda>r. ?e r \<and> ?p r) (queue st)"
    using assms(2,3) by (auto simp: count_where_def filter_empty_conv Suc_le_eq)
  ultimately show ?thesis using count_where_split [of ?e "queue st" ?p] by linarith
qed

section \<open>The outcome of the loop\<close>

text \<open>
  \<open>swept_from st st'\<close>: nothing happened on the way except that exhausted rows were poisoned.
\<close>

definition swept_from :: "nat \<Rightarrow> int \<Rightarrow> string set \<Rightarrow> store \<Rightarrow> store \<Rightarrow> bool" where
  "swept_from now cap ex st st' \<longleftrightarrow> queue_inv st' \<and> max_attempts st' = max_attempts st \<and> runs st' = runs st \<and>
     {r \<in> set (queue st'). eligible now cap ex r} = {r \<in> set (queue st). eligible now cap ex r} \<and>
     (\<forall>r \<in> set (queue st). r \<in> set (queue st') \<or>
        (exhausted now cap ex r \<and> (\<exists>r' \<in> set (queue st'). q_id r' = q_id r \<and> q_state r' = Poisoned))) \<and>
     (\<forall>src. inflight_count st' src = inflight_count st src)"

lemma swept_from_refl: "queue_inv st \<Longrightarrow> swept_from now cap ex st st"
  by (simp add: swept_from_def)

lemma inflight_poison:
  "q_state row = Queued \<Longrightarrow> inflight_count (poison_at_cap now row cap action st) src = inflight_count st src"
  unfolding inflight_count_def poison_at_cap_def in_flight_def
  by simp (rule count_where_upd, auto)

lemma swept_from_poison:
  assumes inv: "queue_inv st" and sel: "select_claim now ex st = Some row" and cap: "cap \<le> q_attempts row"
  shows "swept_from now cap ex st (poison_at_cap now row cap action st)"
proof -
  note row = select_claimD [OF sel]
  have "\<exists>r' \<in> set (queue (poison_at_cap now row cap action st)). q_id r' = q_id row \<and> q_state r' = Poisoned"
    unfolding poison_at_cap_def by simp (rule bexI, rule_tac [2] upd_whereI [OF row(1)], auto)
  moreover have "exhausted now cap ex row" using row cap by (simp add: exhausted_def)
  ultimately have "\<forall>r \<in> set (queue st). r \<in> set (queue (poison_at_cap now row cap action st)) \<or>
      (exhausted now cap ex r \<and>
       (\<exists>r' \<in> set (queue (poison_at_cap now row cap action st)). q_id r' = q_id r \<and> q_state r' = Poisoned))"
    using queue_inv_unique [OF inv _ row(1)] poison_others [OF inv row(1)] by metis
  then show ?thesis
    using inv poison_eligible [OF inv row(1) cap] row
    by (simp add: swept_from_def queue_inv_poison inflight_poison claimableD)
      (simp add: poison_at_cap_def)
qed

lemma swept_from_trans:
  assumes a: "swept_from now cap ex st st1" and b: "swept_from now cap ex st1 st2"
  shows "swept_from now cap ex st st2"
proof -
  have stays: "r \<in> set (queue st2)" if "r \<in> set (queue st1)" "q_state r = Poisoned" for r
    using b that by (auto simp: swept_from_def exhausted_def claimable_def)
  have "\<forall>r \<in> set (queue st). r \<in> set (queue st2) \<or>
      (exhausted now cap ex r \<and> (\<exists>r' \<in> set (queue st2). q_id r' = q_id r \<and> q_state r' = Poisoned))"
    using a b stays unfolding swept_from_def by meson
  then show ?thesis using a b unfolding swept_from_def by simp
qed

lemma claim_loop_outcome:
  "queue_inv st \<Longrightarrow> losses < CLAIM_RACE_RETRIES \<Longrightarrow>
   claim_loop (\<lambda>_ s. s) now worker cap ex k losses sweeps st = (res, st') \<Longrightarrow>
   \<exists>mid. swept_from now cap ex st mid \<and>
     (case select_claim now ex mid of None \<Rightarrow> res = Inr None \<and> st' = mid
      | Some row \<Rightarrow>
          if cap \<le> q_attempts row
          then res = Inr None \<and> st' = mid \<and>
               CLAIM_CAP_SCAN_LIMIT < sweeps + count_where (exhausted now cap ex) (queue st) \<and>
               (CLAIM_CAP_SCAN_LIMIT - sweeps) + count_where (exhausted now cap ex) (queue mid)
                 \<le> count_where (exhausted now cap ex) (queue st)
          else res = map_sum id Some (from_row (claimed now worker row)) \<and>
               st' = claim_update now worker (q_id row) mid)"
proof (induction "(\<lambda>_ s. s) :: nat \<Rightarrow> store \<Rightarrow> store" now worker cap ex k losses sweeps st
    rule: claim_loop.induct)
  case (1 now worker cap ex k losses sweeps st)
  note loop = claim_loop_alone [OF 1(3,4), of now worker cap ex k sweeps]
  show ?case
  proof (cases "select_claim now ex st")
    case None
    then show ?thesis using 1(3,5) loop swept_from_refl by (auto intro!: exI [of _ st])
  next
    case (Some row)
    note row = select_claimD [OF Some]
    show ?thesis
    proof (cases "cap \<le> q_attempts row \<and> sweeps < CLAIM_CAP_SCAN_LIMIT")
      case True
      let ?st1 = "poison_at_cap now row cap ''claim'' st"
      have sw: "swept_from now cap ex st ?st1" using swept_from_poison 1(3) Some True by blast
      have fewer: "Suc (count_where (exhausted now cap ex) (queue ?st1)) \<le> count_where (exhausted now cap ex) (queue st)"
        using poison_exhausted [OF 1(3) row(1)] row(2) True by (simp add: exhausted_def)
      have "\<exists>mid. swept_from now cap ex ?st1 mid \<and>
        (case select_claim now ex mid of None \<Rightarrow> res = Inr None \<and> st' = mid
         | Some row \<Rightarrow>
             if cap \<le> q_attempts row
             then res = Inr None \<and> st' = mid \<and>
                  CLAIM_CAP_SCAN_LIMIT < Suc sweeps + count_where (exhausted now cap ex) (queue ?st1) \<and>
                  (CLAIM_CAP_SCAN_LIMIT - Suc sweeps) + count_where (exhausted now cap ex) (queue mid)
                    \<le> count_where (exhausted now cap ex) (queue ?st1)
             else res = map_sum id Some (from_row (claimed now worker row)) \<and>
                  st' = claim_update now worker (q_id row) mid)"
        using 1 Some True loop queue_inv_poison by (simp add: Let_def)
      then show ?thesis using swept_from_trans [OF sw] fewer
        by (fastforce split: option.splits if_splits)
    next
      case False
      have "0 < count_where (exhausted now cap ex) (queue st)" if "cap \<le> q_attempts row"
        using row that by (auto simp: count_where_def filter_empty_conv exhausted_def)
      then show ?thesis using 1(3,5) loop Some False swept_from_refl
        by (intro exI [of _ st]) (auto split: if_splits)
    qed
  qed
qed

section \<open>Claims\<close>

text \<open>The sources a claim may not take from.\<close>

definition barred :: "store \<Rightarrow> (string \<times> int option) list \<Rightarrow> string list \<Rightarrow> string set" where
  "barred st quotas exclude = set (saturated st quotas) \<union> set exclude"

lemma claim_next_outcome:
  assumes "queue_inv st" "claim_next now worker quotas exclude st = (res, st')"
  obtains mid where "swept_from now (max_attempts st) (barred st quotas exclude) st mid"
    "case select_claim now (barred st quotas exclude) mid of None \<Rightarrow> res = Inr None \<and> st' = mid
     | Some row \<Rightarrow>
         if max_attempts st \<le> q_attempts row
         then res = Inr None \<and> st' = mid \<and>
              CLAIM_CAP_SCAN_LIMIT < count_where (exhausted now (max_attempts st) (barred st quotas exclude)) (queue st) \<and>
              CLAIM_CAP_SCAN_LIMIT + count_where (exhausted now (max_attempts st) (barred st quotas exclude)) (queue mid)
                \<le> count_where (exhausted now (max_attempts st) (barred st quotas exclude)) (queue st)
         else res = map_sum id Some (from_row (claimed now worker row)) \<and>
              st' = claim_update now worker (q_id row) mid"
proof -
  have "claim_loop (\<lambda>_ s. s) now worker (max_attempts st) (barred st quotas exclude) 1 0 0 st = (res, st')"
    using assms(2) by (simp add: claim_next_def claim_next_race_def barred_def)
  from claim_loop_outcome [OF assms(1) _ this, unfolded add_0 diff_zero] show thesis
    using that by (auto simp: CLAIM_RACE_RETRIES_def)
qed

lemma claim_won:
  assumes "queue_inv st" "claim_next now worker quotas exclude st = (Inr (Some it), st')"
  obtains mid row where "swept_from now (max_attempts st) (barred st quotas exclude) st mid"
    "select_claim now (barred st quotas exclude) mid = Some row" "q_attempts row < max_attempts st"
    "from_row (claimed now worker row) = Inr it" "st' = claim_update now worker (q_id row) mid"
  using assms
  by (rule claim_next_outcome) (auto simp: map_sum_Inr that dest!: sym [of "Inr _" "map_sum _ _ _"]
      split: option.splits if_splits)

lemma claim_next_row:
  assumes "queue_inv st" "claim_next now worker quotas exclude st = (Inr (Some it), st')"
  shows "\<exists>row \<in> set (queue st). eligible now (max_attempts st) (barred st quotas exclude) row \<and>
     (\<forall>r \<in> set (queue st). eligible now (max_attempts st) (barred st quotas exclude) r \<longrightarrow> claim_before now row r) \<and>
     from_row (claimed now worker row) = Inr it \<and> claimed now worker row \<in> set (queue st')"
proof -
  obtain mid row where sw: "swept_from now (max_attempts st) (barred st quotas exclude) st mid"
    and sel: "select_claim now (barred st quotas exclude) mid = Some row"
    and att: "q_attempts row < max_attempts st" and it: "from_row (claimed now worker row) = Inr it"
    and st': "st' = claim_update now worker (q_id row) mid"
    using assms by (rule claim_won)
  note row = select_claimD [OF sel]
  have same: "{r \<in> set (queue mid). eligible now (max_attempts st) (barred st quotas exclude) r} =
      {r \<in> set (queue st). eligible now (max_attempts st) (barred st quotas exclude) r}"
    using sw by (simp add: swept_from_def)
  have el: "eligible now (max_attempts st) (barred st quotas exclude) row" using row att by (simp add: eligible_def)
  have "\<forall>r \<in> set (queue st). eligible now (max_attempts st) (barred st quotas exclude) r \<longrightarrow> claim_before now row r"
    using select_claim_least [OF sel] same by (auto simp: eligible_def set_eq_iff)
  moreover have "claimed now worker row \<in> set (queue st')"
    using upd_whereI [OF row(1), of "\<lambda>r. q_id r = q_id row \<and> q_state r = Queued" "claimed now worker"]
      claimableD [OF row(2)] by (simp add: st' claim_update_def claimed_def [abs_def])
  ultimately show ?thesis using el row(1) same it by blast
qed

lemma from_row_fields: "from_row r = Inr it \<Longrightarrow> i_id it = q_id r \<and> i_state it = q_state r \<and>
    i_attempts it = q_attempts r \<and> i_claimed_by it = q_claimed_by r"
  by (auto simp: from_row_def split: option.splits)

lemma claim_race_held:
  "claim_loop race now worker cap ex k losses sweeps st = (Inr (Some it), st') \<Longrightarrow>
   \<exists>r \<in> set (queue st'). from_row r = Inr it \<and> q_state r = Claimed \<and> q_claimed_by r = Some worker"
proof (induction race now worker cap ex k losses sweeps st rule: claim_loop.induct)
  case (1 race now worker cap ex k losses sweeps st)
  from 1(3) obtain row where row: "\<not> CLAIM_RACE_RETRIES \<le> losses" "select_claim now ex st = Some row"
    by (subst (asm) claim_loop.simps) (auto split: if_splits option.splits)
  let ?st2 = "race (Suc k) (claim_update now worker (q_id row) (race k st))"
  show ?case
  proof (cases "q_attempts row < cap \<and> won_claim worker (find (\<lambda>r. q_id r = q_id row) (queue ?st2))")
    case True
    then obtain r where r: "find (\<lambda>r. q_id r = q_id row) (queue ?st2) = Some r" "won_claim worker (Some r)"
      by (auto simp: won_claim_def split: option.splits)
    then show ?thesis using 1(3) row True find_keyD [OF r(1)]
      by (subst (asm) claim_loop.simps) (auto simp: Let_def map_sum_Inr won_claim_def)
  next
    case False
    then show ?thesis
      using 1(1,2) row 1(3) [unfolded claim_loop.simps [of race now worker cap ex k losses sweeps st]]
      by (auto simp: Let_def not_le split: if_splits)
  qed
qed

lemma inflight_claim:
  assumes inv: "queue_inv st" and row: "row \<in> set (queue st)"
  shows "inflight_count (claim_update now worker (q_id row) st) src
         \<le> inflight_count st src + (if q_source row = src then 1 else 0)"
proof (cases "q_source row = src")
  case True
  have "count_where (\<lambda>r. q_id r = q_id row \<and> q_state r = Queued) (queue st) \<le> 1"
    using inv by (intro count_where_key) (simp add: queue_inv_def ids_ok_def)
  then show ?thesis using True
    count_where_upd_le [of "\<lambda>r. in_flight (q_state r) \<and> q_source r = src"
      "\<lambda>r. q_id r = q_id row \<and> q_state r = Queued" "claimed now worker" "queue st"]
    by (simp add: inflight_count_def claim_update_def claimed_def [abs_def])
next
  case False
  then have "inflight_count (claim_update now worker (q_id row) st) src = inflight_count st src"
    unfolding inflight_count_def claim_update_def
    by simp (rule count_where_upd, use queue_inv_unique [OF inv _ row] in auto)
  then show ?thesis using False by simp
qed

lemma not_saturated:
  "(src, Some q) \<in> set quotas \<Longrightarrow> src \<notin> set (saturated st quotas) \<Longrightarrow> inflight_count st src < q"
  by (force simp: saturated_def)

lemma claim_quota:
  assumes inv: "queue_inv st" and q: "(src, Some q) \<in> set quotas"
  shows "inflight_count (snd (claim_next now worker quotas exclude st)) src \<le> max q (inflight_count st src)"
proof -
  obtain res st' where run: "claim_next now worker quotas exclude st = (res, st')" by fastforce
  let ?ex = "barred st quotas exclude"
  obtain mid where sw: "swept_from now (max_attempts st) ?ex st mid"
    and out: "case select_claim now ?ex mid of None \<Rightarrow> res = Inr None \<and> st' = mid
     | Some row \<Rightarrow>
         if max_attempts st \<le> q_attempts row
         then res = Inr None \<and> st' = mid \<and> CLAIM_CAP_SCAN_LIMIT < count_where (exhausted now (max_attempts st) ?ex) (queue st) \<and>
           CLAIM_CAP_SCAN_LIMIT + count_where (exhausted now (max_attempts st) ?ex) (queue mid)
             \<le> count_where (exhausted now (max_attempts st) ?ex) (queue st)
         else res = map_sum id Some (from_row (claimed now worker row)) \<and> st' = claim_update now worker (q_id row) mid"
    using inv run by (rule claim_next_outcome)
  have mid: "queue_inv mid" "inflight_count mid src = inflight_count st src"
    using sw by (auto simp: swept_from_def)
  show ?thesis
  proof (cases "st' = mid")
    case True
    then show ?thesis using run mid by simp
  next
    case False
    then obtain row where row: "select_claim now ?ex mid = Some row" "st' = claim_update now worker (q_id row) mid"
      using out by (auto split: option.splits if_splits)
    then show ?thesis using inflight_claim [OF mid(1) select_claimD(1) [OF row(1)], of now worker src]
        select_claimD(2) [OF row(1)] not_saturated [OF q, of st] run mid
      by (auto simp: claimable_def barred_def split: if_splits)
  qed
qed

end
