(* ===== verification/Queue_Lifecycle.thy ===== *)
theory Queue_Lifecycle
  imports Queue_Claims
begin

text \<open>
  The life of a queue row: how it enters (coalescing on its dedup key), how a failure parks or
  poisons it, how a deferral parks it, what the crash-recovery sweep leaves behind, and that
  quarantine is final. \<open>qstep\<close> gathers the operations into one step relation; its reachable states
  are the ones the invariants of \<open>Queue_Safety\<close> hold in.
\<close>

section \<open>The operations as steps\<close>

text \<open>
  Every operation of \<open>WorkQueue\<close> that writes the queue or the runs, with the arguments any caller
  may give it. Two parameters record what the callers do with the operations that have no guard of
  their own: \<open>hi\<close> is the highest ceiling anybody sets (it may be lowered and raised at will) and the
  largest count \<open>revive\<close> is given, \<open>settled\<close> the ids \<open>mark_completed\<close> and \<open>mark_failed\<close> are called with.
\<close>

inductive qstep :: "int \<Rightarrow> nat set \<Rightarrow> store \<Rightarrow> store \<Rightarrow> bool" for hi settled where
  step_enqueue: "enqueue now src kd payload prio dedup st = Inr (res, st') \<Longrightarrow> qstep hi settled st st'"
| step_cap: "valid_cap v \<le> hi \<Longrightarrow> qstep hi settled st (snd (set_max_attempts v st))"
| step_claim: "qstep hi settled st (snd (claim_next now worker quotas exclude st))"
| step_running: "qstep hi settled st (mark_running n run_id st)"
| step_completed: "n \<in> settled \<Longrightarrow> qstep hi settled st (mark_completed now n rel nb st)"
| step_failed: "n \<in> settled \<Longrightarrow> qstep hi settled st (snd (mark_failed now n err cap st))"
| step_recover: "qstep hi settled st (snd (recover_claimed now hex workers st))"
| step_revive: "0 \<le> attempts \<Longrightarrow> attempts \<le> hi \<Longrightarrow> qstep hi settled st (snd (revive now n attempts delay triage st))"
| step_quarantine: "qstep hi settled st (snd (quarantine now n triage st))"
| step_record: "record_run raw st = Inr st' \<Longrightarrow> qstep hi settled st st'"

definition fresh_store :: "int \<Rightarrow> store \<Rightarrow> bool" where
  "fresh_store hi st \<longleftrightarrow> (\<exists>cap. st = empty_store cap \<and> valid_cap cap \<le> hi)"

definition sound_upto :: "int \<Rightarrow> store \<Rightarrow> bool" where
  "sound_upto hi st \<longleftrightarrow> queue_inv st \<and> attempts_upto hi st"

lemma hi_pos: "queue_inv st \<Longrightarrow> attempts_upto hi st \<Longrightarrow> 0 \<le> hi"
  by (auto simp: queue_inv_def attempts_upto_def)

lemma qstep_inv: "qstep hi settled s t \<Longrightarrow> queue_inv s \<Longrightarrow> queue_inv t"
  by (induction rule: qstep.induct) (auto intro: inv_intros simp: record_run_def)

lemma qstep_attempts: "qstep hi settled s t \<Longrightarrow> queue_inv s \<Longrightarrow> attempts_upto hi s \<Longrightarrow> attempts_upto hi t"
proof (induction rule: qstep.induct)
  case (step_cap v st)
  then show ?case by (simp add: attempts_upto_def set_max_attempts_def)
next
  case (step_record raw st st')
  then show ?case by (auto simp: record_run_def intro: attempts_upto_record)
qed (auto intro: inv_intros hi_pos)

interpretation wq: invariant_system "fresh_store hi" "qstep hi settled" "sound_upto hi" for hi settled
proof unfold_locales
  show "fresh_store hi s \<Longrightarrow> sound_upto hi s" for s
    using queue_inv_empty by (auto simp: fresh_store_def sound_upto_def attempts_upto_def) (simp_all add: empty_store_def)
  show "qstep hi settled s t \<Longrightarrow> sound_upto hi s \<Longrightarrow> sound_upto hi t" for s t
    by (auto simp: sound_upto_def intro: qstep_inv qstep_attempts)
qed

section \<open>Quarantine is final\<close>

text \<open>
  \<open>keeps st st'\<close>: a quarantined row of \<open>st\<close> is, column for column, a row of \<open>st'\<close>.
\<close>

definition keeps :: "store \<Rightarrow> store \<Rightarrow> bool" where
  "keeps st st' \<longleftrightarrow> (\<forall>r \<in> set (queue st). q_state r = Quarantined \<longrightarrow> r \<in> set (queue st'))"

lemma keeps_refl: "keeps st st"
  by (simp add: keeps_def)

lemma keeps_trans: "keeps a b \<Longrightarrow> keeps b c \<Longrightarrow> keeps a c"
  by (simp add: keeps_def)

lemma keeps_upd:
  "(\<And>r. r \<in> set (queue st) \<Longrightarrow> q_state r = Quarantined \<Longrightarrow> \<not> p r) \<Longrightarrow>
   keeps st (st\<lparr>queue := upd_where p f (queue st)\<rparr>)"
  by (auto simp: keeps_def intro: upd_where_otherI)

lemma keeps_insert: "insert_queue now src kd payload prio dedup st = Inr (res, st') \<Longrightarrow> keeps st st'"
  by (auto simp: insert_queue_def keeps_def Let_def split: if_splits)

lemma keeps_enqueue:
  assumes inv: "queue_inv st" and enq: "enqueue now src kd payload prio dedup st = Inr (res, st')"
  shows "keeps st st'"
proof -
  have "keeps st (st\<lparr>queue := upd_where (\<lambda>r. q_id r = q_id ex) f (queue st)\<rparr>)"
    if "find (\<lambda>r. q_dedup_key r = Some k) (queue st) = Some ex" for k ex f
  proof (rule keeps_upd)
    fix r assume r: "r \<in> set (queue st)" "q_state r = Quarantined"
    then have "q_dedup_key r = None" using inv by (auto simp: queue_inv_def row_ok_def)
    moreover have "ex \<in> set (queue st)" "q_dedup_key ex = Some k" using find_keyD [OF that] by auto
    ultimately show "q_id r \<noteq> q_id ex" using queue_inv_unique [OF inv r(1)] by fastforce
  qed
  then show ?thesis using enq
    by (auto simp: enqueue_def split: option.splits list.splits if_splits
        intro: keeps_refl keeps_insert keeps_trans [OF _ keeps_insert])
qed

lemma keeps_claim:
  assumes inv: "queue_inv st"
  shows "keeps st (snd (claim_next now worker quotas exclude st))"
proof -
  obtain res st' where run: "claim_next now worker quotas exclude st = (res, st')" by fastforce
  show ?thesis using inv run
  proof (rule claim_next_outcome)
    fix mid
    assume sw: "swept_from now (max_attempts st) (barred st quotas exclude) st mid"
      and out: "case select_claim now (barred st quotas exclude) mid of None \<Rightarrow> res = Inr None \<and> st' = mid
        | Some row \<Rightarrow> if max_attempts st \<le> q_attempts row
            then res = Inr None \<and> st' = mid \<and> CLAIM_CAP_SCAN_LIMIT
              < count_where (exhausted now (max_attempts st) (barred st quotas exclude)) (queue st) \<and>
              CLAIM_CAP_SCAN_LIMIT + count_where (exhausted now (max_attempts st) (barred st quotas exclude)) (queue mid)
                \<le> count_where (exhausted now (max_attempts st) (barred st quotas exclude)) (queue st)
            else res = map_sum id Some (from_row (claimed now worker row)) \<and>
              st' = claim_update now worker (q_id row) mid"
    have "keeps st mid" using sw by (auto simp: keeps_def swept_from_def exhausted_def claimable_def)
    moreover have "keeps mid (claim_update now worker n mid)" for n
      unfolding claim_update_def by (rule keeps_upd) simp
    ultimately show ?thesis using out run
      by (auto split: option.splits if_splits intro: keeps_trans)
  qed
qed

lemma keeps_poison: "q_state row \<noteq> Quarantined \<Longrightarrow> keeps st (poison_at_cap now row cap action st)"
  unfolding poison_at_cap_def by (rule keeps_upd) auto

lemma keeps_fold: "(\<And>x s. x \<in> set xs \<Longrightarrow> keeps s (f x s)) \<Longrightarrow> keeps st (fold f xs st)"
  by (induction xs arbitrary: st) (auto intro: keeps_refl keeps_trans)

lemma record_interrupted_queue:
  "record_interrupted_run now hex row st = Inr (n, st') \<Longrightarrow> queue st' = queue st"
  by (auto simp: record_interrupted_run_def Let_def map_sum_Inr split: if_splits dest: insert_runD(1))

lemma record_swept_queue [simp]: "queue (snd (record_swept now hex rows st)) = queue st"
  by (induction rows arbitrary: st) (auto split: sum.splits dest!: record_interrupted_queue)

lemma recover_queue:
  "queue (snd (recover_claimed now hex workers st)) = queue (recover_requeue workers (recover_poison now workers st))"
  using record_swept_queue [of now hex "swept_rows workers st" "recover_requeue workers (recover_poison now workers st)"]
  by (auto simp del: record_swept_queue simp: recover_claimed_def Let_def split: prod.splits sum.splits)

lemma keeps_recover: "keeps st (snd (recover_claimed now hex workers st))"
proof -
  have "keeps st (recover_poison now workers st)" unfolding recover_poison_def
    by (rule keeps_fold, rule keeps_poison) (auto simp: swept_rows_def in_flight_def)
  moreover have "keeps s (recover_requeue workers s)" for s unfolding recover_requeue_def
    by (rule keeps_upd) (auto simp: requeueable_def in_flight_def)
  ultimately show ?thesis using recover_queue keeps_trans by (simp add: keeps_def)
qed

lemma kept_upd:
  "r \<in> set (queue st) \<Longrightarrow> \<not> p r \<Longrightarrow> r \<in> set (queue (st\<lparr>queue := upd_where p f (queue st)\<rparr>))"
  by (auto intro: upd_where_otherI)

lemma quarantine_step:
  assumes "qstep hi settled st st'" "queue_inv st" "r \<in> set (queue st)" "q_state r = Quarantined" "q_id r \<notin> settled"
  shows "r \<in> set (queue st')"
  using assms
proof (induction rule: qstep.induct)
  case (step_running st n run_id)
  then show ?case unfolding mark_running_def by (intro kept_upd) auto
next
  case (step_completed n st now rel nb)
  then show ?case unfolding mark_completed_def by (auto split: option.splits intro!: upd_where_otherI)
next
  case (step_failed n st now err cap)
  then show ?case unfolding mark_failed_def
    by (auto simp: Let_def split: option.splits intro!: upd_where_otherI)
next
  case (step_record raw st st')
  then show ?case using insert_runD(1) by (auto simp: record_run_def)
next
  case (step_revive attempts st now n delay triage)
  then show ?case unfolding revive_def snd_conv by (intro kept_upd) auto
next
  case (step_quarantine st now n triage)
  then show ?case unfolding quarantine_def snd_conv by (intro kept_upd) auto
next
  case (step_cap v st)
  then show ?case by (simp add: set_max_attempts_def)
next
  case (step_enqueue now src kd payload prio dedup st res st')
  then show ?case using keeps_enqueue unfolding keeps_def by blast
next
  case (step_claim st now worker quotas exclude)
  then show ?case using keeps_claim unfolding keeps_def by blast
next
  case (step_recover st now hex workers)
  then show ?case using keeps_recover unfolding keeps_def by blast
qed

lemma quarantine_steps:
  assumes "(qstep hi settled)\<^sup>*\<^sup>* st st'" "queue_inv st" "r \<in> set (queue st)" "q_state r = Quarantined" "q_id r \<notin> settled"
  shows "queue_inv st' \<and> r \<in> set (queue st')"
  using assms by (induction rule: rtranclp_induct) (auto intro: qstep_inv quarantine_step)

section \<open>Enqueue\<close>

lemma insert_queue_fresh:
  assumes "\<forall>r \<in> set (queue st). q_dedup_key r \<noteq> Some key"
  shows "insert_queue now src kd payload prio (Some key) st =
    Inr (Some (Suc (queue_seq st)),
         st\<lparr>queue := queue st @ [new_row now src kd payload prio (Some key) (Suc (queue_seq st))],
            queue_seq := Suc (queue_seq st)\<rparr>)"
  using assms by (auto simp: insert_queue_def Let_def)

lemma enqueue_coalesce:
  assumes inv: "queue_inv st" and key: "key \<noteq> []" and live: "has_live key st"
  shows "enqueue now src kd payload prio (Some key) st = Inr (None, st)"
proof -
  obtain r where r: "r \<in> set (queue st)" "q_dedup_key r = Some key" "live_state (q_state r)"
    using live by (auto simp: has_live_def list_ex_iff)
  obtain ex where ex: "find (\<lambda>r. q_dedup_key r = Some key) (queue st) = Some ex"
    using r by (cases "find (\<lambda>r. q_dedup_key r = Some key) (queue st)") (auto simp: find_None_iff)
  then have "ex \<in> set (queue st)" "q_dedup_key ex = Some key" by (auto dest: find_keyD)
  then have "ex = r" using queue_inv_key_unique [OF inv] r by blast
  then show ?thesis using key ex r(3) by (cases key) (simp_all add: enqueue_def)
qed

text \<open>The key released by the enqueue: the one holder, if any, is a finished row.\<close>

definition release_key :: "string \<Rightarrow> store \<Rightarrow> store" where
  "release_key key st =
     st\<lparr>queue := upd_where (\<lambda>r. q_dedup_key r = Some key) (\<lambda>r. r\<lparr>q_dedup_key := None\<rparr>) (queue st)\<rparr>"

lemma release_by_id:
  assumes inv: "queue_inv st" and ex: "ex \<in> set (queue st)" "q_dedup_key ex = Some key"
  shows "upd_where (\<lambda>r. q_id r = q_id ex) f (queue st) = upd_where (\<lambda>r. q_dedup_key r = Some key) f (queue st)"
  unfolding upd_where_def
proof (rule map_cong [OF refl])
  fix r assume r: "r \<in> set (queue st)"
  have "q_id r = q_id ex \<longleftrightarrow> q_dedup_key r = Some key"
    using ex queue_inv_unique [OF inv r ex(1)] queue_inv_key_unique [OF inv r ex(1) _ ex(2)] by auto
  then show "(if q_id r = q_id ex then f r else r) = (if q_dedup_key r = Some key then f r else r)" by simp
qed

lemma enqueue_insert:
  assumes inv: "queue_inv st" and key: "key \<noteq> []" and dead: "\<not> has_live key st"
  shows "enqueue now src kd payload prio (Some key) st =
    Inr (Some (Suc (queue_seq st)),
         (release_key key st)\<lparr>queue := queue (release_key key st) @
            [new_row now src kd payload prio (Some key) (Suc (queue_seq st))], queue_seq := Suc (queue_seq st)\<rparr>)"
proof -
  obtain c cs where cs: "key = c # cs" using key by (cases key) auto
  have free: "\<forall>r \<in> set (queue (release_key key st)). q_dedup_key r \<noteq> Some key"
    by (auto simp: release_key_def sql_simps)
  show ?thesis
  proof (cases "find (\<lambda>r. q_dedup_key r = Some key) (queue st)")
    case None
    then have "release_key key st = st"
      unfolding release_key_def find_None_iff by (subst upd_where_none) auto
    then show ?thesis using None cs insert_queue_fresh [OF free] by (simp add: enqueue_def)
  next
    case (Some ex)
    note e = find_keyD [OF Some]
    have "\<not> live_state (q_state ex)" using dead e by (auto simp: has_live_def list_ex_iff)
    moreover have "st\<lparr>queue := upd_where (\<lambda>r. q_id r = q_id ex) (\<lambda>r. r\<lparr>q_dedup_key := None\<rparr>) (queue st)\<rparr> = release_key key st"
      using e by (simp add: release_key_def release_by_id [OF inv])
    ultimately show ?thesis using Some cs insert_queue_fresh [OF free]
      by (simp add: enqueue_def release_key_def)
  qed
qed

section \<open>Failure and back-off\<close>

lemma backoff_bounds: "30 \<le> backoff_seconds a \<and> backoff_seconds a \<le> 600"
proof -
  have "(1::nat) \<le> 2 ^ nat (max 0 (a - 1))" by simp
  then show ?thesis unfolding backoff_seconds_def by linarith
qed

lemma backoff_mono: "a \<le> b \<Longrightarrow> backoff_seconds a \<le> backoff_seconds b"
  unfolding backoff_seconds_def by (intro min.mono mult_left_mono power_increasing) auto

lemma settled_row:
  assumes "queue_inv st" "row \<in> set (queue st)"
  shows "f row \<in> set (upd_where (\<lambda>r. q_id r = q_id row) f (queue st))"
    and "\<And>r. r \<in> set (queue st) \<Longrightarrow> r \<noteq> row \<Longrightarrow> r \<in> set (upd_where (\<lambda>r. q_id r = q_id row) f (queue st))"
  using assms by (auto intro: upd_whereI upd_where_otherI dest: queue_inv_unique)

definition parked :: "queue_row \<Rightarrow> nat \<Rightarrow> bool" where
  "parked r t \<longleftrightarrow> q_state r = Queued \<and> q_not_before r = Some (iso_utc t)"

text \<open>A parked row becomes claimable at its stamp and not a microsecond before.\<close>

lemma parked_claimable:
  "parked r t \<Longrightarrow> in_range t \<Longrightarrow> in_range later \<Longrightarrow> q_source r \<notin> ex \<Longrightarrow> claimable later ex r \<longleftrightarrow> t \<le> later"
  by (auto simp: parked_def claimable_def now_iso_def)

section \<open>Deferral\<close>

lemma deferral_utc:
  "in_range t \<Longrightarrow> deferral now (Some (iso_utc t)) = (if now < t then Some (iso_utc t) else None)"
  by (simp add: deferral_def) (simp add: instant_def utc_def iso_utc_def)

section \<open>Crash recovery\<close>

definition poisoned :: "nat \<Rightarrow> int \<Rightarrow> string \<Rightarrow> queue_row \<Rightarrow> queue_row" where
  "poisoned now cap action r = r\<lparr>q_state := Poisoned, q_completed_at := Some (now_iso now),
     q_error := Some (take 2000 (cap_error (q_attempts r) cap action)), q_dedup_key := None\<rparr>"

definition requeued :: "queue_row \<Rightarrow> queue_row" where
  "requeued r = r\<lparr>q_state := Queued, q_claimed_at := None, q_claimed_by := None, q_current_run_id := None\<rparr>"

definition swept :: "string list \<Rightarrow> queue_row \<Rightarrow> bool" where
  "swept workers r \<longleftrightarrow> in_flight (q_state r) \<and> owned_by workers r"

lemma poison_one:
  assumes "queue_inv st" "row \<in> set (queue st)"
  shows "queue (poison_at_cap now row cap action st) = upd_where (\<lambda>r. r = row) (poisoned now cap action) (queue st)"
  unfolding poison_at_cap_def upd_where_def
  using queue_inv_unique [OF assms(1) _ assms(2)] by (auto simp: poisoned_def)

lemma poison_many:
  "queue_inv st \<Longrightarrow> distinct rows \<Longrightarrow> set rows \<subseteq> set (queue st) \<Longrightarrow>
   queue (fold (\<lambda>row. poison_at_cap now row cap action) rows st)
     = upd_where (\<lambda>r. r \<in> set rows) (poisoned now cap action) (queue st)"
proof (induction rows arbitrary: st)
  case Nil
  then show ?case by (simp add: upd_where_none)
next
  case (Cons row rows)
  let ?st1 = "poison_at_cap now row cap action st"
  have one: "queue ?st1 = upd_where (\<lambda>r. r = row) (poisoned now cap action) (queue st)"
    using Cons.prems by (intro poison_one) auto
  have "set rows \<subseteq> set (queue ?st1)"
    using Cons.prems by (auto simp: one intro: upd_where_otherI)
  then have IH: "queue (fold (\<lambda>row. poison_at_cap now row cap action) rows ?st1)
      = upd_where (\<lambda>r. r \<in> set rows) (poisoned now cap action) (queue ?st1)"
    using Cons by (simp add: queue_inv_poison)
  have "poisoned now cap action row \<notin> set rows"
  proof
    assume "poisoned now cap action row \<in> set rows"
    moreover have "q_id (poisoned now cap action row) = q_id row" by (simp add: poisoned_def)
    ultimately have "poisoned now cap action row = row"
      using Cons.prems queue_inv_unique [OF Cons.prems(1)] by auto
    then show False using Cons.prems(2) \<open>poisoned now cap action row \<in> set rows\<close> by simp
  qed
  then show ?case using Cons.prems(2) by (auto simp: IH one upd_where_def)
qed

lemma recover_poison_queue:
  assumes "queue_inv st"
  shows "queue (recover_poison now workers st) =
    upd_where (\<lambda>r. swept workers r \<and> max_attempts st \<le> q_attempts r)
      (poisoned now (max_attempts st) ''crash recovery'') (queue st)"
proof -
  have "distinct (queue st)" using assms by (auto simp: queue_inv_def ids_ok_def distinct_map)
  then show ?thesis unfolding recover_poison_def
    by (subst poison_many [OF assms]) (auto simp: swept_rows_def swept_def upd_where_def)
qed

lemma fold_poison_keeps:
  "max_attempts (fold (\<lambda>row. poison_at_cap now row cap action) rows st) = max_attempts st \<and>
   runs (fold (\<lambda>row. poison_at_cap now row cap action) rows st) = runs st"
  by (induction rows arbitrary: st) (auto simp: poison_at_cap_def)

lemma recover_poison_keeps [simp]:
  "max_attempts (recover_poison now workers st) = max_attempts st"
  "runs (recover_poison now workers st) = runs st"
  by (simp_all add: recover_poison_def fold_poison_keeps)

lemma recover_requeue_keeps [simp]:
  "max_attempts (recover_requeue workers st) = max_attempts st" "runs (recover_requeue workers st) = runs st"
  by (simp_all add: recover_requeue_def)

lemma recover_rows:
  assumes "queue_inv st"
  shows "queue (snd (recover_claimed now hex workers st)) =
    map (\<lambda>r. if \<not> swept workers r then r
             else if max_attempts st \<le> q_attempts r
             then poisoned now (max_attempts st) ''crash recovery'' r else requeued r) (queue st)"
  unfolding recover_queue
  by (auto simp: recover_requeue_def recover_poison_queue [OF assms] upd_where_def requeueable_def
      swept_def poisoned_def requeued_def in_flight_def)

lemma recover_count:
  assumes "queue_inv st" "fst (recover_claimed now hex workers st) = Inr n"
  shows "n = count_where (\<lambda>r. swept workers r \<and> q_attempts r < max_attempts st) (queue st)"
proof -
  have "n = count_where (requeueable (max_attempts st) workers) (queue (recover_poison now workers st))"
    using assms(2) by (auto simp: recover_claimed_def Let_def split: prod.splits sum.splits)
  also have "\<dots> = count_where (\<lambda>r. requeueable (max_attempts st) workers r \<and>
      \<not> (swept workers r \<and> max_attempts st \<le> q_attempts r)) (queue st)"
    unfolding recover_poison_queue [OF assms(1)]
    by (rule count_where_upd_out) (simp add: requeueable_def poisoned_def in_flight_def)
  finally show ?thesis
    by (simp add: requeueable_def swept_def count_where_def) (metis (no_types, opaque_lifting) not_le)
qed

end
