(* ===== verification/Queue_Recovery.thy ===== *)
theory Queue_Recovery
  imports Queue_Lifecycle
begin

text \<open>
  The records the crash-recovery sweep writes: one interrupted run for every swept row that has no
  run of its own yet, none for the others, and the sweep finishes as long as the run ids it mints
  are new.
\<close>

section \<open>One swept row\<close>

definition start_stamp :: "queue_row \<Rightarrow> string" where
  "start_stamp row = or_else (q_claimed_at row) (q_enqueued_at row)"

definition unrecorded :: "store \<Rightarrow> queue_row \<Rightarrow> bool" where
  "unrecorded st row \<longleftrightarrow> start_stamp row \<noteq> [] \<and> \<not> already_recorded row (start_stamp row) st"

lemma interrupted_run_fields:
  "r_queue_id (interrupted_run now hex row st) = Some (q_id row)"
  "r_status (interrupted_run now hex row st) = ''interrupted''"
  "r_started_at (interrupted_run now hex row st) = start_stamp row"
  "r_source (interrupted_run now hex row st) = q_source row"
  "r_kind (interrupted_run now hex row st) = Some (q_kind row)"
  by (simp_all add: interrupted_run_def Let_def start_stamp_def)

lemma record_interrupted_cases:
  assumes "record_interrupted_run now hex row st = Inr (n, st')"
  shows "(\<not> unrecorded st row \<and> n = 0 \<and> st' = st) \<or>
    (unrecorded st row \<and> n = 1 \<and> (\<exists>run. runs st' = runs st @ [run] \<and> r_queue_id run = Some (q_id row) \<and>
       r_status run = ''interrupted'' \<and> r_started_at run = start_stamp row \<and>
       r_source run = q_source row \<and> r_kind run = Some (q_kind row)))"
proof (cases "unrecorded st row")
  case True
  then have "insert_run (interrupted_run now hex row st) st = Inr st' \<and> n = 1"
    using assms by (auto simp: record_interrupted_run_def Let_def unrecorded_def start_stamp_def map_sum_Inr split: if_splits)
  then show ?thesis using True insert_runD(5) [of "interrupted_run now hex row st" st st']
    by (auto simp: interrupted_run_fields)
next
  case False
  then show ?thesis using assms
    by (auto simp: record_interrupted_run_def Let_def unrecorded_def start_stamp_def split: if_splits)
qed

lemma unrecorded_other:
  "runs st' = runs st @ [run] \<Longrightarrow> r_queue_id run \<noteq> Some (q_id row) \<Longrightarrow> unrecorded st' row = unrecorded st row"
  by (simp add: unrecorded_def already_recorded_def split: option.splits)

section \<open>The whole sweep\<close>

definition run_of :: "queue_row \<Rightarrow> nat option \<times> string \<times> string \<times> string \<times> string option" where
  "run_of row = (Some (q_id row), ''interrupted'', start_stamp row, q_source row, Some (q_kind row))"

definition run_key :: "run_row \<Rightarrow> nat option \<times> string \<times> string \<times> string \<times> string option" where
  "run_key run = (r_queue_id run, r_status run, r_started_at run, r_source run, r_kind run)"

lemma record_swept_runs:
  "record_swept now hex rows st = (Inr n, st') \<Longrightarrow> distinct (map q_id rows) \<Longrightarrow>
   \<exists>new. runs st' = runs st @ new \<and> length new = n \<and>
     map run_key new = map run_of (filter (unrecorded st) rows)"
proof (induction rows arbitrary: st n)
  case (Cons row rows)
  from Cons.prems(1) obtain m k st1 where one: "record_interrupted_run now hex row st = Inr (m, st1)"
    and rest: "record_swept now hex rows st1 = (Inr k, st')" and n: "n = m + k"
    by (auto simp: apfst_def map_prod_def map_sum_Inr split: sum.splits prod.splits)
  obtain new where new: "runs st' = runs st1 @ new" "length new = k"
      "map run_key new = map run_of (filter (unrecorded st1) rows)"
    using Cons.IH [OF rest] Cons.prems(2) by auto
  show ?case
  proof (cases "unrecorded st row")
    case True
    then obtain run where run: "runs st1 = runs st @ [run]" "run_key run = run_of row" "m = 1"
      using record_interrupted_cases [OF one] by (auto simp: run_key_def run_of_def)
    have "\<forall>r \<in> set rows. unrecorded st1 r = unrecorded st r"
    proof
      fix r assume "r \<in> set rows"
      then have "q_id row \<noteq> q_id r" using Cons.prems(2) by force
      then show "unrecorded st1 r = unrecorded st r"
        using run(2) unrecorded_other [OF run(1)] by (simp add: run_key_def run_of_def)
    qed
    then have "filter (unrecorded st1) rows = filter (unrecorded st) rows"
      by (auto intro: filter_cong)
    then show ?thesis using True run new n by (intro exI [of _ "run # new"]) simp
  next
    case False
    then have "st1 = st" "m = 0" using record_interrupted_cases [OF one] by auto
    then show ?thesis using False new n by auto
  qed
qed simp

lemma swept_distinct: "queue_inv st \<Longrightarrow> distinct (map q_id (swept_rows workers st))"
  by (simp add: queue_inv_def ids_ok_def swept_rows_def distinct_map inj_on_def)

lemma unrecorded_runs: "runs st' = runs st \<Longrightarrow> unrecorded st' = unrecorded st"
  by (intro ext) (simp add: unrecorded_def already_recorded_def split: option.splits)

lemma recover_runs:
  assumes "queue_inv st" "recover_claimed now hex workers st = (Inr n, st')"
  shows "\<exists>new. runs st' = runs st @ new \<and>
     map run_key new = map run_of (filter (unrecorded st) (swept_rows workers st))"
proof -
  let ?st2 = "recover_requeue workers (recover_poison now workers st)"
  obtain k where "record_swept now hex (swept_rows workers st) ?st2 = (Inr k, st')"
    using assms(2) by (auto simp: recover_claimed_def Let_def split: prod.splits sum.splits)
  from record_swept_runs [OF this swept_distinct [OF assms(1)]]
  show ?thesis using unrecorded_runs [of ?st2 st] by auto
qed

section \<open>The sweep finishes\<close>

definition mint :: "nat \<Rightarrow> (nat \<Rightarrow> string) \<Rightarrow> queue_row \<Rightarrow> string" where
  "mint now hex row = new_run_id (q_source row) now (hex (q_id row))"

text \<open>
  The ids a sweep mints are new: pairwise different, in no recorded run, and not the id another
  swept row carries.
\<close>

definition ids_fresh :: "nat \<Rightarrow> (nat \<Rightarrow> string) \<Rightarrow> queue_row list \<Rightarrow> store \<Rightarrow> bool" where
  "ids_fresh now hex rows st \<longleftrightarrow> distinct (map (mint now hex) rows) \<and>
     (\<forall>row \<in> set rows. mint now hex row \<notin> r_run_id ` set (runs st) \<and>
        (\<forall>other \<in> set rows. q_current_run_id other \<noteq> Some (mint now hex row)))"

lemma interrupted_run_id:
  "r_run_id (interrupted_run now hex row st) = mint now hex row \<or>
   (q_current_run_id row = Some (r_run_id (interrupted_run now hex row st)) \<and>
    r_run_id (interrupted_run now hex row st) \<notin> r_run_id ` set (runs st))"
  by (auto simp: interrupted_run_def Let_def mint_def or_else_def split: option.splits list.splits)

lemma record_interrupted_total:
  assumes fresh: "ids_fresh now hex (row # rows) st"
  shows "\<exists>n st'. record_interrupted_run now hex row st = Inr (n, st') \<and> ids_fresh now hex rows st'"
proof (cases "unrecorded st row")
  case False
  then have "record_interrupted_run now hex row st = Inr (0, st)"
    by (auto simp: record_interrupted_run_def Let_def unrecorded_def start_stamp_def)
  then show ?thesis using fresh by (auto simp: ids_fresh_def)
next
  case True
  let ?run = "interrupted_run now hex row st"
  have new: "r_run_id ?run \<notin> r_run_id ` set (runs st)"
    using interrupted_run_id [of now hex row st] fresh by (auto simp: ids_fresh_def)
  have "shorten_summary (r_summary ?run) SUMMARY_MAX_CHARS = Inr INTERRUPTED_SUMMARY"
    by (simp add: interrupted_run_def Let_def shorten_summary_def INTERRUPTED_SUMMARY_def SUMMARY_MAX_CHARS_def)
  then obtain st' where st': "insert_run ?run st = Inr st'" using new by (simp add: insert_run_def)
  obtain run where run: "runs st' = runs st @ [run]" "r_run_id run = r_run_id ?run"
    using insert_runD(5) [OF st'] by auto
  have "mint now hex r \<noteq> r_run_id run" if "r \<in> set rows" for r
  proof -
    have "mint now hex r \<noteq> mint now hex row" "q_current_run_id row \<noteq> Some (mint now hex r)"
      using fresh that by (auto simp: ids_fresh_def image_iff)
    then show ?thesis using interrupted_run_id [of now hex row st] run(2) by auto
  qed
  then have "ids_fresh now hex rows st'" using fresh run(1) by (auto simp: ids_fresh_def)
  moreover have "record_interrupted_run now hex row st = Inr (1, st')"
    using True st' by (simp add: record_interrupted_run_def Let_def unrecorded_def start_stamp_def)
  ultimately show ?thesis by blast
qed

lemma record_swept_total:
  "ids_fresh now hex rows st \<Longrightarrow> \<exists>n st'. record_swept now hex rows st = (Inr n, st')"
proof (induction rows arbitrary: st)
  case (Cons row rows)
  then obtain n st1 where "record_interrupted_run now hex row st = Inr (n, st1)" "ids_fresh now hex rows st1"
    using record_interrupted_total by blast
  then show ?case using Cons.IH [of st1] by (auto simp: apfst_def)
qed simp

lemma recover_total:
  assumes "ids_fresh now hex (swept_rows workers st) st"
  shows "\<exists>n st'. recover_claimed now hex workers st = (Inr n, st')"
proof -
  have "ids_fresh now hex (swept_rows workers st) (recover_requeue workers (recover_poison now workers st))"
    using assms by (simp add: ids_fresh_def)
  from record_swept_total [OF this] show ?thesis by (auto simp: recover_claimed_def Let_def)
qed

lemma recover_nothing:
  assumes "\<forall>r \<in> set (queue st). \<not> swept workers r"
  shows "recover_claimed now hex workers st = (Inr 0, st)"
proof -
  have none: "swept_rows workers st = []" "\<not> requeueable cap workers r" if "r \<in> set (queue st)" for r cap
    using assms that by (auto simp: swept_rows_def swept_def requeueable_def filter_empty_conv)
  have empty: "swept_rows workers st = []"
    using assms by (auto simp: swept_rows_def swept_def filter_empty_conv)
  have "recover_poison now workers st = st" by (simp add: recover_poison_def empty)
  moreover have "recover_requeue workers st = st"
    unfolding recover_requeue_def by (subst upd_where_none) (use none(2) in auto)
  moreover have "count_where (requeueable (max_attempts st) workers) (queue st) = 0"
    using none(2) by (auto simp: count_where_def filter_empty_conv)
  ultimately show ?thesis by (simp add: recover_claimed_def empty Let_def)
qed

section \<open>Age-adjusted priority\<close>

definition aging_periods :: "int \<Rightarrow> int" where
  "aging_periods p = (p - AGING_FLOOR_PRIORITY + AGING_POINTS_PER_PERIOD - 1) div AGING_POINTS_PER_PERIOD"

definition period_us :: nat where
  "period_us = 21600000000"

lemma enqueued_seconds: "in_range t \<Longrightarrow> q_enqueued_at row = iso_utc t \<Longrightarrow>
    sqlite_seconds (q_enqueued_at row) = Some ((int t + 500) div 1000 div 1000)"
  by (simp add: sqlite_seconds_def)

lemma second_bounds:
  "int t div 1000000 \<le> (int t + 500) div 1000 div 1000"
  "(int t + 500) div 1000 div 1000 \<le> int t div 1000000 + 1"
proof -
  have eq: "(int t + 500) div 1000 div 1000 = (int t + 500) div 1000000"
    using zdiv_zmult2_eq [of 1000 "int t + 500" 1000] by simp
  show "int t div 1000000 \<le> (int t + 500) div 1000 div 1000"
    unfolding eq by (rule zdiv_mono1) simp_all
  have "(int t + 500) div 1000000 \<le> (int t + 1 * 1000000) div 1000000" by (rule zdiv_mono1) simp_all
  then show "(int t + 500) div 1000 div 1000 \<le> int t div 1000000 + 1" unfolding eq by simp
qed

lemma age_credit_at:
  fixes now :: nat
  assumes "in_range t" "q_enqueued_at row = iso_utc t"
  defines "d \<equiv> int now div 1000000 - (int t + 500) div 1000 div 1000"
  shows "age_credit now row = (case sqlite_div d 21600 of None \<Rightarrow> 0 | Some k \<Rightarrow> max 0 k * AGING_POINTS_PER_PERIOD)"
proof -
  have "AGING_PERIOD_HOURS * 3600 = 21600" by (simp add: AGING_PERIOD_HOURS_def)
  then show ?thesis unfolding age_credit_def enqueued_seconds [OF assms(1,2)] option.case d_def by (simp only:)
qed

lemma whole_periods:
  assumes "n * 21600 \<le> d" "0 \<le> n"
  shows "n * AGING_POINTS_PER_PERIOD \<le> (case sqlite_div d 21600 of None \<Rightarrow> 0 | Some k \<Rightarrow> max 0 k * AGING_POINTS_PER_PERIOD)"
proof -
  have "n \<le> d div 21600" using assms(1) zdiv_mono1 [of "n * 21600" d 21600] by simp
  then show ?thesis using sqlite_div_pos [of d 21600] assms by (simp add: AGING_POINTS_PER_PERIOD_def)
qed

lemma no_period: "d < 21600 \<Longrightarrow> (case sqlite_div d 21600 of None \<Rightarrow> 0 | Some k \<Rightarrow> max 0 k * AGING_POINTS_PER_PERIOD) = 0"
  by (cases "0 \<le> d") (auto simp: sqlite_div_def sgn_if AGING_POINTS_PER_PERIOD_def)

lemma age_credit_ge:
  assumes "in_range t" "q_enqueued_at row = iso_utc t" "t + n * period_us + 1000000 \<le> now"
  shows "int n * AGING_POINTS_PER_PERIOD \<le> age_credit now row"
proof -
  have "int t + (int n * 21600 + 1) * 1000000 \<le> int now" using assms(3) by (simp add: period_us_def)
  from zdiv_mono1 [OF this, of 1000000]
  have "int t div 1000000 + 1 + int n * 21600 \<le> int now div 1000000" by simp
  then have "int n * 21600 \<le> int now div 1000000 - (int t + 500) div 1000 div 1000"
    using second_bounds(2) [of t] by linarith
  from whole_periods [OF this] show ?thesis unfolding age_credit_at [OF assms(1,2)] by simp
qed

lemma age_credit_fresh:
  assumes "in_range t" "q_enqueued_at row = iso_utc t" "now < t + period_us - 1000000"
  shows "age_credit now row = 0"
proof -
  have "int now \<le> int t + 21599 * 1000000" using assms(3) by (simp add: period_us_def)
  from zdiv_mono1 [OF this, of 1000000] have "int now div 1000000 \<le> int t div 1000000 + 21599" by simp
  then have "int now div 1000000 - (int t + 500) div 1000 div 1000 < 21600" using second_bounds(1) [of t] by linarith
  from no_period [OF this] show ?thesis unfolding age_credit_at [OF assms(1,2)] .
qed

lemma aged_to_floor:
  assumes "in_range t" "q_enqueued_at row = iso_utc t" "AGING_FLOOR_PRIORITY \<le> q_priority row"
    "t + nat (aging_periods (q_priority row)) * period_us + 1000000 \<le> now"
  shows "effective_priority now row = AGING_FLOOR_PRIORITY"
proof -
  have "int (nat (aging_periods (q_priority row))) * AGING_POINTS_PER_PERIOD \<le> age_credit now row"
    using age_credit_ge [OF assms(1,2,4)] .
  moreover have "q_priority row - AGING_FLOOR_PRIORITY \<le> int (nat (aging_periods (q_priority row))) * AGING_POINTS_PER_PERIOD"
    using assms(3) by (simp add: aging_periods_def AGING_POINTS_PER_PERIOD_def AGING_FLOOR_PRIORITY_def) presburger
  ultimately show ?thesis using assms(3) by (simp add: effective_priority_def)
qed

end
