(* ===== verification/Run_Summary.thy ===== *)
theory Run_Summary
  imports Queue_Tables
begin

text \<open>
  \<open>shorten_summary\<close>, the cut every run summary goes through on its way into \<open>runs\<close>: the result
  fits, a summary that fits is untouched, and a cut falls on a word boundary unless the first word
  alone is too long.
\<close>

lemma back_off_last: "i < e \<Longrightarrow> back_off text e \<le> i \<Longrightarrow> \<not> is_space (text ! i)"
  by (induction e) (auto simp: less_Suc_eq split: if_splits)

definition cut_ok :: "string \<Rightarrow> nat \<Rightarrow> nat \<Rightarrow> bool" where
  "cut_ok text room k \<longleftrightarrow> 0 < k \<and> k \<le> room \<and>
     (is_space (text ! k) \<or>
      (k = room \<and> (\<forall>i < room. is_space (text ! i) \<longrightarrow> (\<forall>j \<le> i. is_space (text ! j)))))"

lemma cut_at_boundary:
  assumes "room < length text" "e \<le> room" "e = room \<and> is_space (text ! room) \<or> 0 < e \<and> is_space (text ! (e - 1))"
    "rstrip (take e text) \<noteq> []"
  shows "cut_ok text room (length (rstrip (take e text)))"
proof -
  let ?k = "length (rstrip (take e text))"
  have le: "?k \<le> e" by (rule rstrip_length_le)
  have "is_space (text ! ?k)"
  proof (cases "?k < e")
    case True
    then show ?thesis using rstrip_take_next [of e "text"] assms by simp
  next
    case False
    then have k: "?k = e" using le by simp
    then have whole: "rstrip (take e text) = take e text" using rstrip_take [of e "text"] by simp
    have "0 < e" using assms(4) by (cases e) (auto simp: rstrip_def)
    then have "last (take e text) = text ! (e - 1)" using assms(1,2) by (simp add: last_take)
    then have "\<not> is_space (text ! (e - 1))" using last_rstrip [OF assms(4)] whole by simp
    then show ?thesis using assms(3) k by auto
  qed
  then show ?thesis using assms le by (auto simp: cut_ok_def)
qed

lemma cut_mid_word:
  assumes room: "0 < room" "room < length text" and no: "\<not> is_space (text ! room)"
    and lead: "rstrip (take (back_off text room) text) = []" and kept: "rstrip (take room text) \<noteq> []"
  shows "length (rstrip (take room text)) = room" "cut_ok text room room"
proof -
  let ?e = "back_off text room"
  have spaces: "is_space (text ! i)" if "i < ?e" for i
    using lead that back_off_le [of "text" room] room by (simp add: rstrip_take_Nil)
  have e: "?e < room"
  proof (rule ccontr)
    assume "\<not> ?e < room"
    then have "?e = room" using back_off_le [of "text" room] by simp
    then show False using lead kept by simp
  qed
  have "last (take room text) = text ! (room - 1)" using room by (simp add: last_take)
  moreover have "\<not> is_space (text ! (room - 1))" using back_off_last [of "room - 1" room "text"] e room by simp
  moreover have "take room text \<noteq> []" using room by auto
  ultimately have "rstrip (take room text) = take room text" using rstrip_last by metis
  then show "length (rstrip (take room text)) = room" using room by simp
  have "is_space (text ! j)" if "i < room" "is_space (text ! i)" "j \<le> i" for i j
    using back_off_last [of i room "text"] that spaces [of j] by fastforce
  then show "cut_ok text room room" using room unfolding cut_ok_def by blast
qed

lemma shorten_long:
  assumes "4 \<le> limit" "limit < length text"
  defines "room \<equiv> limit - 3"
  shows "(\<exists>k. cut_ok text room k \<and> shorten_summary text limit = Inr (take k text @ SUMMARY_MARKER)) \<or>
    ((\<forall>i < room. is_space (text ! i)) \<and> shorten_summary text limit = Inr (take limit text))"
proof -
  define e where "e = (if is_space (text ! room) then room else back_off text room)"
  define kept where "kept = rstrip (take e text)"
  have room: "0 < room" "room < length text" "max 1 (limit - length SUMMARY_MARKER) = room" "e \<le> room"
    using assms back_off_le [of "text" room] by (auto simp: SUMMARY_MARKER_def e_def)
  have run: "shorten_summary text limit =
      (if kept = [] then Inr (if rstrip (take room text) \<noteq> [] then rstrip (take room text) @ SUMMARY_MARKER else take limit text)
       else Inr (kept @ SUMMARY_MARKER))"
    using assms(2) room by (simp add: shorten_summary_def Let_def e_def kept_def)
  consider "kept \<noteq> []" | "kept = []" "rstrip (take room text) \<noteq> []" | "rstrip (take room text) = []" by blast
  then show ?thesis
  proof cases
    case 1
    then have "e = room \<and> is_space (text ! room) \<or> 0 < e \<and> is_space (text ! (e - 1))"
      using back_off_boundary [of "text" room] by (cases e) (auto simp: e_def kept_def rstrip_def split: if_splits)
    from cut_at_boundary [OF room(2,4) this] 1
    have "cut_ok text room (length kept)" by (simp add: kept_def)
    moreover have "kept = take (length kept) text" unfolding kept_def by (rule rstrip_take)
    ultimately show ?thesis using run 1 by auto
  next
    case 2
    then have "\<not> is_space (text ! room)" by (auto simp: kept_def e_def split: if_splits)
    with 2 cut_mid_word [OF room(1,2)] have "cut_ok text room room" "length (rstrip (take room text)) = room"
      by (auto simp: kept_def e_def)
    then show ?thesis using run 2 rstrip_take [of room "text"] by auto
  next
    case 3
    then have sp: "\<forall>i < room. is_space (text ! i)" using room by (simp add: rstrip_take_Nil)
    then have "kept = []" using room by (simp add: kept_def rstrip_take_Nil)
    then show ?thesis using run 3 sp by auto
  qed
qed

end
