(* ===== verification/Queue_Theorems.thy ===== *)
theory Queue_Theorems
  imports Queue_Recovery Run_Summary
begin

text \<open>
  The properties of the work queue, each with the store it is exercised on.
\<close>

section \<open>A store to evaluate on\<close>

abbreviation T0 :: nat where "T0 \<equiv> 63902822400000000"

definition demo_row :: "nat \<Rightarrow> string \<Rightarrow> int \<Rightarrow> qstate \<Rightarrow> int \<Rightarrow> queue_row" where
  "demo_row n src prio s attempts =
     (new_row T0 src ''task'' [] prio None n)\<lparr>q_state := s, q_attempts := attempts,
        q_claimed_at := (if s = Claimed \<or> s = Running then Some (iso_utc T0) else None),
        q_claimed_by := (if s = Claimed \<or> s = Running then Some ''worker-0'' else None),
        q_completed_at := (if s = Queued \<or> s = Claimed \<or> s = Running then None else Some (iso_utc T0)),
        q_dedup_key := (if n = 1 then Some ''key-1'' else None)\<rparr>"

definition demo :: store where
  "demo = (empty_store (JInt 3))\<lparr>queue :=
     [demo_row 1 ''research'' 60 Queued 0, demo_row 2 ''digest'' 30 Running 1,
      demo_row 3 ''digest'' 20 Queued 3, demo_row 4 ''sweep'' 50 Poisoned 3,
      demo_row 5 ''sweep'' 50 Quarantined 3, demo_row 6 ''digest'' 40 Running 3], queue_seq := 6\<rparr>"

lemmas demo_simps = demo_def demo_row_def new_row_def empty_store_def valid_cap_def py_int_def now_iso_def

lemma demo_inv: "queue_inv demo"
  by (simp add: demo_simps queue_inv_def ids_ok_def keys_unique_def row_ok_simps)

lemma demo_max [simp]: "max_attempts demo = 3"
  by (simp add: demo_simps)

lemma demo_mem:
  "demo_row 1 ''research'' 60 Queued 0 \<in> set (queue demo)" "demo_row 2 ''digest'' 30 Running 1 \<in> set (queue demo)"
  "demo_row 5 ''sweep'' 50 Quarantined 3 \<in> set (queue demo)" "demo_row 6 ''digest'' 40 Running 3 \<in> set (queue demo)"
  "q_id ` set (queue demo) = {1, 2, 3, 4, 5, 6}"
  by (simp_all add: demo_def demo_row_def new_row_def)

lemma demo_row_fields [simp]:
  "q_id (demo_row n src prio s a) = n" "q_attempts (demo_row n src prio s a) = a"
  "q_state (demo_row n src prio s a) = s"
  by (simp_all add: demo_row_def new_row_def)

section \<open>Invariant\<close>



section \<open>Claims\<close>

text \<open>
  C2. The item \<open>claim_next\<close> returns is the first row, in the order of age-adjusted priority, stored
  priority and enqueue stamp, among all rows that are queued, past their \<open>not_before\<close>, of a source
  that is neither at its quota nor excluded, and below the attempt ceiling; that row is now claimed
  by the caller with one more attempt.
\<close>

theorem claim_next_first:
  assumes "queue_inv st" "claim_next now worker quotas exclude st = (Inr (Some it), st')"
  shows "\<exists>row \<in> set (queue st). claimable now (barred st quotas exclude) row \<and> q_attempts row < max_attempts st \<and>
     (\<forall>r \<in> set (queue st). claimable now (barred st quotas exclude) r \<and> q_attempts r < max_attempts st
        \<longrightarrow> claim_before now row r) \<and>
     i_id it = q_id row \<and> i_attempts it = q_attempts row + 1 \<and> i_claimed_by it = Some worker \<and>
     (\<exists>r' \<in> set (queue st'). q_id r' = q_id row \<and> q_state r' = Claimed \<and> q_claimed_by r' = Some worker \<and>
        q_attempts r' = q_attempts row + 1)"
proof -
  obtain row where row: "row \<in> set (queue st)" "eligible now (max_attempts st) (barred st quotas exclude) row"
    "\<forall>r \<in> set (queue st). eligible now (max_attempts st) (barred st quotas exclude) r \<longrightarrow> claim_before now row r"
    "from_row (claimed now worker row) = Inr it" "claimed now worker row \<in> set (queue st')"
    using claim_next_row [OF assms] by blast
  from row(5) have "\<exists>r' \<in> set (queue st'). q_id r' = q_id row \<and> q_state r' = Claimed \<and>
      q_claimed_by r' = Some worker \<and> q_attempts r' = q_attempts row + 1"
    by (rule bexI [rotated]) (simp add: claimed_def)
  then show ?thesis using row(1-3) from_row_fields [OF row(4)]
    by (intro bexI [of _ row]) (auto simp: eligible_def claimed_def)
qed

lemmas demo_claim_simps = demo_simps claim_next_def claim_next_race_def saturated_def inflight_count_def
  in_flight_def select_claim_def claimable_def claim_before_def effective_priority_def age_credit_def
  sqlite_seconds_def AGING_FLOOR_PRIORITY_def AGING_PERIOD_HOURS_def AGING_POINTS_PER_PERIOD_def
  sqlite_div_def poison_at_cap_def claim_update_def won_claim_def from_row_def loads_def column_text_def
  loads_or_none_def CLAIM_RACE_RETRIES_def CLAIM_CAP_SCAN_LIMIT_def

text \<open>
  On the demonstration store the claim passes the saturated source \<open>digest\<close> and takes row 1.
\<close>

lemma demo_claim:
  "\<exists>it st'. claim_next T0 ''w'' [(''digest'', Some 1)] [] demo = (Inr (Some it), st') \<and> i_id it = 1"
  by (simp add: demo_claim_simps claim_loop.simps Let_def)

theorem claim_next_first_witness:
  "\<exists>row \<in> set (queue demo). claimable T0 (barred demo [(''digest'', Some 1)] []) row \<and> q_attempts row < 3 \<and>
     q_id row = 1"
proof -
  obtain it st' where run: "claim_next T0 ''w'' [(''digest'', Some 1)] [] demo = (Inr (Some it), st')" "i_id it = 1"
    using demo_claim by blast
  show ?thesis using claim_next_first [OF demo_inv run(1)] run(2) by (auto simp: demo_max)
qed

text \<open>
  C3. When some queued row may be claimed and has an attempt left, \<open>claim_next\<close> comes back empty only
  in one case: more than 64 claimable rows stand at the ceiling, and then this very call has poisoned
  at least 64 of them and left the row where it was. With at most 64 such rows the call is never
  empty, however many rows of saturated or excluded sources are ahead; with more, every empty call
  brings their number down by 64, so the row is not hidden for ever.
\<close>

theorem claim_next_progress:
  assumes "queue_inv st" "row \<in> set (queue st)" "claimable now (barred st quotas exclude) row"
    "q_attempts row < max_attempts st" "claim_next now worker quotas exclude st = (res, st')"
  shows "res \<noteq> Inr None \<or>
    (row \<in> set (queue st') \<and>
     64 < count_where (\<lambda>r. claimable now (barred st quotas exclude) r \<and> max_attempts st \<le> q_attempts r) (queue st) \<and>
     64 + count_where (\<lambda>r. claimable now (barred st quotas exclude) r \<and> max_attempts st \<le> q_attempts r) (queue st')
       \<le> count_where (\<lambda>r. claimable now (barred st quotas exclude) r \<and> max_attempts st \<le> q_attempts r) (queue st))"
proof -
  show ?thesis using assms(1,5)
  proof (rule claim_next_outcome)
    fix mid
    assume sw: "swept_from now (max_attempts st) (barred st quotas exclude) st mid"
      and out: "case select_claim now (barred st quotas exclude) mid of None \<Rightarrow> res = Inr None \<and> st' = mid
        | Some row \<Rightarrow> if max_attempts st \<le> q_attempts row
            then res = Inr None \<and> st' = mid \<and> CLAIM_CAP_SCAN_LIMIT
              < count_where (exhausted now (max_attempts st) (barred st quotas exclude)) (queue st) \<and>
              CLAIM_CAP_SCAN_LIMIT + count_where (exhausted now (max_attempts st) (barred st quotas exclude)) (queue mid)
                \<le> count_where (exhausted now (max_attempts st) (barred st quotas exclude)) (queue st)
            else res = map_sum id Some (from_row (claimed now worker row)) \<and>
              st' = claim_update now worker (q_id row) mid"
    have mid: "row \<in> set (queue mid)" using sw assms(2-4) by (auto simp: swept_from_def eligible_def set_eq_iff)
    then obtain r where r: "select_claim now (barred st quotas exclude) mid = Some r"
      using assms(3) select_claim_None by (cases "select_claim now (barred st quotas exclude) mid") auto
    show ?thesis using out r mid
      by (auto simp: exhausted_def [abs_def] CLAIM_CAP_SCAN_LIMIT_def map_sum_Inr split: if_splits)
  qed
qed

theorem claim_next_progress_witness:
  "fst (claim_next T0 ''w'' [(''digest'', Some 1)] [''sweep''] demo) \<noteq> Inr None"
proof -
  let ?c = "claim_next T0 ''w'' [(''digest'', Some 1)] [''sweep''] demo"
  have row: "demo_row 1 ''research'' 60 Queued 0 \<in> set (queue demo)"
    "claimable T0 (barred demo [(''digest'', Some 1)] [''sweep'']) (demo_row 1 ''research'' 60 Queued 0)"
    "q_attempts (demo_row 1 ''research'' 60 Queued 0) < max_attempts demo"
    by (simp_all add: barred_def demo_claim_simps)
  have size: "length (queue demo) = 6" by (simp add: demo_def)
  have few: "\<not> 64 < count_where p (queue demo)" for p
    using length_filter_le [of p "queue demo"] unfolding count_where_def size by simp
  from claim_next_progress [OF demo_inv row surjective_pairing] few show ?thesis by blast
qed

text \<open>
  C4. A claim never takes a source over its quota: afterwards the source has at most its quota in
  flight, or no more than it had before.
\<close>

theorem claim_respects_quota:
  assumes "queue_inv st" "(src, Some quota) \<in> set quotas"
  shows "inflight_count (snd (claim_next now worker quotas exclude st)) src \<le> max quota (inflight_count st src)"
  using assms by (rule claim_quota)

theorem claim_respects_quota_witness:
  "inflight_count (snd (claim_next T0 ''w'' [(''digest'', Some 3)] [] demo)) ''digest'' \<le> 3"
  using claim_respects_quota [OF demo_inv, of "''digest''" 3 "[(''digest'', Some 3)]" T0 "''w''" "[]"]
  by (simp add: demo_claim_simps del: of_nat_add)

text \<open>
  C5. Whatever another process does to the file between the statements of a claim, an item that is
  returned belongs to the caller: at the moment of the return its row is claimed under the
  caller's name, and the item is a copy of that row.
\<close>

theorem claim_race_exclusive:
  assumes "claim_next_race race now worker quotas exclude st = (Inr (Some it), st')"
  shows "\<exists>r \<in> set (queue st'). from_row r = Inr it \<and> q_state r = Claimed \<and> q_claimed_by r = Some worker"
  using assms unfolding claim_next_race_def by (rule claim_race_held)

text \<open>Row 1 is claimed by another worker between the caller's SELECT and its UPDATE; the caller gets row 3.\<close>

definition thief :: "nat \<Rightarrow> store \<Rightarrow> store" where
  "thief k st = (if k = 1 then claim_update T0 ''thief'' 1 st else st)"

definition contended :: store where
  "contended = (empty_store (JInt 3))\<lparr>queue := [demo_row 1 ''a'' 20 Queued 0, demo_row 3 ''b'' 50 Queued 0],
     queue_seq := 3\<rparr>"

theorem claim_race_exclusive_witness:
  "\<exists>it st'. claim_next_race thief T0 ''w'' [] [] contended = (Inr (Some it), st') \<and> i_id it = 3 \<and>
     (\<exists>r \<in> set (queue st'). from_row r = Inr it \<and> q_state r = Claimed \<and> q_claimed_by r = Some ''w'')"
proof -
  have "\<exists>it st'. claim_next_race thief T0 ''w'' [] [] contended = (Inr (Some it), st') \<and> i_id it = 3"
    by (simp add: contended_def thief_def demo_claim_simps claim_loop.simps Let_def)
  then show ?thesis using claim_race_exclusive by blast
qed

text \<open>
  Two claims, one after the other, never hand out the same row.
\<close>

theorem claims_disjoint:
  assumes "queue_inv st" "claim_next now worker quotas exclude st = (Inr (Some it), st1)"
    "claim_next now' worker' quotas' exclude' st1 = (Inr (Some it'), st2)"
  shows "i_id it \<noteq> i_id it'"
proof -
  have inv1: "queue_inv st1" using queue_inv_claim_next [OF assms(1), of now worker quotas exclude] assms(2) by simp
  obtain row where a: "from_row (claimed now worker row) = Inr it" "claimed now worker row \<in> set (queue st1)"
    using claim_next_row [OF assms(1,2)] by blast
  obtain row' where b: "row' \<in> set (queue st1)" "q_state row' = Queued" "from_row (claimed now' worker' row') = Inr it'"
    using claim_next_row [OF inv1 assms(3)] by (auto simp: eligible_def claimable_def)
  have "q_id row' \<noteq> q_id (claimed now worker row)"
    using queue_inv_unique [OF inv1 b(1) a(2)] b(2) by (auto simp: claimed_def)
  then show ?thesis using from_row_fields [OF a(1)] from_row_fields [OF b(3)] by (simp add: claimed_def)
qed

theorem claims_disjoint_witness:
  "\<exists>it st1 it' st2. claim_next T0 ''w'' [] [] contended = (Inr (Some it), st1) \<and>
     claim_next T0 ''v'' [] [] st1 = (Inr (Some it'), st2) \<and> i_id it \<noteq> i_id it'"
proof -
  have inv: "queue_inv contended"
    by (simp add: contended_def demo_simps queue_inv_def ids_ok_def keys_unique_def row_ok_simps)
  have "\<exists>it st1 it' st2. claim_next T0 ''w'' [] [] contended = (Inr (Some it), st1) \<and>
     claim_next T0 ''v'' [] [] st1 = (Inr (Some it'), st2)"
    by (simp add: contended_def demo_claim_simps claim_loop.simps Let_def)
  then show ?thesis using claims_disjoint [OF inv] by blast
qed

text \<open>
  C6. No row starves behind fresh work: once a row has waited \<open>ceil((p - 10) / 15)\<close> aging periods of
  six hours (and one second for the rounding of its stamp), its effective priority is the floor 10,
  and it is claimed before every row enqueued within the last period whose priority is above 10.
\<close>

theorem aging_no_starvation:
  assumes "in_range t" "q_enqueued_at row = iso_utc t" "AGING_FLOOR_PRIORITY \<le> q_priority row"
    and waited: "t + nat (aging_periods (q_priority row)) * period_us + 1000000 \<le> now"
    and fresh: "in_range t'" "q_enqueued_at r = iso_utc t'" "now < t' + period_us - 1000000" "10 < q_priority r"
  shows "effective_priority now row = 10 \<and> claim_before now row r \<and> \<not> claim_before now r row"
proof -
  have "effective_priority now row = 10"
    using aged_to_floor [OF assms(1-4)] by (simp add: AGING_FLOOR_PRIORITY_def)
  moreover have "effective_priority now r = q_priority r"
    using age_credit_fresh [OF fresh(1-3)] fresh(4) by (simp add: effective_priority_def AGING_FLOOR_PRIORITY_def)
  ultimately show ?thesis using fresh(4) by (simp add: claim_before_def Let_def)
qed

text \<open>A row of priority 90 after 36 hours, against one of priority 30 enqueued at that moment.\<close>

theorem aging_no_starvation_witness:
  "effective_priority 63902952001000000 (new_row T0 ''a'' ''k'' [] 90 None 1) = 10"
  using aging_no_starvation [of T0 "new_row T0 ''a'' ''k'' [] 90 None 1" 63902952001000000
      63902952001000000 "new_row 63902952001000000 ''b'' ''k'' [] 30 None 2"]
  by (simp add: new_row_def now_iso_def AGING_FLOOR_PRIORITY_def AGING_POINTS_PER_PERIOD_def
      aging_periods_def period_us_def)

section \<open>Enqueue\<close>

text \<open>
  C7. Enqueue with a dedup key: if a queued, claimed or running row holds the key the call returns
  nothing and leaves the store alone; otherwise it succeeds, the new row is queued at attempt 0 under
  the next id and is the only holder of the key, and every other row is as before except that a
  finished holder has lost the key.
\<close>

theorem enqueue_dedup:
  assumes "queue_inv st" "key \<noteq> []"
  shows "(has_live key st \<longrightarrow> enqueue now src kd payload prio (Some key) st = Inr (None, st)) \<and>
    (\<not> has_live key st \<longrightarrow> (\<exists>st'. enqueue now src kd payload prio (Some key) st = Inr (Some (Suc (queue_seq st)), st') \<and>
       queue st' = map (\<lambda>r. if q_dedup_key r = Some key then r\<lparr>q_dedup_key := None\<rparr> else r) (queue st)
         @ [new_row now src kd payload prio (Some key) (Suc (queue_seq st))] \<and>
       has_live key st' \<and> queue_inv st'))"
proof (cases "has_live key st")
  case True
  then show ?thesis using enqueue_coalesce [OF assms] by simp
next
  case False
  note ins = enqueue_insert [OF assms False, of now src kd payload prio]
  show ?thesis using False ins queue_inv_enqueue [OF assms(1) ins]
    by (simp add: release_key_def upd_where_def has_live_def new_row_def live_state_def)
qed

theorem enqueue_dedup_witness:
  "enqueue T0 ''x'' ''y'' [] 50 (Some ''key-1'') demo = Inr (None, demo) \<and>
   (\<exists>st'. enqueue T0 ''x'' ''y'' [] 50 (Some ''key-2'') demo = Inr (Some 7, st') \<and> has_live ''key-2'' st')"
  using enqueue_dedup [OF demo_inv, of "''key-1''" T0 "''x''" "''y''" "[]" 50]
    enqueue_dedup [OF demo_inv, of "''key-2''" T0 "''x''" "''y''" "[]" 50]
  by (auto simp: has_live_def demo_simps live_state_def)

section \<open>Failure and deferral\<close>

text \<open>
  A failure below the ceiling requeues the row with its attempts and dedup key kept, and it is
  claimable again exactly when the back-off has passed: at least 30 seconds, at most 600, never
  shorter for a later attempt. Every other row is untouched.
\<close>

theorem mark_failed_backs_off:
  assumes "queue_inv st" "row \<in> set (queue st)" "q_attempts row < max_attempts st"
    and range: "in_range (now + backoff_seconds (q_attempts row) * 1000000)"
  shows "\<exists>st' r'. mark_failed now (q_id row) err None st = (FailedTo Queued, st') \<and> r' \<in> set (queue st') \<and>
     q_id r' = q_id row \<and> q_attempts r' = q_attempts row \<and> q_dedup_key r' = q_dedup_key row \<and>
     (\<forall>later < max_wall. claimable later {} r' \<longleftrightarrow> now + backoff_seconds (q_attempts row) * 1000000 \<le> later) \<and>
     30 \<le> backoff_seconds (q_attempts row) \<and> backoff_seconds (q_attempts row) \<le> 600 \<and>
     backoff_seconds (q_attempts row) \<le> backoff_seconds (q_attempts row + 1) \<and>
     (\<forall>r \<in> set (queue st). r \<noteq> row \<longrightarrow> r \<in> set (queue st'))"
proof -
  let ?nb = "now + backoff_seconds (q_attempts row) * 1000000"
  let ?f = "\<lambda>r. r\<lparr>q_state := Queued, q_claimed_at := None, q_claimed_by := None,
      q_error := Some (take 2000 err), q_not_before := Some (iso_utc ?nb)\<rparr>"
  let ?st = "st\<lparr>queue := upd_where (\<lambda>r. q_id r = q_id row) ?f (queue st)\<rparr>"
  have run: "mark_failed now (q_id row) err None st = (FailedTo Queued, ?st)"
    using assms(3) by (simp add: mark_failed_def Let_def queue_inv_find [OF assms(1,2)])
  have "parked (?f row) ?nb" by (simp add: parked_def)
  then have "\<forall>later < max_wall. claimable later {} (?f row) \<longleftrightarrow> ?nb \<le> later"
    using parked_claimable [of "?f row" ?nb _ "{}"] range by blast
  then show ?thesis
    using run settled_row [where f = ?f, OF assms(1,2)] backoff_bounds [of "q_attempts row"]
      backoff_mono [of "q_attempts row" "q_attempts row + 1"]
    by (intro exI [of _ ?st] exI [of _ "?f row"]) simp
qed

theorem mark_failed_backs_off_witness:
  "\<exists>st' r'. mark_failed T0 2 ''boom'' None demo = (FailedTo Queued, st') \<and> r' \<in> set (queue st') \<and>
     q_id r' = 2 \<and> \<not> claimable (T0 + 29999999) {} r' \<and> claimable (T0 + 30000000) {} r'"
proof -
  have "in_range (T0 + 30000000)" by simp
  then obtain st' r' where "mark_failed T0 2 ''boom'' None demo = (FailedTo Queued, st')" "r' \<in> set (queue st')"
      "q_id r' = 2" "\<forall>later < max_wall. claimable later {} r' \<longleftrightarrow> T0 + 30000000 \<le> later"
    using mark_failed_backs_off [OF demo_inv demo_mem(2), of T0 "''boom''"] by (auto simp: backoff_seconds_def)
  then show ?thesis by (intro exI [of _ st'] exI [of _ r']) simp
qed

text \<open>
  A failure at the ceiling poisons the row: it is stamped completed, its dedup key is released,
  its error is the first 2000 characters, it can never be claimed again as it stands, and every
  other row is untouched. An id that is not in the table changes nothing.
\<close>

theorem mark_failed_poisons:
  assumes "queue_inv st" "row \<in> set (queue st)" "max_attempts st \<le> q_attempts row"
  shows "\<exists>st' r'. mark_failed now (q_id row) err None st = (FailedTo Poisoned, st') \<and> r' \<in> set (queue st') \<and>
     q_id r' = q_id row \<and> q_state r' = Poisoned \<and> q_completed_at r' = Some (now_iso now) \<and>
     q_dedup_key r' = None \<and> q_error r' = Some (take 2000 err) \<and> (\<forall>later ex. \<not> claimable later ex r') \<and>
     (\<forall>r \<in> set (queue st). r \<noteq> row \<longrightarrow> r \<in> set (queue st')) \<and>
     (\<forall>n. n \<notin> q_id ` set (queue st) \<longrightarrow> mark_failed now n err None st = (Missing, st))"
proof -
  let ?f = "\<lambda>r. r\<lparr>q_state := Poisoned, q_completed_at := Some (now_iso now),
      q_error := Some (take 2000 err), q_dedup_key := None\<rparr>"
  let ?st = "st\<lparr>queue := upd_where (\<lambda>r. q_id r = q_id row) ?f (queue st)\<rparr>"
  have run: "mark_failed now (q_id row) err None st = (FailedTo Poisoned, ?st)"
    using assms(3) by (simp add: mark_failed_def Let_def queue_inv_find [OF assms(1,2)])
  have "mark_failed now n err None st = (Missing, st)" if "n \<notin> q_id ` set (queue st)" for n
  proof -
    have "find (\<lambda>r. q_id r = n) (queue st) = None" using that by (simp add: find_key_None)
    then show ?thesis by (simp add: mark_failed_def)
  qed
  then show ?thesis using run settled_row [where f = ?f, OF assms(1,2)]
    by (intro exI [of _ ?st] exI [of _ "?f row"]) (simp add: claimable_def)
qed

theorem mark_failed_poisons_witness:
  "\<exists>st'. mark_failed T0 6 ''boom'' None demo = (FailedTo Poisoned, st') \<and>
     mark_failed T0 9 ''boom'' None demo = (Missing, demo)"
  using mark_failed_poisons [OF demo_inv demo_mem(4), of T0 "''boom''"] by (auto simp: demo_mem(5))

text \<open>
  Completing a row with a UTC deferral in the future parks it: it is queued again with its
  attempts and dedup key kept and no error, and it is claimable exactly from the stamp on. A stamp
  that is not in the future completes the row instead, and releases the key when asked to.
\<close>

theorem mark_completed_defers:
  assumes "queue_inv st" "row \<in> set (queue st)" "in_range t"
  shows "\<exists>r' \<in> set (queue (mark_completed now (q_id row) rel (Some (iso_utc t)) st)).
     q_id r' = q_id row \<and> q_attempts r' = q_attempts row \<and> q_error r' = None \<and>
     (now < t \<longrightarrow> q_state r' = Queued \<and> q_completed_at r' = None \<and> q_dedup_key r' = q_dedup_key row \<and>
        (\<forall>later < max_wall. claimable later {} r' \<longleftrightarrow> t \<le> later)) \<and>
     (t \<le> now \<longrightarrow> q_state r' = Completed \<and> q_completed_at r' = Some (now_iso now) \<and>
        q_dedup_key r' = (if rel then None else q_dedup_key row))"
proof (cases "now < t")
  case True
  let ?f = "\<lambda>r. r\<lparr>q_state := Queued, q_claimed_at := None, q_claimed_by := None,
      q_completed_at := None, q_error := None, q_not_before := Some (iso_utc t)\<rparr>"
  have "parked (?f row) t" by (simp add: parked_def)
  then have "\<forall>later < max_wall. claimable later {} (?f row) \<longleftrightarrow> t \<le> later"
    using parked_claimable [of "?f row" t _ "{}"] assms(3) by blast
  then show ?thesis using True settled_row(1) [OF assms(1,2), of ?f]
    by (intro bexI [of _ "?f row"]) (simp_all add: mark_completed_def deferral_utc [OF assms(3)])
next
  case False
  let ?f = "\<lambda>r. if rel then r\<lparr>q_state := Completed, q_completed_at := Some (now_iso now), q_error := None, q_dedup_key := None\<rparr>
      else r\<lparr>q_state := Completed, q_completed_at := Some (now_iso now), q_error := None\<rparr>"
  show ?thesis using False settled_row(1) [OF assms(1,2), of ?f]
    by (intro bexI [of _ "?f row"]) (simp_all add: mark_completed_def deferral_utc [OF assms(3)])
qed

theorem mark_completed_defers_witness:
  "\<exists>r' \<in> set (queue (mark_completed T0 2 True (Some (iso_utc (T0 + 3600000000))) demo)).
     q_id r' = 2 \<and> q_state r' = Queued \<and> \<not> claimable (T0 + 3599999999) {} r'"
proof -
  have "in_range (T0 + 3600000000)" by simp
  from mark_completed_defers [OF demo_inv demo_mem(2) this, of T0 True]
  obtain r' where "r' \<in> set (queue (mark_completed T0 2 True (Some (iso_utc (T0 + 3600000000))) demo))"
    "q_id r' = 2" "q_state r' = Queued" "\<forall>later < max_wall. claimable later {} r' \<longleftrightarrow> T0 + 3600000000 \<le> later"
    unfolding demo_row_fields by auto
  then show ?thesis by (intro bexI [of _ r']) simp_all
qed

lemma west_reads:
  "parse_instant ''2026-01-01T05:00:00-07:00'' = Some (int T0 + 12 * 3600000000)"
  "deferral T0 (Some ''2026-01-01T05:00:00-07:00'') = Some ''2026-01-01T05:00:00-07:00''"
  "text_less ''2026-01-01T05:00:00-07:00'' (iso_utc (T0 + 19800000000))"
  by (simp add: parse_eval) (simp_all add: deferral_def parse_eval iso_eval)

text \<open>
  The parking does not extend to a deferral written with another UTC offset. The stamp is stored
  with the offset it came with, and \<open>claim_next\<close> compares text: a deferral to
  \<open>2026-01-01T05:00:00-07:00\<close>, noon UTC, is claimable half an hour before six in the morning UTC.
\<close>

theorem deferral_offset_claimable:
  "\<exists>r' \<in> set (queue (mark_completed T0 2 True (Some ''2026-01-01T05:00:00-07:00'') demo)).
     q_id r' = 2 \<and> q_state r' = Queued \<and> parse_instant (the (q_not_before r')) = Some (int T0 + 12 * 3600000000) \<and>
     claimable (T0 + 19800000000) {} r'"
  using west_reads(3) unfolding mark_completed_def west_reads(2)
  by (simp add: west_reads(1) demo_simps claimable_def text_le_def)

section \<open>Crash recovery\<close>

text \<open>
  C8. The recovery sweep, row by row: a row in flight under one of the named workers (or any, when
  none is named) goes back to queued with its attempts kept if it is below the ceiling, and is
  poisoned if it is at it; no other row changes. The number returned is the number requeued, and a
  sweep without names leaves nothing in flight, whether or not the recording stage failed.
\<close>

theorem recover_claimed_rows:
  assumes "queue_inv st"
  shows "queue (snd (recover_claimed now hex workers st)) =
     map (\<lambda>r. if \<not> (in_flight (q_state r) \<and> owned_by workers r) then r
              else if q_attempts r < max_attempts st then requeued r
              else poisoned now (max_attempts st) ''crash recovery'' r) (queue st) \<and>
   (\<forall>n. fst (recover_claimed now hex workers st) = Inr n \<longrightarrow>
      n = count_where (\<lambda>r. in_flight (q_state r) \<and> owned_by workers r \<and> q_attempts r < max_attempts st) (queue st)) \<and>
   (workers = [] \<longrightarrow> (\<forall>r \<in> set (queue (snd (recover_claimed now hex workers st))). \<not> in_flight (q_state r)))"
proof -
  have rows: "queue (snd (recover_claimed now hex workers st)) =
     map (\<lambda>r. if \<not> (in_flight (q_state r) \<and> owned_by workers r) then r
              else if q_attempts r < max_attempts st then requeued r
              else poisoned now (max_attempts st) ''crash recovery'' r) (queue st)"
    unfolding recover_rows [OF assms] by (rule map_cong) (auto simp: swept_def)
  moreover have "\<forall>n. fst (recover_claimed now hex workers st) = Inr n \<longrightarrow>
      n = count_where (\<lambda>r. in_flight (q_state r) \<and> owned_by workers r \<and> q_attempts r < max_attempts st) (queue st)"
    using recover_count [OF assms] by (auto simp: swept_def)
  moreover have "workers = [] \<longrightarrow> (\<forall>r \<in> set (queue (snd (recover_claimed now hex workers st))). \<not> in_flight (q_state r))"
    unfolding rows by (auto simp: owned_by_def requeued_def poisoned_def in_flight_def)
  ultimately show ?thesis by blast
qed

definition hexes :: "nat \<Rightarrow> string" where
  "hexes n = (if n = 2 then ''0a1b2c'' else ''3d4e5f'')"

theorem recover_claimed_rows_witness:
  "list_all (\<lambda>r. \<not> in_flight (q_state r)) (queue (snd (recover_claimed T0 hexes [] demo)))"
  using recover_claimed_rows [OF demo_inv, of T0 hexes "[]"] unfolding list_all_iff by blast

text \<open>
  What the sweep records: it appends exactly one run, with status interrupted, the row's own
  source and kind and the row's claim stamp as its start, for every swept row that can be dated and
  has no run that started at or after its claim, in table order, and none for any other. It does
  finish whenever the ids it mints are new.
\<close>

theorem recover_claimed_records:
  assumes "queue_inv st" "ids_fresh now hex (swept_rows workers st) st"
  shows "\<exists>n st' new. recover_claimed now hex workers st = (Inr n, st') \<and> runs st' = runs st @ new \<and>
     map (\<lambda>run. (r_queue_id run, r_status run, r_started_at run, r_source run, r_kind run)) new =
     map (\<lambda>row. (Some (q_id row), ''interrupted'', start_stamp row, q_source row, Some (q_kind row)))
       (filter (\<lambda>row. start_stamp row \<noteq> [] \<and> \<not> already_recorded row (start_stamp row) st)
          (swept_rows workers st))"
proof -
  obtain n st' where run: "recover_claimed now hex workers st = (Inr n, st')"
    using recover_total [OF assms(2)] by blast
  then show ?thesis using recover_runs [OF assms(1) run]
    by (auto simp: run_key_def [abs_def] run_of_def [abs_def] unrecorded_def [abs_def])
qed

theorem recover_claimed_records_witness:
  "\<exists>n st' new. recover_claimed T0 hexes [''worker-0''] demo = (Inr n, st') \<and> runs st' = new \<and>
     map r_queue_id new = [Some 2, Some 6]"
proof -
  have stamp: "iso_utc T0 \<noteq> []" by (simp add: iso_eval)
  then have sw: "swept_rows [''worker-0''] demo = [demo_row 2 ''digest'' 30 Running 1, demo_row 6 ''digest'' 40 Running 3]"
    by (simp add: swept_rows_def demo_simps in_flight_def owned_by_def)
  have runs: "runs demo = []" by (simp add: demo_simps)
  have st: "start_stamp (demo_row n src p Running a) = iso_utc T0" for n src p a
    using stamp by (cases "iso_utc T0") (auto simp: start_stamp_def or_else_def demo_row_def)
  have "ids_fresh T0 hexes (swept_rows [''worker-0''] demo) demo"
    by (simp add: ids_fresh_def sw runs mint_def new_run_id_def hexes_def demo_row_def new_row_def)
  from recover_claimed_records [OF demo_inv this]
  obtain n st' new where res: "recover_claimed T0 hexes [''worker-0''] demo = (Inr n, st')" "runs st' = runs demo @ new"
    and map: "map (\<lambda>run. (r_queue_id run, r_status run, r_started_at run, r_source run, r_kind run)) new =
      map (\<lambda>row. (Some (q_id row), ''interrupted'', start_stamp row, q_source row, Some (q_kind row)))
        (filter (\<lambda>row. start_stamp row \<noteq> [] \<and> \<not> already_recorded row (start_stamp row) demo)
           (swept_rows [''worker-0''] demo))"
    by blast
  have "map r_queue_id new = map fst (map (\<lambda>run. (r_queue_id run, r_status run, r_started_at run, r_source run, r_kind run)) new)"
    by simp
  also have "\<dots> = [Some 2, Some 6]" unfolding map using stamp by (simp add: sw st already_recorded_def runs)
  finally show ?thesis using res runs by simp
qed

text \<open>
  A second sweep after the first finds nothing: it returns 0 and leaves the store, runs
  included, exactly as it was, so no attempt is billed twice.
\<close>

theorem recover_claimed_twice:
  assumes "queue_inv st"
  shows "recover_claimed now' hex' [] (snd (recover_claimed now hex [] st))
       = (Inr 0, snd (recover_claimed now hex [] st))"
  by (rule recover_nothing)
    (auto simp: recover_rows [OF assms] swept_def owned_by_def requeued_def poisoned_def in_flight_def)

theorem recover_claimed_twice_witness:
  "fst (recover_claimed (Suc T0) hexes [] (snd (recover_claimed T0 hexes [] demo))) = Inr 0"
  using recover_claimed_twice [OF demo_inv, of "Suc T0" hexes T0 hexes] by simp

section \<open>Triage\<close>

text \<open>
  C9. Quarantine is final unless somebody settles that very row: over every sequence of queue
  operations in which neither \<open>mark_completed\<close> nor \<open>mark_failed\<close> is called with the row's id (these
  two UPDATEs select by id alone and would rewrite it), a quarantined row stays in the table column for
  column, and no claim made afterwards returns its id; the pool settles only ids a claim returned.
\<close>

theorem quarantine_final:
  assumes "queue_inv st" "(qstep hi settled)\<^sup>*\<^sup>* st st'" "r \<in> set (queue st)" "q_state r = Quarantined" "q_id r \<notin> settled"
  shows "r \<in> set (queue st') \<and>
    (\<forall>it. fst (claim_next now worker quotas exclude st') = Inr (Some it) \<longrightarrow> i_id it \<noteq> q_id r)"
proof -
  have kept: "queue_inv st'" "r \<in> set (queue st')" using quarantine_steps [OF assms(2,1,3-5)] by auto
  have "i_id it \<noteq> q_id r" if "fst (claim_next now worker quotas exclude st') = Inr (Some it)" for it
  proof -
    have "claim_next now worker quotas exclude st' = (Inr (Some it), snd (claim_next now worker quotas exclude st'))"
      using that by (simp add: prod_eq_iff)
    from claim_next_row [OF kept(1) this]
    obtain row where row: "row \<in> set (queue st')" "q_state row = Queued" "i_id it = q_id row"
      by (auto simp: eligible_def claimed_def dest!: claimableD from_row_fields)
    then show ?thesis using queue_inv_unique [OF kept(1) row(1) kept(2)] assms(4) by auto
  qed
  with kept(2) show ?thesis by blast
qed

theorem quarantine_final_witness:
  "demo_row 5 ''sweep'' 50 Quarantined 3 \<in>
     set (queue (snd (recover_claimed T0 hexes [] (mark_completed T0 2 True None demo))))"
proof -
  have "qstep 3 {2} demo (mark_completed T0 2 True None demo)"
    by (rule step_completed) simp
  then have "(qstep 3 {2})\<^sup>*\<^sup>* demo (snd (recover_claimed T0 hexes [] (mark_completed T0 2 True None demo)))"
    by (intro rtranclp.rtrancl_into_rtrancl [OF r_into_rtranclp]) (auto intro: step_recover)
  from quarantine_final [OF demo_inv this demo_mem(3), of T0 "[]"] show ?thesis by simp
qed

section \<open>Run summaries\<close>

text \<open>
  \<open>shorten_summary\<close> with a limit of at least four (it is called with 500): the result always fits
  the limit and a text that fits comes back unchanged. A longer text is a prefix of at most
  \<open>limit - 3\<close> characters followed by the marker, and the prefix ends at a word boundary unless no
  word boundary is in reach; only when the whole window is blank is it a bare slice.
\<close>

theorem shorten_summary_fits:
  assumes "4 \<le> limit"
  shows "\<exists>s. shorten_summary body limit = Inr s \<and> length s \<le> limit \<and> (length body \<le> limit \<longrightarrow> s = body) \<and>
    (limit < length body \<longrightarrow>
      (\<exists>k. 0 < k \<and> k \<le> limit - 3 \<and> s = take k body @ ''...'' \<and>
        (is_space (body ! k) \<or>
         (k = limit - 3 \<and> (\<forall>i < k. is_space (body ! i) \<longrightarrow> (\<forall>j \<le> i. is_space (body ! j)))))) \<or>
      ((\<forall>i < limit - 3. is_space (body ! i)) \<and> s = take limit body))"
proof (cases "length body \<le> limit")
  case True
  then show ?thesis by (simp add: shorten_summary_def)
next
  case False
  then have long: "limit < length body" by simp
  from shorten_long [OF assms this] show ?thesis
  proof (elim disjE exE conjE)
    fix k assume k: "cut_ok body (limit - 3) k" "shorten_summary body limit = Inr (take k body @ SUMMARY_MARKER)"
    then show ?thesis using assms long
      by (intro exI [of _ "take k body @ ''...''"]) (auto simp: cut_ok_def SUMMARY_MARKER_def)
  next
    assume "\<forall>i < limit - 3. is_space (body ! i)" "shorten_summary body limit = Inr (take limit body)"
    then show ?thesis using long by (intro exI [of _ "take limit body"]) simp
  qed
qed

theorem shorten_summary_fits_witness:
  "\<exists>s. shorten_summary ''one two three'' 11 = Inr s \<and> length s \<le> 11"
  using shorten_summary_fits [of 11 "''one two three''"] by auto

end
