(* ===== verification/Queue_Reads.thy ===== *)
theory Queue_Reads
  imports Complex_Main Work_Queue
begin

text \<open>
  The read side of \<open>class WorkQueue\<close> (\<open>workers/queue.py\<close>): item and run listings, queue depth,
  pending waits, claim counts and the per-source run rollup the health route publishes, with the
  claim decoder of \<open>app/autonomy.py\<close> it calls. A dict the code builds is a partial map; an SQL
  aggregate is a count over the rows of the group. \<open>json_valid\<close> and \<open>json_extract\<close> act on the column
  values of theory \<open>Json\<close>.

  Rates are exact rationals where the code divides floats, and durations stay exact where the code
  rounds them for display (\<open>gpu_hours\<close> is the summed duration in microseconds here).
\<close>

section \<open>Items\<close>

definition get_item :: "nat \<Rightarrow> store \<Rightarrow> py_error + queue_item option" where
  "get_item n st = (case find (\<lambda>r. q_id r = n) (queue st) of None \<Rightarrow> Inr None
     | Some row \<Rightarrow> map_sum id Some (from_row row))"

fun items_of :: "queue_row list \<Rightarrow> py_error + queue_item list" where
  "items_of [] = Inr []"
| "items_of (r # rs) = (case from_row r of Inl e \<Rightarrow> Inl e
     | Inr it \<Rightarrow> map_sum id ((#) it) (items_of rs))"

definition newest_first :: "('r \<Rightarrow> string) \<Rightarrow> 'r \<Rightarrow> 'r \<Rightarrow> bool" where
  "newest_first stamp a b \<longleftrightarrow> text_le (stamp b) (stamp a)"

definition list_items :: "string \<Rightarrow> string \<Rightarrow> nat \<Rightarrow> store \<Rightarrow> py_error + queue_item list" where
  "list_items state src limit st =
     items_of (take limit (order_by (newest_first q_enqueued_at)
       (filter (\<lambda>r. (state = [] \<or> state_text (q_state r) = state) \<and> (src = [] \<or> q_source r = src)) (queue st))))"

definition depth_by_source :: "store \<Rightarrow> string \<rightharpoonup> (qstate \<rightharpoonup> nat)" where
  "depth_by_source st src =
     (if src \<in> q_source ` set (queue st)
      then Some (\<lambda>s. let n = count_where (\<lambda>r. q_source r = src \<and> q_state r = s) (queue st)
                     in if n = 0 then None else Some n)
      else None)"

section \<open>Pending waits\<close>

record wait_entry =
  max_wait :: int
  over_bound :: nat
  held_max_wait :: int
  held_over_bound :: nat

definition no_wait :: wait_entry where
  "no_wait = \<lparr>max_wait = 0, over_bound = 0, held_max_wait = 0, held_over_bound = 0\<rparr>"

text \<open>\<open>round(wait, 3)\<close> on microseconds: to the nearest millisecond, ties to even.\<close>

definition round_ms :: "int \<Rightarrow> int" where
  "round_ms w = (let q = w div 1000; r = w mod 1000
     in 1000 * (if r < 500 then q else if 500 < r then q + 1 else if even q then q else q + 1))"

definition count_wait :: "bool \<Rightarrow> int \<Rightarrow> int \<Rightarrow> wait_entry \<Rightarrow> wait_entry" where
  "count_wait is_held bound wait e =
     (if is_held
      then e\<lparr>held_max_wait := (if held_max_wait e < wait then round_ms wait else held_max_wait e),
             held_over_bound := (if bound < wait then Suc (held_over_bound e) else held_over_bound e)\<rparr>
      else e\<lparr>max_wait := (if max_wait e < wait then round_ms wait else max_wait e),
             over_bound := (if bound < wait then Suc (over_bound e) else over_bound e)\<rparr>)"

definition wait_of :: "nat \<Rightarrow> queue_row \<Rightarrow> int option" where
  "wait_of now r = (case parse_instant (q_enqueued_at r) of None \<Rightarrow> None
     | Some enq \<Rightarrow>
         (case iso_or_none (q_not_before r) of
            Some parked \<Rightarrow> if int now < parked then None else Some (int now - enq)
          | None \<Rightarrow> Some (int now - enq)))"

definition wait_step ::
    "int \<Rightarrow> nat \<Rightarrow> string set \<Rightarrow> queue_row \<Rightarrow> (string \<rightharpoonup> wait_entry) \<Rightarrow> (string \<rightharpoonup> wait_entry)" where
  "wait_step bound now held r out =
     (let e = (case out (q_source r) of None \<Rightarrow> no_wait | Some e \<Rightarrow> e)
      in out(q_source r \<mapsto> (case wait_of now r of None \<Rightarrow> e
           | Some w \<Rightarrow> count_wait (q_source r \<in> held) bound w e)))"

definition pending_wait_by_source :: "int \<Rightarrow> nat \<Rightarrow> string set \<Rightarrow> store \<Rightarrow> (string \<rightharpoonup> wait_entry)" where
  "pending_wait_by_source bound now held st =
     fold (wait_step bound now held) (filter (\<lambda>r. q_state r = Queued) (queue st)) Map.empty"

section \<open>Claim counts\<close>

definition claimed_since :: "string \<Rightarrow> string option \<Rightarrow> queue_row \<Rightarrow> bool" where
  "claimed_since since exclude r \<longleftrightarrow>
     (case q_claimed_at r of None \<Rightarrow> False | Some c \<Rightarrow> text_le since c) \<and>
     (case exclude of None \<Rightarrow> True | Some src \<Rightarrow> q_source r \<noteq> src)"

definition busiest_first :: "string \<times> nat \<Rightarrow> string \<times> nat \<Rightarrow> bool" where
  "busiest_first a b \<longleftrightarrow> snd b < snd a \<or> (snd a = snd b \<and> text_le (fst a) (fst b))"

definition claims_by_source :: "string \<Rightarrow> string option \<Rightarrow> store \<Rightarrow> (string \<times> nat) list" where
  "claims_by_source since exclude st =
     (let rows = filter (claimed_since since exclude) (queue st)
      in order_by busiest_first
           (map (\<lambda>src. (src, count_where (\<lambda>r. q_source r = src) rows)) (remdups (map q_source rows))))"

section \<open>Run listings\<close>

definition list_runs :: "string \<Rightarrow> string \<Rightarrow> nat \<Rightarrow> store \<Rightarrow> run_row list" where
  "list_runs src task limit st =
     take limit (order_by (newest_first r_completed_at)
       (filter (\<lambda>r. (src = [] \<or> r_source r = src) \<and> (task = [] \<or> r_task_id r = Some task)) (runs st)))"

definition min_text :: "string list \<Rightarrow> string option" where
  "min_text xs = first_min text_le xs"

definition max_text :: "string list \<Rightarrow> string option" where
  "max_text xs = first_min (\<lambda>a b. text_le b a) xs"

definition oldest_run_completed_at :: "string option \<Rightarrow> store \<Rightarrow> string option" where
  "oldest_run_completed_at src st =
     (case min_text (map r_completed_at (filter (\<lambda>r. case src of None \<Rightarrow> True | Some s \<Rightarrow> r_source r = s) (runs st))) of
        None \<Rightarrow> None | Some t \<Rightarrow> if t = [] then None else Some t)"

definition list_runs_joined :: "string \<Rightarrow> string \<Rightarrow> nat \<Rightarrow> store \<Rightarrow> (run_row \<times> jtext option) list" where
  "list_runs_joined src since limit st =
     take limit (order_by (newest_first (r_completed_at \<circ> fst))
       (map (\<lambda>r. (r, case r_queue_id r of None \<Rightarrow> None
                     | Some n \<Rightarrow> map_option q_payload_json (find (\<lambda>q. q_id q = n) (queue st))))
         (filter (\<lambda>r. r_source r = src \<and> text_le since (r_completed_at r)) (runs st))))"

section \<open>The claim decoder\<close>

definition row_claims :: "jtext option \<Rightarrow> (string \<times> json) list option" where
  "row_claims raw = (case non_empty raw of None \<Rightarrow> None | Some t \<Rightarrow> loads_or_none (Some t))"

definition ROLLUP_STATUSES :: "string list" where
  "ROLLUP_STATUSES = [''verified'', ''refuted'', ''insufficient'']"

definition claim_status :: "json \<Rightarrow> string" where
  "claim_status claim = (case claim of
     JObj kvs \<Rightarrow>
       (let v = dict_get kvs ''status''; s = (if truthy v then py_str v else [])
        in if s \<in> set ROLLUP_STATUSES then s else [])
   | _ \<Rightarrow> [])"

record tally =
  claims_checked :: nat
  claims_verified :: nat
  claims_refuted :: nat
  claims_insufficient :: nat

definition tally_zero :: tally where
  "tally_zero = \<lparr>claims_checked = 0, claims_verified = 0, claims_refuted = 0, claims_insufficient = 0\<rparr>"

definition tally_add :: "string \<Rightarrow> tally \<Rightarrow> tally" where
  "tally_add status t =
     (let u = (if status = ''verified'' then t\<lparr>claims_verified := Suc (claims_verified t)\<rparr>
               else if status = ''refuted'' then t\<lparr>claims_refuted := Suc (claims_refuted t)\<rparr>
               else t\<lparr>claims_insufficient := Suc (claims_insufficient t)\<rparr>)
      in u\<lparr>claims_checked := Suc (claims_checked u)\<rparr>)"

text \<open>
  \<open>for claim in bundle.get("claims") or []\<close>: what iterating the value yields, or the TypeError of a
  number or \<open>true\<close>.
\<close>

definition bundle_items :: "(string \<times> json) list \<Rightarrow> py_error + json list" where
  "bundle_items bundle =
     (let v = dict_get bundle ''claims'' in
      if \<not> truthy v then Inr []
      else case v of JArr vs \<Rightarrow> Inr vs
        | JObj kvs \<Rightarrow> Inr (map (JStr \<circ> fst) kvs)
        | JStr s \<Rightarrow> Inr (map (\<lambda>c. JStr [c]) s)
        | _ \<Rightarrow> Inl TypeError)"

definition tally_claims :: "json list \<Rightarrow> tally \<Rightarrow> tally" where
  "tally_claims items t =
     fold (\<lambda>c t. let s = claim_status c in if s = [] then t else tally_add s t) items t"

section \<open>The run rollup\<close>

definition json_extract :: "json \<Rightarrow> string \<Rightarrow> json" where
  "json_extract v k = (case v of JObj kvs \<Rightarrow> dict_get kvs k | _ \<Rightarrow> JNull)"

definition deadline_stopped :: "run_row \<Rightarrow> bool" where
  "deadline_stopped r = (case r_response_json r of JRaw _ \<Rightarrow> False
     | JDoc v \<Rightarrow> json_extract v ''deadline_stopped'' \<in> {JBool True, JInt 1})"

definition tasks_dropped :: "run_row \<Rightarrow> bool" where
  "tasks_dropped r = (case r_response_json r of JRaw _ \<Rightarrow> False
     | JDoc v \<Rightarrow> json_extract v ''matrix_dropped_tasks'' \<notin> {JNull, JArr [], JStr ''[]''})"

definition silent_value :: "run_row \<Rightarrow> int" where
  "silent_value r = (case r_meta_json r of
     Some (JDoc v) \<Rightarrow>
       (case json_extract v ''silent'' of JBool b \<Rightarrow> if b then 1 else 0 | JInt i \<Rightarrow> i | _ \<Rightarrow> 0)
   | _ \<Rightarrow> 0)"

definition is_failure :: "run_row \<Rightarrow> bool" where
  "is_failure r \<longleftrightarrow> r_status r = ''failed'' \<or> r_status r = ''interrupted''"

definition has_bundle :: "run_row \<Rightarrow> bool" where
  "has_bundle r \<longleftrightarrow> non_empty (r_claims_json r) \<noteq> None"

record kind_rollup =
  k_total :: nat
  k_failed :: nat
  k_fail_rate :: "rat option"

record rollup =
  ru_total :: nat
  ru_ok :: nat
  ru_failed :: nat
  ru_skipped :: nat
  ru_silent :: int
  ru_unfinished :: nat
  ru_deadline_cut :: nat
  ru_matrix_shrunk :: nat
  ru_with_bundle :: int
  ru_without_bundle :: int
  ru_tally :: tally
  ru_fail_rate :: "rat option"
  ru_duration :: int
  ru_last_completed :: "string option"
  ru_last_failure :: "string option"
  ru_consecutive :: nat
  ru_by_kind :: "string \<rightharpoonup> kind_rollup"

definition fail_rate :: "nat \<Rightarrow> nat \<Rightarrow> rat option" where
  "fail_rate f n = (if n = 0 then None else Some (of_nat f / of_nat n))"

definition window_rows :: "string \<Rightarrow> string \<Rightarrow> store \<Rightarrow> run_row list" where
  "window_rows since src st = filter (\<lambda>r. text_le since (r_completed_at r) \<and> r_source r = src) (runs st)"

definition last_success :: "run_row list \<Rightarrow> string" where
  "last_success rows =
     (case max_text (map r_completed_at (filter (\<lambda>r. r_status r = ''success'') rows)) of None \<Rightarrow> [] | Some t \<Rightarrow> t)"

definition failure_streak :: "run_row list \<Rightarrow> nat" where
  "failure_streak rows =
     count_where (\<lambda>r. is_failure r \<and> text_less (last_success rows) (r_completed_at r)) rows"

definition kind_group :: "run_row list \<Rightarrow> string option \<Rightarrow> kind_rollup" where
  "kind_group rows k =
     (let n = count_where (\<lambda>r. r_kind r = k) rows; f = count_where (\<lambda>r. is_failure r \<and> r_kind r = k) rows
      in \<lparr>k_total = n, k_failed = f, k_fail_rate = fail_rate f n\<rparr>)"

text \<open>The group of NULL comes first, so a literal \<open>__none__\<close> kind would overwrite it.\<close>

definition by_kind :: "run_row list \<Rightarrow> string \<rightharpoonup> kind_rollup" where
  "by_kind rows key =
     (if Some key \<in> r_kind ` set rows then Some (kind_group rows (Some key))
      else if key = NO_KIND \<and> None \<in> r_kind ` set rows then Some (kind_group rows None)
      else None)"

fun tally_bundles :: "run_row list \<Rightarrow> tally \<Rightarrow> py_error + tally" where
  "tally_bundles [] t = Inr t"
| "tally_bundles (r # rs) t =
     (case row_claims (r_claims_json r) of
        None \<Rightarrow> tally_bundles rs t
      | Some bundle \<Rightarrow>
          (case bundle_items bundle of Inl e \<Rightarrow> Inl e
           | Inr items \<Rightarrow> tally_bundles rs (tally_claims items t)))"

definition rollup_of :: "run_row list \<Rightarrow> tally \<Rightarrow> rollup" where
  "rollup_of rows ev =
     (let n = length rows; failed = count_where is_failure rows;
          with_bundle = int (count_where has_bundle rows)
            - int (count_where (\<lambda>r. has_bundle r \<and> row_claims (r_claims_json r) = None) rows)
      in \<lparr>ru_total = n, ru_ok = count_where (\<lambda>r. r_status r = ''success'') rows, ru_failed = failed,
          ru_skipped = count_where (\<lambda>r. r_status r = ''skipped'') rows,
          ru_silent = sum_list (map silent_value rows),
          ru_unfinished = count_where (\<lambda>r. deadline_stopped r \<or> tasks_dropped r) rows,
          ru_deadline_cut = count_where deadline_stopped rows,
          ru_matrix_shrunk = count_where (\<lambda>r. \<not> deadline_stopped r \<and> tasks_dropped r) rows,
          ru_with_bundle = with_bundle, ru_without_bundle = int n - with_bundle,
          ru_tally = ev, ru_fail_rate = fail_rate failed n,
          ru_duration = sum_list (map r_duration rows),
          ru_last_completed = max_text (map r_completed_at rows),
          ru_last_failure = max_text (map r_completed_at (filter is_failure rows)),
          ru_consecutive = failure_streak rows, ru_by_kind = by_kind rows\<rparr>)"

definition run_rollup_by_source :: "string \<Rightarrow> store \<Rightarrow> py_error + (string \<rightharpoonup> rollup)" where
  "run_rollup_by_source since st =
     (case tally_bundles (filter (\<lambda>r. text_le since (r_completed_at r)) (runs st)) tally_zero of Inl e \<Rightarrow> Inl e
      | Inr _ \<Rightarrow> Inr (\<lambda>src. let rows = window_rows since src st in
          if rows = [] then None
          else Some (rollup_of rows (projr (tally_bundles rows tally_zero)))))"

end
