(* ===== verification/Read_Theorems.thy ===== *)
theory Read_Theorems
  imports Queue_Reads Queue_Theorems
begin

text \<open>
  What the read side of the queue reports: the rollup's counts partition the window they are taken
  over, the failure streak is the newest-first walk it stands for, a pending wait is counted once
  and in the right pair of figures, and an item reads back as it was enqueued.
\<close>

section \<open>Extremes of text columns\<close>

lemma max_text_in: "max_text xs = Some m \<Longrightarrow> m \<in> set xs"
  by (simp add: max_text_def first_min_in)

lemma max_text_ge: "max_text xs = Some m \<Longrightarrow> x \<in> set xs \<Longrightarrow> text_le x m"
  unfolding max_text_def
  by (rule first_min_least [of "\<lambda>a b. text_le b a"]) (use text_le_total text_le_trans in blast)+

lemma max_text_None: "max_text xs = None \<longleftrightarrow> xs = []"
  by (simp add: max_text_def)

lemma max_text_set:
  assumes "set xs = set ys" shows "max_text xs = max_text ys"
proof (cases "xs = []")
  case True
  then show ?thesis using assms by simp
next
  case False
  then have "ys \<noteq> []" using assms by auto
  then obtain a b where m: "max_text xs = Some a" "max_text ys = Some b"
    using False max_text_None by (meson not_None_eq)
  have "text_le a b" using max_text_ge [OF m(2)] max_text_in [OF m(1)] assms by simp
  moreover have "text_le b a" using max_text_ge [OF m(1)] max_text_in [OF m(2)] assms by simp
  ultimately show ?thesis using m text_le_antisym by simp
qed

section \<open>The failure streak\<close>

fun streak_walk :: "run_row list \<Rightarrow> nat" where
  "streak_walk [] = 0"
| "streak_walk (r # rs) =
     (if r_status r = ''success'' then 0
      else if is_failure r then Suc (streak_walk rs) else streak_walk rs)"

lemma last_success_set: "set xs = set ys \<Longrightarrow> last_success xs = last_success ys"
  unfolding last_success_def using max_text_set [of "map r_completed_at (filter (\<lambda>r. r_status r = ''success'') xs)"
      "map r_completed_at (filter (\<lambda>r. r_status r = ''success'') ys)"] by auto

lemma last_success_in:
  "last_success rs = [] \<or> (\<exists>r \<in> set rs. r_status r = ''success'' \<and> last_success rs = r_completed_at r)"
  by (auto simp: last_success_def split: option.splits dest!: max_text_in)

lemma last_success_ge: "r \<in> set rs \<Longrightarrow> r_status r = ''success'' \<Longrightarrow> text_le (r_completed_at r) (last_success rs)"
  by (auto simp: last_success_def max_text_None filter_empty_conv split: option.splits intro: max_text_ge)

lemma last_success_Cons: "r_status r \<noteq> ''success'' \<Longrightarrow> last_success (r # rs) = last_success rs"
  by (simp add: last_success_def)

lemma streak_walk_sorted:
  "sorted_wrt (newest_first r_completed_at) rs \<Longrightarrow> distinct (map r_completed_at rs) \<Longrightarrow>
   \<forall>r \<in> set rs. r_completed_at r \<noteq> [] \<Longrightarrow> streak_walk rs = failure_streak rs"
proof (induction rs)
  case (Cons r rs)
  show ?case
  proof (cases "r_status r = ''success''")
    case True
    have "text_le (r_completed_at x) (last_success (r # rs))" if "x \<in> set (r # rs)" for x
      using that Cons.prems(1) True last_success_ge [of r "r # rs"] text_le_trans
      by (auto simp: newest_first_def)
    then have "\<not> text_less (last_success (r # rs)) (r_completed_at x)" if "x \<in> set (r # rs)" for x
      using that not_text_le by blast
    then have "failure_streak (r # rs) = 0"
      unfolding failure_streak_def count_where_def length_0_conv filter_empty_conv by blast
    then show ?thesis using True by simp
  next
    case False
    have "text_less (last_success rs) (r_completed_at r)"
    proof (cases "last_success rs = []")
      case True
      then show ?thesis using Cons.prems(3) by (cases "r_completed_at r") auto
    next
      case False
      then obtain x where x: "x \<in> set rs" "last_success rs = r_completed_at x" using last_success_in by blast
      then have "text_le (r_completed_at x) (r_completed_at r)" "r_completed_at x \<noteq> r_completed_at r"
        using Cons.prems(1,2) by (auto simp: newest_first_def image_iff)
      then show ?thesis using x by (simp add: text_le_def)
    qed
    moreover have "streak_walk rs = failure_streak rs" using Cons by simp
    ultimately show ?thesis using False
      by (simp add: failure_streak_def last_success_Cons)
  qed
qed (simp add: failure_streak_def)

lemma newest_first_total: "newest_first s a b \<or> newest_first s b a"
  using text_le_total by (auto simp: newest_first_def)

lemma newest_first_trans: "newest_first s a b \<Longrightarrow> newest_first s b c \<Longrightarrow> newest_first s a c"
  using text_le_trans by (auto simp: newest_first_def)

lemma distinct_map_order_by: "distinct (map f (order_by le xs)) = distinct (map f xs)"
  by (simp add: distinct_map)

section \<open>Tallies and groups\<close>

definition tally_ok :: "tally \<Rightarrow> bool" where
  "tally_ok t \<longleftrightarrow> claims_verified t + claims_refuted t + claims_insufficient t = claims_checked t"

lemma tally_ok_add: "tally_ok t \<Longrightarrow> tally_ok (tally_add s t)"
  by (simp add: tally_ok_def tally_add_def Let_def)

lemma tally_ok_claims: "tally_ok t \<Longrightarrow> tally_ok (tally_claims items t)"
  unfolding tally_claims_def by (induction items arbitrary: t) (auto simp: Let_def tally_ok_add)

lemma tally_ok_bundles: "tally_ok t \<Longrightarrow> tally_bundles rows t = Inr t' \<Longrightarrow> tally_ok t'"
  by (induction rows t rule: tally_bundles.induct) (auto split: option.splits sum.splits intro: tally_ok_claims)

lemma tally_bundles_filter:
  "tally_bundles rows t = Inr t' \<Longrightarrow> \<exists>u'. tally_bundles (filter p rows) u = Inr u'"
  by (induction rows t arbitrary: u rule: tally_bundles.induct) (auto split: option.splits sum.splits)

lemma count_disjoint:
  "(\<And>r. \<not> (p r \<and> q r)) \<Longrightarrow> count_where (\<lambda>r. p r \<or> q r) rows = count_where p rows + count_where q rows"
  by (induction rows) auto

definition kind_key :: "run_row \<Rightarrow> string" where
  "kind_key r = (case r_kind r of None \<Rightarrow> NO_KIND | Some k \<Rightarrow> k)"

lemma by_kind_key:
  assumes "Some NO_KIND \<notin> r_kind ` set rows" "r \<in> set rows"
  shows "by_kind rows (kind_key r) = Some (kind_group rows (r_kind r))"
proof (cases "r_kind r")
  case None
  then have "None \<in> r_kind ` set rows" using assms(2) by (metis image_eqI)
  then show ?thesis using None assms(1) by (simp add: by_kind_def kind_key_def)
next
  case (Some k)
  then have "Some k \<in> r_kind ` set rows" using assms(2) by (metis image_eqI)
  then show ?thesis using Some by (simp add: by_kind_def kind_key_def)
qed

lemma sum_by_key:
  "set ks = key ` set rows \<Longrightarrow> distinct ks \<Longrightarrow>
   (\<Sum>k \<leftarrow> ks. count_where (\<lambda>r. p r \<and> key r = k) rows) = count_where p rows"
proof -
  have "(\<Sum>k \<leftarrow> ks. count_where (\<lambda>r. p r \<and> key r = k) rows)
      = count_where (\<lambda>r. p r \<and> key r \<in> set ks) rows" if "distinct ks" for ks
    using that
  proof (induction ks)
    case (Cons k ks)
    have "count_where (\<lambda>r. p r \<and> key r \<in> set (k # ks)) rows
        = count_where (\<lambda>r. (p r \<and> key r = k) \<or> (p r \<and> key r \<in> set ks)) rows"
      by (rule arg_cong [where f = "\<lambda>p. count_where p rows"]) auto
    also have "\<dots> = count_where (\<lambda>r. p r \<and> key r = k) rows + count_where (\<lambda>r. p r \<and> key r \<in> set ks) rows"
      using Cons.prems by (intro count_disjoint) auto
    finally show ?case using Cons by simp
  qed (simp add: count_where_def)
  moreover assume "set ks = key ` set rows" "distinct ks"
  moreover have "count_where (\<lambda>r. p r \<and> key r \<in> key ` set rows) rows = count_where p rows"
    unfolding count_where_def by (rule arg_cong [where f = length]) (auto intro: filter_cong)
  ultimately show ?thesis by simp
qed

lemma kind_key_eq:
  assumes "Some NO_KIND \<notin> r_kind ` set rows" "r \<in> set rows" "s \<in> set rows"
  shows "kind_key s = kind_key r \<longleftrightarrow> r_kind s = r_kind r"
proof -
  have "r_kind r \<noteq> Some NO_KIND" "r_kind s \<noteq> Some NO_KIND" using assms by (metis image_eqI)+
  then show ?thesis by (auto simp: kind_key_def split: option.splits)
qed

lemma kind_group_counts:
  assumes "Some NO_KIND \<notin> r_kind ` set rows" "r \<in> set rows"
  shows "k_total (kind_group rows (r_kind r)) = count_where (\<lambda>s. True \<and> kind_key s = kind_key r) rows"
    "k_failed (kind_group rows (r_kind r)) = count_where (\<lambda>s. is_failure s \<and> kind_key s = kind_key r) rows"
  using kind_key_eq [OF assms] unfolding kind_group_def Let_def count_where_def
  by (auto intro!: arg_cong [where f = length] filter_cong)

lemma by_kind_sums:
  assumes "Some NO_KIND \<notin> r_kind ` set rows"
  defines "ks \<equiv> remdups (map kind_key rows)"
  shows "(\<Sum>k \<leftarrow> ks. k_total (the (by_kind rows k))) = length rows"
    "(\<Sum>k \<leftarrow> ks. k_failed (the (by_kind rows k))) = count_where is_failure rows"
    "dom (by_kind rows) = set ks"
proof -
  have ks: "set ks = kind_key ` set rows" "distinct ks" by (auto simp: ks_def)
  have at: "k_total (the (by_kind rows k)) = count_where (\<lambda>s. True \<and> kind_key s = k) rows \<and>
      k_failed (the (by_kind rows k)) = count_where (\<lambda>s. is_failure s \<and> kind_key s = k) rows"
    if "k \<in> set ks" for k
    using that ks(1) by_kind_key [OF assms(1)] kind_group_counts [OF assms(1)] by auto
  have "(\<Sum>k \<leftarrow> ks. k_total (the (by_kind rows k))) = (\<Sum>k \<leftarrow> ks. count_where (\<lambda>s. True \<and> kind_key s = k) rows)"
    using at by (intro arg_cong [where f = sum_list] map_cong) auto
  also have "\<dots> = count_where (\<lambda>_. True) rows" using sum_by_key [OF ks] .
  finally show "(\<Sum>k \<leftarrow> ks. k_total (the (by_kind rows k))) = length rows" by (simp add: count_where_def)
  have "(\<Sum>k \<leftarrow> ks. k_failed (the (by_kind rows k))) = (\<Sum>k \<leftarrow> ks. count_where (\<lambda>s. is_failure s \<and> kind_key s = k) rows)"
    using at by (intro arg_cong [where f = sum_list] map_cong) auto
  also have "\<dots> = count_where is_failure rows" using sum_by_key [OF ks] .
  finally show "(\<Sum>k \<leftarrow> ks. k_failed (the (by_kind rows k))) = count_where is_failure rows" .
  show "dom (by_kind rows) = set ks"
  proof
    show "set ks \<subseteq> dom (by_kind rows)" using by_kind_key [OF assms(1)] ks(1) by auto
    show "dom (by_kind rows) \<subseteq> set ks"
    proof
      fix k assume "k \<in> dom (by_kind rows)"
      then have "Some k \<in> r_kind ` set rows \<or> (k = NO_KIND \<and> None \<in> r_kind ` set rows)"
        by (auto simp: by_kind_def split: if_splits)
      then show "k \<in> set ks" unfolding ks(1) by (force simp: kind_key_def image_iff split: option.splits)
    qed
  qed
qed

section \<open>Pending waits\<close>

lemma round_ms_near: "w - 500 \<le> round_ms w" "round_ms w \<le> w + 500"
proof -
  have near: "w - 500 \<le> round_ms w \<and> round_ms w \<le> w + 500"
    if "w = 1000 * q + r" "w div 1000 = q" "w mod 1000 = r" "0 \<le> r" "r < 1000" for q r
    using that(1,4,5) unfolding round_ms_def Let_def that(2,3) by (auto split: if_splits)
  have "w = 1000 * (w div 1000) + w mod 1000" "0 \<le> w mod 1000" "w mod 1000 < 1000" by simp_all
  with near [OF _ refl refl] show "w - 500 \<le> round_ms w" "round_ms w \<le> w + 500" by blast+
qed

lemma round_ms_mono: "1000 * k < w \<Longrightarrow> 1000 * k \<le> round_ms w"
proof -
  assume "1000 * k < w"
  then have "k \<le> w div 1000" by (simp add: zdiv_mono1 [of "1000 * k" w 1000, simplified] less_imp_le)
  then show ?thesis unfolding round_ms_def Let_def by auto
qed

lemma round_ms_dvd: "1000 dvd round_ms w"
  unfolding round_ms_def Let_def by simp

definition waits :: "nat \<Rightarrow> string \<Rightarrow> queue_row list \<Rightarrow> int list" where
  "waits now src rows = List.map_filter (wait_of now) (filter (\<lambda>r. q_source r = src) rows)"

text \<open>One figure and one count over a list of waits, as \<open>count_wait\<close> accumulates them.\<close>

definition wait_figures :: "int \<Rightarrow> int list \<Rightarrow> int \<Rightarrow> nat \<Rightarrow> bool" where
  "wait_figures bound ws m n \<longleftrightarrow> n = count_where (\<lambda>w. bound < w) ws \<and> 0 \<le> m \<and> 1000 dvd m \<and>
     (\<forall>w \<in> set ws. w \<le> m + 500) \<and> (m = 0 \<or> (\<exists>w \<in> set ws. m = round_ms w))"

lemma wait_figures_snoc:
  assumes "wait_figures bound ws m n"
  shows "wait_figures bound (ws @ [w]) (if m < w then round_ms w else m) (if bound < w then Suc n else n)"
proof (cases "m < w")
  case True
  obtain k where k: "m = 1000 * k" using assms by (auto simp: wait_figures_def dvd_def)
  then have "m \<le> round_ms w" using round_ms_mono [of k w] True by simp
  then show ?thesis using assms True round_ms_near [of w] round_ms_dvd [of w]
    by (auto simp: wait_figures_def)
next
  case False
  then show ?thesis using assms by (auto simp: wait_figures_def)
qed

definition wait_entry_ok :: "int \<Rightarrow> bool \<Rightarrow> int list \<Rightarrow> wait_entry \<Rightarrow> bool" where
  "wait_entry_ok bound is_held ws e \<longleftrightarrow>
     (if is_held then wait_figures bound ws (held_max_wait e) (held_over_bound e) \<and> max_wait e = 0 \<and> over_bound e = 0
      else wait_figures bound ws (max_wait e) (over_bound e) \<and> held_max_wait e = 0 \<and> held_over_bound e = 0)"

lemma wait_entry_ok_empty: "wait_entry_ok bound h [] no_wait"
  by (simp add: wait_entry_ok_def wait_figures_def no_wait_def)

lemma wait_entry_ok_count:
  "wait_entry_ok bound h ws e \<Longrightarrow> wait_entry_ok bound h (ws @ [w]) (count_wait h bound w e)"
  using wait_figures_snoc [of bound ws] by (cases h) (simp_all add: wait_entry_ok_def count_wait_def)

lemma waits_snoc:
  "waits now src (rows @ [r]) = waits now src rows @
     (if q_source r = src then (case wait_of now r of None \<Rightarrow> [] | Some w \<Rightarrow> [w]) else [])"
  by (simp add: waits_def map_filter_def split: option.splits)

lemma wait_fold:
  "case fold (wait_step bound now hs) rows Map.empty src of
     None \<Rightarrow> src \<notin> q_source ` set rows
   | Some e \<Rightarrow> src \<in> q_source ` set rows \<and> wait_entry_ok bound (src \<in> hs) (waits now src rows) e"
proof (induction rows rule: rev_induct)
  case (snoc r rows)
  let ?out = "fold (wait_step bound now hs) rows Map.empty"
  show ?case
  proof (cases "q_source r = src")
    case False
    then have "wait_step bound now hs r ?out src = ?out src" by (simp add: wait_step_def Let_def)
    then show ?thesis using snoc False by (simp add: waits_snoc split: option.splits)
  next
    case True
    let ?e = "case ?out src of None \<Rightarrow> no_wait | Some e \<Rightarrow> e"
    have "wait_entry_ok bound (src \<in> hs) (waits now src rows) ?e"
    proof (cases "?out src")
      case None
      then have "src \<notin> q_source ` set rows" using snoc by simp
      then have "waits now src rows = []" by (auto simp: waits_def map_filter_def filter_empty_conv)
      then show ?thesis using None by (simp add: wait_entry_ok_empty)
    next
      case (Some e)
      then show ?thesis using snoc by simp
    qed
    moreover have "wait_step bound now hs r ?out src =
        Some (case wait_of now r of None \<Rightarrow> ?e | Some w \<Rightarrow> count_wait (src \<in> hs) bound w ?e)"
      using True by (auto simp: wait_step_def Let_def split: option.splits)
    ultimately show ?thesis using True
      by (cases "wait_of now r") (simp_all add: waits_snoc wait_entry_ok_count)
  qed
qed simp

section \<open>Properties\<close>

text \<open>
  The rollup of a source partitions its window: successes, failures and skips are disjoint
  parts of the total; the runs that left their matrix unfinished are exactly the deadline cuts plus
  the shrinks; runs with and without a bundle add up to the total; the claims checked are the
  verified, refuted and insufficient ones; the streak is at most the failures; and there is a last
  failure exactly when something failed.
\<close>

theorem rollup_partition:
  assumes "run_rollup_by_source since st = Inr m" "m src = Some ro"
  shows "ru_total ro = count_where (\<lambda>r. r_source r = src \<and> text_le since (r_completed_at r)) (runs st) \<and>
    0 < ru_total ro \<and> ru_ok ro + ru_failed ro + ru_skipped ro \<le> ru_total ro \<and>
    ru_unfinished ro = ru_deadline_cut ro + ru_matrix_shrunk ro \<and>
    ru_with_bundle ro + ru_without_bundle ro = int (ru_total ro) \<and> 0 \<le> ru_with_bundle ro \<and> 0 \<le> ru_without_bundle ro \<and>
    claims_verified (ru_tally ro) + claims_refuted (ru_tally ro) + claims_insufficient (ru_tally ro)
      = claims_checked (ru_tally ro) \<and>
    ru_consecutive ro \<le> ru_failed ro \<and> (ru_last_failure ro = None \<longleftrightarrow> ru_failed ro = 0) \<and>
    ru_fail_rate ro = Some (of_nat (ru_failed ro) / of_nat (ru_total ro))"
proof -
  define rows where "rows = window_rows since src st"
  obtain t where t: "tally_bundles (filter (\<lambda>r. text_le since (r_completed_at r)) (runs st)) tally_zero = Inr t"
    using assms(1) by (auto simp: run_rollup_by_source_def split: sum.splits)
  then have m: "rows \<noteq> [] \<and> ro = rollup_of rows (projr (tally_bundles rows tally_zero))"
    using assms by (auto simp: run_rollup_by_source_def Let_def rows_def split: if_splits)
  have sub: "rows = filter (\<lambda>r. r_source r = src) (filter (\<lambda>r. text_le since (r_completed_at r)) (runs st))"
    by (simp add: rows_def window_rows_def conj_commute)
  obtain ev where ev: "tally_bundles rows tally_zero = Inr ev" using tally_bundles_filter [OF t] sub by metis
  have "tally_ok ev" using tally_ok_bundles [OF _ ev] by (simp add: tally_ok_def tally_zero_def)
  moreover have "count_where (\<lambda>r. r_status r = ''success'') rows + count_where is_failure rows
      + count_where (\<lambda>r. r_status r = ''skipped'') rows \<le> length rows"
    by (induction rows) (auto simp: is_failure_def)
  moreover have "count_where (\<lambda>r. deadline_stopped r \<or> tasks_dropped r) rows =
      count_where deadline_stopped rows + count_where (\<lambda>r. \<not> deadline_stopped r \<and> tasks_dropped r) rows"
    by (induction rows) auto
  moreover have "count_where (\<lambda>r. has_bundle r \<and> row_claims (r_claims_json r) = None) rows \<le> count_where has_bundle rows"
    by (rule count_where_mono) simp
  moreover have "failure_streak rows \<le> count_where is_failure rows"
    unfolding failure_streak_def by (rule count_where_mono) simp
  moreover have "length rows = count_where (\<lambda>r. r_source r = src \<and> text_le since (r_completed_at r)) (runs st)"
    by (simp add: rows_def window_rows_def count_where_def conj_commute)
  moreover have "max_text (map r_completed_at (filter is_failure rows)) = None \<longleftrightarrow> count_where is_failure rows = 0"
    by (simp add: max_text_None count_where_def)
  moreover have "0 < length rows" using m by simp
  ultimately show ?thesis using count_where_le [of has_bundle rows]
    by (simp add: conjunct2 [OF m] rollup_of_def Let_def ev tally_ok_def fail_rate_def)
qed

definition sample_run :: "nat \<Rightarrow> string \<Rightarrow> string option \<Rightarrow> json \<Rightarrow> run_row" where
  "sample_run n status kd response = \<lparr>r_run_id = [char_of (n + 65)], r_queue_id = None, r_source = ''s'', r_task_id = None,
     r_status = status, r_started_at = iso_utc T0, r_completed_at = iso_utc (T0 + n), r_duration = 5,
     r_summary = [], r_artifact_path = [], r_response_json = JDoc response, r_meta_json = None,
     r_claims_json = Some (JDoc (JObj [(''claims'', JArr [JObj [(''status'', JStr ''refuted'')]])])), r_kind = kd\<rparr>"

definition sample_runs :: "run_row list" where
  "sample_runs = [sample_run 3 ''failed'' (Some ''paper'') (JObj [(''deadline_stopped'', JBool True)]),
     sample_run 1 ''success'' (Some ''video'') JNull, sample_run 4 ''interrupted'' None JNull]"

lemmas sample_simps = sample_runs_def sample_run_def demo_simps

lemma sample_rollup:
  "\<exists>m ro. run_rollup_by_source (iso_utc T0) (demo\<lparr>runs := sample_runs\<rparr>) = Inr m \<and> m ''s'' = Some ro"
  by (simp add: run_rollup_by_source_def window_rows_def sample_simps row_claims_def non_empty_def
      column_text_def string_text_def escape_char_def loads_or_none_def loads_def as_obj_def bundle_items_def dict_get_def Let_def)

theorem rollup_partition_witness:
  "\<exists>m ro. run_rollup_by_source (iso_utc T0) (demo\<lparr>runs := sample_runs\<rparr>) = Inr m \<and> m ''s'' = Some ro \<and>
     ru_ok ro + ru_failed ro + ru_skipped ro \<le> ru_total ro \<and> ru_unfinished ro = ru_deadline_cut ro + ru_matrix_shrunk ro"
  using sample_rollup rollup_partition by blast

text \<open>
  The per-kind split is a partition: as long as no run is literally of kind \<open>__none__\<close>, the
  kinds listed are exactly the kinds of the window, and the per-kind totals and failures add up to
  the source's.
\<close>

theorem rollup_by_kind_sums:
  assumes "run_rollup_by_source since st = Inr m" "m src = Some ro"
    "\<forall>r \<in> set (runs st). r_kind r \<noteq> Some NO_KIND"
  shows "\<exists>ks. distinct ks \<and> dom (ru_by_kind ro) = set ks \<and>
    (\<Sum>k \<leftarrow> ks. k_total (the (ru_by_kind ro k))) = ru_total ro \<and>
    (\<Sum>k \<leftarrow> ks. k_failed (the (ru_by_kind ro k))) = ru_failed ro"
proof -
  define rows where "rows = window_rows since src st"
  have ro: "ro = rollup_of rows (projr (tally_bundles rows tally_zero))"
    using assms(1,2) by (auto simp: run_rollup_by_source_def Let_def rows_def split: sum.splits if_splits)
  have "Some NO_KIND \<notin> r_kind ` set rows" using assms(3) by (fastforce simp: rows_def window_rows_def)
  from by_kind_sums [OF this] show ?thesis unfolding ro
    by (intro exI [of _ "remdups (map kind_key rows)"]) (simp add: rollup_of_def Let_def)
qed

theorem rollup_by_kind_sums_witness:
  "\<exists>m ro ks. run_rollup_by_source (iso_utc T0) (demo\<lparr>runs := sample_runs\<rparr>) = Inr m \<and> m ''s'' = Some ro \<and>
     (\<Sum>k \<leftarrow> ks. k_total (the (ru_by_kind ro k))) = ru_total ro"
proof -
  have "\<forall>r \<in> set (runs (demo\<lparr>runs := sample_runs\<rparr>)). r_kind r \<noteq> Some NO_KIND"
    by (simp add: sample_runs_def sample_run_def NO_KIND_def)
  then show ?thesis using sample_rollup rollup_by_kind_sums by blast
qed

text \<open>
  \<open>consecutive_failures\<close>, which the rollup computes as one aggregate, is the newest-first walk it
  replaces: with no two runs of the window completing at the same stamp, it is the number of
  failures met before the first success, other statuses passed over.
\<close>

theorem failure_streak_is_walk:
  assumes "distinct (map r_completed_at rows)" "\<forall>r \<in> set rows. r_completed_at r \<noteq> []"
  shows "failure_streak rows = streak_walk (order_by (newest_first r_completed_at) rows)"
proof -
  let ?s = "order_by (newest_first r_completed_at) rows"
  have "sorted_wrt (newest_first r_completed_at) ?s"
    by (rule sorted_order_by [OF newest_first_total newest_first_trans])
  moreover have "distinct (map r_completed_at ?s)" "\<forall>r \<in> set ?s. r_completed_at r \<noteq> []"
    using assms by (simp_all add: distinct_map)
  ultimately have "streak_walk ?s = failure_streak ?s" by (rule streak_walk_sorted)
  also have "\<dots> = failure_streak rows"
    using last_success_set [of ?s rows] by (simp add: failure_streak_def)
  finally show ?thesis by simp
qed

theorem failure_streak_is_walk_witness:
  "failure_streak sample_runs = streak_walk (order_by (newest_first r_completed_at) sample_runs)"
proof (rule failure_streak_is_walk)
  show "distinct (map r_completed_at sample_runs)" by (simp add: sample_simps)
  have "iso_utc n \<noteq> []" for n by (simp add: iso_utc_def isoformat_def Let_def)
  then show "\<forall>r \<in> set sample_runs. r_completed_at r \<noteq> []" by (simp add: sample_simps)
qed

text \<open>
  Pending waits: a source is listed exactly when it has a queued row; the count is the number of
  its queued rows that are datable, not parked and past the bound; the wait reported is a wait of
  one of them to the nearest millisecond and none exceeds it by more than half a millisecond; and
  all of it is in the held figures exactly when the source is held, the other pair staying zero.
\<close>

theorem pending_wait_exact:
  "case pending_wait_by_source bound now hs st src of
     None \<Rightarrow> \<forall>r \<in> set (queue st). q_state r = Queued \<longrightarrow> q_source r \<noteq> src
   | Some e \<Rightarrow>
       let ws = waits now src (filter (\<lambda>r. q_state r = Queued) (queue st));
           (m, n, m', n') = (if src \<in> hs then (held_max_wait e, held_over_bound e, max_wait e, over_bound e)
                             else (max_wait e, over_bound e, held_max_wait e, held_over_bound e))
       in n = count_where (\<lambda>w. bound < w) ws \<and> (\<forall>w \<in> set ws. w \<le> m + 500) \<and>
          (m = 0 \<or> (\<exists>w \<in> set ws. m = round_ms w)) \<and> m' = 0 \<and> n' = 0"
  using wait_fold [where bound = bound and now = now and hs = hs and src = src and
      rows = "filter (\<lambda>r. q_state r = Queued) (queue st)"]
  by (auto simp: pending_wait_by_source_def wait_entry_ok_def wait_figures_def Let_def split: option.splits)

theorem pending_wait_exact_witness:
  "case pending_wait_by_source 3600000000 (T0 + 7200000000) {} demo ''research'' of
     None \<Rightarrow> False | Some e \<Rightarrow> over_bound e = 1"
  using pending_wait_exact [where bound = 3600000000 and now = "T0 + 7200000000" and hs = "{}" and st = demo
      and src = "''research''"]
  by (simp add: pending_wait_by_source_def demo_simps wait_step_def wait_of_def iso_or_none_def
      count_wait_def no_wait_def Let_def)

text \<open>
  \<open>claims_by_source\<close> lists every source once, busiest first and ties by name, with the number of
  its rows claimed since the stamp whatever has become of them, and the counts add up to all such
  rows.
\<close>

theorem claims_by_source_spec:
  "sorted_wrt busiest_first (claims_by_source since exclude st) \<and>
   distinct (map fst (claims_by_source since exclude st)) \<and>
   set (claims_by_source since exclude st) =
     (\<lambda>src. (src, count_where (\<lambda>r. claimed_since since exclude r \<and> q_source r = src) (queue st)))
       ` q_source ` {r \<in> set (queue st). claimed_since since exclude r}"
proof -
  have total: "busiest_first a b \<or> busiest_first b a" for a b
    using text_le_total by (auto simp: busiest_first_def)
  have trans: "busiest_first a b \<Longrightarrow> busiest_first b c \<Longrightarrow> busiest_first a c" for a b c
    using text_le_trans by (auto simp: busiest_first_def)
  have "count_where (\<lambda>r. q_source r = src) (filter (claimed_since since exclude) (queue st)) =
      count_where (\<lambda>r. claimed_since since exclude r \<and> q_source r = src) (queue st)" for src
    by (simp add: count_where_def conj_commute)
  then show ?thesis
    using sorted_order_by [of busiest_first, OF total trans]
    by (simp add: claims_by_source_def Let_def distinct_map_order_by comp_def image_image)
qed

text \<open>
  What is enqueued reads back: after an enqueue that stored a row, \<open>get\<close> of the returned id gives
  the item with the source, kind, priority, payload and key that went in, queued and at attempt 0.
\<close>

theorem enqueue_get_roundtrip:
  assumes "queue_inv st" "enqueue now src kd payload prio dedup st = Inr (Some n, st')"
  shows "\<exists>it. get_item n st' = Inr (Some it) \<and> i_id it = n \<and> i_source it = src \<and> i_kind it = kd \<and>
    i_priority it = prio \<and> i_payload it = JObj payload \<and> i_dedup_key it = dedup \<and> i_state it = Queued \<and>
    i_attempts it = 0 \<and> i_enqueued_at it = now_iso now"
proof -
  have "\<exists>s. insert_queue now src kd payload prio dedup s = Inr (Some n, st')"
    using assms(2) by (auto simp: enqueue_def split: option.splits list.splits if_splits)
  then obtain s where s: "insert_queue now src kd payload prio dedup s = Inr (Some n, st')"
    by blast
  then have mem: "new_row now src kd payload prio dedup n \<in> set (queue st')"
    by (auto simp: insert_queue_def Let_def split: if_splits)
  have "find (\<lambda>x. q_id x = q_id (new_row now src kd payload prio dedup n)) (queue st')
      = Some (new_row now src kd payload prio dedup n)"
    using queue_inv_find [OF queue_inv_enqueue [OF assms] mem] .
  then have "find (\<lambda>x. q_id x = n) (queue st') = Some (new_row now src kd payload prio dedup n)"
    by (simp add: new_row_def)
  then show ?thesis
    by (simp add: get_item_def from_row_def new_row_def column_text_def loads_def)
qed

theorem enqueue_get_roundtrip_witness:
  "\<exists>n st' it. enqueue T0 ''a'' ''k'' [(''task_id'', JInt 7)] 40 None demo = Inr (Some n, st') \<and>
     get_item n st' = Inr (Some it) \<and> i_payload it = JObj [(''task_id'', JInt 7)]"
proof -
  have "\<exists>n st'. enqueue T0 ''a'' ''k'' [(''task_id'', JInt 7)] 40 None demo = Inr (Some n, st')"
    by (simp add: enqueue_def insert_queue_def Let_def)
  then show ?thesis using enqueue_get_roundtrip [OF demo_inv] by blast
qed

end
