(* ===== verification/Journals.thy ===== *)
theory Journals
  imports Work_Queue
begin

text \<open>
  The rest of \<open>workers.db\<close> (\<open>workers/queue.py\<close>): the watermarks, which are a keyed store, and the two
  append-only hold journals, in which a lift or a release names the take or engage it closes. The
  interface of a keyed store and of a stack of open holds are locales; the watermark and pause
  journal operations are their interpretations.
\<close>

section \<open>Watermarks\<close>

definition wm_at :: "string \<Rightarrow> string \<Rightarrow> watermark_row \<Rightarrow> bool" where
  "wm_at src key r \<longleftrightarrow> w_source r = src \<and> w_key r = key"

definition wm_get :: "string \<Rightarrow> string \<Rightarrow> store \<Rightarrow> jtext option" where
  "wm_get src key st = map_option w_value (find (wm_at src key) (watermarks st))"

definition wm_updated_at :: "string \<Rightarrow> string \<Rightarrow> store \<Rightarrow> string option" where
  "wm_updated_at src key st = map_option w_updated_at (find (wm_at src key) (watermarks st))"

definition wm_keys :: "string \<Rightarrow> store \<Rightarrow> string list" where
  "wm_keys src st = map w_key (filter (\<lambda>r. w_source r = src) (watermarks st))"

definition wm_all :: "string \<Rightarrow> store \<Rightarrow> (string \<times> jtext) list" where
  "wm_all src st = map (\<lambda>r. (w_key r, w_value r)) (filter (\<lambda>r. w_source r = src) (watermarks st))"

definition wm_delete :: "string \<Rightarrow> string \<Rightarrow> store \<Rightarrow> store" where
  "wm_delete src key st = st\<lparr>watermarks := filter (\<lambda>r. \<not> wm_at src key r) (watermarks st)\<rparr>"

definition wm_set :: "nat \<Rightarrow> string \<Rightarrow> string \<Rightarrow> jtext \<Rightarrow> store \<Rightarrow> store" where
  "wm_set now src key v st =
     (if list_ex (wm_at src key) (watermarks st)
      then st\<lparr>watermarks := upd_where (wm_at src key)
               (\<lambda>r. r\<lparr>w_value := v, w_updated_at := now_iso now\<rparr>) (watermarks st)\<rparr>
      else st\<lparr>watermarks := watermarks st @
               [\<lparr>w_source = src, w_key = key, w_value = v, w_updated_at = now_iso now\<rparr>]\<rparr>)"

section \<open>The pause journal\<close>

definition closed_by :: "nat \<Rightarrow> pause_row list \<Rightarrow> bool" where
  "closed_by n rows \<longleftrightarrow> list_ex (\<lambda>r. p_hold_id r = Some n) rows"

definition open_takes :: "pause_row list \<Rightarrow> pause_row list" where
  "open_takes rows = filter (\<lambda>r. p_value r = ''1'' \<and> \<not> closed_by (p_id r) rows) rows"

definition newest_id :: "('r \<Rightarrow> nat) \<Rightarrow> 'r list \<Rightarrow> nat option" where
  "newest_id key rows = map_option key (first_min (\<lambda>a b. key b \<le> key a) rows)"

definition pause_journal_append ::
    "nat \<Rightarrow> string \<Rightarrow> string \<Rightarrow> string \<Rightarrow> string option \<Rightarrow> store \<Rightarrow> nat \<times> store" where
  "pause_journal_append now val holder_kind actor at st =
     (let n = Suc (pause_seq st);
          row = \<lparr>p_id = n, p_at = or_else at (now_iso now), p_value = val, p_holder_kind = holder_kind,
            p_actor = actor,
            p_hold_id = (if val = ''0'' then newest_id p_id (open_takes (pause_journal st)) else None)\<rparr>
      in (n, st\<lparr>pause_journal := pause_journal st @ [row], pause_seq := n\<rparr>))"

record hold_entry =
  e_hold_id :: nat
  e_started_at :: string
  e_ended_at :: "string option"
  e_duration :: "int option"
  e_holder_kind :: string
  e_actor :: string

definition hold_duration :: "string \<Rightarrow> string option \<Rightarrow> int option" where
  "hold_duration start stop = (case (parse_instant start, iso_or_none stop) of
     (Some s, Some e) \<Rightarrow> Some (e - s) | _ \<Rightarrow> None)"

definition hold_entry_of :: "pause_row \<Rightarrow> string option \<Rightarrow> hold_entry" where
  "hold_entry_of t ended = \<lparr>e_hold_id = p_id t, e_started_at = p_at t, e_ended_at = ended,
     e_duration = hold_duration (p_at t) ended, e_holder_kind = p_holder_kind t, e_actor = p_actor t\<rparr>"

definition join_lifts :: "pause_row list \<Rightarrow> pause_row \<Rightarrow> hold_entry list" where
  "join_lifts rows t =
     (case filter (\<lambda>l. p_hold_id l = Some (p_id t) \<and> p_value l = ''0'') rows of
        [] \<Rightarrow> [hold_entry_of t None]
      | l # ls \<Rightarrow> map (\<lambda>l. hold_entry_of t (Some (p_at l))) (l # ls))"

definition pause_journal_holds :: "string option \<Rightarrow> string option \<Rightarrow> store \<Rightarrow> hold_entry list" where
  "pause_journal_holds after before st =
     concat (map (join_lifts (pause_journal st))
       (filter (\<lambda>t. p_value t = ''1'' \<and> (case after of None \<Rightarrow> True | Some a \<Rightarrow> text_le a (p_at t)) \<and>
            (case before of None \<Rightarrow> True | Some b \<Rightarrow> text_le (p_at t) b)) (pause_journal st)))"

section \<open>The gate journal\<close>

definition released :: "nat \<Rightarrow> hold_row list \<Rightarrow> bool" where
  "released n rows \<longleftrightarrow> list_ex (\<lambda>r. h_hold_id r = Some n) rows"

definition open_engages :: "string \<Rightarrow> hold_row list \<Rightarrow> hold_row list" where
  "open_engages gate rows =
     filter (\<lambda>r. h_gate r = gate \<and> h_value r = ''engage'' \<and> \<not> released (h_id r) rows) rows"

definition day_length :: nat where
  "day_length = 86400000000"

definition hold_journal_append ::
    "nat \<Rightarrow> string \<Rightarrow> string \<Rightarrow> string list option \<Rightarrow> string \<Rightarrow> string option \<Rightarrow> store \<Rightarrow> nat \<times> store" where
  "hold_journal_append now gate val held_sources detail at st =
     (let n = Suc (hold_seq st);
          cutoff = iso_utc (now - HOLD_JOURNAL_MAX_AGE_DAYS * day_length);
          row = \<lparr>h_id = n, h_at = or_else at (now_iso now), h_gate = gate, h_value = val,
            h_held_sources = held_sources, h_detail = (if detail = [] then None else Some detail),
            h_hold_id = (if val = ''release'' then newest_id h_id (open_engages gate (hold_journal st)) else None)\<rparr>
      in (n, st\<lparr>hold_journal := filter (\<lambda>r. \<not> text_less (h_at r) cutoff) (hold_journal st @ [row]), hold_seq := n\<rparr>))"

definition hold_journal_window :: "string \<Rightarrow> string option \<Rightarrow> store \<Rightarrow> (hold_row \<times> bool) list" where
  "hold_journal_window since gate st =
     map (\<lambda>h. (h, h_value h = ''engage'' \<and> \<not> released (h_id h) (hold_journal st)))
       (filter (\<lambda>h. text_le since (h_at h) \<and> (case gate of None \<Rightarrow> True | Some g \<Rightarrow> h_gate h = g)) (hold_journal st))"

section \<open>A keyed store\<close>

locale keyed_store =
  fixes get :: "'k \<Rightarrow> 's \<Rightarrow> 'v option"
    and put :: "'k \<Rightarrow> 'v \<Rightarrow> 's \<Rightarrow> 's"
    and del :: "'k \<Rightarrow> 's \<Rightarrow> 's"
  assumes get_put: "get k (put k v s) = Some v"
    and get_put_other: "k \<noteq> k' \<Longrightarrow> get k' (put k v s) = get k' s"
    and get_del: "get k (del k s) = None"
    and get_del_other: "k \<noteq> k' \<Longrightarrow> get k' (del k s) = get k' s"
begin

lemma get_fold_del: "get k (fold del ks s) = (if k \<in> set ks then None else get k s)"
proof (induction ks arbitrary: s)
  case (Cons x ks)
  then show ?case using get_del [of x s] get_del_other [of x k s] by auto
qed simp

lemma get_fold_put:
  "distinct (map fst kvs) \<Longrightarrow> get k (fold (\<lambda>(k, v). put k v) kvs s) = (case map_of kvs k of None \<Rightarrow> get k s | Some v \<Rightarrow> Some v)"
proof (induction kvs arbitrary: s)
  case (Cons kv kvs)
  obtain x v where kv: "kv = (x, v)" by fastforce
  have "map_of kvs x = None" using Cons.prems kv by (simp add: map_of_eq_None_iff)
  then show ?case using Cons kv get_put [of x v s] get_put_other [of x k v s]
    by (auto split: option.splits)
qed simp

end

lemma find_filter: "find p (filter q xs) = find (\<lambda>x. q x \<and> p x) xs"
  by (induction xs) auto

lemma find_append: "find p (xs @ ys) = (case find p xs of None \<Rightarrow> find p ys | Some x \<Rightarrow> Some x)"
  by (induction xs) auto

lemma wm_get_set: "wm_get src key (wm_set now src key v st) = Some v"
proof (cases "list_ex (wm_at src key) (watermarks st)")
  case True
  then obtain r where "find (wm_at src key) (watermarks st) = Some r"
    by (cases "find (wm_at src key) (watermarks st)") (auto simp: list_ex_iff find_None_iff)
  then show ?thesis using True find_keyD
    by (fastforce simp: wm_get_def wm_set_def find_upd_where wm_at_def)
next
  case False
  then have "find (wm_at src key) (watermarks st) = None" by (auto simp: list_ex_iff find_None_iff)
  then show ?thesis using False by (simp add: wm_get_def wm_set_def find_append wm_at_def)
qed

lemma wm_get_set_other:
  assumes "(src, key) \<noteq> (src', key')"
  shows "wm_get src' key' (wm_set now src key v st) = wm_get src' key' st"
proof -
  have "map_option w_value (map_option (\<lambda>r. if wm_at src key r then r\<lparr>w_value := v, w_updated_at := now_iso now\<rparr> else r)
      (find (wm_at src' key') (watermarks st))) = map_option w_value (find (wm_at src' key') (watermarks st))"
    using assms by (cases "find (wm_at src' key') (watermarks st)") (auto simp: wm_at_def dest!: find_keyD)
  then show ?thesis using assms
    by (auto simp: wm_get_def wm_set_def find_upd_where find_append wm_at_def split: option.splits)
qed

lemma wm_get_delete: "wm_get src key (wm_delete src key st) = None"
  by (simp add: wm_get_def wm_delete_def find_filter find_None_iff)

lemma wm_get_delete_other:
  assumes "(src, key) \<noteq> (src', key')"
  shows "wm_get src' key' (wm_delete src key st) = wm_get src' key' st"
proof -
  have "(\<lambda>x. \<not> wm_at src key x \<and> wm_at src' key' x) = wm_at src' key'"
    using assms by (auto simp: wm_at_def)
  then show ?thesis by (simp add: wm_get_def wm_delete_def find_filter)
qed

interpretation wm: keyed_store "\<lambda>k. wm_get (fst k) (snd k)" "\<lambda>k v. wm_set now (fst k) (snd k) v"
    "\<lambda>k. wm_delete (fst k) (snd k)" for now
  by unfold_locales (auto simp: wm_get_set wm_get_set_other wm_get_delete wm_get_delete_other prod_eq_iff)

section \<open>Pairing in the pause journal\<close>

definition pause_inv :: "store \<Rightarrow> bool" where
  "pause_inv st \<longleftrightarrow> sorted_wrt (<) (map p_id (pause_journal st)) \<and>
     (\<forall>r \<in> set (pause_journal st). p_id r \<le> pause_seq st \<and>
        (\<forall>n. p_hold_id r = Some n \<longrightarrow> p_value r = ''0'' \<and> n < p_id r \<and>
           (\<exists>t \<in> set (pause_journal st). p_id t = n \<and> p_value t = ''1''))) \<and>
     (\<forall>r \<in> set (pause_journal st). \<forall>s \<in> set (pause_journal st).
        p_hold_id r \<noteq> None \<longrightarrow> p_hold_id r = p_hold_id s \<longrightarrow> r = s)"

text \<open>The holds still open, the newest first.\<close>

definition open_stack :: "store \<Rightarrow> nat list" where
  "open_stack st = rev (map p_id (open_takes (pause_journal st)))"

lemma newest_id_last:
  assumes "sorted_wrt (<) (map key rows)"
  shows "newest_id key rows = (if rows = [] then None else Some (key (last rows)))"
proof (cases rows rule: rev_cases)
  case Nil
  then show ?thesis by (simp add: newest_id_def)
next
  case (snoc rs r)
  obtain m where m: "first_min (\<lambda>a b. key b \<le> key a) rows = Some m"
    using snoc by (cases "first_min (\<lambda>a b. key b \<le> key a) rows") auto
  have "key r \<le> key m"
    by (rule first_min_least [of "\<lambda>a b. key b \<le> key a", OF _ _ m]) (use snoc in auto)
  moreover have "m \<in> set rows" using m by (rule first_min_in)
  ultimately have "key m = key r" using assms snoc by (auto simp: sorted_wrt_append)
  then show ?thesis using m snoc by (simp add: newest_id_def)
qed

lemma sorted_wrt_filter_map: "sorted_wrt (<) (map key rows) \<Longrightarrow> sorted_wrt (<) (map key (filter p rows))"
  by (induction rows) auto

lemma sorted_distinct: "sorted_wrt (<) (map key rows) \<Longrightarrow> distinct (map key (rows :: 'a list))"
  for key :: "'a \<Rightarrow> nat"
  by (induction rows) auto

lemma filter_not_last:
  assumes "distinct (map key rows)" "rows \<noteq> []"
  shows "filter (\<lambda>r. key r \<noteq> key (last rows)) rows = butlast rows"
proof (cases rows rule: rev_cases)
  case (snoc rs r)
  then have "key r \<notin> key ` set rs" using assms(1) by simp
  then have "\<forall>x \<in> set rs. key x \<noteq> key r" by (metis image_eqI)
  then show ?thesis using snoc by (auto intro: filter_True)
qed (use assms in simp)

lemma open_takes_sorted: "pause_inv st \<Longrightarrow> sorted_wrt (<) (map p_id (open_takes (pause_journal st)))"
  by (simp add: pause_inv_def open_takes_def sorted_wrt_filter_map)

lemma open_takes_snoc:
  assumes "\<not> closed_by (p_id row) (rows @ [row])"
  shows "open_takes (rows @ [row]) =
    filter (\<lambda>r. p_hold_id row \<noteq> Some (p_id r)) (open_takes rows) @ (if p_value row = ''1'' then [row] else [])"
  using assms by (auto simp: open_takes_def closed_by_def intro: filter_cong)

lemma pause_new_not_closed:
  assumes "pause_inv st" "p_id row = Suc (pause_seq st)" "p_hold_id row = newest_id p_id (open_takes (pause_journal st)) \<or> p_hold_id row = None"
  shows "\<not> closed_by (p_id row) (pause_journal st @ [row])"
proof -
  have "n < Suc (pause_seq st)" if "r \<in> set (pause_journal st)" "p_hold_id r = Some n" for r n
    using assms(1) that unfolding pause_inv_def by (meson le_trans less_Suc_eq_le less_imp_le)
  moreover have "n < Suc (pause_seq st)" if "newest_id p_id (open_takes (pause_journal st)) = Some n" for n
  proof -
    have "\<exists>r \<in> set (open_takes (pause_journal st)). p_id r = n"
      using that newest_id_last [OF open_takes_sorted [OF assms(1)]] by (auto split: if_splits)
    then show ?thesis using assms(1) by (auto simp: open_takes_def pause_inv_def)
  qed
  ultimately show ?thesis using assms(2,3) by (fastforce simp: closed_by_def list_ex_iff)
qed

lemma pause_appendD:
  assumes "pause_journal_append now val kind actor at st = (n, st')"
  obtains row where "pause_journal st' = pause_journal st @ [row]" "p_id row = Suc (pause_seq st)"
    "n = Suc (pause_seq st)" "pause_seq st' = Suc (pause_seq st)" "p_value row = val"
    "p_hold_id row = (if val = ''0'' then newest_id p_id (open_takes (pause_journal st)) else None)"
proof -
  let ?row = "\<lparr>p_id = Suc (pause_seq st), p_at = or_else at (now_iso now), p_value = val, p_holder_kind = kind,
      p_actor = actor, p_hold_id = (if val = ''0'' then newest_id p_id (open_takes (pause_journal st)) else None)\<rparr>"
  have eq: "(Suc (pause_seq st), st\<lparr>pause_journal := pause_journal st @ [?row], pause_seq := Suc (pause_seq st)\<rparr>) = (n, st')"
    using assms unfolding pause_journal_append_def Let_def .
  have "Suc (pause_seq st) = n" using eq by (rule Pair_inject)
  moreover have "st\<lparr>pause_journal := pause_journal st @ [?row], pause_seq := Suc (pause_seq st)\<rparr> = st'"
    using eq by (rule Pair_inject)
  ultimately show thesis by (intro that [of ?row]) auto
qed

lemma pause_append_stack:
  assumes inv: "pause_inv st" and app: "pause_journal_append now val kind actor at st = (n, st')"
  shows "open_stack st' = (if val = ''1'' then n # open_stack st
      else if val = ''0'' then tl (open_stack st) else open_stack st)"
proof -
  let ?open = "open_takes (pause_journal st)"
  obtain row where row: "pause_journal st' = pause_journal st @ [row]" "p_id row = Suc (pause_seq st)" "n = Suc (pause_seq st)"
    "p_value row = val" "p_hold_id row = (if val = ''0'' then newest_id p_id ?open else None)"
    using app by (rule pause_appendD)
  note sorted = open_takes_sorted [OF inv]
  have snoc: "open_takes (pause_journal st') =
      filter (\<lambda>r. p_hold_id row \<noteq> Some (p_id r)) ?open @ (if val = ''1'' then [row] else [])"
    using open_takes_snoc pause_new_not_closed [OF inv row(2)] row by (simp split: if_splits)
  have "filter (\<lambda>r. p_hold_id row \<noteq> Some (p_id r)) ?open = (if val = ''0'' then butlast ?open else ?open)"
  proof (cases "val = ''0'' \<and> ?open \<noteq> []")
    case True
    then have "p_hold_id row = Some (p_id (last ?open))" using row(5) newest_id_last [OF sorted] by simp
    then show ?thesis using filter_not_last [OF sorted_distinct [OF sorted]] True by (simp add: eq_commute)
  next
    case False
    then show ?thesis using row(5) by (auto simp: newest_id_def)
  qed
  then have "open_takes (pause_journal st') = (if val = ''0'' then butlast ?open else ?open) @ (if val = ''1'' then [row] else [])"
    using snoc by simp
  then show ?thesis using row(2,3)
    by (cases ?open rule: rev_cases) (auto simp: open_stack_def)
qed

lemma pause_inv_append:
  assumes inv: "pause_inv st" and app: "pause_journal_append now val kind actor at st = (n, st')"
  shows "pause_inv st'"
proof -
  let ?open = "open_takes (pause_journal st)"
  obtain row where row: "pause_journal st' = pause_journal st @ [row]" "p_id row = Suc (pause_seq st)" "pause_seq st' = Suc (pause_seq st)"
    "p_value row = val" "p_hold_id row = (if val = ''0'' then newest_id p_id ?open else None)"
    using app by (rule pause_appendD)
  have target: "\<exists>t \<in> set (pause_journal st). p_id t = k \<and> p_value t = ''1'' \<and> \<not> closed_by k (pause_journal st)"
    if "p_hold_id row = Some k" for k
  proof -
    have "val = ''0'' \<and> ?open \<noteq> [] \<and> p_id (last ?open) = k"
      using that row(5) newest_id_last [OF open_takes_sorted [OF inv]] by (auto split: if_splits)
    then have "last ?open \<in> set ?open" "p_id (last ?open) = k" by auto
    then show ?thesis by (auto simp: open_takes_def)
  qed
  have val0: "p_hold_id row = Some k \<Longrightarrow> val = ''0''" for k using row(5) by (auto split: if_splits)
  have unique: "p_hold_id r \<noteq> p_hold_id row" if "r \<in> set (pause_journal st)" "p_hold_id r \<noteq> None" for r
    using that target by (cases "p_hold_id row") (auto simp: closed_by_def list_ex_iff)
  have le: "p_id r \<le> pause_seq st" if "r \<in> set (pause_journal st)" for r
    using inv that by (simp add: pause_inv_def)
  have "sorted_wrt (<) (map p_id (pause_journal st'))"
    using inv le row(1,2) by (auto simp: pause_inv_def sorted_wrt_append le_imp_less_Suc)
  moreover have "p_id r \<le> pause_seq st' \<and> (\<forall>k. p_hold_id r = Some k \<longrightarrow> p_value r = ''0'' \<and> k < p_id r \<and>
      (\<exists>t \<in> set (pause_journal st'). p_id t = k \<and> p_value t = ''1''))" if "r \<in> set (pause_journal st')" for r
  proof (cases "r = row")
    case True
    then show ?thesis using row(1-4) target val0 le by (auto simp: le_imp_less_Suc)
  next
    case False
    then have r: "r \<in> set (pause_journal st)" using that row(1) by simp
    then have "\<forall>k. p_hold_id r = Some k \<longrightarrow> p_value r = ''0'' \<and> k < p_id r \<and>
        (\<exists>t \<in> set (pause_journal st). p_id t = k \<and> p_value t = ''1'')"
      using inv by (simp add: pause_inv_def)
    then show ?thesis using le [OF r] row(1,3) by auto
  qed
  moreover have "r = s" if "r \<in> set (pause_journal st')" "s \<in> set (pause_journal st')" "p_hold_id r \<noteq> None"
      "p_hold_id r = p_hold_id s" for r s
    using that row(1) unique [of r] unique [of s] inv unfolding pause_inv_def by auto
  ultimately show ?thesis unfolding pause_inv_def by blast
qed

inductive pause_step :: "store \<Rightarrow> store \<Rightarrow> bool" where
  pause_append: "pause_step st (snd (pause_journal_append now val kind actor at st))"

definition new_database :: "store \<Rightarrow> bool" where
  "new_database st \<longleftrightarrow> (\<exists>cap. st = empty_store cap)"

interpretation pj: invariant_system new_database pause_step pause_inv
proof unfold_locales
  show "new_database s \<Longrightarrow> pause_inv s" for s
    by (auto simp: new_database_def empty_store_def pause_inv_def)
  show "pause_step s t \<Longrightarrow> pause_inv s \<Longrightarrow> pause_inv t" for s t
    by (induction rule: pause_step.induct) (metis pause_inv_append prod.collapse)
qed

section \<open>Pairing in the gate journal\<close>

definition hold_inv :: "store \<Rightarrow> bool" where
  "hold_inv st \<longleftrightarrow> sorted_wrt (<) (map h_id (hold_journal st)) \<and>
     (\<forall>r \<in> set (hold_journal st). h_id r \<le> hold_seq st \<and>
        (\<forall>n. h_hold_id r = Some n \<longrightarrow> h_value r = ''release'' \<and> n < h_id r)) \<and>
     (\<forall>r \<in> set (hold_journal st). \<forall>e \<in> set (hold_journal st).
        h_hold_id r = Some (h_id e) \<longrightarrow> h_gate e = h_gate r \<and> text_le (h_at e) (h_at r)) \<and>
     (\<forall>r \<in> set (hold_journal st). \<forall>s \<in> set (hold_journal st).
        h_hold_id r \<noteq> None \<longrightarrow> h_hold_id r = h_hold_id s \<longrightarrow> r = s)"

definition fresh_row :: "nat \<Rightarrow> hold_row \<Rightarrow> bool" where
  "fresh_row now r \<longleftrightarrow> \<not> text_less (h_at r) (iso_utc (now - HOLD_JOURNAL_MAX_AGE_DAYS * day_length))"

lemma hold_appendD:
  assumes "hold_journal_append now gate val srcs detail at st = (n, st')"
  obtains row where "hold_journal st' = filter (fresh_row now) (hold_journal st @ [row])" "h_id row = Suc (hold_seq st)"
    "n = Suc (hold_seq st)" "hold_seq st' = Suc (hold_seq st)" "h_value row = val" "h_gate row = gate"
    "h_at row = or_else at (now_iso now)"
    "h_hold_id row = (if val = ''release'' then newest_id h_id (open_engages gate (hold_journal st)) else None)"
proof -
  let ?row = "\<lparr>h_id = Suc (hold_seq st), h_at = or_else at (now_iso now), h_gate = gate, h_value = val,
    h_held_sources = srcs, h_detail = (if detail = [] then None else Some detail),
    h_hold_id = (if val = ''release'' then newest_id h_id (open_engages gate (hold_journal st)) else None)\<rparr>"
  have eq: "(Suc (hold_seq st), st\<lparr>hold_journal := filter (fresh_row now) (hold_journal st @ [?row]),
      hold_seq := Suc (hold_seq st)\<rparr>) = (n, st')"
    using assms unfolding hold_journal_append_def Let_def fresh_row_def [abs_def] .
  have "Suc (hold_seq st) = n" using eq by (rule Pair_inject)
  moreover have "st\<lparr>hold_journal := filter (fresh_row now) (hold_journal st @ [?row]), hold_seq := Suc (hold_seq st)\<rparr> = st'"
    using eq by (rule Pair_inject)
  ultimately show thesis by (intro that [of ?row]) auto
qed

lemma open_engages_sorted: "hold_inv st \<Longrightarrow> sorted_wrt (<) (map h_id (open_engages gate (hold_journal st)))"
  by (simp add: hold_inv_def open_engages_def sorted_wrt_filter_map)

text \<open>The row a release closes is an open engage of its own gate.\<close>

lemma release_target:
  assumes inv: "hold_inv st" and "newest_id h_id (open_engages gate (hold_journal st)) = Some k"
  shows "\<exists>e \<in> set (hold_journal st). h_id e = k \<and> h_gate e = gate \<and> h_value e = ''engage'' \<and>
    \<not> released k (hold_journal st) \<and> open_engages gate (hold_journal st) \<noteq> [] \<and>
    k = h_id (last (open_engages gate (hold_journal st)))"
proof -
  let ?open = "open_engages gate (hold_journal st)"
  have "?open \<noteq> []" "k = h_id (last ?open)"
    using assms(2) newest_id_last [OF open_engages_sorted [OF inv]] by (auto split: if_splits)
  then have "last ?open \<in> set ?open" by simp
  then show ?thesis using \<open>?open \<noteq> []\<close> \<open>k = h_id (last ?open)\<close> by (auto simp: open_engages_def)
qed

lemma hold_unique: "hold_inv st \<Longrightarrow> a \<in> set (hold_journal st) \<Longrightarrow> b \<in> set (hold_journal st) \<Longrightarrow> h_id a = h_id b \<Longrightarrow> a = b"
  unfolding hold_inv_def by (metis sorted_distinct distinct_map inj_onD)

lemma hold_inv_filter: "hold_inv st \<Longrightarrow> hold_inv (st\<lparr>hold_journal := filter p (hold_journal st)\<rparr>)"
  unfolding hold_inv_def by (simp add: sorted_wrt_filter_map) blast

lemma hold_inv_cong: "hold_journal s = hold_journal t \<Longrightarrow> hold_seq s = hold_seq t \<Longrightarrow> hold_inv s \<longleftrightarrow> hold_inv t"
  by (simp only: hold_inv_def)

lemma hold_inv_snoc:
  assumes inv: "hold_inv st" and id: "h_id row = Suc (hold_seq st)"
    and hold: "h_hold_id row = (if h_value row = ''release'' then newest_id h_id (open_engages (h_gate row) (hold_journal st)) else None)"
    and late: "\<forall>r \<in> set (hold_journal st). text_le (h_at r) (h_at row)"
  shows "hold_inv (st\<lparr>hold_journal := hold_journal st @ [row], hold_seq := Suc (hold_seq st)\<rparr>)"
proof -
  let ?J = "hold_journal st"
  have le: "h_id r \<le> hold_seq st" if "r \<in> set ?J" for r using inv that by (simp add: hold_inv_def)
  have tgt: "\<exists>e \<in> set ?J. h_id e = k \<and> h_gate e = h_gate row \<and> \<not> released k ?J \<and> h_value row = ''release''"
    if "h_hold_id row = Some k" for k
    using that hold release_target [OF inv, of "h_gate row" k] by (auto split: if_splits)
  have small: "k < h_id row" if "h_hold_id row = Some k" for k using tgt [OF that] le id by (auto simp: le_imp_less_Suc)
  have fwd: "h_hold_id r \<noteq> Some (h_id row)" if "r \<in> set ?J" for r
    using inv that le [OF that] id by (fastforce simp: hold_inv_def)
  have tie: "h_gate e = h_gate row \<and> text_le (h_at e) (h_at row)"
    if "e \<in> set ?J" "h_hold_id row = Some (h_id e)" for e
    using tgt [OF that(2)] hold_unique [OF inv that(1)] late that by metis
  have self: "h_hold_id row \<noteq> Some (h_id row)" using small by auto
  have once: "h_hold_id r \<noteq> h_hold_id row" if "r \<in> set ?J" "h_hold_id r \<noteq> None" for r
    using that tgt by (cases "h_hold_id row") (auto simp: released_def list_ex_iff)
  have "sorted_wrt (<) (map h_id (?J @ [row]))"
    using inv le id by (auto simp: hold_inv_def sorted_wrt_append le_imp_less_Suc)
  moreover have "\<forall>r \<in> set (?J @ [row]). h_id r \<le> Suc (hold_seq st) \<and>
      (\<forall>n. h_hold_id r = Some n \<longrightarrow> h_value r = ''release'' \<and> n < h_id r)"
    using inv le id tgt small by (simp add: hold_inv_def le_SucI ball_Un) blast
  moreover have "\<forall>r \<in> set (?J @ [row]). \<forall>e \<in> set (?J @ [row]).
      h_hold_id r = Some (h_id e) \<longrightarrow> h_gate e = h_gate r \<and> text_le (h_at e) (h_at r)"
    using inv fwd tie self by (simp add: hold_inv_def ball_Un)
  moreover have "\<forall>r \<in> set (?J @ [row]). \<forall>s \<in> set (?J @ [row]). h_hold_id r \<noteq> None \<longrightarrow> h_hold_id r = h_hold_id s \<longrightarrow> r = s"
    using inv once by (simp add: hold_inv_def ball_Un) (metis option.distinct(1))
  ultimately show ?thesis unfolding hold_inv_def by simp
qed

text \<open>
  Pruning does not reopen an engagement: a release is never older than the engage it closes.
\<close>

lemma open_after_prune:
  assumes inv: "hold_inv st"
  shows "open_engages g (filter (fresh_row now) (hold_journal st)) = filter (fresh_row now) (open_engages g (hold_journal st))"
proof -
  have "released (h_id e) (filter (fresh_row now) (hold_journal st)) \<longleftrightarrow> released (h_id e) (hold_journal st)"
    if e: "e \<in> set (hold_journal st)" "fresh_row now e" for e
  proof -
    have "fresh_row now r" if "r \<in> set (hold_journal st)" "h_hold_id r = Some (h_id e)" for r
    proof -
      have "text_le (h_at e) (h_at r)" using inv e(1) that by (auto simp: hold_inv_def)
      then show ?thesis using e(2) unfolding fresh_row_def by (metis not_text_le text_le_trans)
    qed
    then show ?thesis by (auto simp: released_def list_ex_iff)
  qed
  then show ?thesis by (auto simp: open_engages_def conj_commute intro!: filter_cong)
qed

lemma open_engages_snoc:
  assumes "\<not> released (h_id row) (rows @ [row])"
  shows "open_engages g (rows @ [row]) = filter (\<lambda>r. h_hold_id row \<noteq> Some (h_id r)) (open_engages g rows)
      @ (if h_gate row = g \<and> h_value row = ''engage'' then [row] else [])"
  using assms by (auto simp: open_engages_def released_def intro: filter_cong)

lemma hold_new_not_released:
  assumes "hold_inv st" "h_id row = Suc (hold_seq st)" "hold_inv (st\<lparr>hold_journal := hold_journal st @ [row], hold_seq := Suc (hold_seq st)\<rparr>)"
  shows "\<not> released (h_id row) (hold_journal st @ [row])"
proof
  assume "released (h_id row) (hold_journal st @ [row])"
  then obtain r where r: "r \<in> set (hold_journal st @ [row])" "h_hold_id r = Some (h_id row)"
    unfolding released_def list_ex_iff by blast
  then have "h_id row < Suc (hold_seq st)" using assms(3) unfolding hold_inv_def by (auto dest!: bspec [where x = r])
  then show False using assms(2) by simp
qed

text \<open>What the \<open>hold_id\<close> of a new row takes out of the open engagements of a gate.\<close>

lemma close_newest:
  assumes inv: "hold_inv st"
    and h: "h = (if val = ''release'' then newest_id h_id (open_engages gate (hold_journal st)) else None)"
  shows "filter (\<lambda>r. h \<noteq> Some (h_id r)) (open_engages g (hold_journal st)) =
    (if g = gate \<and> val = ''release'' then butlast (open_engages g (hold_journal st)) else open_engages g (hold_journal st))"
proof (cases h)
  case None
  have "open_engages gate (hold_journal st) = []" if "val = ''release''"
    using that h None newest_id_last [OF open_engages_sorted [OF inv], of gate] by (simp split: if_splits)
  then show ?thesis using None by (cases "g = gate \<and> val = ''release''") simp_all
next
  case (Some k)
  then have rel: "val = ''release''" and new: "newest_id h_id (open_engages gate (hold_journal st)) = Some k"
    using h by (simp_all split: if_splits)
  obtain e where e: "e \<in> set (hold_journal st)" "h_id e = k" "h_gate e = gate"
      "open_engages gate (hold_journal st) \<noteq> []" "k = h_id (last (open_engages gate (hold_journal st)))"
    using release_target [OF inv new] by blast
  show ?thesis
  proof (cases "g = gate")
    case True
    have "filter (\<lambda>r. h_id r \<noteq> k) (open_engages gate (hold_journal st)) = butlast (open_engages gate (hold_journal st))"
      unfolding e(5) using open_engages_sorted [OF inv] e(4) by (intro filter_not_last sorted_distinct)
    then show ?thesis using True rel Some by (simp add: eq_commute)
  next
    case False
    have "h_id r \<noteq> k" if "r \<in> set (open_engages g (hold_journal st))" for r
    proof
      assume "h_id r = k"
      moreover have "r \<in> set (hold_journal st)" "h_gate r = g" using that by (auto simp: open_engages_def)
      ultimately show False using hold_unique [OF inv, of r e] e(1-3) False by simp
    qed
    then show ?thesis using Some False by (auto intro: filter_True)
  qed
qed

lemma hold_append_open:
  assumes inv: "hold_inv st" and app: "hold_journal_append now gate val srcs detail at st = (n, st')"
    and late: "\<forall>r \<in> set (hold_journal st). text_le (h_at r) (or_else at (now_iso now))"
    and new: "\<not> text_less (or_else at (now_iso now)) (iso_utc (now - HOLD_JOURNAL_MAX_AGE_DAYS * day_length))"
  shows "hold_inv st'"
    and "map h_id (open_engages g (hold_journal st')) = map h_id (filter (fresh_row now)
        (if g = gate \<and> val = ''release'' then butlast (open_engages g (hold_journal st)) else open_engages g (hold_journal st)))
      @ (if g = gate \<and> val = ''engage'' then [n] else [])"
proof -
  obtain row where row: "hold_journal st' = filter (fresh_row now) (hold_journal st @ [row])" "h_id row = Suc (hold_seq st)"
    "n = Suc (hold_seq st)" "hold_seq st' = Suc (hold_seq st)" "h_value row = val" "h_gate row = gate"
    "h_at row = or_else at (now_iso now)"
    "h_hold_id row = (if val = ''release'' then newest_id h_id (open_engages gate (hold_journal st)) else None)"
    using app by (rule hold_appendD)
  let ?mid = "st\<lparr>hold_journal := hold_journal st @ [row], hold_seq := Suc (hold_seq st)\<rparr>"
  have "h_hold_id row = (if h_value row = ''release''
      then newest_id h_id (open_engages (h_gate row) (hold_journal st)) else None)"
    unfolding row(5,6) by (rule row(8))
  moreover have "\<forall>r \<in> set (hold_journal st). text_le (h_at r) (h_at row)" unfolding row(7) by (rule late)
  ultimately have mid: "hold_inv ?mid" by (rule hold_inv_snoc [OF inv row(2)])
  have "hold_inv (?mid\<lparr>hold_journal := filter (fresh_row now) (hold_journal ?mid)\<rparr>)" using mid by (rule hold_inv_filter)
  then show "hold_inv st'" by (rule hold_inv_cong [THEN iffD1, rotated 2]) (simp_all add: row(1,4))
  have fresh: "fresh_row now row" using new row(7) by (simp add: fresh_row_def)
  have "open_engages g (hold_journal st') = filter (fresh_row now) (open_engages g (hold_journal st @ [row]))"
    using open_after_prune [OF mid, of g now] row(1) by simp
  also have "open_engages g (hold_journal st @ [row]) =
      (if g = gate \<and> val = ''release'' then butlast (open_engages g (hold_journal st)) else open_engages g (hold_journal st))
      @ (if gate = g \<and> val = ''engage'' then [row] else [])"
    unfolding open_engages_snoc [OF hold_new_not_released [OF inv row(2) mid]] close_newest [OF inv row(8)] row(5,6) by simp
  finally show "map h_id (open_engages g (hold_journal st')) = map h_id (filter (fresh_row now)
        (if g = gate \<and> val = ''release'' then butlast (open_engages g (hold_journal st)) else open_engages g (hold_journal st)))
      @ (if g = gate \<and> val = ''engage'' then [n] else [])"
    using row(2,3) fresh by simp
qed

lemma join_lifts_single:
  assumes inv: "pause_inv st"
  obtains x where "join_lifts (pause_journal st) t = [hold_entry_of t x]"
    "x = None \<longleftrightarrow> \<not> closed_by (p_id t) (pause_journal st)"
proof (cases "filter (\<lambda>l. p_hold_id l = Some (p_id t) \<and> p_value l = ''0'') (pause_journal st)")
  case Nil
  have "p_value l = ''0''" if "l \<in> set (pause_journal st)" "p_hold_id l = Some k" for l k
    using inv that by (simp add: pause_inv_def)
  then have "\<not> closed_by (p_id t) (pause_journal st)"
    using Nil by (auto simp: closed_by_def list_ex_iff filter_empty_conv)
  then show thesis using Nil that [of None] by (simp add: join_lifts_def)
next
  case (Cons l ls)
  have mem: "x \<in> set (pause_journal st) \<and> p_hold_id x = Some (p_id t)" if "x \<in> set (l # ls)" for x
    using that unfolding Cons [symmetric] by simp
  then have same: "x = l" if "x \<in> set (l # ls)" for x
    using that mem [of l] inv unfolding pause_inv_def by (metis list.set_intros(1) option.distinct(1))
  have "distinct (map p_id (pause_journal st))" using inv by (simp add: pause_inv_def sorted_distinct)
  then have "distinct (l # ls)" unfolding Cons [symmetric] by (simp add: distinct_map)
  then have "ls = []" using same by (cases ls) auto
  moreover have "closed_by (p_id t) (pause_journal st)" using mem [of l] by (auto simp: closed_by_def list_ex_iff)
  ultimately show thesis using Cons that [of "Some (p_at l)"] by (simp add: join_lifts_def)
qed

lemma join_lifts_list:
  assumes "pause_inv st"
  shows "map e_hold_id (concat (map (join_lifts (pause_journal st)) ts)) = map p_id ts"
    "map e_hold_id (filter (\<lambda>e. e_ended_at e = None) (concat (map (join_lifts (pause_journal st)) ts))) =
     map p_id (filter (\<lambda>t. \<not> closed_by (p_id t) (pause_journal st)) ts)"
proof (induction ts)
  case (Cons t ts)
  obtain x where "join_lifts (pause_journal st) t = [hold_entry_of t x]"
    "x = None \<longleftrightarrow> \<not> closed_by (p_id t) (pause_journal st)"
    using assms by (rule join_lifts_single)
  moreover
  { case 1 show ?case using Cons calculation by (simp add: hold_entry_of_def) }
  { case 2 show ?case using Cons calculation by (simp add: hold_entry_of_def) }
qed simp_all

section \<open>Properties\<close>

text \<open>
  Watermarks are a map from (source, key) to value: setting a key changes that key only, deleting
  it removes that key only, and the stamp of a key just set is the instant of the write.
\<close>

theorem watermarks_refine_map:
  "(\<lambda>(s, k). wm_get s k (wm_set now src key v st)) = (\<lambda>(s, k). wm_get s k st)((src, key) \<mapsto> v) \<and>
   (\<lambda>(s, k). wm_get s k (wm_delete src key st)) = (\<lambda>(s, k). wm_get s k st)((src, key) := None) \<and>
   wm_updated_at src key (wm_set now src key v st) = Some (now_iso now)"
proof (intro conjI)
  show "(\<lambda>(s, k). wm_get s k (wm_set now src key v st)) = (\<lambda>(s, k). wm_get s k st)((src, key) \<mapsto> v)"
    using wm.get_put [of "(src, key)" now v st] wm.get_put_other [of "(src, key)" _ now v st] by (auto simp: fun_eq_iff)
  show "(\<lambda>(s, k). wm_get s k (wm_delete src key st)) = (\<lambda>(s, k). wm_get s k st)((src, key) := None)"
    using wm.get_del [of "(src, key)" st] wm.get_del_other [of "(src, key)" _ st] by (auto simp: fun_eq_iff)
  show "wm_updated_at src key (wm_set now src key v st) = Some (now_iso now)"
  proof (cases "find (wm_at src key) (watermarks st)")
    case None
    then have "\<not> list_ex (wm_at src key) (watermarks st)" by (auto simp: find_None_iff list_ex_iff)
    then show ?thesis using None by (simp add: wm_updated_at_def wm_set_def find_append wm_at_def)
  next
    case (Some r)
    then have "list_ex (wm_at src key) (watermarks st)" using find_keyD [OF Some] by (auto simp: list_ex_iff)
    then show ?thesis using Some find_keyD [OF Some]
      by (simp add: wm_updated_at_def wm_set_def find_upd_where wm_at_def)
  qed
qed

text \<open>
  The pause journal is a stack of open holds: from a new database, whatever takes and lifts are
  appended, a take opens a hold on top, a lift closes the newest open one and no other, and a lift
  with nothing open changes nothing.
\<close>

theorem pause_journal_stack:
  assumes "reach new_database pause_step st" "pause_journal_append now val kind actor at st = (n, st')"
  shows "open_stack st' = (if val = ''1'' then n # open_stack st
      else if val = ''0'' then tl (open_stack st) else open_stack st)"
  using pause_append_stack [OF pj.reach_inv [OF assms(1)] assms(2)] .

theorem pause_journal_stack_witness:
  "open_stack (snd (pause_journal_append 2 ''0'' ''person'' ''me'' None
     (snd (pause_journal_append 1 ''1'' ''person'' ''me'' None (empty_store (JInt 3)))))) = []"
proof -
  let ?s0 = "empty_store (JInt 3)"
  let ?s1 = "snd (pause_journal_append 1 ''1'' ''person'' ''me'' None ?s0)"
  have r0: "reach new_database pause_step ?s0" by (rule reach_start) (auto simp: new_database_def)
  then have r1: "reach new_database pause_step ?s1" by (rule reach_step) (rule pause_append)
  have "open_stack ?s1 = [1]"
    using pause_journal_stack [OF r0 prod.collapse [symmetric], of 1 "''1''" "''person''" "''me''" None]
    by (simp add: pause_journal_append_def Let_def empty_store_def open_stack_def open_takes_def)
  then show ?thesis
    using pause_journal_stack [OF r1 prod.collapse [symmetric], of 2 "''0''" "''person''" "''me''" None] by simp
qed

text \<open>
  The hold report lists every take exactly once, in order, and the holds it reports without an
  end are exactly the open ones.
\<close>

theorem pause_journal_holds_complete:
  assumes "reach new_database pause_step st"
  shows "map e_hold_id (pause_journal_holds None None st) = map p_id (filter (\<lambda>r. p_value r = ''1'') (pause_journal st)) \<and>
    map e_hold_id (filter (\<lambda>e. e_ended_at e = None) (pause_journal_holds None None st)) = rev (open_stack st)"
  using join_lifts_list [OF pj.reach_inv [OF assms]]
  by (simp add: pause_journal_holds_def open_stack_def open_takes_def conj_commute)

theorem pause_journal_holds_complete_witness:
  "map e_hold_id (pause_journal_holds None None (snd (pause_journal_append 1 ''1'' ''person'' ''me'' None (empty_store (JInt 3))))) = [1]"
proof -
  have "reach new_database pause_step (snd (pause_journal_append 1 ''1'' ''person'' ''me'' None (empty_store (JInt 3))))"
    by (rule reach_step, rule reach_start) (auto simp: new_database_def intro: pause_append)
  from pause_journal_holds_complete [OF this] show ?thesis
    by (simp add: pause_journal_append_def Let_def empty_store_def)
qed

text \<open>
  The gate journal pairs per gate and stays bounded: with stamps that do not run backwards, an
  append keeps the pairing sound, leaves no row older than thirty days, opens the engagement it
  records, closes the newest open engagement of its own gate when it is a release, and leaves every
  other gate's open engagements as they were apart from the ones that aged out.
\<close>

theorem hold_journal_pairs:
  assumes "hold_inv st" "hold_journal_append now gate val srcs detail None st = (n, st')"
    "\<forall>r \<in> set (hold_journal st). text_le (h_at r) (now_iso now)" "in_range now"
  shows "hold_inv st' \<and> (\<forall>r \<in> set (hold_journal st'). \<not> text_less (h_at r) (iso_utc (now - 30 * day_length))) \<and>
    map h_id (open_engages gate (hold_journal st')) =
      map h_id (filter (fresh_row now) ((if val = ''release'' then butlast else id) (open_engages gate (hold_journal st))))
      @ (if val = ''engage'' then [n] else []) \<and>
    (\<forall>g. g \<noteq> gate \<longrightarrow> map h_id (open_engages g (hold_journal st')) = map h_id (filter (fresh_row now) (open_engages g (hold_journal st))))"
proof -
  have stamp: "or_else None (now_iso now) = now_iso now" by (simp add: or_else_def)
  have new: "\<not> text_less (now_iso now) (iso_utc (now - HOLD_JOURNAL_MAX_AGE_DAYS * day_length))"
    using assms(4) by (simp add: now_iso_def)
  note open' = hold_append_open [OF assms(1,2), unfolded stamp, OF assms(3) new]
  have "\<forall>r \<in> set (hold_journal st'). \<not> text_less (h_at r) (iso_utc (now - 30 * day_length))"
    by (rule hold_appendD [OF assms(2)]) (simp add: fresh_row_def HOLD_JOURNAL_MAX_AGE_DAYS_def)
  then show ?thesis using open'(1) open'(2) [of gate] open'(2) new by (auto split: if_splits)
qed

theorem hold_journal_pairs_witness:
  "hold_inv (snd (hold_journal_append 5 ''kv_gate'' ''engage'' None [] None (empty_store (JInt 3))))"
proof -
  have "hold_inv (empty_store (JInt 3))" by (simp add: hold_inv_def empty_store_def)
  from hold_journal_pairs [OF this prod.collapse [symmetric], of 5 "''kv_gate''" "''engage''" None "[]"]
  show ?thesis by (simp add: empty_store_def)
qed

end
