(* ===== verification/Regex.thy ===== *)
theory Regex
  imports Prelude
begin

text \<open>
  The fragment of Python's \<open>re\<close> the error classifier uses: case-insensitive literals, \<open>\s+\<close>,
  \<open>\w*\<close>, \<open>\b\<close>, sequence, alternation and the optional group, matched by backtracking. A position in
  the subject is the character before it, if any, and the text from it on; \<open>steps\<close> lists every
  position a pattern can end at. Characters are ASCII: the letters beyond ASCII that \<open>\w\<close> and
  \<open>IGNORECASE\<close> know in Python are outside the model.
\<close>

definition is_word :: "char \<Rightarrow> bool" where
  "is_word c \<longleftrightarrow> (let n = (of_char c :: nat) in
     (48 \<le> n \<and> n \<le> 57) \<or> (65 \<le> n \<and> n \<le> 90) \<or> n = 95 \<or> (97 \<le> n \<and> n \<le> 122))"

datatype regex =
    Lit string
  | Spaces
  | Words
  | Bound
  | Seq regex regex
  | Alt regex regex
  | Opt regex

type_synonym position = "char option \<times> string"

fun lit_at :: "string \<Rightarrow> position \<Rightarrow> position list" where
  "lit_at [] p = [p]"
| "lit_at (l # ls) (b, []) = []"
| "lit_at (l # ls) (b, c # cs) = (if lower_char l = lower_char c then lit_at ls (Some c, cs) else [])"

fun run_of_chars :: "(char \<Rightarrow> bool) \<Rightarrow> string \<Rightarrow> position list" where
  "run_of_chars q [] = []"
| "run_of_chars q (c # cs) = (if q c then (Some c, cs) # run_of_chars q cs else [])"

definition at_bound :: "position \<Rightarrow> bool" where
  "at_bound p \<longleftrightarrow> (case fst p of None \<Rightarrow> False | Some b \<Rightarrow> is_word b) \<noteq>
     (case snd p of [] \<Rightarrow> False | c # _ \<Rightarrow> is_word c)"

fun steps :: "regex \<Rightarrow> position \<Rightarrow> position list" where
  "steps (Lit l) p = lit_at l p"
| "steps Spaces p = run_of_chars is_space (snd p)"
| "steps Words p = p # run_of_chars is_word (snd p)"
| "steps Bound p = (if at_bound p then [p] else [])"
| "steps (Seq a b) p = concat (map (steps b) (steps a p))"
| "steps (Alt a b) p = steps a p @ steps b p"
| "steps (Opt a) p = steps a p @ [p]"

fun search_from :: "regex \<Rightarrow> char option \<Rightarrow> string \<Rightarrow> bool" where
  "search_from r b [] = (steps r (b, []) \<noteq> [])"
| "search_from r b (c # cs) = (steps r (b, c # cs) \<noteq> [] \<or> search_from r (Some c) cs)"

definition search :: "regex \<Rightarrow> string \<Rightarrow> bool" where
  "search r s = search_from r None s"

fun alts :: "regex list \<Rightarrow> regex" where
  "alts [] = Seq Bound (Lit [])"
| "alts [r] = r"
| "alts (r # s # rs) = Alt r (alts (s # rs))"

fun seqs :: "regex list \<Rightarrow> regex" where
  "seqs [] = Lit []"
| "seqs [r] = r"
| "seqs (r # s # rs) = Seq r (seqs (s # rs))"

definition whole :: "regex \<Rightarrow> regex" where
  "whole r = seqs [Bound, r, Bound]"

section \<open>Matching ignores case\<close>

definition lower_pos :: "position \<Rightarrow> position" where
  "lower_pos p = (map_option lower_char (fst p), lower (snd p))"

lemma snd_lower_pos [simp]: "snd (lower_pos p) = lower (snd p)"
  by (simp add: lower_pos_def)

lemma of_char_lower: "(of_char (lower_char c) :: nat) =
    (if 65 \<le> (of_char c :: nat) \<and> (of_char c :: nat) \<le> 90 then of_char c + 32 else of_char c)"
  by (simp add: lower_char_def Let_def)

lemma lower_char_idem [simp]: "lower_char (lower_char c) = lower_char c"
  by (simp add: lower_char_def [of "lower_char c"] of_char_lower Let_def) (simp add: lower_char_def Let_def)

lemma is_word_lower [simp]: "is_word (lower_char c) = is_word c"
  by (auto simp: is_word_def Let_def of_char_lower)

lemma is_space_lower [simp]: "is_space (lower_char c) = is_space c"
  by (auto simp: is_space_def Let_def of_char_lower)

lemma lit_at_lower: "map lower_pos (lit_at l p) = lit_at l (lower_pos p)"
  by (induction l p rule: lit_at.induct) (auto simp: lower_pos_def lower_def)

lemma run_of_chars_lower:
  "(\<And>c. q (lower_char c) = q c) \<Longrightarrow> map lower_pos (run_of_chars q s) = run_of_chars q (lower s)"
  by (induction s) (auto simp: lower_pos_def lower_def)

lemma at_bound_lower: "at_bound (lower_pos p) = at_bound p"
  by (auto simp: at_bound_def lower_pos_def lower_def split: option.splits list.splits)

lemma steps_lower: "map lower_pos (steps r p) = steps r (lower_pos p)"
proof (induction r arbitrary: p)
  case (Seq a b)
  have "map lower_pos (steps (Seq a b) p) = concat (map (\<lambda>x. map lower_pos (steps b x)) (steps a p))"
    by (simp add: map_concat comp_def)
  also have "\<dots> = concat (map (steps b) (map lower_pos (steps a p)))" using Seq.IH(2) by (simp add: comp_def)
  finally show ?case using Seq.IH(1) by simp
qed (simp_all add: lit_at_lower run_of_chars_lower at_bound_lower)

lemma search_from_lower: "search_from r (map_option lower_char b) (lower s) = search_from r b s"
proof (induction s arbitrary: b)
  case Nil
  then show ?case using steps_lower [of r "(b, [])"] by (auto simp: lower_pos_def lower_def)
next
  case (Cons c cs)
  have "steps r (lower_pos (b, c # cs)) = [] \<longleftrightarrow> steps r (b, c # cs) = []"
    using steps_lower [of r "(b, c # cs)"] by (metis map_is_Nil_conv)
  then show ?case using Cons.IH [of "Some c"] by (simp add: lower_pos_def lower_def)
qed

lemma search_lower: "search r (lower s) = search r s"
  using search_from_lower [of r None s] by (simp add: search_def)

section \<open>Alternatives\<close>

lemma search_Alt: "search (Alt a b) s \<longleftrightarrow> search a s \<or> search b s"
proof -
  have "search_from (Alt a b) c s \<longleftrightarrow> search_from a c s \<or> search_from b c s" for c
    by (induction s arbitrary: c) auto
  then show ?thesis by (simp add: search_def)
qed

end
