(* ===== verification/Maintenance.thy ===== *)
theory Maintenance
  imports Regex Journals Queue_Reads
begin

text \<open>
  The poison sweep (\<open>workers/maintenance.py\<close>): error signatures and classes, the cross-sweep tally
  kept in watermarks, the sweep itself, its record, and the gate in front of the mitigation drill.

  SHA-1 is a parameter \<open>sha\<close> (the hexdigest of a text). Writing the report file is outside: its
  outcome is the parameter \<open>path\<close>. The settings arrive converted to their types. The em dash of two
  reason texts is written as two hyphens.
\<close>

section \<open>Error signatures\<close>

definition is_seg :: "char \<Rightarrow> bool" where
  "is_seg c \<longleftrightarrow> is_word c \<or> c = CHR ''.'' \<or> c = CHR ''-''"

text \<open>\<open>(?:/[\w.\-]+)*\<close> at the head of the text: how many segments, and what follows them.\<close>

function path_run :: "string \<Rightarrow> nat \<times> string" where
  "path_run [] = (0, [])"
| "path_run [d] = (0, [d])"
| "path_run (d # c # cs) =
     (if d = CHR ''/'' \<and> is_seg c
      then (let (n, rest) = path_run (dropWhile is_seg cs) in (Suc n, rest))
      else (0, d # c # cs))"
  by pat_completeness auto
termination
  by (relation "measure length") (auto simp: le_imp_less_Suc le_SucI length_dropWhile_le)

lemma path_run_length: "length (snd (path_run s)) \<le> length s"
proof (induction s rule: path_run.induct)
  case (3 d c cs)
  then show ?case using length_dropWhile_le [of is_seg cs] by (auto split: prod.splits)
qed auto

lemma path_run_shrinks: "0 < fst (path_run s) \<Longrightarrow> length (snd (path_run s)) < length s"
proof (induction s rule: path_run.induct)
  case (3 d c cs)
  have "length (snd (path_run (dropWhile is_seg cs))) \<le> length cs"
    using path_run_length length_dropWhile_le le_trans by blast
  then show ?case using 3 by (auto split: prod.splits if_splits)
qed auto

definition drop_slash :: "string \<Rightarrow> string" where
  "drop_slash s = (case s of c # cs \<Rightarrow> if c = CHR ''/'' then cs else s | [] \<Rightarrow> [])"

lemma drop_slash_length: "length (drop_slash s) \<le> length s"
  by (auto simp: drop_slash_def split: list.splits)

text \<open>The substitutions of \<open>_SIG_SUBS\<close>, in their order: paths, hex ids, numbers, white space.\<close>

function sub_paths :: "string \<Rightarrow> string" where
  "sub_paths [] = []"
| "sub_paths (c # cs) =
     (if 2 \<le> fst (path_run (c # cs)) then ''<path>'' @ sub_paths (drop_slash (snd (path_run (c # cs))))
      else c # sub_paths cs)"
  by pat_completeness auto
termination
proof (relation "measure length")
  fix c :: char and cs :: string
  assume "2 \<le> fst (path_run (c # cs))"
  then have "length (snd (path_run (c # cs))) < length (c # cs)" using path_run_shrinks [of "c # cs"] by linarith
  then show "(drop_slash (snd (path_run (c # cs))), c # cs) \<in> measure length"
    using drop_slash_length le_less_trans by (simp, blast)
qed auto

function sub_words :: "(string \<Rightarrow> bool) \<Rightarrow> string \<Rightarrow> string \<Rightarrow> string" where
  "sub_words hit repl [] = []"
| "sub_words hit repl (c # cs) =
     (if is_word c
      then (if hit (c # takeWhile is_word cs) then repl else c # takeWhile is_word cs)
           @ sub_words hit repl (dropWhile is_word cs)
      else c # sub_words hit repl cs)"
  by pat_completeness auto
termination
  by (relation "measure (\<lambda>(_, _, s). length s)") (auto simp: le_imp_less_Suc length_dropWhile_le)

function sub_spaces :: "string \<Rightarrow> string" where
  "sub_spaces [] = []"
| "sub_spaces (c # cs) =
     (if is_space c then CHR '' '' # sub_spaces (dropWhile is_space cs) else c # sub_spaces cs)"
  by pat_completeness auto
termination
  by (relation "measure length") (auto simp: le_imp_less_Suc length_dropWhile_le)

definition is_hex_id :: "string \<Rightarrow> bool" where
  "is_hex_id w \<longleftrightarrow> 8 \<le> length w \<and> list_all (\<lambda>c. lower_char c \<in> set ''0123456789abcdef'') w"

definition is_line_break :: "char \<Rightarrow> bool" where
  "is_line_break c \<longleftrightarrow> (let n = (of_char c :: nat) in (10 \<le> n \<and> n \<le> 13) \<or> (28 \<le> n \<and> n \<le> 30))"

definition signature :: "string option \<Rightarrow> string" where
  "signature err =
     (let t = strip (case err of None \<Rightarrow> [] | Some e \<Rightarrow> e) in
      if t = [] then ''(no error recorded)''
      else
        let line = take 400 (takeWhile (\<lambda>c. \<not> is_line_break c) t)
        in take 200 (strip (sub_spaces (sub_words all_digits ''<n>'' (sub_words is_hex_id ''<id>'' (sub_paths line))))))"

section \<open>Error classes\<close>

definition STRUCTURAL :: regex where
  "STRUCTURAL = whole (alts (seqs [Lit ''unknown'', Spaces, Lit ''source''] # map Lit
     [''KeyError'', ''IndexError'', ''AttributeError'', ''TypeError'', ''NameError'',
      ''ImportError'', ''ModuleNotFoundError'', ''JSONDecodeError'', ''UnicodeDecodeError'',
      ''ValidationError'', ''AssertionError'', ''NotImplementedError'',
      ''FileNotFoundError'', ''NotADirectoryError'', ''IsADirectoryError'',
      ''PermissionError'', ''IntegrityError'', ''OperationalError'']))"

definition TRANSIENT :: regex where
  "TRANSIENT = alts
     [whole (alts (map Lit
        [''TimeoutError'', ''TimedOut'', ''ReadTimeout'', ''WriteTimeout'', ''PoolTimeout'',
         ''ConnectTimeout'', ''CancelledError'', ''StreamStalledError'',
         ''ConnectError'', ''ConnectionError'', ''ConnectionReset'', ''ConnectionRefused'',
         ''ConnectionAborted'', ''RemoteProtocolError'', ''ReadError'', ''WriteError'',
         ''ProtocolError'', ''IncompleteRead'', ''ChunkedEncodingError'',
         ''ServiceUnavailable'', ''BadGateway'', ''GatewayTimeout'', ''TooManyRequests'',
         ''OverloadedError''] @ [Seq (Lit ''RateLimit'') Words, Lit ''OSError''])),
      whole (alts (map Lit [''429'', ''500'', ''502'', ''503'', ''504''])),
      seqs [Lit ''server'', Spaces, Lit ''disconnected''],
      seqs [Lit ''connection'', Spaces, alts (map Lit [''refused'', ''reset'', ''closed'', ''aborted''])],
      seqs [Lit ''temporarily'', Spaces, Lit ''unavailable''],
      seqs [Lit ''all'', Spaces, Lit ''connection'', Spaces, Lit ''attempts'', Spaces, Lit ''failed''],
      seqs [alts (map Lit [''engine'', ''model'', ''server'']), Spaces, Opt (Seq (Lit ''is'') Spaces),
        alts [seqs [Lit ''not'', Spaces, Lit ''ready''], Lit ''unavailable'', Lit ''overloaded'']]]"

definition classify :: "string option \<Rightarrow> string" where
  "classify err =
     (let t = (case err of None \<Rightarrow> [] | Some e \<Rightarrow> e) in
      if search STRUCTURAL t then ''structural''
      else if search TRANSIENT t then ''transient''
      else ''structural'')"

section \<open>The tally\<close>

definition SOURCE :: string where "SOURCE = ''queue-maintenance''"
definition TALLY_PREFIX :: string where "TALLY_PREFIX = ''sig:''"
definition LAST_SWEEP_AT :: string where "LAST_SWEEP_AT = ''last_sweep_at''"
definition LAST_SWEEP :: string where "LAST_SWEEP = ''last_sweep''"
definition LAST_DRILL_AT :: string where "LAST_DRILL_AT = ''last_drill_at''"

definition tally_key :: "(string \<Rightarrow> string) \<Rightarrow> string \<Rightarrow> string \<Rightarrow> string" where
  "tally_key sha src sig = TALLY_PREFIX @ take 12 (sha (src @ ''|'' @ sig))"

definition load_tally :: "string \<Rightarrow> store \<Rightarrow> (string \<times> json) list option" where
  "load_tally key st = loads_or_none (non_empty (wm_get SOURCE key st))"

text \<open>\<open>int(d.get(k, 0))\<close>.\<close>

definition int_field :: "(string \<times> json) list \<Rightarrow> string \<Rightarrow> py_error + int" where
  "int_field kvs k = (case map_of kvs k of None \<Rightarrow> Inr 0 | Some v \<Rightarrow> int_of v)"

definition bump_tally ::
    "nat \<Rightarrow> string \<Rightarrow> string \<Rightarrow> string \<Rightarrow> string \<Rightarrow> store \<Rightarrow> py_error + (int \<times> store)" where
  "bump_tally now key src sig err st =
     (let old = (case load_tally key st of Some (kv # kvs) \<Rightarrow> kv # kvs
        | _ \<Rightarrow> [(''source'', JStr src), (''signature'', JStr sig), (''count'', JInt 0),
               (''first_seen'', JStr (iso_utc now))])
      in case int_field old ''count'' of Inl e \<Rightarrow> Inl e
         | Inr n \<Rightarrow>
             let t = dict_set (dict_set (dict_set old ''count'' (JInt (n + 1))) ''last_seen'' (JStr (iso_utc now)))
                       ''last_error'' (JStr (take 500 err))
             in Inr (n + 1, wm_set now SOURCE key (JDoc (JObj t)) st))"

definition last_seen :: "jtext \<Rightarrow> py_error + datetime option" where
  "last_seen raw = (case loads raw of None \<Rightarrow> Inr None
     | Some v \<Rightarrow>
         (case (if truthy v then v else JObj []) of
            JObj kvs \<Rightarrow>
              (case map_of kvs ''last_seen'' of None \<Rightarrow> Inr None
               | Some (JStr s) \<Rightarrow> Inr (fromisoformat s) | Some _ \<Rightarrow> Inr None)
          | _ \<Rightarrow> Inl AttributeError))"

text \<open>
  Whether a tally is dropped: unreadable, or last seen before the cutoff. Comparing a stamp without
  an offset with the aware cutoff raises.
\<close>

definition tally_expired :: "nat \<Rightarrow> jtext \<Rightarrow> py_error + bool" where
  "tally_expired cutoff raw = (case last_seen raw of Inl e \<Rightarrow> Inl e
     | Inr None \<Rightarrow> Inr True
     | Inr (Some dt) \<Rightarrow> if offset dt = None then Inl TypeError else Inr (instant dt < int cutoff))"

fun prune_tallies_from :: "nat \<Rightarrow> (string \<times> jtext) list \<Rightarrow> store \<Rightarrow> py_error + (nat \<times> store)" where
  "prune_tallies_from cutoff [] st = Inr (0, st)"
| "prune_tallies_from cutoff ((key, raw) # rest) st =
     (if \<not> startswith key TALLY_PREFIX then prune_tallies_from cutoff rest st
      else case tally_expired cutoff raw of Inl e \<Rightarrow> Inl e
        | Inr True \<Rightarrow> map_sum id (\<lambda>(n, s). (Suc n, s)) (prune_tallies_from cutoff rest (wm_delete SOURCE key st))
        | Inr False \<Rightarrow> prune_tallies_from cutoff rest st)"

definition prune_tallies :: "int \<Rightarrow> nat \<Rightarrow> store \<Rightarrow> py_error + (nat \<times> store)" where
  "prune_tallies retention_days now st =
     prune_tallies_from (now - nat (max 1 retention_days) * day_length) (wm_all SOURCE st) st"

section \<open>The sweep\<close>

record sweep_cfg =
  max_revives :: int
  revive_delay :: int
  repeat_threshold :: int
  tally_retention_days :: int
  scan_limit :: nat

definition sweep_defaults :: sweep_cfg where
  "sweep_defaults = \<lparr>max_revives = 1, revive_delay = 300000000, repeat_threshold = 3,
     tally_retention_days = 14, scan_limit = 200\<rparr>"

record sweep_action =
  a_item_id :: nat
  a_source :: string
  a_kind :: string
  a_attempts :: int
  a_signature :: string
  a_class :: string
  a_action :: string
  a_reason :: string
  a_occurrences :: int

record escalation =
  x_source :: string
  x_signature :: string
  x_count :: int
  x_class :: string

record sweep_acc =
  s_store :: store
  s_actions :: "sweep_action list"
  s_escalations :: "escalation list"
  s_escalated :: "string list"
  s_revived :: nat
  s_quarantined :: nat

definition keep_reason :: "sweep_cfg \<Rightarrow> string \<Rightarrow> int \<Rightarrow> queue_item \<Rightarrow> store \<Rightarrow> string" where
  "keep_reason cfg cls revives it st =
     (if cls = ''structural'' then ''not retryable -- the item reproduces this failure''
      else if max_revives cfg \<le> revives then ''transient, but already revived '' @ int_text revives @ ''x''
      else if has_open_sibling (i_source it) (i_kind it) (i_payload it) (i_id it) st
      then ''an equivalent item is already open -- reviving would duplicate it''
      else [])"

definition triage_of ::
    "nat \<Rightarrow> string \<Rightarrow> string \<Rightarrow> int \<Rightarrow> string \<Rightarrow> string \<Rightarrow> string \<Rightarrow> int \<Rightarrow> (string \<times> json) list" where
  "triage_of now sig cls occurrences err action reason revives =
     [(''at'', JStr (iso_utc now)), (''signature'', JStr sig), (''class'', JStr cls),
      (''occurrences'', JInt occurrences), (''error'', JStr (take 500 err)),
      (''action'', JStr action), (''reason'', JStr reason), (''revives'', JInt revives)]"

definition sweep_item ::
    "(string \<Rightarrow> string) \<Rightarrow> nat \<Rightarrow> int \<Rightarrow> sweep_cfg \<Rightarrow> queue_item \<Rightarrow> sweep_acc \<Rightarrow> py_error + sweep_acc" where
  "sweep_item sha now cap cfg it acc =
     (let err = (case i_error it of None \<Rightarrow> [] | Some e \<Rightarrow> e);
          sig = signature (i_error it); cls = classify (i_error it);
          key = tally_key sha (i_source it) sig
      in case bump_tally now key (i_source it) sig err (s_store acc) of Inl e \<Rightarrow> Inl e
      | Inr (count, st) \<Rightarrow>
      (case int_field (case i_triage it of None \<Rightarrow> [] | Some t \<Rightarrow> t) ''revives'' of Inl e \<Rightarrow> Inl e
       | Inr revives \<Rightarrow>
       let reason = keep_reason cfg cls revives it st;
           quarantining = (reason \<noteq> []);
           why = (if quarantining then reason else ''transient failure -- one more claim'');
           action = (if quarantining then ''quarantined'' else ''revived'');
           (ok, st') = (if quarantining
             then quarantine now (i_id it) (triage_of now sig cls count err action why revives) st
             else revive now (i_id it) (max 0 (cap - 1)) (revive_delay cfg)
                    (triage_of now sig cls count err action why (revives + 1)) st)
       in if \<not> ok then Inr (acc\<lparr>s_store := st'\<rparr>)
          else
            let escalating = (repeat_threshold cfg \<le> count \<and> key \<notin> set (s_escalated acc))
            in Inr \<lparr>s_store = st',
                 s_actions = s_actions acc @ [\<lparr>a_item_id = i_id it, a_source = i_source it, a_kind = i_kind it,
                   a_attempts = i_attempts it, a_signature = sig, a_class = cls, a_action = action,
                   a_reason = why, a_occurrences = count\<rparr>],
                 s_escalations = (if escalating then s_escalations acc @ [\<lparr>x_source = i_source it,
                   x_signature = sig, x_count = count, x_class = cls\<rparr>] else s_escalations acc),
                 s_escalated = (if escalating then key # s_escalated acc else s_escalated acc),
                 s_revived = (if quarantining then s_revived acc else Suc (s_revived acc)),
                 s_quarantined = (if quarantining then Suc (s_quarantined acc) else s_quarantined acc)\<rparr>))"

fun sweep_items ::
    "(string \<Rightarrow> string) \<Rightarrow> nat \<Rightarrow> int \<Rightarrow> sweep_cfg \<Rightarrow> queue_item list \<Rightarrow> sweep_acc \<Rightarrow> py_error + sweep_acc" where
  "sweep_items sha now cap cfg [] acc = Inr acc"
| "sweep_items sha now cap cfg (it # its) acc =
     (case sweep_item sha now cap cfg it acc of Inl e \<Rightarrow> Inl e
      | Inr acc' \<Rightarrow> sweep_items sha now cap cfg its acc')"

record sweep_report =
  sr_at :: string
  sr_scanned :: nat
  sr_revived :: nat
  sr_quarantined :: nat
  sr_pruned :: nat
  sr_actions :: "sweep_action list"
  sr_escalations :: "escalation list"

definition sweep :: "(string \<Rightarrow> string) \<Rightarrow> nat \<Rightarrow> int \<Rightarrow> sweep_cfg \<Rightarrow> store \<Rightarrow> py_error + (sweep_report \<times> store)" where
  "sweep sha now cap cfg st =
     (case list_items ''poisoned'' [] (scan_limit cfg) st of Inl e \<Rightarrow> Inl e
      | Inr items \<Rightarrow>
      (case sweep_items sha now cap cfg items \<lparr>s_store = st, s_actions = [], s_escalations = [],
          s_escalated = [], s_revived = 0, s_quarantined = 0\<rparr> of Inl e \<Rightarrow> Inl e
       | Inr acc \<Rightarrow>
       map_sum id (\<lambda>(pruned, st'). (\<lparr>sr_at = iso_utc now, sr_scanned = length items, sr_revived = s_revived acc,
           sr_quarantined = s_quarantined acc, sr_pruned = pruned, sr_actions = s_actions acc,
           sr_escalations = s_escalations acc\<rparr>, st'))
         (prune_tallies (tally_retention_days cfg) now (s_store acc))))"

section \<open>The recorded sweep\<close>

definition escalation_json :: "escalation \<Rightarrow> json" where
  "escalation_json x = JObj [(''source'', JStr (x_source x)), (''signature'', JStr (x_signature x)),
     (''count'', JInt (x_count x)), (''class'', JStr (x_class x))]"

definition sweep_summary :: "sweep_report \<Rightarrow> string" where
  "sweep_summary r =
     ''swept '' @ nat_text (sr_scanned r) @ '' poisoned: '' @ nat_text (sr_revived r) @ '' revived, ''
     @ nat_text (sr_quarantined r) @ '' quarantined''
     @ (if sr_escalations r = [] then [] else ''; '' @ nat_text (length (sr_escalations r)) @ '' recurring'')"

definition last_sweep_doc :: "sweep_report \<Rightarrow> string option \<Rightarrow> (string \<times> json) list" where
  "last_sweep_doc r path =
     [(''at'', JStr (sr_at r)), (''scanned'', JInt (int (sr_scanned r))), (''revived'', JInt (int (sr_revived r))),
      (''quarantined'', JInt (int (sr_quarantined r))),
      (''escalations'', JArr (map escalation_json (sr_escalations r))), (''report_path'', opt_str path)]"

definition sweep_run :: "nat \<Rightarrow> string \<Rightarrow> sweep_report \<Rightarrow> string option \<Rightarrow> run_row" where
  "sweep_run now hex r path =
     \<lparr>r_run_id = new_run_id SOURCE now hex, r_queue_id = None, r_source = SOURCE, r_task_id = None,
      r_status = ''success'', r_started_at = iso_utc now, r_completed_at = iso_utc now, r_duration = 0,
      r_summary = sweep_summary r, r_artifact_path = or_else path [], r_response_json = JRaw [],
      r_meta_json = Some (JDoc (JObj [(''revived'', JInt (int (sr_revived r))),
        (''quarantined'', JInt (int (sr_quarantined r))),
        (''escalations'', JArr (map escalation_json (sr_escalations r)))])),
      r_claims_json = None, r_kind = None\<rparr>"

definition run_sweep ::
    "(string \<Rightarrow> string) \<Rightarrow> nat \<Rightarrow> string \<Rightarrow> string option \<Rightarrow> int \<Rightarrow> sweep_cfg \<Rightarrow> store
      \<Rightarrow> py_error + (sweep_report \<times> store)" where
  "run_sweep sha now hex path cap cfg st =
     (case sweep sha now cap cfg st of Inl e \<Rightarrow> Inl e
      | Inr (r, st1) \<Rightarrow>
          let acted = (0 < sr_revived r + sr_quarantined r); path' = (if acted then path else None)
          in map_sum id (\<lambda>st2. (r, wm_set now SOURCE LAST_SWEEP (JDoc (JObj (last_sweep_doc r path')))
               (wm_set now SOURCE LAST_SWEEP_AT (JRaw (iso_utc now)) st2)))
             (if acted then record_run (sweep_run now hex r path) st1 else Inr st1))"

definition last_sweep :: "store \<Rightarrow> (string \<times> json) list option" where
  "last_sweep st = loads_or_none (non_empty (wm_get SOURCE LAST_SWEEP st))"

section \<open>The mitigation drill\<close>

text \<open>
  The seat's process-local state: the child it spawned, the stamp it wrote for it, and the stamp it
  last reported on. The outside world is given by \<open>blocked\<close> (this process is itself a drill), \<open>poll\<close>
  (the exit code of a child, or none while it runs) and \<open>spawn\<close> (the pid of a new child, or the
  text of the OSError). \<open>Not_Due\<close> carries the time left in microseconds, before the code rounds it to
  seconds; the two log lines are left out, and a call that raises leaves the queue as it was.
\<close>

record drill_seat =
  d_proc :: "nat option"
  d_stamp_here :: "string option"
  d_outcome_reported :: "string option"

record drill_cfg =
  d_enabled :: bool
  d_interval :: int
  d_wait_window :: int

datatype drill_result =
    Skipped string
  | Running_Already nat
  | Not_Due int
  | Spawned "string list" nat

definition mitigation_drill_argv :: "drill_cfg \<Rightarrow> string \<Rightarrow> string list" where
  "mitigation_drill_argv cfg python =
     [python, ''-m'', ''scripts.mitigation_drill'', ''--wait-free-window'', int_text (d_wait_window cfg)]"

definition drill_stamp_of :: "string \<Rightarrow> datetime option" where
  "drill_stamp_of s = (if s = [] then None else fromisoformat s)"

definition maybe_run_mitigation_drill ::
    "bool \<Rightarrow> (nat \<Rightarrow> int option) \<Rightarrow> (string list \<Rightarrow> string + nat) \<Rightarrow> string \<Rightarrow> drill_cfg \<Rightarrow> nat
      \<Rightarrow> drill_seat \<times> store \<Rightarrow> py_error + (drill_result \<times> drill_seat \<times> store)" where
  "maybe_run_mitigation_drill blocked poll spawn python cfg now = (\<lambda>(seat, st).
     if \<not> d_enabled cfg then Inr (Skipped ''disabled'', seat, st)
     else if blocked then Inr (Skipped ''inside-a-drill'', seat, st)
     else
       case (case d_proc seat of None \<Rightarrow> None | Some pid \<Rightarrow> if poll pid = None then Some pid else None) of
         Some pid \<Rightarrow> Inr (Running_Already pid, seat, st)
       | None \<Rightarrow>
           let seat1 = seat\<lparr>d_proc := None\<rparr>;
               last = (case wm_get SOURCE LAST_DRILL_AT st of None \<Rightarrow> [] | Some t \<Rightarrow> column_text t);
               seat2 = (if last \<noteq> [] \<and> d_stamp_here seat1 \<noteq> Some last \<and> d_outcome_reported seat1 \<noteq> Some last
                        then seat1\<lparr>d_outcome_reported := Some last\<rparr> else seat1);
               elapsed = (if last = [] then Inr (d_interval cfg * 1000000)
                          else case drill_stamp_of last of None \<Rightarrow> Inr (d_interval cfg * 1000000)
                            | Some dt \<Rightarrow> if offset dt = None then Inl TypeError else Inr (int now - instant dt))
           in case elapsed of Inl e \<Rightarrow> Inl e
              | Inr el \<Rightarrow>
                  if el < d_interval cfg * 1000000
                  then Inr (Not_Due (d_interval cfg * 1000000 - el), seat2, st)
                  else
                    let st1 = wm_set now SOURCE LAST_DRILL_AT (JRaw (iso_utc now)) st;
                        seat3 = seat2\<lparr>d_stamp_here := Some (iso_utc now)\<rparr>;
                        argv = mitigation_drill_argv cfg python
                    in case spawn argv of
                         Inl why \<Rightarrow> Inr (Skipped (''spawn-failed: '' @ why), seat3, st1)
                       | Inr pid \<Rightarrow> Inr (Spawned argv pid, seat3\<lparr>d_proc := Some pid\<rparr>, st1))"

end
