(* ===== verification/Sweep_Theorems.thy ===== *)
theory Sweep_Theorems
  imports Maintenance Queue_Theorems
begin

text \<open>
  What the poison sweep does to the queue: every scanned row is triaged, a revive spends one unit of
  the row's budget and leaves exactly one claim, no duplicate open work is created, the tallies that
  remain are recent, and the mitigation drill keeps its interval.
\<close>

section \<open>One item\<close>

definition triage_fields :: "queue_row \<Rightarrow> (string \<times> json) list" where
  "triage_fields r = (case loads_or_none (q_triage_json r) of None \<Rightarrow> [] | Some t \<Rightarrow> t)"

definition revives_of :: "queue_row \<Rightarrow> py_error + int" where
  "revives_of r = int_field (triage_fields r) ''revives''"

definition same_work :: "queue_row \<Rightarrow> queue_row \<Rightarrow> bool" where
  "same_work a b \<longleftrightarrow> q_source a = q_source b \<and> q_kind a = q_kind b \<and>
     column_text (q_payload_json a) = column_text (q_payload_json b)"

text \<open>What a sweep may make of a poisoned row.\<close>

definition triaged :: "int \<Rightarrow> sweep_cfg \<Rightarrow> queue_row \<Rightarrow> queue_row \<Rightarrow> bool" where
  "triaged cap cfg r r' \<longleftrightarrow> q_id r' = q_id r \<and> same_work r' r \<and>
     (\<exists>n. revives_of r = Inr n \<and>
        ((q_state r' = Quarantined \<and> revives_of r' = Inr n) \<or>
         (q_state r' = Queued \<and> q_attempts r' = max 0 (cap - 1) \<and> classify (q_error r) = ''transient'' \<and>
          n < max_revives cfg \<and> revives_of r' = Inr (n + 1))))"

lemma bump_tally_queue:
  assumes "bump_tally now key src sig err st = Inr (n, st')"
  shows "queue st' = queue st" "runs st' = runs st" "max_attempts st' = max_attempts st" "queue_seq st' = queue_seq st"
  using assms by (auto simp: bump_tally_def Let_def wm_set_def split: sum.splits if_splits)

lemma queue_inv_cong:
  "queue s = queue t \<Longrightarrow> queue_seq s = queue_seq t \<Longrightarrow> max_attempts s = max_attempts t \<Longrightarrow> runs s = runs t \<Longrightarrow>
   queue_inv s = queue_inv t"
  by (simp add: queue_inv_def ids_ok_def)

lemma from_row_item:
  assumes "from_row r = Inr it"
  shows "i_id it = q_id r" "i_error it = q_error r" "i_source it = q_source r" "i_kind it = q_kind r"
    "(case i_triage it of None \<Rightarrow> [] | Some t \<Rightarrow> t) = triage_fields r"
    "q_payload_json r = JDoc (JObj kvs) \<Longrightarrow> i_payload it = JObj kvs"
  using assms
  by (auto simp: from_row_def triage_fields_def loads_def column_text_empty split: option.splits if_splits)

lemma revives_triage:
  "int_field (case loads_or_none (Some (JDoc (JObj (triage_of now sig cls c err act why n)))) of None \<Rightarrow> [] | Some t \<Rightarrow> t)
     ''revives'' = Inr n"
  by (simp add: loads_or_none_def loads_def as_obj_def triage_of_def int_field_def int_of_def py_int_def)

lemma poisoned_update:
  assumes "queue_inv st" "r \<in> set (queue st)" "q_state r = Poisoned"
  shows "list_ex (\<lambda>x. q_id x = q_id r \<and> q_state x = Poisoned) (queue st)"
    "upd_where (\<lambda>x. q_id x = q_id r \<and> q_state x = Poisoned) f (queue st) = upd_where (\<lambda>x. x = r) (\<lambda>_. f r) (queue st)"
  using assms queue_inv_unique [OF assms(1) _ assms(2)]
  by (auto simp: list_ex_iff upd_where_def)

definition obj_payload :: "queue_row \<Rightarrow> bool" where
  "obj_payload r \<longleftrightarrow> (\<exists>kvs. q_payload_json r = JDoc (JObj kvs))"

text \<open>The row a quarantine and a revive of the sweep write.\<close>

definition quarantined_row :: "nat \<Rightarrow> (string \<times> json) list \<Rightarrow> queue_row \<Rightarrow> queue_row" where
  "quarantined_row now t r = r\<lparr>q_state := Quarantined,
     q_completed_at := (case q_completed_at r of None \<Rightarrow> Some (now_iso now) | Some c \<Rightarrow> Some c),
     q_dedup_key := None, q_triaged_at := Some (now_iso now), q_triage_json := Some (JDoc (JObj t))\<rparr>"

definition revived_row :: "nat \<Rightarrow> int \<Rightarrow> int \<Rightarrow> (string \<times> json) list \<Rightarrow> queue_row \<Rightarrow> queue_row" where
  "revived_row now attempts delay t r = r\<lparr>q_state := Queued, q_attempts := attempts, q_claimed_at := None,
     q_claimed_by := None, q_completed_at := None, q_not_before := Some (iso_utc (now + nat (max 0 delay))),
     q_triaged_at := Some (now_iso now), q_triage_json := Some (JDoc (JObj t))\<rparr>"

lemma quarantine_row:
  assumes "queue_inv st" "r \<in> set (queue st)" "q_state r = Poisoned"
  shows "quarantine now (q_id r) t st =
    (True, st\<lparr>queue := upd_where (\<lambda>x. x = r) (\<lambda>_. quarantined_row now t r) (queue st)\<rparr>)"
  using poisoned_update [OF assms] by (simp add: quarantine_def quarantined_row_def)

lemma revive_row:
  assumes "queue_inv st" "r \<in> set (queue st)" "q_state r = Poisoned"
  shows "revive now (q_id r) a delay t st =
    (True, st\<lparr>queue := upd_where (\<lambda>x. x = r) (\<lambda>_. revived_row now a delay t r) (queue st)\<rparr>)"
  using poisoned_update [OF assms] by (simp add: revive_def revived_row_def)

lemma triage_row_fields:
  "q_id (quarantined_row now t r) = q_id r" "same_work (quarantined_row now t r) r"
  "q_state (quarantined_row now t r) = Quarantined" "q_triage_json (quarantined_row now t r) = Some (JDoc (JObj t))"
  "q_id (revived_row now a d t r) = q_id r" "same_work (revived_row now a d t r) r"
  "q_state (revived_row now a d t r) = Queued" "q_triage_json (revived_row now a d t r) = Some (JDoc (JObj t))"
  "q_attempts (revived_row now a d t r) = a"
  by (simp_all add: quarantined_row_def revived_row_def same_work_def)

lemma keep_reason_Nil:
  assumes "keep_reason cfg (classify err) n it st = []"
  shows "classify err = ''transient''" "n < max_revives cfg"
    "\<not> has_open_sibling (i_source it) (i_kind it) (i_payload it) (i_id it) st"
  using assms by (auto simp: keep_reason_def classify_def Let_def split: if_splits)

lemma no_open_sibling:
  assumes "obj_payload r" "from_row r = Inr it"
    "\<not> has_open_sibling (i_source it) (i_kind it) (i_payload it) (i_id it) st"
    "x \<in> set (queue st)" "q_id x \<noteq> q_id r" "same_work x r"
  shows "\<not> live_state (q_state x)"
proof -
  obtain kvs where kvs: "q_payload_json r = JDoc (JObj kvs)" using assms(1) by (auto simp: obj_payload_def)
  have "dumps (if truthy (JObj kvs) then JObj kvs else JObj []) = column_text (q_payload_json r)"
    by (simp add: kvs column_text_def)
  then show ?thesis using assms(3-6) from_row_item(1,3,4) [OF assms(2)] from_row_item(6) [OF assms(2) kvs]
    by (auto simp: has_open_sibling_def list_ex_iff same_work_def)
qed

text \<open>The outcome of one item: the row it replaces, and the counters.\<close>

lemma sweep_item_step:
  assumes inv: "queue_inv (s_store acc)" and r: "r \<in> set (queue (s_store acc))" "q_state r = Poisoned"
    and it: "from_row r = Inr it" and obj: "obj_payload r"
    and run: "sweep_item sha now cap cfg it acc = Inr acc'"
  obtains r' where "triaged cap cfg r r'" "queue (s_store acc') = upd_where (\<lambda>x. x = r) (\<lambda>_. r') (queue (s_store acc))"
    "s_revived acc' + s_quarantined acc' = Suc (s_revived acc + s_quarantined acc)"
    "q_state r' = Queued \<Longrightarrow> \<forall>x \<in> set (queue (s_store acc)). q_id x \<noteq> q_id r \<longrightarrow> same_work x r \<longrightarrow> \<not> live_state (q_state x)"
    "cap = max_attempts (s_store acc) \<Longrightarrow> queue_inv (s_store acc')"
    "max_attempts (s_store acc') = max_attempts (s_store acc)"
proof -
  let ?err = "case i_error it of None \<Rightarrow> [] | Some e \<Rightarrow> e"
  let ?sig = "signature (i_error it)" and ?cls = "classify (i_error it)"
  let ?key = "tally_key sha (i_source it) ?sig"
  note f = from_row_item [OF it]
  obtain count st where bump: "bump_tally now ?key (i_source it) ?sig ?err (s_store acc) = Inr (count, st)"
    using run by (auto simp: sweep_item_def Let_def split: sum.splits)
  obtain n where n: "int_field (case i_triage it of None \<Rightarrow> [] | Some t \<Rightarrow> t) ''revives'' = Inr n"
    using run bump by (auto simp: sweep_item_def Let_def split: sum.splits)
  note q = bump_tally_queue [OF bump]
  have inv': "queue_inv st" using inv queue_inv_cong [OF q(1,4,3,2)] by simp
  have rn: "revives_of r = Inr n" using n f(5) by (simp add: revives_of_def)
  have r': "r \<in> set (queue st)" using r q(1) by simp
  have cap: "1 \<le> max_attempts st" using inv' by (simp add: queue_inv_def)
  let ?why = "keep_reason cfg ?cls n it st"
  show thesis
  proof (cases "?why = []")
    case False
    let ?t = "triage_of now ?sig ?cls count ?err ''quarantined'' ?why n"
    have st': "s_store acc' = snd (quarantine now (q_id r) ?t st)"
        "s_revived acc' + s_quarantined acc' = Suc (s_revived acc + s_quarantined acc)"
      using run bump n False by (auto simp: sweep_item_def Let_def f(1) quarantine_row [OF inv' r' r(2)])
    have "triaged cap cfg r (quarantined_row now ?t r)"
      using rn revives_triage by (auto simp: triaged_def triage_row_fields revives_of_def triage_fields_def)
    moreover have "queue_inv (s_store acc')" unfolding st'(1) by (rule queue_inv_quarantine [OF inv'])
    ultimately show thesis using st' q
      by (intro that [of "quarantined_row now ?t r"])
        (simp_all add: triage_row_fields quarantine_row [OF inv' r' r(2)])
  next
    case True
    note why = keep_reason_Nil [OF True]
    let ?t = "triage_of now ?sig ?cls count ?err ''revived'' ''transient failure -- one more claim'' (n + 1)"
    have st': "s_store acc' = snd (revive now (q_id r) (max 0 (cap - 1)) (revive_delay cfg) ?t st)"
        "s_revived acc' + s_quarantined acc' = Suc (s_revived acc + s_quarantined acc)"
      using run bump n True by (auto simp: sweep_item_def Let_def f(1) revive_row [OF inv' r' r(2)])
    have "triaged cap cfg r (revived_row now (max 0 (cap - 1)) (revive_delay cfg) ?t r)"
      using rn why(1,2) f(2) revives_triage
      by (auto simp: triaged_def triage_row_fields revives_of_def triage_fields_def)
    moreover have "\<forall>x \<in> set (queue (s_store acc)). q_id x \<noteq> q_id r \<longrightarrow> same_work x r \<longrightarrow> \<not> live_state (q_state x)"
      using no_open_sibling [OF obj it why(3)] q(1) by auto
    moreover have "queue_inv (s_store acc')" if "cap = max_attempts (s_store acc)"
      unfolding st'(1) by (rule queue_inv_revive [OF inv']) (use that q(3) cap in auto)
    ultimately show thesis using st' q
      by (intro that [of "revived_row now (max 0 (cap - 1)) (revive_delay cfg) ?t r"])
        (simp_all add: triage_row_fields revive_row [OF inv' r' r(2)])
  qed
qed

section \<open>All items\<close>

text \<open>Pairs of open rows that stand for the same work.\<close>

definition open_pairs :: "store \<Rightarrow> (nat \<times> nat) set" where
  "open_pairs st = {(q_id x, q_id y) | x y. x \<in> set (queue st) \<and> y \<in> set (queue st) \<and> q_id x \<noteq> q_id y \<and>
     same_work x y \<and> live_state (q_state x) \<and> live_state (q_state y)}"

lemma same_work_sym: "same_work a b \<Longrightarrow> same_work b a"
  by (auto simp: same_work_def)

lemma same_work_trans: "same_work a b \<Longrightarrow> same_work b c \<Longrightarrow> same_work a c"
  by (auto simp: same_work_def)

lemma open_pairs_replace:
  assumes q: "queue st' = upd_where (\<lambda>x. x = r) (\<lambda>_. r') (queue st)" and sw: "same_work r' r" and id: "q_id r' = q_id r"
    and dead: "live_state (q_state r') \<Longrightarrow>
      \<forall>x \<in> set (queue st). q_id x \<noteq> q_id r \<longrightarrow> same_work x r \<longrightarrow> \<not> live_state (q_state x)"
  shows "open_pairs st' \<subseteq> open_pairs st"
proof (rule subrelI)
  fix a b assume "(a, b) \<in> open_pairs st'"
  then obtain x y where xy: "x \<in> set (queue st')" "y \<in> set (queue st')" "a = q_id x" "b = q_id y" "q_id x \<noteq> q_id y"
    "same_work x y" "live_state (q_state x)" "live_state (q_state y)" by (auto simp: open_pairs_def)
  have old: "z = r' \<or> z \<in> set (queue st)" if "z \<in> set (queue st')" for z
    using that by (auto simp: q sql_simps)
  have "x \<noteq> r'"
  proof
    assume x: "x = r'"
    then have "y \<in> set (queue st)" "q_id y \<noteq> q_id r" "same_work y r"
      using old [OF xy(2)] xy(5,6) id same_work_trans [OF same_work_sym sw] by auto
    then show False using dead x xy(7,8) by blast
  qed
  moreover have "y \<noteq> r'"
  proof
    assume y: "y = r'"
    then have "x \<in> set (queue st)" "q_id x \<noteq> q_id r" "same_work x r"
      using old [OF xy(1)] xy(5,6) id same_work_trans [OF _ sw] by auto
    then show False using dead y xy(7,8) by blast
  qed
  ultimately have "x \<in> set (queue st)" "y \<in> set (queue st)" using old xy(1,2) by auto
  then show "(a, b) \<in> open_pairs st" using xy by (auto simp: open_pairs_def)
qed

lemma triaged_not_poisoned: "triaged cap cfg r r' \<Longrightarrow> q_state r' = Quarantined \<or> q_state r' = Queued"
  by (auto simp: triaged_def)

lemma sweep_items_outcome:
  "sweep_items sha now cap cfg its acc = Inr acc' \<Longrightarrow> list_all2 (\<lambda>r it. from_row r = Inr it) rs its \<Longrightarrow>
   queue_inv (s_store acc) \<Longrightarrow> cap = max_attempts (s_store acc) \<Longrightarrow> distinct rs \<Longrightarrow>
   \<forall>r \<in> set rs. r \<in> set (queue (s_store acc)) \<and> q_state r = Poisoned \<and> obj_payload r \<Longrightarrow>
   queue_inv (s_store acc') \<and> s_revived acc' + s_quarantined acc' = s_revived acc + s_quarantined acc + length rs \<and>
   (\<forall>r \<in> set rs. \<exists>r' \<in> set (queue (s_store acc')). triaged cap cfg r r') \<and>
   (\<forall>r \<in> set (queue (s_store acc)). r \<notin> set rs \<longrightarrow> r \<in> set (queue (s_store acc'))) \<and>
   (\<forall>r' \<in> set (queue (s_store acc')). r' \<in> set (queue (s_store acc)) - set rs \<or> (\<exists>r \<in> set rs. triaged cap cfg r r')) \<and>
   open_pairs (s_store acc') \<subseteq> open_pairs (s_store acc)"
proof (induction its arbitrary: rs acc)
  case Nil
  then show ?case by auto
next
  case (Cons it its)
  from Cons.prems(2) obtain r rs' where rs: "rs = r # rs'" "from_row r = Inr it"
      "list_all2 (\<lambda>r it. from_row r = Inr it) rs' its" by (auto simp: list_all2_Cons2)
  obtain mid where one: "sweep_item sha now cap cfg it acc = Inr mid" and rest: "sweep_items sha now cap cfg its mid = Inr acc'"
    using Cons.prems(1) by (auto split: sum.splits)
  have rp: "r \<in> set (queue (s_store acc))" "q_state r = Poisoned" "obj_payload r" using Cons.prems(6) rs(1) by auto
  obtain r' where r': "triaged cap cfg r r'" "queue (s_store mid) = upd_where (\<lambda>x. x = r) (\<lambda>_. r') (queue (s_store acc))"
    "s_revived mid + s_quarantined mid = Suc (s_revived acc + s_quarantined acc)"
    "q_state r' = Queued \<Longrightarrow> \<forall>x \<in> set (queue (s_store acc)). q_id x \<noteq> q_id r \<longrightarrow> same_work x r \<longrightarrow> \<not> live_state (q_state x)"
    "queue_inv (s_store mid)" "max_attempts (s_store mid) = max_attempts (s_store acc)"
    using sweep_item_step [OF Cons.prems(3) rp(1,2) rs(2) rp(3) one] Cons.prems(4) by metis
  have members: "set (queue (s_store mid)) = insert r' (set (queue (s_store acc)) - {r})"
    using rp(1) by (auto simp: r'(2) sql_simps)
  have "\<forall>x \<in> set rs'. x \<in> set (queue (s_store mid)) \<and> q_state x = Poisoned \<and> obj_payload x"
    using Cons.prems(5,6) rs(1) members by auto
  from Cons.IH [OF rest rs(3) r'(5) _ _ this] Cons.prems(4,5) rs(1) r'(6)
  have IH: "queue_inv (s_store acc')" "s_revived acc' + s_quarantined acc' = s_revived mid + s_quarantined mid + length rs'"
    "\<forall>r \<in> set rs'. \<exists>r' \<in> set (queue (s_store acc')). triaged cap cfg r r'"
    "\<forall>r \<in> set (queue (s_store mid)). r \<notin> set rs' \<longrightarrow> r \<in> set (queue (s_store acc'))"
    "\<forall>r' \<in> set (queue (s_store acc')). r' \<in> set (queue (s_store mid)) - set rs' \<or> (\<exists>r \<in> set rs'. triaged cap cfg r r')"
    "open_pairs (s_store acc') \<subseteq> open_pairs (s_store mid)" by auto
  have "r' \<notin> set rs'" using triaged_not_poisoned [OF r'(1)] Cons.prems(6) rs(1) by auto
  then have "r' \<in> set (queue (s_store acc'))" using IH(4) members by auto
  moreover have "open_pairs (s_store mid) \<subseteq> open_pairs (s_store acc)"
    using r'(1,4) by (intro open_pairs_replace [OF r'(2)]) (auto simp: triaged_def live_state_def)
  ultimately show ?case using IH r'(1,3) members rs(1) by auto
qed

section \<open>The sweep\<close>

lemma items_of_rows: "items_of rs = Inr its \<Longrightarrow> list_all2 (\<lambda>r it. from_row r = Inr it) rs its"
  by (induction rs arbitrary: its) (auto simp: map_sum_Inr split: sum.splits)

definition scanned_rows :: "sweep_cfg \<Rightarrow> store \<Rightarrow> queue_row list" where
  "scanned_rows cfg st = take (scan_limit cfg)
     (order_by (newest_first q_enqueued_at) (filter (\<lambda>r. q_state r = Poisoned) (queue st)))"

lemma state_text_poisoned: "state_text s = ''poisoned'' \<longleftrightarrow> s = Poisoned"
  by (cases s) auto

lemma prune_keeps: "prune_tallies_from c kvs st = Inr (n, st') \<Longrightarrow>
    queue st' = queue st \<and> queue_seq st' = queue_seq st \<and> max_attempts st' = max_attempts st \<and> runs st' = runs st"
  by (induction c kvs st arbitrary: n rule: prune_tallies_from.induct)
    (auto simp: wm_delete_def map_sum_Inr split: if_splits sum.splits bool.splits)

lemma sweep_runs:
  assumes "sweep sha now cap cfg st = Inr (rep, st')"
  obtains its acc where "list_all2 (\<lambda>r it. from_row r = Inr it) (scanned_rows cfg st) its"
    "sweep_items sha now cap cfg its \<lparr>s_store = st, s_actions = [], s_escalations = [],
          s_escalated = [], s_revived = 0, s_quarantined = 0\<rparr> = Inr acc"
    "queue st' = queue (s_store acc)" "queue_seq st' = queue_seq (s_store acc)" "max_attempts st' = max_attempts (s_store acc)"
    "runs st' = runs (s_store acc)"
    "sr_revived rep = s_revived acc" "sr_quarantined rep = s_quarantined acc" "sr_scanned rep = length (scanned_rows cfg st)"
proof -
  obtain its where its: "list_items ''poisoned'' [] (scan_limit cfg) st = Inr its"
    using assms by (auto simp: sweep_def split: sum.splits)
  then have all: "list_all2 (\<lambda>r it. from_row r = Inr it) (scanned_rows cfg st) its"
    unfolding list_items_def scanned_rows_def by (intro items_of_rows) (simp add: state_text_poisoned)
  obtain acc where acc: "sweep_items sha now cap cfg its \<lparr>s_store = st, s_actions = [], s_escalations = [],
          s_escalated = [], s_revived = 0, s_quarantined = 0\<rparr> = Inr acc"
    using assms its by (auto simp: sweep_def split: sum.splits)
  obtain k where k: "prune_tallies (tally_retention_days cfg) now (s_store acc) = Inr (k, st')"
      "sr_revived rep = s_revived acc" "sr_quarantined rep = s_quarantined acc" "sr_scanned rep = length its"
    using assms its acc by (auto simp: sweep_def map_sum_Inr)
  from prune_keeps [OF k(1) [unfolded prune_tallies_def]] show thesis
    using that [OF all acc] k(2-4) list_all2_lengthD [OF all] by simp
qed

lemma sweep_outcome:
  assumes inv: "queue_inv st" and obj: "\<forall>r \<in> set (queue st). obj_payload r"
    and run: "sweep sha now (max_attempts st) cfg st = Inr (rep, st')"
  shows "queue_inv st'" "sr_revived rep + sr_quarantined rep = sr_scanned rep"
    "\<forall>r \<in> set (scanned_rows cfg st). \<exists>r' \<in> set (queue st'). triaged (max_attempts st) cfg r r'"
    "\<forall>r \<in> set (queue st). r \<notin> set (scanned_rows cfg st) \<longrightarrow> r \<in> set (queue st')"
    "\<forall>r' \<in> set (queue st'). r' \<in> set (queue st) - set (scanned_rows cfg st) \<or>
       (\<exists>r \<in> set (scanned_rows cfg st). triaged (max_attempts st) cfg r r')"
    "open_pairs st' \<subseteq> open_pairs st"
proof -
  obtain its acc where its: "list_all2 (\<lambda>r it. from_row r = Inr it) (scanned_rows cfg st) its"
    and acc: "sweep_items sha now (max_attempts st) cfg its \<lparr>s_store = st, s_actions = [], s_escalations = [],
          s_escalated = [], s_revived = 0, s_quarantined = 0\<rparr> = Inr acc"
    and st': "queue st' = queue (s_store acc)" "queue_seq st' = queue_seq (s_store acc)"
      "max_attempts st' = max_attempts (s_store acc)" "runs st' = runs (s_store acc)"
    and rep: "sr_revived rep = s_revived acc" "sr_quarantined rep = s_quarantined acc"
      "sr_scanned rep = length (scanned_rows cfg st)"
    using run by (rule sweep_runs)
  have "distinct (queue st)" using inv by (auto simp: queue_inv_def ids_ok_def distinct_map)
  then have "distinct (scanned_rows cfg st)" by (simp add: scanned_rows_def)
  moreover have "\<forall>r \<in> set (scanned_rows cfg st). r \<in> set (queue st) \<and> q_state r = Poisoned \<and> obj_payload r"
    using obj by (auto simp: scanned_rows_def dest!: in_set_takeD)
  ultimately have out: "queue_inv (s_store acc) \<and> s_revived acc + s_quarantined acc = length (scanned_rows cfg st) \<and>
      (\<forall>r \<in> set (scanned_rows cfg st). \<exists>r' \<in> set (queue (s_store acc)). triaged (max_attempts st) cfg r r') \<and>
      (\<forall>r \<in> set (queue st). r \<notin> set (scanned_rows cfg st) \<longrightarrow> r \<in> set (queue (s_store acc))) \<and>
      (\<forall>r' \<in> set (queue (s_store acc)). r' \<in> set (queue st) - set (scanned_rows cfg st) \<or>
        (\<exists>r \<in> set (scanned_rows cfg st). triaged (max_attempts st) cfg r r')) \<and>
      open_pairs (s_store acc) \<subseteq> open_pairs st"
    using sweep_items_outcome [OF acc its] inv by simp
  have pairs: "open_pairs st' = open_pairs (s_store acc)" by (simp add: open_pairs_def st'(1))
  show "queue_inv st'" using out queue_inv_cong [OF st'] by simp
  show "sr_revived rep + sr_quarantined rep = sr_scanned rep" using out rep by simp
  show "\<forall>r \<in> set (scanned_rows cfg st). \<exists>r' \<in> set (queue st'). triaged (max_attempts st) cfg r r'"
    "\<forall>r \<in> set (queue st). r \<notin> set (scanned_rows cfg st) \<longrightarrow> r \<in> set (queue st')"
    "\<forall>r' \<in> set (queue st'). r' \<in> set (queue st) - set (scanned_rows cfg st) \<or>
       (\<exists>r \<in> set (scanned_rows cfg st). triaged (max_attempts st) cfg r r')"
    using out st'(1) by auto
  show "open_pairs st' \<subseteq> open_pairs st" using out pairs by simp
qed

section \<open>Pruning\<close>

lemma prune_is_fold:
  assumes "prune_tallies_from c kvs st = Inr (n, st')"
  shows "st' = fold (\<lambda>k. wm_delete (fst k) (snd k))
     (map (\<lambda>kv. (SOURCE, fst kv)) (filter (\<lambda>(k, raw). startswith k TALLY_PREFIX \<and> tally_expired c raw = Inr True) kvs)) st"
  using assms
proof (induction kvs arbitrary: n st)
  case (Cons kv kvs)
  obtain key raw where kv: "kv = (key, raw)" by (cases kv)
  consider "\<not> startswith key TALLY_PREFIX" | e where "startswith key TALLY_PREFIX" "tally_expired c raw = Inl e"
    | "startswith key TALLY_PREFIX" "tally_expired c raw = Inr True"
    | "startswith key TALLY_PREFIX" "tally_expired c raw = Inr False"
    by (cases "tally_expired c raw") auto
  then show ?case
  proof cases
    case 3
    then obtain m where "prune_tallies_from c kvs (wm_delete SOURCE key st) = Inr (m, st')"
      using Cons.prems kv by (auto simp: map_sum_Inr)
    from Cons.IH [OF this] 3 kv show ?thesis by simp
  qed (use Cons kv in simp_all)
qed simp

lemma wm_all_get:
  assumes "distinct (wm_keys SOURCE st)"
  shows "(key, raw) \<in> set (wm_all SOURCE st) \<longleftrightarrow> wm_get SOURCE key st = Some raw"
proof -
  have "(key, raw) \<in> (\<lambda>r. (w_key r, w_value r)) ` {r \<in> set rows. w_source r = SOURCE} \<longleftrightarrow>
      map_option w_value (find (wm_at SOURCE key) rows) = Some raw"
    if "distinct (map w_key (filter (\<lambda>r. w_source r = SOURCE) rows))" for rows
    using that
  proof (induction rows)
    case (Cons r rows)
    then have IH: "(key, raw) \<in> (\<lambda>r. (w_key r, w_value r)) ` {r \<in> set rows. w_source r = SOURCE} \<longleftrightarrow>
      map_option w_value (find (wm_at SOURCE key) rows) = Some raw" by (simp split: if_splits)
    show ?case
    proof (cases "wm_at SOURCE key r")
      case True
      with Cons.prems have "(key, raw) \<notin> (\<lambda>r. (w_key r, w_value r)) ` {r \<in> set rows. w_source r = SOURCE}"
        by (auto simp: wm_at_def)
      then show ?thesis using True by (auto simp: wm_at_def)
    next
      case False
      then have "(key, raw) \<in> (\<lambda>r. (w_key r, w_value r)) ` {x \<in> set (r # rows). w_source x = SOURCE} \<longleftrightarrow>
          (key, raw) \<in> (\<lambda>r. (w_key r, w_value r)) ` {x \<in> set rows. w_source x = SOURCE}"
        by (auto simp: wm_at_def)
      then show ?thesis using False IH by simp
    qed
  qed simp
  then show ?thesis using assms by (simp add: wm_all_def wm_get_def wm_keys_def)
qed

section \<open>Properties\<close>

text \<open>
  A sweep triages every row it scans, the newest poisoned ones up to the limit, and touches no
  other row: each is either quarantined, or revived for exactly one more claim, and only when its
  error is transient and its revive budget is not spent, in which case the budget goes down by one.
  The counts in the report add up, the queue invariant holds afterwards, and when the limit covers
  them no row is left poisoned.
\<close>

theorem sweep_triages:
  assumes "queue_inv st" "\<forall>r \<in> set (queue st). obj_payload r" "sweep sha now (max_attempts st) cfg st = Inr (rep, st')"
  shows "queue_inv st' \<and> sr_revived rep + sr_quarantined rep = sr_scanned rep \<and>
    (\<forall>r \<in> set (scanned_rows cfg st). \<exists>r' \<in> set (queue st'). triaged (max_attempts st) cfg r r') \<and>
    (\<forall>r \<in> set (queue st). r \<notin> set (scanned_rows cfg st) \<longrightarrow> r \<in> set (queue st')) \<and>
    (count_where (\<lambda>r. q_state r = Poisoned) (queue st) \<le> scan_limit cfg \<longrightarrow>
       (\<forall>r \<in> set (queue st'). q_state r \<noteq> Poisoned))"
proof -
  note out = sweep_outcome [OF assms]
  have "set (scanned_rows cfg st) = {r \<in> set (queue st). q_state r = Poisoned}"
    if "count_where (\<lambda>r. q_state r = Poisoned) (queue st) \<le> scan_limit cfg"
    using that by (simp add: scanned_rows_def count_where_def)
  then have "\<forall>r \<in> set (queue st'). q_state r \<noteq> Poisoned"
    if "count_where (\<lambda>r. q_state r = Poisoned) (queue st) \<le> scan_limit cfg"
    using that out(5) triaged_not_poisoned by fastforce
  then show ?thesis using out by blast
qed

lemma bump_tally_fresh:
  assumes "watermarks st = []"
  shows "bump_tally now key src sig err st = Inr (1, wm_set now SOURCE key (JDoc (JObj
    [(''source'', JStr src), (''signature'', JStr sig), (''count'', JInt 1), (''first_seen'', JStr (iso_utc now)),
     (''last_seen'', JStr (iso_utc now)), (''last_error'', JStr (take 500 err))])) st)"
  using assms by (simp add: bump_tally_def load_tally_def loads_or_none_def non_empty_def wm_get_def int_field_def
      int_of_def py_int_def Let_def)

lemma triage_watermarks [simp]:
  "watermarks (snd (quarantine now n t st)) = watermarks st"
  "watermarks (snd (revive now n k d t st)) = watermarks st"
  by (simp_all add: quarantine_def revive_def)

lemma sweep_item_watermarks:
  assumes "bump_tally now (tally_key sha (i_source it) (signature (i_error it))) (i_source it)
      (signature (i_error it)) (case i_error it of None \<Rightarrow> [] | Some e \<Rightarrow> e) (s_store acc) = Inr (count, st)"
    and "i_triage it = None"
  shows "\<exists>acc'. sweep_item sha now cap cfg it acc = Inr acc' \<and> watermarks (s_store acc') = watermarks st"
proof -
  have rev: "int_field (case i_triage it of None \<Rightarrow> [] | Some t \<Rightarrow> t) ''revives'' = Inr 0"
    using assms(2) by (simp add: int_field_def)
  show ?thesis
    unfolding sweep_item_def Let_def rev assms(1)
    by (simp add: case_prod_beta split del: if_split) (simp split: if_split)
qed

lemma prune_fresh:
  assumes "watermarks st = [\<lparr>w_source = SOURCE, w_key = key, w_value = JDoc (JObj kvs), w_updated_at = stamp\<rparr>]"
    and "kvs \<noteq> []" "map_of kvs ''last_seen'' = Some (JStr (iso_utc now))" "in_range now"
  shows "\<exists>n st'. prune_tallies days now st = Inr (n, st')"
proof -
  obtain b where "tally_expired (now - nat (max 1 days) * day_length) (JDoc (JObj kvs)) = Inr b"
    using assms(2-4) by (simp add: tally_expired_def last_seen_def loads_def utc_def)
  then show ?thesis using assms(1) by (simp add: prune_tallies_def wm_all_def split: bool.splits)
qed

lemma demo_scan:
  "list_items ''poisoned'' [] 200 demo = Inr [projr (from_row (demo_row 4 ''sweep'' 50 Poisoned 3))]"
  "i_triage (projr (from_row (demo_row 4 ''sweep'' 50 Poisoned 3))) = None"
  by (simp_all add: list_items_def state_text_poisoned demo_simps from_row_def loads_def loads_or_none_def
      column_text_def newest_first_def)

lemma demo_sweep: "\<exists>rep st'. sweep sha T0 3 sweep_defaults demo = Inr (rep, st')"
proof -
  let ?it = "projr (from_row (demo_row 4 ''sweep'' 50 Poisoned 3))"
  let ?acc = "\<lparr>s_store = demo, s_actions = [], s_escalations = [], s_escalated = [], s_revived = 0, s_quarantined = 0\<rparr>"
  have none: "watermarks (s_store ?acc) = []" by (simp add: demo_simps)
  obtain acc' where acc': "sweep_item sha T0 3 sweep_defaults ?it ?acc = Inr acc'"
    and wm: "watermarks (s_store acc') = watermarks (wm_set T0 SOURCE (tally_key sha (i_source ?it) (signature (i_error ?it)))
      (JDoc (JObj [(''source'', JStr (i_source ?it)), (''signature'', JStr (signature (i_error ?it))), (''count'', JInt 1),
        (''first_seen'', JStr (iso_utc T0)), (''last_seen'', JStr (iso_utc T0)),
        (''last_error'', JStr (take 500 (case i_error ?it of None \<Rightarrow> [] | Some e \<Rightarrow> e)))])) (s_store ?acc))"
    using sweep_item_watermarks [OF bump_tally_fresh [OF none] demo_scan(2)] by blast
  have "\<exists>n st'. prune_tallies 14 T0 (s_store acc') = Inr (n, st')"
    by (rule prune_fresh) (use wm none in \<open>simp add: wm_set_def\<close>, simp_all)
  then show ?thesis using demo_scan(1) acc' by (auto simp: sweep_def sweep_defaults_def)
qed

theorem sweep_triages_witness:
  "\<exists>rep st'. sweep (\<lambda>_. ''0a1b2c3d4e5f'') T0 3 sweep_defaults demo = Inr (rep, st') \<and>
     sr_revived rep + sr_quarantined rep = sr_scanned rep \<and> list_all (\<lambda>r. q_state r \<noteq> Poisoned) (queue st')"
proof -
  have objs: "\<forall>r \<in> set (queue demo). obj_payload r" by (simp add: demo_simps obj_payload_def)
  obtain rep st' where run: "sweep (\<lambda>_. ''0a1b2c3d4e5f'') T0 3 sweep_defaults demo = Inr (rep, st')"
    using demo_sweep by blast
  have "count_where (\<lambda>r. q_state r = Poisoned) (queue demo) \<le> scan_limit sweep_defaults"
    by (simp add: demo_simps sweep_defaults_def count_where_def)
  with run sweep_triages [OF demo_inv objs, unfolded demo_max, OF run] show ?thesis
    by (auto simp: list_all_iff)
qed

text \<open>
  The sweep is not a duplicate-work generator: two rows that are open afterwards and stand for
  the same source, kind and payload were already both open before it.
\<close>

theorem sweep_no_duplicates:
  assumes "queue_inv st" "\<forall>r \<in> set (queue st). obj_payload r" "sweep sha now (max_attempts st) cfg st = Inr (rep, st')"
  shows "open_pairs st' \<subseteq> open_pairs st"
  using sweep_outcome(6) [OF assms] .

theorem sweep_no_duplicates_witness:
  "\<exists>rep st'. sweep (\<lambda>_. ''0a1b2c3d4e5f'') T0 3 sweep_defaults demo = Inr (rep, st') \<and> open_pairs st' \<subseteq> open_pairs demo"
proof -
  have objs: "\<forall>r \<in> set (queue demo). obj_payload r" by (simp add: demo_simps obj_payload_def)
  obtain rep st' where run: "sweep (\<lambda>_. ''0a1b2c3d4e5f'') T0 3 sweep_defaults demo = Inr (rep, st')"
    using demo_sweep by blast
  from run sweep_no_duplicates [OF demo_inv objs, unfolded demo_max, OF run] show ?thesis by blast
qed

text \<open>
  Pruning forgets exactly the tallies of the maintenance namespace that are unreadable or were last
  seen before the retention cutoff, and leaves every other watermark as it was.
\<close>

theorem prune_tallies_exact:
  assumes "prune_tallies retention now st = Inr (n, st')" "distinct (wm_keys SOURCE st)"
  shows "wm_get src key st' = (case wm_get src key st of None \<Rightarrow> None
    | Some raw \<Rightarrow> if src = SOURCE \<and> startswith key TALLY_PREFIX \<and>
          tally_expired (now - nat (max 1 retention) * day_length) raw = Inr True then None else Some raw)"
proof -
  let ?c = "now - nat (max 1 retention) * day_length"
  let ?ks = "map (\<lambda>kv. (SOURCE, fst kv)) (filter (\<lambda>(k, raw). startswith k TALLY_PREFIX \<and>
      tally_expired ?c raw = Inr True) (wm_all SOURCE st))"
  have st': "st' = fold (\<lambda>k. wm_delete (fst k) (snd k)) ?ks st"
    using prune_is_fold assms(1) unfolding prune_tallies_def by blast
  have "(src, key) \<in> set ?ks \<longleftrightarrow> src = SOURCE \<and> startswith key TALLY_PREFIX \<and>
      (\<exists>raw. wm_get SOURCE key st = Some raw \<and> tally_expired ?c raw = Inr True)"
    using wm_all_get [OF assms(2)] by force
  then show ?thesis using wm.get_fold_del [of "(src, key)" ?ks st] unfolding st' by (auto split: option.splits)
qed

theorem prune_tallies_exact_witness:
  "wm_get SOURCE ''sig:x'' (snd (projr (prune_tallies 14 (T0 + 15 * day_length)
     (wm_set T0 SOURCE ''sig:x'' (JDoc (JObj [(''last_seen'', JStr (iso_utc T0))])) (empty_store (JInt 3)))))) = None"
proof -
  let ?st = "wm_set T0 SOURCE ''sig:x'' (JDoc (JObj [(''last_seen'', JStr (iso_utc T0))])) (empty_store (JInt 3))"
  have d: "distinct (wm_keys SOURCE ?st)" by (simp add: wm_keys_def wm_set_def empty_store_def)
  have x: "tally_expired (T0 + 15 * day_length - nat (max 1 14) * day_length)
      (JDoc (JObj [(''last_seen'', JStr (iso_utc T0))])) = Inr True"
    by (simp add: tally_expired_def last_seen_def loads_def utc_def instant_def day_length_def)
  have "\<exists>n st'. prune_tallies 14 (T0 + 15 * day_length) ?st = Inr (n, st')"
    unfolding prune_tallies_def using x
    by (simp add: wm_all_def wm_set_def empty_store_def startswith_def TALLY_PREFIX_def)
  then obtain n st' where p: "prune_tallies 14 (T0 + 15 * day_length) ?st = Inr (n, st')" by blast
  show ?thesis using prune_tallies_exact [OF p d, of SOURCE "''sig:x''"] p x
    by (simp add: wm_get_set startswith_def TALLY_PREFIX_def)
qed

text \<open>
  Drills keep their interval, across restarts: once a call has stamped the hour, whether its spawn
  worked or failed, no later call spawns before the interval has passed, whatever the process
  remembers, as long as nobody else writes the watermark.
\<close>

theorem drill_interval:
  assumes "maybe_run_mitigation_drill b poll spawn python cfg now (seat, st) = Inr (res, seat1, st1)"
    "(\<exists>argv pid. res = Spawned argv pid) \<or> (\<exists>why. res = Skipped (''spawn-failed: '' @ why))"
    "wm_get SOURCE LAST_DRILL_AT st2 = wm_get SOURCE LAST_DRILL_AT st1" "in_range now"
    "maybe_run_mitigation_drill b' poll' spawn' python' cfg now' (seat2, st2) = Inr (Spawned argv' pid', seat3, st3)"
  shows "int now + d_interval cfg * 1000000 \<le> int now'"
proof -
  have "wm_get SOURCE LAST_DRILL_AT st1 = Some (JRaw (iso_utc now))"
    using assms(1,2) wm_get_set
    by (auto simp: maybe_run_mitigation_drill_def Let_def split: if_splits option.splits sum.splits)
  then have "wm_get SOURCE LAST_DRILL_AT st2 = Some (JRaw (iso_utc now))" using assms(3) by simp
  moreover have "iso_utc now \<noteq> []" by (simp add: iso_utc_def isoformat_def Let_def)
  ultimately have "\<not> int now' - int now < d_interval cfg * 1000000"
    using assms(4,5)
    by (auto simp: maybe_run_mitigation_drill_def Let_def column_text_def drill_stamp_of_def utc_def instant_def
        split: if_splits option.splits sum.splits)
  then show ?thesis by simp
qed

definition seat0 :: drill_seat where
  "seat0 = \<lparr>d_proc = None, d_stamp_here = None, d_outcome_reported = None\<rparr>"

definition hourly :: drill_cfg where
  "hourly = \<lparr>d_enabled = True, d_interval = 3600, d_wait_window = 3600\<rparr>"

theorem drill_interval_witness:
  "int T0 + d_interval hourly * 1000000 \<le> int (T0 + 3600000000)"
proof -
  let ?call = "\<lambda>now. maybe_run_mitigation_drill False (\<lambda>_. None) (\<lambda>_. Inr 7) ''python'' hourly now"
  have first: "\<exists>seat1 st1. ?call T0 (seat0, empty_store (JInt 3)) = Inr (Spawned (mitigation_drill_argv hourly ''python'') 7, seat1, st1) \<and>
      wm_get SOURCE LAST_DRILL_AT st1 = Some (JRaw (iso_utc T0))"
    by (simp add: maybe_run_mitigation_drill_def seat0_def hourly_def wm_get_def empty_store_def Let_def
        wm_set_def wm_at_def)
  then obtain seat1 st1 where one: "?call T0 (seat0, empty_store (JInt 3)) = Inr (Spawned (mitigation_drill_argv hourly ''python'') 7, seat1, st1)"
      and stamp: "wm_get SOURCE LAST_DRILL_AT st1 = Some (JRaw (iso_utc T0))" by blast
  have "iso_utc T0 \<noteq> []" by (simp add: iso_utc_def isoformat_def Let_def)
  then have "\<exists>s t. ?call (T0 + 3600000000) (seat0, st1) = Inr (Spawned (mitigation_drill_argv hourly ''python'') 7, s, t)"
    by (simp add: maybe_run_mitigation_drill_def seat0_def hourly_def stamp column_text_def drill_stamp_of_def
        utc_def instant_def Let_def)
  then obtain s t where "?call (T0 + 3600000000) (seat0, st1) = Inr (Spawned (mitigation_drill_argv hourly ''python'') 7, s, t)" by blast
  from drill_interval [OF one _ refl _ this] show ?thesis by auto
qed

end
