(* ===== verification/Grant_Language.thy ===== *)
theory Grant_Language
  imports Iso_Time Json
begin

text \<open>
  The vocabulary of the authority gate (\<open>app/harness/policy.py\<close>): expiries, the predicate
  mini-language, reversibility tiers, scopes, destinations and the schedule rail. A \<open>GrantError\<close> is
  a constructor per raise site instead of its message; \<open>Raised\<close> is an exception of the language that
  the code does not turn into a \<open>GrantError\<close>. The regex over Bash commands in \<open>app/harness/safety.py\<close>
  is the parameter \<open>durable\<close> (\<open>match_durable_external\<close>), and \<open>ip6\<close> is the IPv6 half of
  \<open>ipaddress.ip_address\<close>: the canonical text of an address, or none.
\<close>

section \<open>Values and errors\<close>

text \<open>A front-matter value: YAML resolves unquoted stamps to \<open>datetime\<close> and \<open>date\<close> objects.\<close>

datatype pyval = Val json | Time datetime | Day nat

datatype grant_error =
    Expiry_Required | Expiry_Not_Iso
  | Predicate_Not_Text | Predicate_Unparsable | Predicate_Unbalanced
  | Scope_Required | Tool_Required | Grants_Mint | Issuer_Required | Worker_Identity | Quota_Below_One
  | Destination_Required | Destination_Not_Bare | Destination_Bad_Address | Destination_No_Dot
  | Destination_Not_Hostname
  | Store_Unreadable
  | Unreadable_Block
  | Raised py_error

text \<open>\<open>str(v or "")\<close>, and \<open>str\<close> of a front-matter value.\<close>

definition text_or :: "json \<Rightarrow> string" where
  "text_or v = (if truthy v then py_str v else [])"

definition space_for_t :: "string \<Rightarrow> string" where
  "space_for_t s = take 10 s @ '' '' @ drop 11 s"

fun val_str :: "pyval \<Rightarrow> string" where
  "val_str (Val v) = py_str v"
| "val_str (Time dt) = space_for_t (isoformat dt)"
| "val_str (Day n) = date_text n"

fun val_text_or :: "pyval \<Rightarrow> string" where
  "val_text_or (Val v) = text_or v"
| "val_text_or v = val_str v"

definition val_get :: "(string \<times> pyval) list \<Rightarrow> string \<Rightarrow> pyval" where
  "val_get m k = (case map_of m k of None \<Rightarrow> Val JNull | Some v \<Rightarrow> v)"

fun split_on :: "char \<Rightarrow> string \<Rightarrow> string list" where
  "split_on c [] = [[]]"
| "split_on c (x # xs) =
     (if x = c then [] # split_on c xs
      else case split_on c xs of [] \<Rightarrow> [[x]] | w # ws \<Rightarrow> (x # w) # ws)"

section \<open>Expiry\<close>

text \<open>\<open>_utc\<close>: a stamp without an offset is read as UTC; conversion can leave the years 1 to 9999.\<close>

definition utc_of :: "datetime \<Rightarrow> grant_error + nat" where
  "utc_of dt = (if 0 \<le> instant dt \<and> instant dt < int max_wall then Inr (nat (instant dt))
     else Inl (Raised OverflowError))"

definition date_shaped :: "string \<Rightarrow> bool" where
  "date_shaped s \<longleftrightarrow> length s = 10 \<and> s ! 4 = CHR ''-'' \<and> s ! 7 = CHR ''-'' \<and>
     list_all is_digit (take 4 s) \<and> list_all is_digit (take 2 (drop 5 s)) \<and> list_all is_digit (drop 8 s)"

definition parse_expiry_text :: "string \<Rightarrow> grant_error + nat" where
  "parse_expiry_text raw =
     (let s = strip raw;
          t = (if endswith s ''Z'' then butlast s @ ''+00:00'' else s)
      in case fromisoformat t of Some dt \<Rightarrow> utc_of dt
         | None \<Rightarrow>
             if date_shaped t
             then (case fromisoformat (t @ ''T23:59:59+00:00'') of Some dt \<Rightarrow> utc_of dt
                   | None \<Rightarrow> Inl (Raised ValueError))
             else Inl Expiry_Not_Iso)"

fun parse_expiry :: "pyval \<Rightarrow> grant_error + nat" where
  "parse_expiry (Val JNull) = Inl Expiry_Required"
| "parse_expiry (Val (JStr s)) = (if strip s = [] then Inl Expiry_Required else parse_expiry_text s)"
| "parse_expiry (Time dt) = utc_of dt"
| "parse_expiry v = parse_expiry_text (val_str v)"

section \<open>Predicates\<close>

record predicate =
  p_len :: bool
  p_closer :: bool
  p_field :: string
  p_op :: string
  p_num :: string

definition is_ident :: "char \<Rightarrow> bool" where
  "is_ident c \<longleftrightarrow> c = CHR ''_'' \<or>
     (let n = (of_char c :: nat) in (48 \<le> n \<and> n \<le> 57) \<or> (65 \<le> n \<and> n \<le> 90) \<or> (97 \<le> n \<and> n \<le> 122))"

definition parse_op :: "string \<Rightarrow> (string \<times> string) option" where
  "parse_op s =
     (if startswith s ''<='' \<or> startswith s ''>='' \<or> startswith s ''=='' then Some (take 2 s, drop 2 s)
      else if startswith s ''<'' \<or> startswith s ''>'' then Some (take 1 s, drop 1 s) else None)"

text \<open>
  \<open>_PREDICATE_RE.match\<close>. The expression is unambiguous, so reading it left to right with longest
  runs is the match the regex engine finds; \<open>$\<close> also accepts one final newline.
\<close>

definition parse_predicate :: "string \<Rightarrow> predicate option" where
  "parse_predicate s =
     (let fn = startswith s ''len('';
          r0 = (if fn then dropWhile is_space (drop 4 s) else s);
          field = takeWhile is_ident r0;
          r1 = dropWhile is_ident r0;
          closer = startswith (dropWhile is_space r1) '')'';
          r2 = (if closer then tl (dropWhile is_space r1) else r1)
      in if field = [] \<or> is_digit (hd field) then None
         else case parse_op (dropWhile is_space r2) of None \<Rightarrow> None
           | Some (op, r3) \<Rightarrow>
               let r4 = dropWhile is_space r3; ds = takeWhile is_digit r4; rest = dropWhile is_digit r4
               in if 1 \<le> length ds \<and> length ds \<le> 9 \<and> (rest = [] \<or> rest = [CHR 0x0A])
                  then Some \<lparr>p_len = fn, p_closer = closer, p_field = field, p_op = op, p_num = ds\<rparr>
                  else None)"

definition predicate_text :: "predicate \<Rightarrow> string" where
  "predicate_text p =
     (if p_len p then ''len('' @ p_field p @ '')'' else p_field p) @ p_op p @ p_num p"

definition validate_predicate :: "json \<Rightarrow> grant_error + string" where
  "validate_predicate v = (case v of JNull \<Rightarrow> Inr []
     | JStr raw \<Rightarrow>
         (let s = strip raw in
          if s = [] then Inr []
          else case parse_predicate s of None \<Rightarrow> Inl Predicate_Unparsable
            | Some p \<Rightarrow> if p_len p \<noteq> p_closer p then Inl Predicate_Unbalanced else Inr (predicate_text p))
     | _ \<Rightarrow> Inl Predicate_Not_Text)"

definition has_field :: "string \<Rightarrow> json \<Rightarrow> bool" where
  "has_field f v = (case v of JObj kvs \<Rightarrow> map_of kvs f \<noteq> None | _ \<Rightarrow> False)"

definition arg_value :: "(string \<times> json) list \<Rightarrow> string \<Rightarrow> json" where
  "arg_value args f = (case map_of args f of Some v \<Rightarrow> v
     | None \<Rightarrow> (case find (has_field f) (map snd args) of
          Some (JObj kvs) \<Rightarrow> dict_get kvs f | _ \<Rightarrow> JNull))"

fun py_len :: "json \<Rightarrow> int option" where
  "py_len (JStr s) = Some (int (length s))"
| "py_len (JArr vs) = Some (int (length vs))"
| "py_len (JObj kvs) = Some (int (length kvs))"
| "py_len _ = None"

definition measured :: "predicate \<Rightarrow> json \<Rightarrow> int option" where
  "measured p v =
     (if p_len p then (if v = JNull then Some 0 else py_len v)
      else case v of JInt i \<Rightarrow> Some i | _ \<Rightarrow> py_len v)"

definition compare :: "string \<Rightarrow> int \<Rightarrow> int \<Rightarrow> bool" where
  "compare op l n =
     (if op = ''<='' then l \<le> n else if op = ''<'' then l < n else if op = ''>='' then l \<ge> n
      else if op = ''>'' then l > n else l = n)"

definition predicate_matches :: "string \<Rightarrow> (string \<times> json) list \<Rightarrow> bool" where
  "predicate_matches s args =
     (if s = [] then True
      else case parse_predicate s of None \<Rightarrow> False
        | Some p \<Rightarrow> (case measured p (arg_value args (p_field p)) of None \<Rightarrow> False
            | Some l \<Rightarrow> compare (p_op p) l (digits_val (p_num p))))"

section \<open>Tools and tiers\<close>

definition TIER2_TOOLS :: "string list" where
  "TIER2_TOOLS =
     [''email_send'', ''email_reply'', ''email_forward'', ''email_update'', ''email_move_folder'',
      ''email_create_folder'', ''email_rename_folder'', ''email_create_filter'', ''email_update_filter'',
      ''email_reorder_filters'', ''email_apply_filters'', ''calendar_create'', ''calendar_update_event'',
      ''contacts_create'', ''contacts_update'', ''tasks_create'', ''tasks_update'', ''autonomy_write_task'']"

definition TIER3_TOOLS :: "string list" where
  "TIER3_TOOLS =
     [''email_delete'', ''email_empty_trash'', ''email_empty_junk'', ''email_delete_folder'',
      ''calendar_delete_event'', ''contacts_delete'', ''email_delete_filter'', ''autonomy_delete_task'']"

text \<open>The text after the first \<open>__\<close>, when there is one.\<close>

fun after_bars :: "string \<Rightarrow> string option" where
  "after_bars (a # b # s) = (if a = CHR ''_'' \<and> b = CHR ''_'' then Some s else after_bars (b # s))"
| "after_bars _ = None"

definition normalize_tool_name :: "string \<Rightarrow> string" where
  "normalize_tool_name name =
     (if startswith name ''mcp__'' then (case after_bars (drop 5 name) of Some t \<Rightarrow> t | None \<Rightarrow> name)
      else name)"

definition SCHEDULE_STATE_TOOL :: string where "SCHEDULE_STATE_TOOL = ''autonomy_write_task''"
definition BASH_TOOL :: string where "BASH_TOOL = ''Bash''"
definition GRANT_MINT_TOOL :: string where "GRANT_MINT_TOOL = ''grant_create''"
definition DISPATCHING_STATUS :: string where "DISPATCHING_STATUS = ''up_next''"

text \<open>The set in the order \<open>sorted\<close> gives.\<close>

definition SCHEDULE_STATE_FIELDS :: "string list" where
  "SCHEDULE_STATE_FIELDS =
     [''auto_advance'', ''depends_on'', ''frequency'', ''preferred_hours'', ''scheduled_at'', ''skill_name'', ''status'']"

definition schedule_fields_changed :: "json \<Rightarrow> string list" where
  "schedule_fields_changed input = (case input of JObj kvs \<Rightarrow>
       if dict_get kvs ''id'' \<in> {JNull, JStr [], JInt 0, JBool False}
       then (if strip (text_or (dict_get kvs ''status'')) = DISPATCHING_STATUS then [''status''] else [])
       else filter (\<lambda>f. dict_get kvs f \<notin> {JNull, JStr [], JArr []}) SCHEDULE_STATE_FIELDS
     | _ \<Rightarrow> [])"

definition changes_schedule_state :: "string \<Rightarrow> json \<Rightarrow> bool" where
  "changes_schedule_state name input \<longleftrightarrow>
     normalize_tool_name name = SCHEDULE_STATE_TOOL \<and> schedule_fields_changed input \<noteq> []"

definition bash_command_of :: "json \<Rightarrow> string" where
  "bash_command_of input = (case input of JStr s \<Rightarrow> s
     | JObj kvs \<Rightarrow> (case dict_get kvs ''command'' of JStr s \<Rightarrow> s | _ \<Rightarrow> [])
     | _ \<Rightarrow> [])"

definition bash_command_tier :: "(string \<Rightarrow> string option) \<Rightarrow> string \<Rightarrow> nat" where
  "bash_command_tier durable command =
     (case durable command of None \<Rightarrow> 1 | Some label \<Rightarrow> if label = [] then 1 else 2)"

definition tool_tier :: "(string \<Rightarrow> string option) \<Rightarrow> string \<Rightarrow> json \<Rightarrow> nat" where
  "tool_tier durable name input =
     (let tool = normalize_tool_name name in
      if tool = BASH_TOOL then bash_command_tier durable (bash_command_of input)
      else if tool \<in> set TIER3_TOOLS then 3
      else if tool \<in> set TIER2_TOOLS then 2
      else 1)"

definition effective_tier :: "(string \<Rightarrow> string option) \<Rightarrow> string \<Rightarrow> json \<Rightarrow> nat" where
  "effective_tier durable name input =
     (let tier = tool_tier durable name input in
      if tier = 2 \<and> normalize_tool_name name = SCHEDULE_STATE_TOOL \<and> \<not> changes_schedule_state name input
      then 1 else tier)"

section \<open>Scopes\<close>

definition INTERACTIVE_SCOPE :: string where "INTERACTIVE_SCOPE = ''interactive''"

definition NON_INTERACTIVE_PREFIXES :: "string list" where
  "NON_INTERACTIVE_PREFIXES = [''worker'', ''autonomy-task'', ''scheduled-task'', ''background'']"

text \<open>\<open>text.split(":")[0]\<close>\<close>

definition scope_head :: "string \<Rightarrow> string" where
  "scope_head s = takeWhile (\<lambda>c. c \<noteq> CHR '':'') s"

definition is_interactive_scope :: "string \<Rightarrow> bool" where
  "is_interactive_scope scope =
     (let s = strip scope in
      if s = [] then False
      else if s = INTERACTIVE_SCOPE \<or> startswith s (INTERACTIVE_SCOPE @ '':'') then True
      else scope_head s \<notin> set NON_INTERACTIVE_PREFIXES)"

definition grant_scope_for_source :: "string \<Rightarrow> json \<Rightarrow> string" where
  "grant_scope_for_source source payload =
     (let kvs = (case payload of JObj kvs \<Rightarrow> kvs | _ \<Rightarrow> []); task = dict_get kvs ''task_id'' in
      if source = ''scheduled-task'' \<and> task \<noteq> JNull then ''autonomy-task:'' @ py_str task
      else ''worker:'' @ source)"

definition is_worker_identity :: "string \<Rightarrow> bool" where
  "is_worker_identity s \<longleftrightarrow> scope_head (strip s) \<in> set NON_INTERACTIVE_PREFIXES"

section \<open>Destinations\<close>

definition is_octet :: "string \<Rightarrow> bool" where
  "is_octet s \<longleftrightarrow> s \<noteq> [] \<and> list_all is_digit s \<and> length s \<le> 3 \<and> (length s = 1 \<or> hd s \<noteq> CHR ''0'') \<and> dec s \<le> 255"

definition ip_text :: "(string \<Rightarrow> string option) \<Rightarrow> string \<Rightarrow> string option" where
  "ip_text ip6 s = (let ps = split_on (CHR ''.'') s in
     if length ps = 4 \<and> list_all is_octet ps then Some s else ip6 s)"

definition is_alnum :: "char \<Rightarrow> bool" where
  "is_alnum c \<longleftrightarrow> (let n = (of_char c :: nat) in (48 \<le> n \<and> n \<le> 57) \<or> (97 \<le> n \<and> n \<le> 122))"

definition is_label :: "string \<Rightarrow> bool" where
  "is_label s \<longleftrightarrow> s \<noteq> [] \<and> list_all (\<lambda>c. is_alnum c \<or> c = CHR ''-'') s \<and> is_alnum (hd s) \<and> is_alnum (last s)"

definition is_hostname :: "string \<Rightarrow> bool" where
  "is_hostname s \<longleftrightarrow> length s \<le> 253 \<and> list_all is_label (split_on (CHR ''.'') s)"

definition normalize_destination :: "(string \<Rightarrow> string option) \<Rightarrow> string \<Rightarrow> grant_error + string" where
  "normalize_destination ip6 s =
     (if strip s = [] then Inl Destination_Required
      else let raw = lower (strip s) in
        case ip_text ip6 raw of Some a \<Rightarrow> Inr a
        | None \<Rightarrow>
            if list_ex (\<lambda>c. c \<in> {CHR ''*'', CHR ''/'', CHR '':'', CHR '' ''}) raw \<or> startswith raw ''.''
            then Inl Destination_Not_Bare
            else if all_digits (last (split_on (CHR ''.'') raw)) then Inl Destination_Bad_Address
            else if CHR ''.'' \<notin> set raw then Inl Destination_No_Dot
            else if \<not> is_hostname raw then Inl Destination_Not_Hostname
            else Inr raw)"

definition destination_covers :: "string option \<Rightarrow> string \<Rightarrow> bool" where
  "destination_covers entry host =
     (let e = lower (strip (case entry of None \<Rightarrow> [] | Some x \<Rightarrow> x)); h = lower (strip host) in
      if e = [] \<or> h = [] then False else h = e \<or> endswith h (''.'' @ e))"

section \<open>The schedule rail\<close>

text \<open>
  Python's \<open>==\<close> on front-matter values: \<open>True == 1\<close>, dictionaries compare without order, aware stamps
  by instant, and a \<open>date\<close> never equals a \<open>datetime\<close>.
\<close>

fun canon :: "json \<Rightarrow> json" where
  "canon (JBool b) = JInt (if b then 1 else 0)"
| "canon (JArr vs) = JArr (map canon vs)"
| "canon (JObj kvs) = JObj (order_by (\<lambda>a b. text_le (fst a) (fst b)) (map (\<lambda>(k, v). (k, canon v)) kvs))"
| "canon v = v"

fun val_eq :: "pyval \<Rightarrow> pyval \<Rightarrow> bool" where
  "val_eq (Val a) (Val b) = (canon a = canon b)"
| "val_eq (Time a) (Time b) = ((offset a = None) = (offset b = None) \<and> instant a = instant b)"
| "val_eq (Day a) (Day b) = (a = b)"
| "val_eq _ _ = False"

fun stamp_spells :: "pyval \<Rightarrow> pyval \<Rightarrow> bool" where
  "stamp_spells (Time dt) (Val (JStr s)) = (isoformat dt = strip s)"
| "stamp_spells (Day n) (Val (JStr s)) = (date_text n = strip s)"
| "stamp_spells _ _ = False"

definition same_schedule_value :: "pyval \<Rightarrow> pyval \<Rightarrow> bool" where
  "same_schedule_value old new \<longleftrightarrow> val_eq old new \<or> stamp_spells old new \<or> stamp_spells new old"

definition schedule_value_moves ::
    "(string \<times> pyval) list \<Rightarrow> (string \<times> pyval) list \<Rightarrow> (string \<times> pyval \<times> pyval) list" where
  "schedule_value_moves old new =
     map (\<lambda>f. (f, val_get old f, val_get new f))
       (filter (\<lambda>f. \<not> same_schedule_value (val_get old f) (val_get new f)) SCHEDULE_STATE_FIELDS)"

definition create_arms_a_task :: "(string \<times> pyval) list \<Rightarrow> bool" where
  "create_arms_a_task new \<longleftrightarrow> strip (val_text_or (val_get new ''status'')) = DISPATCHING_STATUS"

definition parked_declaration :: "(string \<times> pyval) list \<Rightarrow> string" where
  "parked_declaration task = (case val_get task ''parked'' of
     Val (JStr s) \<Rightarrow> strip s | Val (JBool True) \<Rightarrow> ''true'' | _ \<Rightarrow> [])"

text \<open>The task id of an \<open>autonomy/<id>-<slug>.md\<close> path (\<open>_AUTONOMY_TASK_PATH\<close>).\<close>

definition autonomy_task_id :: "string \<Rightarrow> string option" where
  "autonomy_task_id path =
     (let ps = split_on (CHR ''/'') path; base = last ps; n = takeWhile is_digit base; r = dropWhile is_digit base
      in if 2 \<le> length ps \<and> last (butlast ps) = ''autonomy'' \<and> n \<noteq> [] \<and> startswith r ''-'' \<and>
            ((4 < length r \<and> endswith r ''.md'') \<or> (5 < length r \<and> endswith r (''.md'' @ [CHR 0x0A])))
         then Some n else None)"

text \<open>\<open>runs\<close> is \<open>_run_record_ids()\<close>: the ids that have a run directory, none when that cannot be read.\<close>

definition first_arm_allowed ::
    "string list option \<Rightarrow> string \<Rightarrow> (string \<times> pyval) list option \<Rightarrow> (string \<times> pyval) list option \<Rightarrow> bool" where
  "first_arm_allowed runs path old_fm new_fm =
     (case (autonomy_task_id path, old_fm, new_fm) of
        (Some n, Some old, Some new) \<Rightarrow>
          (if map fst (schedule_value_moves old new) \<noteq> [''status''] then False
           else if strip (val_text_or (val_get old ''status'')) \<noteq> ''draft'' then False
           else if strip (val_text_or (val_get new ''status'')) \<noteq> DISPATCHING_STATUS then False
           else if parked_declaration old \<noteq> [] \<or> parked_declaration new \<noteq> [] then False
           else case runs of None \<Rightarrow> False | Some ids \<Rightarrow> n \<notin> set ids)
      | _ \<Rightarrow> False)"

end
