(* ===== verification/Grant_Store.thy ===== *)
theory Grant_Store
  imports Grant_Language
begin

text \<open>
  The grant rows and the dispatch ledger (\<open>GrantStore\<close> of \<open>app/harness/policy.py\<close>, tables of
  \<open>GRANT_DDL\<close> in \<open>workers/queue.py\<close>). The reason text of a denied dispatch is kept as the data it is
  rendered from. \<open>now\<close> is the clock reading in microseconds since 0001-01-01 UTC.
\<close>

section \<open>Rows\<close>

record grant_row =
  g_id :: nat
  g_scope :: string
  g_tool :: string
  g_predicate :: string
  g_quota :: "int option"
  g_consumed :: int
  g_issued_by :: string
  g_minted_by :: string
  g_note :: "string option"
  g_issued_at :: string
  g_expires_at :: string
  g_revoked_at :: "string option"
  g_destination :: "string option"

datatype verdict = Allow | Deny

record 'why dispatch_row =
  x_id :: nat
  x_at :: string
  x_scope :: string
  x_tool :: string
  x_grant :: "nat option"
  x_decision :: verdict
  x_reason :: "'why option"

record 'why grant_store =
  grants :: "grant_row list"
  grants_seq :: nat
  dispatches :: "'why dispatch_row list"
  dispatches_seq :: nat

definition empty_grants :: "'why grant_store" where
  "empty_grants = \<lparr>grants = [], grants_seq = 0, dispatches = [], dispatches_seq = 0\<rparr>"

section \<open>Minting\<close>

record mint_args =
  m_scope :: string
  m_tool :: string
  m_predicate :: json
  m_quota :: json
  m_issued_by :: string
  m_expires :: pyval
  m_note :: string
  m_minted_by :: string
  m_destination :: "string option"

definition mint_quota :: "json \<Rightarrow> grant_error + int option" where
  "mint_quota v = (if v = JNull then Inr None
     else case int_of v of Inl e \<Rightarrow> Inl (Raised e)
       | Inr q \<Rightarrow> if q < 1 then Inl Quota_Below_One else Inr (Some q))"

definition mint_destination :: "(string \<Rightarrow> string option) \<Rightarrow> string option \<Rightarrow> grant_error + string option" where
  "mint_destination ip6 d = (case d of None \<Rightarrow> Inr None | Some s \<Rightarrow> map_sum id Some (normalize_destination ip6 s))"

text \<open>The checks of \<open>mint\<close>, in the order the code makes them: the row that would be written.\<close>

definition mint_row :: "(string \<Rightarrow> string option) \<Rightarrow> nat \<Rightarrow> nat \<Rightarrow> mint_args \<Rightarrow> grant_error + grant_row" where
  "mint_row ip6 now n a =
     (let scope = strip (m_scope a); tool = normalize_tool_name (m_tool a); issuer = strip (m_issued_by a) in
      if scope = [] then Inl Scope_Required
      else if tool = [] then Inl Tool_Required
      else if tool = GRANT_MINT_TOOL then Inl Grants_Mint
      else if issuer = [] then Inl Issuer_Required
      else if is_worker_identity issuer \<or> is_worker_identity (m_minted_by a) then Inl Worker_Identity
      else case mint_quota (m_quota a) of Inl e \<Rightarrow> Inl e
      | Inr quota \<Rightarrow>
      (case validate_predicate (m_predicate a) of Inl e \<Rightarrow> Inl e
       | Inr pred \<Rightarrow>
       (case parse_expiry (m_expires a) of Inl e \<Rightarrow> Inl e
        | Inr expiry \<Rightarrow>
        (case mint_destination ip6 (m_destination a) of Inl e \<Rightarrow> Inl e
         | Inr dest \<Rightarrow>
           Inr \<lparr>g_id = n, g_scope = scope, g_tool = tool, g_predicate = pred, g_quota = quota, g_consumed = 0,
             g_issued_by = issuer,
             g_minted_by = (if m_minted_by a = [] then ''human'' else m_minted_by a),
             g_note = (if m_note a = [] then None else Some (m_note a)),
             g_issued_at = iso_utc now, g_expires_at = iso_utc expiry, g_revoked_at = None,
             g_destination = dest\<rparr>))))"

definition mint ::
    "(string \<Rightarrow> string option) \<Rightarrow> nat \<Rightarrow> mint_args \<Rightarrow> 'why grant_store \<Rightarrow> grant_error + (grant_row \<times> 'why grant_store)" where
  "mint ip6 now a st =
     map_sum id (\<lambda>r. (r, st\<lparr>grants := grants st @ [r], grants_seq := Suc (grants_seq st)\<rparr>))
       (mint_row ip6 now (Suc (grants_seq st)) a)"

section \<open>Reads\<close>

definition get_grant :: "nat \<Rightarrow> 'why grant_store \<Rightarrow> grant_row option" where
  "get_grant n st = find (\<lambda>r. g_id r = n) (grants st)"

definition is_live :: "nat \<Rightarrow> grant_row \<Rightarrow> bool" where
  "is_live now r \<longleftrightarrow> g_revoked_at r = None \<and> text_less (iso_utc now) (g_expires_at r)"

definition live :: "nat \<Rightarrow> string option \<Rightarrow> 'why grant_store \<Rightarrow> grant_row list" where
  "live now scope st =
     order_by (\<lambda>a b. text_le (g_expires_at a) (g_expires_at b))
       (filter (\<lambda>r. is_live now r \<and> (scope = None \<or> scope = Some (g_scope r))) (grants st))"

definition candidates :: "string \<Rightarrow> string \<Rightarrow> 'why grant_store \<Rightarrow> grant_row list" where
  "candidates scope tool st =
     order_by (\<lambda>a b. text_le (g_expires_at b) (g_expires_at a))
       (filter (\<lambda>r. g_scope r = scope \<and> g_tool r = tool) (grants st))"

definition dispatch_rows :: "nat \<Rightarrow> 'why grant_store \<Rightarrow> 'why dispatch_row list" where
  "dispatch_rows limit st = take limit (rev (dispatches st))"

text \<open>The query selects \<open>minted_by\<close> alone, so reading \<open>issued_by\<close> from its row raises.\<close>

fun count_worker_minted_from :: "grant_row list \<Rightarrow> py_error + nat" where
  "count_worker_minted_from [] = Inr 0"
| "count_worker_minted_from (r # rs) =
     (if is_worker_identity (g_minted_by r) then map_sum id Suc (count_worker_minted_from rs) else Inl IndexError)"

definition count_worker_minted :: "'why grant_store \<Rightarrow> py_error + nat" where
  "count_worker_minted st = count_worker_minted_from (grants st)"

section \<open>Writes\<close>

definition consume :: "nat \<Rightarrow> 'why grant_store \<Rightarrow> 'why grant_store" where
  "consume n st = st\<lparr>grants := upd_where (\<lambda>r. g_id r = n) (\<lambda>r. r\<lparr>g_consumed := g_consumed r + 1\<rparr>) (grants st)\<rparr>"

definition revoke :: "nat \<Rightarrow> nat \<Rightarrow> 'why grant_store \<Rightarrow> bool \<times> 'why grant_store" where
  "revoke now n st =
     (list_ex (\<lambda>r. g_id r = n \<and> g_revoked_at r = None) (grants st),
      st\<lparr>grants := upd_where (\<lambda>r. g_id r = n \<and> g_revoked_at r = None)
         (\<lambda>r. r\<lparr>g_revoked_at := Some (iso_utc now)\<rparr>) (grants st)\<rparr>)"

definition record_dispatch ::
    "nat \<Rightarrow> string \<Rightarrow> string \<Rightarrow> verdict \<Rightarrow> nat option \<Rightarrow> 'why option \<Rightarrow> 'why grant_store \<Rightarrow> 'why grant_store" where
  "record_dispatch now scope tool v n why st =
     st\<lparr>dispatches := dispatches st @ [\<lparr>x_id = Suc (dispatches_seq st), x_at = iso_utc now, x_scope = scope,
          x_tool = tool, x_grant = n, x_decision = v, x_reason = why\<rparr>],
        dispatches_seq := Suc (dispatches_seq st)\<rparr>"

end
