(* ===== verification/Grant_Gate.thy ===== *)
theory Grant_Gate
  imports Grant_Store
begin

text \<open>
  The gate itself (\<open>app/harness/policy.py\<close>): \<open>check_grants\<close> with its two axes, the dispatch hook, the
  \<open>grants:\<close> block of a task file, and the three tools of \<open>agent_mcp/builtin_grants.py\<close>. A decision's
  reason is the data its text is rendered from; log lines are left out. A store that cannot be opened
  is \<open>None\<close>.
\<close>

section \<open>Explaining a denial\<close>

definition spent :: "grant_row \<Rightarrow> bool" where
  "spent r = (case g_quota r of None \<Rightarrow> False | Some q \<Rightarrow> q \<le> g_consumed r)"

definition is_revoked :: "grant_row \<Rightarrow> bool" where
  "is_revoked r \<longleftrightarrow> g_revoked_at r \<noteq> None \<and> g_revoked_at r \<noteq> Some []"

record shape =
  sh_scope :: string
  sh_tool :: string
  sh_destination :: "string option"
  sh_predicate :: string
  sh_expires :: string

fun suggested_predicate :: "(string \<times> json) list \<Rightarrow> string" where
  "suggested_predicate [] = []"
| "suggested_predicate ((k, v) # kvs) = (case v of
     JArr (x # xs) \<Rightarrow> ''len('' @ k @ '')<='' @ nat_text (length (x # xs))
   | _ \<Rightarrow> suggested_predicate kvs)"

definition SUGGESTED_TTL_DAYS :: nat where "SUGGESTED_TTL_DAYS = 7"

definition grant_shape :: "nat \<Rightarrow> string \<Rightarrow> string \<Rightarrow> (string \<times> json) list \<Rightarrow> string option \<Rightarrow> shape" where
  "grant_shape now scope tool args dest =
     \<lparr>sh_scope = scope, sh_tool = tool, sh_destination = (if dest = Some [] then None else dest),
      sh_predicate = suggested_predicate args, sh_expires = iso_utc (now + SUGGESTED_TTL_DAYS * day_us)\<rparr>"

datatype missing = Was_Revoked | Has_Expired | Over_Quota

fun explain_missing_row :: "nat \<Rightarrow> string option \<Rightarrow> grant_row list \<Rightarrow> (missing \<times> grant_row) option" where
  "explain_missing_row now dest [] = None"
| "explain_missing_row now dest (r # rs) =
     (if dest \<noteq> None \<and> \<not> destination_covers (g_destination r) (the dest) then explain_missing_row now dest rs
      else if is_revoked r then Some (Was_Revoked, r)
      else if text_le (g_expires_at r) (iso_utc now) then Some (Has_Expired, r)
      else if spent r then Some (Over_Quota, r)
      else explain_missing_row now dest rs)"

definition FRONTMATTER_MINTER :: string where "FRONTMATTER_MINTER = ''frontmatter:''"

definition is_spent_frontmatter :: "(missing \<times> grant_row) option \<Rightarrow> bool" where
  "is_spent_frontmatter why = (case why of Some (Over_Quota, r) \<Rightarrow> startswith (g_minted_by r) FRONTMATTER_MINTER
     | _ \<Rightarrow> False)"

datatype fault = Fault_Spent | Fault_No_Match

type_synonym shadow = "(grant_row \<times> fault option) list \<times> grant_row list"

definition shadow_sentence :: "(grant_row \<times> fault option) list \<Rightarrow> grant_row list \<Rightarrow> shadow option" where
  "shadow_sentence bounded broad = (if bounded = [] \<or> broad = [] then None else Some (bounded, broad))"

definition bound_fault :: "(string \<times> json) list \<Rightarrow> grant_row \<Rightarrow> fault option" where
  "bound_fault args r =
     (if spent r then Some Fault_Spent
      else if \<not> predicate_matches (strip (g_predicate r)) args then Some Fault_No_Match else None)"

definition explain_shadow :: "grant_row list \<Rightarrow> grant_row list \<Rightarrow> (string \<times> json) list \<Rightarrow> shadow option" where
  "explain_shadow bounded broad args =
     shadow_sentence (filter (\<lambda>(r, f). f \<noteq> None) (map (\<lambda>r. (r, bound_fault args r)) bounded)) broad"

section \<open>The check\<close>

record denial =
  dn_scope :: string
  dn_tool :: string
  dn_tier :: "nat option"
  dn_host :: "string option"
  dn_why :: "(missing \<times> grant_row) option"
  dn_shadow :: "shadow option"
  dn_bash :: "string option"
  dn_schedule :: "(string list \<times> json) option"
  dn_shape :: shape

datatype reason = Silent | Interactive_May_Mint | May_Not_Mint shape | Denied denial

type_synonym gstore = "reason grant_store"

record decision =
  allowed :: bool
  grant_id :: "nat option"
  reason :: reason

definition payer_row :: "string \<Rightarrow> grant_row \<Rightarrow> bool" where
  "payer_row tool r \<longleftrightarrow> g_tool r = tool \<and> strip (case g_destination r of None \<Rightarrow> [] | Some d \<Rightarrow> d) = []"

definition bounded_row :: "grant_row \<Rightarrow> bool" where
  "bounded_row r \<longleftrightarrow> strip (g_predicate r) \<noteq> []"

definition bounded_for :: "string \<Rightarrow> grant_row list \<Rightarrow> grant_row list" where
  "bounded_for tool rows = filter bounded_row (filter (payer_row tool) rows)"

definition broad_for :: "string \<Rightarrow> grant_row list \<Rightarrow> grant_row list" where
  "broad_for tool rows = filter (\<lambda>r. \<not> bounded_row r) (filter (payer_row tool) rows)"

definition shadow_warning_for :: "nat \<Rightarrow> string \<Rightarrow> string \<Rightarrow> 'why grant_store \<Rightarrow> shadow option" where
  "shadow_warning_for now scope tool_pattern st =
     (let tool = normalize_tool_name tool_pattern; rows = live now (Some scope) st in
      shadow_sentence (map (\<lambda>r. (r, None)) (bounded_for tool rows)) (broad_for tool rows))"

text \<open>An allowed call: one unit of the grant's quota, and the ledger row when dispatches are recorded.\<close>

definition pay :: "nat \<Rightarrow> bool \<Rightarrow> string \<Rightarrow> string \<Rightarrow> grant_row \<Rightarrow> gstore \<Rightarrow> decision \<times> gstore" where
  "pay now record scope tool r st =
     (\<lparr>allowed = True, grant_id = Some (g_id r), reason = Silent\<rparr>,
      let st' = consume (g_id r) st in
      if record then record_dispatch now scope tool Allow (Some (g_id r)) None st' else st')"

definition refuse :: "nat \<Rightarrow> bool \<Rightarrow> string \<Rightarrow> string \<Rightarrow> reason \<Rightarrow> gstore \<Rightarrow> decision \<times> gstore" where
  "refuse now record scope tool why st =
     (\<lparr>allowed = False, grant_id = None, reason = why\<rparr>,
      if record then record_dispatch now scope tool Deny None (Some why) st else st)"

definition decide_destination ::
    "(string \<Rightarrow> string option) \<Rightarrow> nat \<Rightarrow> bool \<Rightarrow> string \<Rightarrow> string \<Rightarrow> string \<Rightarrow> gstore \<Rightarrow> grant_error + (decision \<times> gstore)" where
  "decide_destination ip6 now record scope tool dest st =
     (case normalize_destination ip6 dest of Inl e \<Rightarrow> Inl e
      | Inr host \<Rightarrow>
          Inr (case find (\<lambda>r. g_tool r = tool \<and> destination_covers (g_destination r) host \<and> \<not> spent r)
                 (live now (Some scope) st) of
            Some r \<Rightarrow> pay now record scope tool r st
          | None \<Rightarrow> refuse now record scope tool (Denied \<lparr>dn_scope = scope, dn_tool = tool, dn_tier = None,
              dn_host = Some host, dn_why = explain_missing_row now (Some host) (candidates scope tool st),
              dn_shadow = None, dn_bash = None, dn_schedule = None,
              dn_shape = grant_shape now scope tool [] (Some host)\<rparr>) st))"

definition decide_tier ::
    "(string \<Rightarrow> string option) \<Rightarrow> nat \<Rightarrow> bool \<Rightarrow> nat \<Rightarrow> string \<Rightarrow> string \<Rightarrow> (string \<times> json) list \<Rightarrow> gstore \<Rightarrow> decision \<times> gstore" where
  "decide_tier durable now record tier scope tool args st =
     (let rows = live now (Some scope) st; bounded = bounded_for tool rows; broad = broad_for tool rows in
      case find (\<lambda>r. \<not> spent r \<and> predicate_matches (g_predicate r) args) (if bounded \<noteq> [] then bounded else broad) of
        Some r \<Rightarrow> pay now record scope tool r st
      | None \<Rightarrow> refuse now record scope tool (Denied \<lparr>dn_scope = scope, dn_tool = tool, dn_tier = Some tier,
          dn_host = None, dn_why = explain_missing_row now None (candidates scope tool st),
          dn_shadow = (if bounded \<noteq> [] \<and> broad \<noteq> [] then explain_shadow bounded broad args else None),
          dn_bash = (if tool = BASH_TOOL
            then Some (case durable (bash_command_of (JObj args)) of Some l \<Rightarrow> l | None \<Rightarrow> ''unclassified'') else None),
          dn_schedule = (if tool = SCHEDULE_STATE_TOOL
            then Some (schedule_fields_changed (JObj args), dict_get args ''id'') else None),
          dn_shape = grant_shape now scope tool args None\<rparr>) st)"

text \<open>
  The source reads the live grants and charges the payer over two connections, one after the other; here
  both happen on one store, so a revocation or a second charge between the two is outside the model.
\<close>

definition check_grants ::
    "(string \<Rightarrow> string option) \<Rightarrow> (string \<Rightarrow> string option) \<Rightarrow> nat \<Rightarrow> bool \<Rightarrow> string \<Rightarrow> string \<Rightarrow> json \<Rightarrow> string option
      \<Rightarrow> gstore option \<Rightarrow> grant_error + (decision \<times> gstore option)" where
  "check_grants durable ip6 now record scope0 tool_name input dest db =
     (let tool = normalize_tool_name tool_name;
          args = (case input of JObj kvs \<Rightarrow> kvs | _ \<Rightarrow> []);
          scope = (if strip scope0 = [] then ''worker'' else strip scope0)
      in if tool = GRANT_MINT_TOOL
         then Inr (if is_interactive_scope scope
           then \<lparr>allowed = True, grant_id = None, reason = Interactive_May_Mint\<rparr>
           else \<lparr>allowed = False, grant_id = None,
                 reason = May_Not_Mint (grant_shape now scope ''<the tool you need>'' [] None)\<rparr>, db)
         else
           let tier = effective_tier durable tool (JObj args) in
           if tier = 1 \<and> dest = None then Inr (\<lparr>allowed = True, grant_id = None, reason = Silent\<rparr>, db)
           else if is_interactive_scope scope then Inr (\<lparr>allowed = True, grant_id = None, reason = Silent\<rparr>, db)
           else case db of None \<Rightarrow> Inl Store_Unreadable
             | Some st \<Rightarrow>
                 map_sum id (\<lambda>(d, st'). (d, Some st'))
                   (case dest of Some host \<Rightarrow> decide_destination ip6 now record scope tool host st
                    | None \<Rightarrow> Inr (decide_tier durable now record tier scope tool args st)))"

section \<open>The hook\<close>

datatype hook_result = Pass | Deny_Unevaluated grant_error | Deny_Reason reason

definition policy_hook ::
    "(string \<Rightarrow> string option) \<Rightarrow> (string \<Rightarrow> string option) \<Rightarrow> nat \<Rightarrow> string \<Rightarrow> string \<Rightarrow> string \<Rightarrow> json \<Rightarrow> gstore option
      \<Rightarrow> hook_result \<times> gstore option" where
  "policy_hook durable ip6 now scope current_scope tool_name input0 db =
     (let input = (if truthy input0 then input0 else JObj []) in
      if effective_tier durable tool_name input = 1 \<and> tool_name \<noteq> GRANT_MINT_TOOL then (Pass, db)
      else case check_grants durable ip6 now True (if scope = [] then current_scope else scope) tool_name input None db of
        Inl e \<Rightarrow> (Deny_Unevaluated e, db)
      | Inr (d, db') \<Rightarrow> (if allowed d then Pass else Deny_Reason (reason d), db'))"

section \<open>Task grants\<close>

datatype grant_entry = Entry "(string \<times> pyval) list" | Not_A_Map json
datatype grants_block = No_Block | Entries "grant_entry list" | Not_A_List json

datatype entry_error =
    Not_Map | Unknown_Keys "string list" | Tool_Missing | Grants_Itself_Mint | Bad_Field grant_error
  | Bad_Quota | Issuer_Missing | Not_List

record grant_spec =
  t_tool :: string
  t_predicate :: string
  t_quota :: "int option"
  t_expires :: nat
  t_issued_by :: string
  t_note :: string

definition entry_keys :: "string list" where
  "entry_keys = [''tool'', ''predicate'', ''quota'', ''expires_at'', ''issued_by'', ''note'']"

definition entry_predicate :: "pyval \<Rightarrow> grant_error + string" where
  "entry_predicate v = (case v of Val j \<Rightarrow> validate_predicate (if truthy j then j else JStr [])
     | _ \<Rightarrow> Inl Predicate_Not_Text)"

definition entry_quota :: "pyval \<Rightarrow> entry_error + int option" where
  "entry_quota v = (case v of Val JNull \<Rightarrow> Inr None
     | Val j \<Rightarrow> (case int_of j of Inl _ \<Rightarrow> Inl Bad_Quota | Inr q \<Rightarrow> if q < 1 then Inl Bad_Quota else Inr (Some q))
     | _ \<Rightarrow> Inl Bad_Quota)"

text \<open>
  One entry: its errors, and its spec when it has none. An expiry that raises something other than a
  \<open>GrantError\<close> is not caught.
\<close>

definition validate_entry :: "(string \<times> pyval) list \<Rightarrow> py_error + (entry_error list \<times> grant_spec option)" where
  "validate_entry m =
     (let unknown = filter (\<lambda>k. k \<notin> set entry_keys) (map fst m);
          tool = normalize_tool_name (val_text_or (val_get m ''tool''));
          pred = entry_predicate (val_get m ''predicate'');
          quota = entry_quota (val_get m ''quota'');
          issuer = strip (val_text_or (val_get m ''issued_by''))
      in case parse_expiry (val_get m ''expires_at'') of Inl (Raised e) \<Rightarrow> Inl e
      | expiry \<Rightarrow>
        (let errs = (if unknown = [] then [] else [Unknown_Keys (order_by text_le unknown)])
               @ (if tool = [] then [Tool_Missing] else if tool = GRANT_MINT_TOOL then [Grants_Itself_Mint] else [])
               @ (case pred of Inl e \<Rightarrow> [Bad_Field e] | Inr _ \<Rightarrow> [])
               @ (case expiry of Inl e \<Rightarrow> [Bad_Field e] | Inr _ \<Rightarrow> [])
               @ (case quota of Inl e \<Rightarrow> [e] | Inr _ \<Rightarrow> [])
               @ (if issuer = [] then [Issuer_Missing] else [])
         in Inr (errs, if errs \<noteq> [] then None
              else Some \<lparr>t_tool = tool, t_predicate = projr pred, t_quota = projr quota, t_expires = projr expiry,
                t_issued_by = issuer, t_note = val_text_or (val_get m ''note'')\<rparr>)))"

text \<open>The loop over the entries; a spec is kept only while no entry so far has had an error.\<close>

fun validate_entries ::
    "nat \<Rightarrow> grant_entry list \<Rightarrow> grant_spec list \<times> (nat \<times> entry_error) list
      \<Rightarrow> py_error + (grant_spec list \<times> (nat \<times> entry_error) list)" where
  "validate_entries i [] acc = Inr acc"
| "validate_entries i (Not_A_Map v # es) (specs, errs) = validate_entries (Suc i) es (specs, errs @ [(i, Not_Map)])"
| "validate_entries i (Entry m # es) (specs, errs) =
     (case validate_entry m of Inl e \<Rightarrow> Inl e
      | Inr (new, spec) \<Rightarrow>
          (let errs' = errs @ map (Pair i) new in
           validate_entries (Suc i) es
             (if errs' = [] then specs @ (case spec of Some s \<Rightarrow> [s] | None \<Rightarrow> []) else specs, errs')))"

definition validate_task_grants :: "grants_block \<Rightarrow> py_error + (grant_spec list \<times> (nat \<times> entry_error) list)" where
  "validate_task_grants block = (case block of No_Block \<Rightarrow> Inr ([], [])
     | Not_A_List v \<Rightarrow> Inr ([], [(0, Not_List)])
     | Entries es \<Rightarrow> validate_entries 0 es ([], []))"

definition unexpired_for :: "nat \<Rightarrow> string \<Rightarrow> grant_spec \<Rightarrow> 'why grant_store \<Rightarrow> grant_row list" where
  "unexpired_for now scope spec st =
     filter (\<lambda>r. g_predicate r = t_predicate spec \<and> text_less (iso_utc now) (g_expires_at r))
       (candidates scope (t_tool spec) st)"

definition spec_mint_args :: "string \<Rightarrow> string \<Rightarrow> grant_spec \<Rightarrow> mint_args" where
  "spec_mint_args task_id scope spec =
     \<lparr>m_scope = scope, m_tool = t_tool spec, m_predicate = JStr (t_predicate spec),
      m_quota = (case t_quota spec of None \<Rightarrow> JNull | Some q \<Rightarrow> JInt q),
      m_issued_by = t_issued_by spec, m_expires = Time (utc (t_expires spec)),
      m_note = (if t_note spec = [] then ''autonomy task #'' @ task_id else t_note spec),
      m_minted_by = FRONTMATTER_MINTER @ task_id, m_destination = None\<rparr>"

text \<open>What the loop does with one declared grant: whether it was minted, or the error of \<open>mint\<close>.\<close>

definition sync_spec ::
    "(string \<Rightarrow> string option) \<Rightarrow> nat \<Rightarrow> string \<Rightarrow> string \<Rightarrow> grant_spec \<Rightarrow> 'why grant_store
      \<Rightarrow> grant_error + (bool \<times> 'why grant_store)" where
  "sync_spec ip6 now task_id scope spec st =
     (if t_expires spec \<le> now then Inr (False, st)
      else
        let unexpired = unexpired_for now scope spec st;
            covering = filter (\<lambda>r. \<not> is_revoked r) unexpired;
            blocking = first_min (\<lambda>a b. text_le (g_expires_at b) (g_expires_at a)) (filter is_revoked unexpired)
        in if covering \<noteq> [] then Inr (False, st)
           else if (case blocking of None \<Rightarrow> False | Some b \<Rightarrow> text_le (iso_utc (t_expires spec)) (g_expires_at b))
           then Inr (False, st)
           else map_sum id (\<lambda>(r, st'). (True, st')) (mint ip6 now (spec_mint_args task_id scope spec) st))"

fun sync_specs ::
    "(string \<Rightarrow> string option) \<Rightarrow> nat \<Rightarrow> string \<Rightarrow> string \<Rightarrow> grant_spec list \<Rightarrow> nat \<Rightarrow> 'why grant_store
      \<Rightarrow> (grant_error + nat) \<times> 'why grant_store" where
  "sync_specs ip6 now task_id scope [] n st = (Inr n, st)"
| "sync_specs ip6 now task_id scope (s # ss) n st =
     (case sync_spec ip6 now task_id scope s st of Inl e \<Rightarrow> (Inl e, st)
      | Inr (minted, st') \<Rightarrow> sync_specs ip6 now task_id scope ss (if minted then Suc n else n) st')"

definition withdrawn_rows :: "nat \<Rightarrow> string \<Rightarrow> string \<Rightarrow> grant_spec list \<Rightarrow> 'why grant_store \<Rightarrow> grant_row list" where
  "withdrawn_rows now task_id scope specs st =
     filter (\<lambda>r. g_minted_by r = FRONTMATTER_MINTER @ task_id \<and>
         (g_tool r, g_predicate r) \<notin> set (map (\<lambda>s. (t_tool s, t_predicate s)) specs))
       (live now (Some scope) st)"

definition sync_task_grants ::
    "(string \<Rightarrow> string option) \<Rightarrow> nat \<Rightarrow> string \<Rightarrow> string \<Rightarrow> grants_block \<Rightarrow> 'why grant_store
      \<Rightarrow> (grant_error + nat) \<times> 'why grant_store" where
  "sync_task_grants ip6 now task_id scope block st =
     (case validate_task_grants block of Inl e \<Rightarrow> (Inl (Raised e), st)
      | Inr (specs, errs) \<Rightarrow>
          if errs \<noteq> [] then (Inl Unreadable_Block, st)
          else case sync_specs ip6 now task_id scope specs 0 st of (Inl e, st') \<Rightarrow> (Inl e, st')
            | (Inr n, st') \<Rightarrow>
                (Inr n, fold (\<lambda>r s. snd (revoke now (g_id r) s)) (withdrawn_rows now task_id scope specs st') st'))"

section \<open>The grant tools\<close>

text \<open>\<open>human\<close> is the answer of \<open>_refusal_if_not_human\<close>: the bound session is one a person reads.\<close>

datatype tool_result =
    Refused_Not_Human | Refused_Mint grant_error | Granted grant_row "shadow option"
  | Revoke_Needs_Id | Revoke_Bad_Id | Not_Revoked int | Revoked int

definition create_args :: "(string \<times> json) list \<Rightarrow> mint_args" where
  "create_args a =
     \<lparr>m_scope = text_or (dict_get a ''scope''), m_tool = text_or (dict_get a ''tool''),
      m_predicate = (if truthy (dict_get a ''predicate'') then dict_get a ''predicate'' else JStr []),
      m_quota = (if dict_get a ''quota'' = JNull then JInt 1 else dict_get a ''quota''),
      m_issued_by = text_or (dict_get a ''issued_by''), m_expires = Val (dict_get a ''expires_at''),
      m_note = text_or (dict_get a ''note''), m_minted_by = ''interactive-tool'', m_destination = None\<rparr>"

definition grant_create ::
    "(string \<Rightarrow> string option) \<Rightarrow> nat \<Rightarrow> bool \<Rightarrow> (string \<times> json) list \<Rightarrow> 'why grant_store \<Rightarrow> tool_result \<times> 'why grant_store" where
  "grant_create ip6 now human a st =
     (if \<not> human then (Refused_Not_Human, st)
      else case mint ip6 now (create_args a) st of Inl e \<Rightarrow> (Refused_Mint e, st)
        | Inr (r, st') \<Rightarrow> (Granted r (shadow_warning_for now (g_scope r) (g_tool r) st'), st'))"

definition grant_list :: "nat \<Rightarrow> string \<Rightarrow> 'why grant_store \<Rightarrow> grant_row list" where
  "grant_list now scope st = live now (if scope = [] then None else Some scope) st"

definition grant_revoke ::
    "nat \<Rightarrow> bool \<Rightarrow> json \<Rightarrow> 'why grant_store \<Rightarrow> tool_result \<times> 'why grant_store" where
  "grant_revoke now human v st =
     (if \<not> human then (Refused_Not_Human, st)
      else if v = JNull then (Revoke_Needs_Id, st)
      else case int_of v of Inl _ \<Rightarrow> (Revoke_Bad_Id, st)
        | Inr n \<Rightarrow> if n < 0 then (Not_Revoked n, st)
            else case revoke now (nat n) st of (ok, st') \<Rightarrow> (if ok then Revoked n else Not_Revoked n, st'))"

end
