(* ===== verification/Grant_Facts.thy ===== *)
theory Grant_Facts
  imports Grant_Gate
begin

text \<open>
  Lemmas about the gate's vocabulary and its store: the predicate language reads back what it
  normalises, a destination covers a host by whole labels, the invariant of the grant tables and one
  preservation lemma per write.
\<close>

section \<open>Predicates\<close>

lemma strip_id: "s \<noteq> [] \<Longrightarrow> \<not> is_space (hd s) \<Longrightarrow> \<not> is_space (last s) \<Longrightarrow> strip s = s"
  by (cases s) (simp_all add: strip_def lstrip_def rstrip_last)

lemma strip_Nil [simp]: "strip [] = []"
  by (simp add: strip_def lstrip_def rstrip_def)

lemma is_digit_not_space: "is_digit c \<Longrightarrow> \<not> is_space c"
  by (simp add: is_digit_def is_space_def)

lemma is_ident_not_space: "is_ident c \<Longrightarrow> \<not> is_space c"
  by (auto simp: is_ident_def is_space_def Let_def)

definition OPS :: "string list" where
  "OPS = [''<='', ''>='', ''=='', ''<'', ''>'']"

definition predicate_ok :: "predicate \<Rightarrow> bool" where
  "predicate_ok p \<longleftrightarrow> p_field p \<noteq> [] \<and> list_all is_ident (p_field p) \<and> \<not> is_digit (hd (p_field p)) \<and>
     p_op p \<in> set OPS \<and> list_all is_digit (p_num p) \<and> 1 \<le> length (p_num p) \<and> length (p_num p) \<le> 9"

lemma startswithE: "startswith s p \<Longrightarrow> (\<And>r. s = p @ r \<Longrightarrow> P) \<Longrightarrow> P"
  by (metis startswith_def append_take_drop_id)

lemma parse_op_ops: "parse_op s = Some (op, r) \<Longrightarrow> op \<in> set OPS"
  by (auto simp: parse_op_def OPS_def startswith_def numeral_2_eq_2 split: if_splits)

lemma takeWhile_all: "list_all P (takeWhile P xs)"
  by (induction xs) auto

lemma parse_predicate_ok:
  assumes "parse_predicate s = Some p"
  shows "predicate_ok p"
proof -
  have "parse_predicate s = Some p \<longrightarrow> predicate_ok p"
    unfolding parse_predicate_def Let_def
    by (intro branch [where P = "\<lambda>r. r = Some p \<longrightarrow> predicate_ok p"]) (auto simp: predicate_ok_def takeWhile_all dest: parse_op_ops)
  then show ?thesis using assms by blast
qed

lemma list_all_takeWhile_append:
  "list_all P xs \<Longrightarrow> ys \<noteq> [] \<Longrightarrow> \<not> P (hd ys) \<Longrightarrow> takeWhile P (xs @ ys) = xs \<and> dropWhile P (xs @ ys) = ys"
  by (induction xs) (auto simp: neq_Nil_conv)

lemma list_all_takeWhile_id: "list_all P xs \<Longrightarrow> takeWhile P xs = xs \<and> dropWhile P xs = []"
  by (induction xs) auto

lemma ops_head: "op \<in> set OPS \<Longrightarrow> op \<noteq> [] \<and> \<not> is_ident (hd op) \<and> \<not> is_space (hd op) \<and> hd op \<noteq> CHR '')'' \<and> hd op \<noteq> CHR ''(''"
  by (auto simp: OPS_def is_ident_def is_space_def)

lemma parse_op_append:
  "op \<in> set OPS \<Longrightarrow> r \<noteq> [] \<Longrightarrow> is_digit (hd r) \<Longrightarrow> parse_op (op @ r) = Some (op, r)"
  by (cases r) (auto simp: OPS_def parse_op_def startswith_def is_digit_def)

lemma num_tail:
  "list_all is_digit ds \<Longrightarrow> 1 \<le> length ds \<Longrightarrow>
   ds \<noteq> [] \<and> is_digit (hd ds) \<and> dropWhile is_space ds = ds \<and> is_digit (last ds)"
  by (cases ds) (auto simp: is_digit_not_space list_all_iff)

lemma ops_tail:
  assumes "op \<in> set OPS" "list_all is_digit ds" "1 \<le> length ds"
  shows "dropWhile is_space (op @ ds) = op @ ds" "parse_op (op @ ds) = Some (op, ds)"
    "takeWhile is_digit ds = ds" "dropWhile is_digit ds = []" "dropWhile is_space ds = ds"
    "op @ ds \<noteq> []" "\<not> is_ident (hd (op @ ds))" "\<not> startswith (op @ ds) '')''" "\<not> startswith (op @ ds) ''(''"
proof -
  obtain c cs where op: "op = c # cs" using ops_head [OF assms(1)] by (cases op) auto
  show "dropWhile is_space (op @ ds) = op @ ds" "op @ ds \<noteq> []" "\<not> is_ident (hd (op @ ds))"
    "\<not> startswith (op @ ds) '')''" "\<not> startswith (op @ ds) ''(''"
    using ops_head [OF assms(1)] by (simp_all add: op startswith_def)
  show "parse_op (op @ ds) = Some (op, ds)" using assms num_tail parse_op_append by simp
  show "takeWhile is_digit ds = ds" "dropWhile is_digit ds = []" using assms list_all_takeWhile_id by auto
  show "dropWhile is_space ds = ds" using assms num_tail by simp
qed

lemma predicate_text_reads_back:
  assumes ok: "predicate_ok p" and bal: "p_len p = p_closer p"
  shows "parse_predicate (predicate_text p) = Some p"
proof -
  let ?r = "p_op p @ p_num p"
  have fld: "p_field p \<noteq> []" "list_all is_ident (p_field p)" "\<not> is_digit (hd (p_field p))"
    and num: "1 \<le> length (p_num p)" "length (p_num p) \<le> 9"
    using ok by (simp_all add: predicate_ok_def)
  note r = ops_tail [of "p_op p" "p_num p"]
  have r: "dropWhile is_space ?r = ?r" "parse_op ?r = Some (p_op p, p_num p)"
      "takeWhile is_digit (p_num p) = p_num p" "dropWhile is_digit (p_num p) = []" "dropWhile is_space (p_num p) = p_num p"
      "?r \<noteq> []" "\<not> is_ident (hd ?r)" "\<not> startswith ?r '')''" "\<not> startswith ?r ''(''"
    using ok r by (simp_all add: predicate_ok_def)
  show ?thesis
  proof (cases "p_len p")
    case True
    have "\<not> is_ident CHR '')''" "\<not> is_space CHR '')''" by (simp_all add: is_ident_def is_space_def)
    then have "takeWhile is_ident (p_field p @ '')'' @ ?r) = p_field p"
        "dropWhile is_ident (p_field p @ '')'' @ ?r) = '')'' @ ?r" "dropWhile is_space ('')'' @ ?r) = '')'' @ ?r"
      using fld list_all_takeWhile_append [of is_ident "p_field p" "'')'' @ ?r"] by auto
    moreover have "dropWhile is_space (p_field p @ '')'' @ ?r) = p_field p @ '')'' @ ?r"
      using fld is_ident_not_space by (cases "p_field p") auto
    moreover have "predicate_text p = ''len('' @ p_field p @ '')'' @ ?r" using True by (simp add: predicate_text_def)
    ultimately show ?thesis using True bal fld num r(1-5)
      by (simp add: parse_predicate_def startswith_def Let_def del: takeWhile_eq_all_conv)
  next
    case False
    have whole: "takeWhile is_ident (p_field p @ ?r) = p_field p" "dropWhile is_ident (p_field p @ ?r) = ?r"
      using fld r list_all_takeWhile_append [of is_ident "p_field p" ?r] by auto
    have "\<not> startswith (p_field p @ ?r) ''len(''"
    proof
      assume "startswith (p_field p @ ?r) ''len(''"
      then obtain t where "p_field p @ ?r = ''len('' @ t" by (rule startswithE)
      then have "?r = ''('' @ t" using whole(2) by (simp add: is_ident_def)
      then show False using r(9) by (simp add: startswith_def)
    qed
    moreover have "predicate_text p = p_field p @ ?r" using False by (simp add: predicate_text_def)
    ultimately show ?thesis using False bal fld num r whole
      by (simp add: parse_predicate_def Let_def del: takeWhile_eq_all_conv)
  qed
qed

lemma predicate_text_ends:
  assumes "predicate_ok p"
  shows "strip (predicate_text p) = predicate_text p \<and> predicate_text p \<noteq> []"
proof -
  have num: "p_num p \<noteq> []" "is_digit (last (p_num p))" using assms num_tail by (auto simp: predicate_ok_def)
  have "\<not> is_space (hd (predicate_text p))"
    using assms is_ident_not_space by (cases "p_field p") (auto simp: predicate_text_def predicate_ok_def is_space_def)
  moreover have "last (predicate_text p) = last (p_num p)" "predicate_text p \<noteq> []"
    using num by (auto simp: predicate_text_def)
  ultimately show ?thesis using num is_digit_not_space strip_id by metis
qed

definition predicate_normal :: "string \<Rightarrow> bool" where
  "predicate_normal s \<longleftrightarrow> s = [] \<or>
     (\<exists>p. predicate_ok p \<and> p_len p = p_closer p \<and> s = predicate_text p)"

lemma validate_predicate_normal: "validate_predicate v = Inr s \<Longrightarrow> predicate_normal s"
  using parse_predicate_ok
  by (fastforce simp: validate_predicate_def predicate_normal_def Let_def split: json.splits if_splits option.splits)

lemma validate_normal: "predicate_normal s \<Longrightarrow> validate_predicate (JStr s) = Inr s"
  using predicate_text_ends predicate_text_reads_back
  by (auto simp: validate_predicate_def predicate_normal_def Let_def)

lemma bounded_normal: "predicate_normal s \<Longrightarrow> strip s \<noteq> [] \<longleftrightarrow> s \<noteq> []"
  using predicate_text_ends by (auto simp: predicate_normal_def)

section \<open>Domain labels\<close>

lemma split_on_not_Nil [simp]: "split_on c s \<noteq> []"
  by (induction s) (auto split: list.splits)

lemma split_on_append: "split_on c (a @ c # b) = split_on c a @ split_on c b"
  by (induction a) (auto split: list.splits)

lemma join_append: "xs \<noteq> [] \<Longrightarrow> ys \<noteq> [] \<Longrightarrow> join sep (xs @ ys) = join sep xs @ sep @ join sep ys"
  by (induction sep xs rule: join.induct) (auto simp: neq_Nil_conv)

lemma join_split_on: "join [c] (split_on c s) = s"
proof (induction s)
  case (Cons x s)
  obtain w ws where "split_on c s = w # ws" by (cases "split_on c s") auto
  with Cons show ?case by (cases ws) auto
qed simp

lemma labels_suffix:
  "h = e \<or> (\<exists>a. h = a @ c # e) \<longleftrightarrow> (\<exists>ls. split_on c h = ls @ split_on c e)"
proof
  assume "h = e \<or> (\<exists>a. h = a @ c # e)"
  then show "\<exists>ls. split_on c h = ls @ split_on c e" using split_on_append by fastforce
next
  assume "\<exists>ls. split_on c h = ls @ split_on c e"
  then obtain ls where ls: "split_on c h = ls @ split_on c e" by blast
  have "h = join [c] (ls @ split_on c e)" using ls join_split_on by metis
  then show "h = e \<or> (\<exists>a. h = a @ c # e)"
    by (cases "ls = []") (auto simp: join_append join_split_on)
qed

lemma endswith_iff: "endswith s p \<longleftrightarrow> (\<exists>a. s = a @ p)"
proof
  assume "endswith s p"
  then have "s = take (length s - length p) s @ p" by (metis append_take_drop_id endswith_def)
  then show "\<exists>a. s = a @ p" by blast
qed (auto simp: endswith_def)

lemma iso_utc_plain:
  "strip (iso_utc n) = iso_utc n" "\<not> endswith (iso_utc n) ''Z''" "is_digit (hd (iso_utc n))" "iso_utc n \<noteq> []"
proof -
  obtain y m d where ymd: "days_to_ymd (n div day_us) = (y, m, d)" by (cases "days_to_ymd (n div day_us)")
  have off: "offset_text (Some 0) = ''+00:00''" by (simp add: offset_text_def pad_numeral digit_def)
  have "\<exists>pre. iso_utc n = pad 4 y @ pre @ ''+00:00''"
    by (simp add: iso_utc_def isoformat_def utc_def off date_text_def ymd Let_def)
  then obtain pre where pre: "iso_utc n = pad 4 y @ pre @ ''+00:00''" by blast
  have "\<forall>c \<in> set (pad 4 y). is_digit c" using list_all_pad by (simp add: list_all_iff)
  then show digit: "is_digit (hd (iso_utc n))" by (auto simp: pre pad_numeral hd_append)
  show "strip (iso_utc n) = iso_utc n" using is_digit_not_space [OF digit] by (intro strip_id) (simp_all add: pre is_space_def)
  show "\<not> endswith (iso_utc n) ''Z''" "iso_utc n \<noteq> []"
    by (auto simp: pre endswith_iff append_eq_append_conv2 Cons_eq_append_conv)
qed

section \<open>The invariant of the tables\<close>

definition grant_wf :: "grant_row \<Rightarrow> bool" where
  "grant_wf r \<longleftrightarrow> g_scope r \<noteq> [] \<and> strip (g_scope r) = g_scope r \<and>
     g_tool r \<noteq> [] \<and> g_tool r \<noteq> GRANT_MINT_TOOL \<and>
     g_issued_by r \<noteq> [] \<and> \<not> is_worker_identity (g_issued_by r) \<and> \<not> is_worker_identity (g_minted_by r) \<and>
     predicate_normal (g_predicate r) \<and>
     (\<exists>n. in_range n \<and> g_expires_at r = iso_utc n) \<and>
     (g_revoked_at r = None \<or> (\<exists>n. in_range n \<and> g_revoked_at r = Some (iso_utc n))) \<and>
     0 \<le> g_consumed r \<and> (case g_quota r of None \<Rightarrow> True | Some q \<Rightarrow> 1 \<le> q \<and> g_consumed r \<le> q)"

definition paid :: "nat \<Rightarrow> 'why grant_store \<Rightarrow> nat" where
  "paid n st = count_where (\<lambda>x. x_decision x = Allow \<and> x_grant x = Some n) (dispatches st)"

definition ledger_ok :: "'why grant_store \<Rightarrow> bool" where
  "ledger_ok st \<longleftrightarrow> (\<forall>x \<in> set (dispatches st). x_decision x = Allow \<longrightarrow>
     (\<exists>r \<in> set (grants st). x_grant x = Some (g_id r) \<and> g_scope r = x_scope x \<and> g_tool r = x_tool x))"

definition grant_inv :: "'why grant_store \<Rightarrow> bool" where
  "grant_inv st \<longleftrightarrow> distinct (map g_id (grants st)) \<and>
     (\<forall>r \<in> set (grants st). 1 \<le> g_id r \<and> g_id r \<le> grants_seq st \<and> grant_wf r \<and> int (paid (g_id r) st) \<le> g_consumed r) \<and>
     ledger_ok st"

lemma grant_inv_empty: "grant_inv empty_grants"
  by (simp add: grant_inv_def empty_grants_def ledger_ok_def)

lemma strip_strip [simp]: "strip (strip s) = strip s"
proof (cases "strip s = []")
  case False
  have "\<not> is_space (last (strip s))" using False last_rstrip by (simp add: strip_def)
  moreover have "\<not> is_space (hd (strip s))"
  proof -
    obtain t where t: "lstrip s = strip s @ t" using rstrip_prefix by (metis strip_def)
    then have "hd (strip s) = hd (lstrip s)" "lstrip s \<noteq> []" using False by auto
    then show ?thesis by (metis hd_dropWhile lstrip_def)
  qed
  ultimately show ?thesis using False strip_id by blast
qed simp

lemma mint_rowE:
  assumes "mint_row ip6 now n a = Inr r"
  obtains quota pred expiry dest where
    "strip (m_scope a) \<noteq> []" "normalize_tool_name (m_tool a) \<noteq> []" "normalize_tool_name (m_tool a) \<noteq> GRANT_MINT_TOOL"
    "strip (m_issued_by a) \<noteq> []" "\<not> is_worker_identity (strip (m_issued_by a))" "\<not> is_worker_identity (m_minted_by a)"
    "mint_quota (m_quota a) = Inr quota" "validate_predicate (m_predicate a) = Inr pred"
    "parse_expiry (m_expires a) = Inr expiry" "mint_destination ip6 (m_destination a) = Inr dest"
    "r = \<lparr>g_id = n, g_scope = strip (m_scope a), g_tool = normalize_tool_name (m_tool a), g_predicate = pred,
       g_quota = quota, g_consumed = 0, g_issued_by = strip (m_issued_by a),
       g_minted_by = (if m_minted_by a = [] then ''human'' else m_minted_by a),
       g_note = (if m_note a = [] then None else Some (m_note a)),
       g_issued_at = iso_utc now, g_expires_at = iso_utc expiry, g_revoked_at = None, g_destination = dest\<rparr>"
proof -
  note run = assms [unfolded mint_row_def Let_def]
  have c1: "strip (m_scope a) \<noteq> []" by (rule notI) (use run in simp)
  have c2: "normalize_tool_name (m_tool a) \<noteq> []" by (rule notI) (use run c1 in \<open>simp split del: if_split\<close>)
  have c3: "normalize_tool_name (m_tool a) \<noteq> GRANT_MINT_TOOL" by (rule notI) (use run c1 c2 in \<open>simp split del: if_split\<close>)
  have c4: "strip (m_issued_by a) \<noteq> []" by (rule notI) (use run c1 c2 c3 in \<open>simp split del: if_split\<close>)
  have "\<not> (is_worker_identity (strip (m_issued_by a)) \<or> is_worker_identity (m_minted_by a))"
    by (rule notI) (use run c1 c2 c3 c4 in \<open>simp split del: if_split\<close>)
  then have c5: "\<not> is_worker_identity (strip (m_issued_by a))" "\<not> is_worker_identity (m_minted_by a)" by simp_all
  note run = run [unfolded if_not_P [OF c1] if_not_P [OF c2] if_not_P [OF c3] if_not_P [OF c4]]
  obtain quota where q: "mint_quota (m_quota a) = Inr quota"
    using run c5 by (cases "mint_quota (m_quota a)") (simp_all split del: if_split)
  obtain pred where p: "validate_predicate (m_predicate a) = Inr pred"
    using run c5 q by (cases "validate_predicate (m_predicate a)") (simp_all split del: if_split)
  obtain expiry where e: "parse_expiry (m_expires a) = Inr expiry"
    using run c5 q p by (cases "parse_expiry (m_expires a)") (simp_all split del: if_split)
  obtain dest where d: "mint_destination ip6 (m_destination a) = Inr dest"
    using run c5 q p e by (cases "mint_destination ip6 (m_destination a)") (simp_all split del: if_split)
  show thesis by (rule that [OF c1 c2 c3 c4 c5 q p e d]) (use run c5 q p e d in \<open>simp split del: if_split\<close>)
qed

lemma parse_expiry_text_range: "parse_expiry_text s = Inr k \<Longrightarrow> in_range k"
  by (auto simp: utc_of_def parse_expiry_text_def Let_def split: if_splits option.splits)

lemma parse_expiry_range: "parse_expiry v = Inr k \<Longrightarrow> in_range k"
  by (induction v rule: parse_expiry.induct) (auto simp: utc_of_def dest: parse_expiry_text_range split: if_splits)

lemma not_worker_human: "\<not> is_worker_identity ''human''"
  by (simp add: is_worker_identity_def scope_head_def NON_INTERACTIVE_PREFIXES_def strip_id is_space_def)

lemma mint_quota_pos: "mint_quota v = Inr (Some q) \<Longrightarrow> 1 \<le> q"
  by (auto simp: mint_quota_def split: if_splits sum.splits)

lemma mint_row_wf:
  assumes "mint_row ip6 now n a = Inr r"
  shows "grant_wf r \<and> g_id r = n \<and> g_consumed r = 0 \<and> g_scope r = strip (m_scope a) \<and>
    g_tool r = normalize_tool_name (m_tool a) \<and> g_revoked_at r = None"
  using assms
proof (rule mint_rowE)
  fix quota pred expiry dest
  assume "strip (m_scope a) \<noteq> []" "normalize_tool_name (m_tool a) \<noteq> []" "normalize_tool_name (m_tool a) \<noteq> GRANT_MINT_TOOL"
    "strip (m_issued_by a) \<noteq> []" "\<not> is_worker_identity (strip (m_issued_by a))" "\<not> is_worker_identity (m_minted_by a)"
    and row: "mint_quota (m_quota a) = Inr quota" "validate_predicate (m_predicate a) = Inr pred"
    "parse_expiry (m_expires a) = Inr expiry" "mint_destination ip6 (m_destination a) = Inr dest"
    "r = \<lparr>g_id = n, g_scope = strip (m_scope a), g_tool = normalize_tool_name (m_tool a), g_predicate = pred,
       g_quota = quota, g_consumed = 0, g_issued_by = strip (m_issued_by a),
       g_minted_by = (if m_minted_by a = [] then ''human'' else m_minted_by a),
       g_note = (if m_note a = [] then None else Some (m_note a)),
       g_issued_at = iso_utc now, g_expires_at = iso_utc expiry, g_revoked_at = None, g_destination = dest\<rparr>"
  moreover have "\<exists>k. in_range k \<and> iso_utc expiry = iso_utc k" using parse_expiry_range [OF row(3)] by blast
  moreover have "case quota of None \<Rightarrow> True | Some q \<Rightarrow> 1 \<le> q \<and> 0 \<le> q"
    using mint_quota_pos row(1) by (fastforce split: option.splits)
  ultimately show ?thesis using not_worker_human validate_predicate_normal [OF row(2)]
    by (cases quota) (simp_all add: grant_wf_def)
qed

section \<open>Every write keeps the invariant\<close>

lemma paid_simps [simp]:
  "paid n (consume m st) = paid n st" "paid n (snd (revoke now m st)) = paid n st"
  "paid n (st\<lparr>grants := gs, grants_seq := k\<rparr>) = paid n st"
  "paid n (record_dispatch now scope tool v g why st) = paid n st + (if v = Allow \<and> g = Some n then 1 else 0)"
  by (simp_all add: paid_def consume_def revoke_def record_dispatch_def)

lemma grant_row_eq: "grant_inv st \<Longrightarrow> r \<in> set (grants st) \<Longrightarrow> r' \<in> set (grants st) \<Longrightarrow> g_id r = g_id r' \<Longrightarrow> r = r'"
  by (auto simp: grant_inv_def distinct_map inj_on_def)

lemma mint_inv [inv_intros]:
  assumes "grant_inv st" "mint ip6 now a st = Inr (r, st')"
  shows "grant_inv st'"
proof -
  have row: "mint_row ip6 now (Suc (grants_seq st)) a = Inr r"
    and st': "st' = st\<lparr>grants := grants st @ [r], grants_seq := Suc (grants_seq st)\<rparr>"
    using assms(2) by (auto simp: mint_def map_sum_Inr)
  note wf = mint_row_wf [OF row]
  have "\<forall>x \<in> set (dispatches st). x_decision x = Allow \<longrightarrow> x_grant x \<noteq> Some (Suc (grants_seq st))"
    using assms(1) by (fastforce simp: grant_inv_def ledger_ok_def)
  then have "paid (Suc (grants_seq st)) st = 0" by (simp add: paid_def count_where_def filter_empty_conv)
  moreover have "Suc (grants_seq st) \<notin> g_id ` set (grants st)" using assms(1) by (fastforce simp: grant_inv_def)
  moreover have "ledger_ok st'" using assms(1) by (auto simp: st' grant_inv_def ledger_ok_def)
  ultimately show ?thesis using assms(1) wf by (auto simp: st' grant_inv_def le_SucI)
qed

lemma grant_inv_map:
  assumes "grant_inv st" and gs: "grants st' = map f (grants st)" and seq: "grants_seq st' = grants_seq st"
    and keep: "\<And>r. r \<in> set (grants st) \<Longrightarrow> g_id (f r) = g_id r \<and> g_scope (f r) = g_scope r \<and> g_tool (f r) = g_tool r"
    and wf: "\<And>r. r \<in> set (grants st) \<Longrightarrow> grant_wf (f r) \<and> int (paid (g_id r) st') \<le> g_consumed (f r)"
    and ledger: "\<And>x. x \<in> set (dispatches st') \<Longrightarrow> x_decision x = Allow \<Longrightarrow> x \<in> set (dispatches st) \<or>
      (\<exists>r \<in> set (grants st). x_grant x = Some (g_id r) \<and> g_scope r = x_scope x \<and> g_tool r = x_tool x)"
  shows "grant_inv st'"
proof -
  have "map g_id (grants st') = map g_id (grants st)" using keep by (simp add: gs)
  moreover have "ledger_ok st'" unfolding ledger_ok_def
  proof (intro ballI impI)
    fix x assume "x \<in> set (dispatches st')" "x_decision x = Allow"
    then obtain r where "r \<in> set (grants st)" "x_grant x = Some (g_id r)" "g_scope r = x_scope x" "g_tool r = x_tool x"
      using ledger assms(1) by (fastforce simp: grant_inv_def ledger_ok_def)
    then show "\<exists>r \<in> set (grants st'). x_grant x = Some (g_id r) \<and> g_scope r = x_scope x \<and> g_tool r = x_tool x"
      using keep by (auto simp: gs intro!: bexI [of _ r])
  qed
  moreover have "\<forall>r \<in> set (grants st'). 1 \<le> g_id r \<and> g_id r \<le> grants_seq st' \<and> grant_wf r \<and>
      int (paid (g_id r) st') \<le> g_consumed r"
    using assms(1) keep wf by (auto simp: grant_inv_def gs seq)
  ultimately show ?thesis using assms(1) by (simp add: grant_inv_def)
qed

lemma revoke_inv [inv_intros]:
  assumes "grant_inv st" "in_range now"
  shows "grant_inv (snd (revoke now n st))"
proof (rule grant_inv_map [OF assms(1)])
  show "grants (snd (revoke now n st)) =
      map (\<lambda>r. if g_id r = n \<and> g_revoked_at r = None then r\<lparr>g_revoked_at := Some (iso_utc now)\<rparr> else r) (grants st)"
    by (simp add: revoke_def upd_where_def)
next
  fix r assume r: "r \<in> set (grants st)"
  then have "grant_wf (r\<lparr>g_revoked_at := Some (iso_utc now)\<rparr>)"
    using assms by (cases "g_quota r") (auto simp: grant_inv_def grant_wf_def)
  then show "grant_wf (if g_id r = n \<and> g_revoked_at r = None then r\<lparr>g_revoked_at := Some (iso_utc now)\<rparr> else r) \<and>
      int (paid (g_id r) (snd (revoke now n st)))
        \<le> g_consumed (if g_id r = n \<and> g_revoked_at r = None then r\<lparr>g_revoked_at := Some (iso_utc now)\<rparr> else r)"
    using assms r by (auto simp: grant_inv_def)
qed (auto simp: revoke_def)

lemma pay_inv [inv_intros]:
  assumes inv: "grant_inv st" and r: "r \<in> set (grants st)" "\<not> spent r"
  shows "grant_inv (snd (pay now rec (g_scope r) (g_tool r) r st))"
proof (rule grant_inv_map [OF inv])
  let ?st = "snd (pay now rec (g_scope r) (g_tool r) r st)"
  show "grants ?st = map (\<lambda>r'. if g_id r' = g_id r then r'\<lparr>g_consumed := g_consumed r' + 1\<rparr> else r') (grants st)"
    by (simp add: pay_def consume_def record_dispatch_def upd_where_def Let_def)
  fix r' assume r': "r' \<in> set (grants st)"
  have "g_id r' = g_id r \<Longrightarrow> r' = r" using grant_row_eq inv r r' by blast
  moreover have "grant_wf r" "grant_wf r'" "int (paid (g_id r') st) \<le> g_consumed r'"
    using inv r r' by (auto simp: grant_inv_def)
  ultimately show "grant_wf (if g_id r' = g_id r then r'\<lparr>g_consumed := g_consumed r' + 1\<rparr> else r') \<and>
      int (paid (g_id r') ?st) \<le> g_consumed (if g_id r' = g_id r then r'\<lparr>g_consumed := g_consumed r' + 1\<rparr> else r')"
    using r(2) by (auto simp: grant_wf_def spent_def pay_def Let_def split: option.splits)
next
  fix x assume "x \<in> set (dispatches (snd (pay now rec (g_scope r) (g_tool r) r st)))" "x_decision x = Allow"
  then show "x \<in> set (dispatches st) \<or>
      (\<exists>r \<in> set (grants st). x_grant x = Some (g_id r) \<and> g_scope r = x_scope x \<and> g_tool r = x_tool x)"
    using r by (auto simp: pay_def Let_def consume_def record_dispatch_def split: if_splits)
qed (auto simp: pay_def consume_def record_dispatch_def Let_def)

lemma refuse_inv [inv_intros]:
  assumes "grant_inv st"
  shows "grant_inv (snd (refuse now rec scope tool why st))"
  by (rule grant_inv_map [OF assms, where f = id])
    (use assms in \<open>auto simp: refuse_def record_dispatch_def grant_inv_def paid_def split: if_splits\<close>)

lemma set_live [simp]:
  "set (live now scope st) = {r \<in> set (grants st). is_live now r \<and> (scope = None \<or> scope = Some (g_scope r))}"
  by (auto simp: live_def)

lemma set_candidates [simp]:
  "set (candidates scope tool st) = {r \<in> set (grants st). g_scope r = scope \<and> g_tool r = tool}"
  by (simp add: candidates_def)

end
