(* ===== verification/Grant_Safety.thy ===== *)
theory Grant_Safety
  imports Grant_Facts
begin

text \<open>
  The gate as a system of steps: what one check can do to the store, the step relation over every
  operation that writes the grant tables, its invariant, and what no sequence of steps can change of
  a grant.
\<close>

section \<open>One check\<close>

definition the_scope :: "string \<Rightarrow> string" where
  "the_scope scope = (if strip scope = [] then ''worker'' else strip scope)"

definition the_args :: "json \<Rightarrow> (string \<times> json) list" where
  "the_args input = (case input of JObj kvs \<Rightarrow> kvs | _ \<Rightarrow> [])"

lemma find_liveD:
  assumes "find P (live now (Some scope) st) = Some r"
  shows "r \<in> set (grants st) \<and> is_live now r \<and> g_scope r = scope \<and> P r"
  using find_keyD [OF assms] by auto

definition payer :: "nat \<Rightarrow> string \<Rightarrow> string \<Rightarrow> (string \<times> json) list \<Rightarrow> 'why grant_store \<Rightarrow> grant_row option" where
  "payer now scope tool args st =
     (let rows = live now (Some scope) st in
      find (\<lambda>r. \<not> spent r \<and> predicate_matches (g_predicate r) args)
        (if bounded_for tool rows \<noteq> [] then bounded_for tool rows else broad_for tool rows))"

lemma payerD:
  assumes "payer now scope tool args st = Some r"
  shows "r \<in> set (grants st) \<and> is_live now r \<and> g_scope r = scope \<and> g_tool r = tool \<and> \<not> spent r \<and>
    predicate_matches (g_predicate r) args"
  using find_keyD [OF assms [unfolded payer_def Let_def]]
  by (auto simp: bounded_for_def broad_for_def payer_row_def split: if_splits)

lemma decide_tier_payer:
  "decide_tier durable now rec tier scope tool args st = (case payer now scope tool args st of
     Some r \<Rightarrow> pay now rec scope tool r st
   | None \<Rightarrow> refuse now rec scope tool (reason (fst (decide_tier durable now rec tier scope tool args st))) st)"
  by (cases "payer now scope tool args st")
    (simp_all add: decide_tier_def payer_def Let_def refuse_def split del: if_split)

lemma check_grants_cases:
  assumes "check_grants durable ip6 now rec scope tool input dest (Some st) = Inr (d, db)"
  obtains (silent) "db = Some st" "grant_id d = None"
  | (paid) r st' where "db = Some st'" "r \<in> set (grants st)" "is_live now r" "\<not> spent r"
      "g_scope r = the_scope scope" "g_tool r = normalize_tool_name tool"
      "(d, st') = pay now rec (g_scope r) (g_tool r) r st"
  | (refused) why st' where "db = Some st'" "(d, st') = refuse now rec (the_scope scope) (normalize_tool_name tool) why st"
proof -
  let ?s = "the_scope scope" and ?t = "normalize_tool_name tool" and ?a = "the_args input"
  consider "db = Some st" "grant_id d = None"
    | host st' where "decide_destination ip6 now rec ?s ?t host st = Inr (d, st')" "db = Some st'"
    | tier st' where "decide_tier durable now rec tier ?s ?t ?a st = (d, st')" "db = Some st'"
    using assms unfolding check_grants_def Let_def the_scope_def [symmetric] the_args_def [symmetric]
    by (auto simp: map_sum_Inr split: if_split_asm option.splits)
  then show thesis
  proof cases
    case 1 then show thesis by (rule silent)
  next
    case 2
    obtain h where h: "normalize_destination ip6 host = Inr h"
      using 2(1) by (cases "normalize_destination ip6 host") (simp_all add: decide_destination_def)
    show thesis
    proof (cases "find (\<lambda>r. g_tool r = ?t \<and> destination_covers (g_destination r) h \<and> \<not> spent r) (live now (Some ?s) st)")
      case None
      then have "refuse now rec ?s ?t (reason d) st = (d, st')" using 2(1) h
        by (auto simp: decide_destination_def refuse_def)
      then show thesis by (rule refused [OF 2(2) sym])
    next
      case (Some r)
      from find_liveD [OF this] show thesis using 2 h Some paid [of st' r] by (auto simp: decide_destination_def)
    qed
  next
    case 3
    show thesis
    proof (cases "payer now ?s ?t ?a st")
      case None
      then show thesis using 3 refused decide_tier_payer by (metis option.case(1))
    next
      case (Some r)
      from payerD [OF this] show thesis using 3 Some paid [of st' r] decide_tier_payer [of durable now rec tier ?s ?t ?a st] by auto
    qed
  qed
qed

lemma check_grants_inv [inv_intros]:
  assumes "grant_inv st" "check_grants durable ip6 now rec scope tool input dest (Some st) = Inr (d, Some st')"
  shows "grant_inv st'"
  using assms(2)
proof (cases rule: check_grants_cases)
  case (paid r s)
  then show ?thesis using pay_inv [OF assms(1) paid(2,4), of now rec] by (metis option.inject snd_conv)
next
  case (refused why s)
  then show ?thesis using refuse_inv [OF assms(1)] by (metis option.inject snd_conv)
qed (use assms in simp)

lemma sync_specs_inv [inv_intros]:
  assumes "grant_inv st" "sync_specs ip6 now task scope specs n st = (res, st')"
  shows "grant_inv st'"
  using assms
proof (induction specs arbitrary: n st)
  case (Cons s specs)
  show ?case
  proof (cases "sync_spec ip6 now task scope s st")
    case (Inl e)
    then show ?thesis using Cons.prems by simp
  next
    case (Inr p)
    obtain b s1 where p: "p = (b, s1)" by (cases p)
    have "grant_inv s1" using Inr p Cons.prems(1) mint_inv
      by (auto simp: sync_spec_def Let_def map_sum_Inr split: if_split_asm)
    then show ?thesis using Cons Inr p by simp
  qed
qed simp

lemma withdraw_inv [inv_intros]:
  "grant_inv st \<Longrightarrow> in_range now \<Longrightarrow> grant_inv (fold (\<lambda>r s. snd (revoke now (g_id r) s)) rows st)"
  by (induction rows arbitrary: st) (simp_all add: revoke_inv)

lemma sync_task_grants_inv [inv_intros]:
  assumes "grant_inv st" "in_range now" "sync_task_grants ip6 now task scope block st = (res, st')"
  shows "grant_inv st'"
proof (cases "\<exists>specs. validate_task_grants block = Inr (specs, [])")
  case True
  then obtain specs where v: "validate_task_grants block = Inr (specs, [])" by blast
  obtain r s where run: "sync_specs ip6 now task scope specs 0 st = (r, s)" by (cases "sync_specs ip6 now task scope specs 0 st")
  have "grant_inv s" using sync_specs_inv [OF assms(1) run] .
  then show ?thesis using assms v run withdraw_inv by (cases r) (auto simp: sync_task_grants_def)
qed (use assms in \<open>auto simp: sync_task_grants_def split: sum.splits prod.splits if_split_asm\<close>)

section \<open>Steps\<close>

inductive grant_step :: "(string \<Rightarrow> string option) \<Rightarrow> (string \<Rightarrow> string option) \<Rightarrow> gstore \<Rightarrow> gstore \<Rightarrow> bool"
  for durable ip6 where
  step_mint: "in_range now \<Longrightarrow> mint ip6 now a st = Inr (r, st') \<Longrightarrow> grant_step durable ip6 st st'"
| step_create: "in_range now \<Longrightarrow> grant_create ip6 now human kvs st = (res, st') \<Longrightarrow> grant_step durable ip6 st st'"
| step_revoke: "in_range now \<Longrightarrow> grant_revoke now human v st = (res, st') \<Longrightarrow> grant_step durable ip6 st st'"
| step_check: "in_range now \<Longrightarrow> check_grants durable ip6 now rec scope tool input dest (Some st) = Inr (d, Some st') \<Longrightarrow>
    grant_step durable ip6 st st'"
| step_hook: "in_range now \<Longrightarrow> policy_hook durable ip6 now scope cur tool input (Some st) = (h, Some st') \<Longrightarrow>
    grant_step durable ip6 st st'"
| step_sync: "in_range now \<Longrightarrow> sync_task_grants ip6 now task scope block st = (out, st') \<Longrightarrow> grant_step durable ip6 st st'"

definition new_grants :: "gstore \<Rightarrow> bool" where
  "new_grants st \<longleftrightarrow> st = empty_grants"

lemma policy_hook_store:
  assumes "policy_hook durable ip6 now scope cur tool input (Some st) = (h, Some st')"
  shows "st' = st \<or> (\<exists>scope' input' d. check_grants durable ip6 now True scope' tool input' None (Some st) = Inr (d, Some st'))"
  using assms by (auto simp: policy_hook_def Let_def split: if_split_asm sum.splits prod.splits)

lemma grant_revoke_store:
  "grant_revoke now human v st = (res, st') \<Longrightarrow> st' = st \<or> (\<exists>n. st' = snd (revoke now n st))"
  by (cases "int_of v") (auto simp: grant_revoke_def case_prod_beta split: if_split_asm)

lemma grant_create_store:
  "grant_create ip6 now human kvs st = (res, st') \<Longrightarrow> st' = st \<or> (\<exists>r. mint ip6 now (create_args kvs) st = Inr (r, st'))"
  by (auto simp: grant_create_def split: if_split_asm sum.splits prod.splits)

lemma grant_step_inv: "grant_step durable ip6 st st' \<Longrightarrow> grant_inv st \<Longrightarrow> grant_inv st'"
proof (induction rule: grant_step.induct)
  case (step_create now human kvs st res st')
  then show ?case using grant_create_store mint_inv by metis
next
  case (step_revoke now human v st res st')
  then show ?case using grant_revoke_store revoke_inv by metis
next
  case (step_hook now scope cur tool input st h st')
  then show ?case using policy_hook_store check_grants_inv by metis
qed (auto intro: mint_inv check_grants_inv sync_task_grants_inv)

interpretation gate: invariant_system new_grants "grant_step durable ip6" grant_inv for durable ip6
  by unfold_locales (auto simp: new_grants_def grant_inv_empty intro: grant_step_inv)

section \<open>What no step changes\<close>

text \<open>
  \<open>carries r r'\<close>: the row \<open>r'\<close> is \<open>r\<close> later on: its identity, its bounds and its expiry are the same, a
  revocation stands, and consumption only grows.
\<close>

definition carries :: "grant_row \<Rightarrow> grant_row \<Rightarrow> bool" where
  "carries r r' \<longleftrightarrow> g_id r' = g_id r \<and> g_scope r' = g_scope r \<and> g_tool r' = g_tool r \<and> g_predicate r' = g_predicate r \<and>
     g_quota r' = g_quota r \<and> g_expires_at r' = g_expires_at r \<and> g_destination r' = g_destination r \<and>
     g_minted_by r' = g_minted_by r \<and> g_consumed r \<le> g_consumed r' \<and>
     (g_revoked_at r \<noteq> None \<longrightarrow> g_revoked_at r' = g_revoked_at r)"

lemma carries_refl [simp]: "carries r r"
  by (simp add: carries_def)

lemma carries_trans: "carries a b \<Longrightarrow> carries b c \<Longrightarrow> carries a c"
  by (auto simp: carries_def)

definition kept :: "'why grant_store \<Rightarrow> 'why grant_store \<Rightarrow> bool" where
  "kept st st' \<longleftrightarrow> (\<forall>r \<in> set (grants st). \<exists>r' \<in> set (grants st'). carries r r')"

lemma kept_refl [simp]: "kept st st"
  by (auto simp: kept_def intro: carries_refl)

lemma kept_trans: "kept a b \<Longrightarrow> kept b c \<Longrightarrow> kept a c"
  unfolding kept_def using carries_trans by blast

lemma kept_mint: "mint ip6 now a st = Inr (r, st') \<Longrightarrow> kept st st'"
  by (auto simp: mint_def map_sum_Inr kept_def intro: carries_refl)

lemma kept_map: "grants st' = map f (grants st) \<Longrightarrow> (\<And>r. carries r (f r)) \<Longrightarrow> kept st st'"
  by (auto simp: kept_def)

lemma kept_revoke: "kept st (snd (revoke now n st))"
  by (rule kept_map [where f = "\<lambda>r. if g_id r = n \<and> g_revoked_at r = None then r\<lparr>g_revoked_at := Some (iso_utc now)\<rparr> else r"])
    (auto simp: revoke_def upd_where_def carries_def)

lemma kept_pay: "kept st (snd (pay now rec scope tool r st))"
  by (rule kept_map [where f = "\<lambda>r'. if g_id r' = g_id r then r'\<lparr>g_consumed := g_consumed r' + 1\<rparr> else r'"])
    (auto simp: pay_def consume_def record_dispatch_def upd_where_def carries_def Let_def)

lemma kept_refuse: "kept st (snd (refuse now rec scope tool why st))"
  by (rule kept_map [where f = id]) (auto simp: refuse_def record_dispatch_def)

lemma kept_check:
  assumes "check_grants durable ip6 now rec scope tool input dest (Some st) = Inr (d, Some st')"
  shows "kept st st'"
  using assms
proof (cases rule: check_grants_cases)
  case (paid r s)
  then show ?thesis using kept_pay by (metis option.inject snd_conv)
next
  case (refused why s)
  then show ?thesis using kept_refuse by (metis option.inject snd_conv)
qed simp

lemma kept_sync_specs: "sync_specs ip6 now task scope specs n st = (res, st') \<Longrightarrow> kept st st'"
proof (induction specs arbitrary: n st)
  case (Cons s specs)
  show ?case
  proof (cases "sync_spec ip6 now task scope s st")
    case (Inr p)
    obtain b s1 where p: "p = (b, s1)" by (cases p)
    have "kept st s1" using Inr p kept_mint
      by (auto simp: sync_spec_def Let_def map_sum_Inr split: if_split_asm)
    moreover have "kept s1 st'" using Cons Inr p by simp
    ultimately show ?thesis by (rule kept_trans)
  qed (use Cons in simp)
qed simp

lemma kept_withdraw: "kept st (fold (\<lambda>r s. snd (revoke now (g_id r) s)) rows st)"
  by (induction rows arbitrary: st) (auto intro: kept_trans kept_revoke)

lemma kept_sync: "sync_task_grants ip6 now task scope block st = (res, st') \<Longrightarrow> kept st st'"
  unfolding sync_task_grants_def using kept_sync_specs kept_withdraw kept_trans
  by (auto split: sum.splits prod.splits if_split_asm) blast+

lemma kept_step: "grant_step durable ip6 st st' \<Longrightarrow> kept st st'"
proof (induction rule: grant_step.induct)
  case (step_create now human kvs st res st')
  then show ?case using grant_create_store kept_mint kept_refl by metis
next
  case (step_revoke now human v st res st')
  then show ?case using grant_revoke_store kept_revoke kept_refl by metis
next
  case (step_hook now scope cur tool input st h st')
  then show ?case using policy_hook_store kept_check kept_refl by metis
qed (auto intro: kept_mint kept_check kept_sync)

lemma kept_steps: "(grant_step durable ip6)\<^sup>*\<^sup>* st st' \<Longrightarrow> kept st st'"
  by (induction rule: rtranclp_induct) (auto intro: kept_trans kept_step)

end
