(* ===== verification/Grant_Theorems.thy ===== *)
theory Grant_Theorems
  imports Grant_Safety
begin

text \<open>
  The properties of the authority gate, with a concrete store on which they are exercised.
\<close>

section \<open>A concrete store\<close>

definition G0 :: nat where
  "G0 = 63900000000000000"

lemma G0_range [simp]: "in_range G0" "in_range (G0 + k * day_us) \<longleftrightarrow> G0 + k * day_us < 315537897600000000"
  by (simp_all add: G0_def)

definition mail_grant :: "nat \<Rightarrow> string \<Rightarrow> int option \<Rightarrow> string option \<Rightarrow> grant_row" where
  "mail_grant n pred quota dest =
     \<lparr>g_id = n, g_scope = ''worker:mail'', g_tool = ''email_send'', g_predicate = pred, g_quota = quota, g_consumed = 0,
      g_issued_by = ''alan'', g_minted_by = ''human'', g_note = None, g_issued_at = iso_utc G0,
      g_expires_at = iso_utc (G0 + 86400000000), g_revoked_at = None, g_destination = dest\<rparr>"

definition mail_args :: mint_args where
  "mail_args = \<lparr>m_scope = ''worker:mail'', m_tool = ''email_send'', m_predicate = JNull, m_quota = JInt 2,
     m_issued_by = ''alan'', m_expires = Time (utc (G0 + 86400000000)), m_note = [], m_minted_by = ''human'',
     m_destination = None\<rparr>"

definition mail_store :: gstore where
  "mail_store = empty_grants\<lparr>grants := [mail_grant 1 [] (Some 2) None], grants_seq := 1\<rparr>"

lemma no_space [simp]: "strip ''worker:mail'' = ''worker:mail''" "strip ''alan'' = ''alan''" "strip ''human'' = ''human''"
  by (simp_all add: strip_id is_space_def)

lemma mail_mint: "mint ip6 G0 mail_args empty_grants = Inr (mail_grant 1 [] (Some 2) None, mail_store)"
  by (simp add: mint_def mint_row_def mail_args_def normalize_tool_name_def startswith_def GRANT_MINT_TOOL_def
      is_worker_identity_def scope_head_def NON_INTERACTIVE_PREFIXES_def mint_quota_def int_of_def py_int_def
      validate_predicate_def utc_of_def utc_def instant_def mint_destination_def mail_grant_def mail_store_def
      empty_grants_def G0_def)

lemma mail_reach: "reach new_grants (grant_step durable ip6) mail_store"
proof (rule reach_step [of _ _ empty_grants])
  show "reach new_grants (grant_step durable ip6) empty_grants" by (rule reach_start) (simp add: new_grants_def)
  show "grant_step durable ip6 empty_grants mail_store" by (rule step_mint [OF _ mail_mint]) (simp add: G0_def)
qed

lemma mail_unattended [simp]:
  "the_scope ''worker:mail'' = ''worker:mail''" "\<not> is_interactive_scope ''worker:mail''"
  "normalize_tool_name ''email_send'' = ''email_send''" "''email_send'' \<noteq> GRANT_MINT_TOOL"
  "effective_tier durable ''email_send'' input = 2"
  by (simp_all add: the_scope_def is_interactive_scope_def INTERACTIVE_SCOPE_def startswith_def scope_head_def
      NON_INTERACTIVE_PREFIXES_def normalize_tool_name_def GRANT_MINT_TOOL_def effective_tier_def tool_tier_def
      TIER3_TOOLS_def TIER2_TOOLS_def BASH_TOOL_def SCHEDULE_STATE_TOOL_def)

definition mail_paid :: "decision \<times> gstore" where
  "mail_paid = pay G0 True ''worker:mail'' ''email_send'' (mail_grant 1 [] (Some 2) None) mail_store"

lemma mail_check:
  "check_grants (\<lambda>_. None) (\<lambda>_. None) G0 True ''worker:mail'' ''email_send'' (JObj []) None (Some mail_store) =
     Inr (fst mail_paid, Some (snd mail_paid))"
proof -
  have live: "live G0 (Some ''worker:mail'') mail_store = [mail_grant 1 [] (Some 2) None]"
    by (simp add: live_def mail_store_def mail_grant_def is_live_def G0_def)
  show ?thesis
    by (simp add: check_grants_def the_scope_def [symmetric] Let_def decide_tier_def live bounded_for_def broad_for_def
        payer_row_def bounded_row_def mail_grant_def spent_def predicate_matches_def mail_paid_def case_prod_beta)
qed

section \<open>Properties\<close>

text \<open>
  C10. Authority is never self-issued: in every reachable store each grant names an issuer and a minter
  that are not worker identities, authorises a named tool other than the minting tool, carries a
  predicate in normal form, and has an expiry that is a UTC stamp; grant ids are unique.
\<close>

theorem grants_well_formed:
  assumes "reach new_grants (grant_step durable ip6) st"
  shows "distinct (map g_id (grants st)) \<and>
    (\<forall>r \<in> set (grants st). g_issued_by r \<noteq> [] \<and> \<not> is_worker_identity (g_issued_by r) \<and>
       \<not> is_worker_identity (g_minted_by r) \<and> g_scope r \<noteq> [] \<and> g_tool r \<noteq> [] \<and> g_tool r \<noteq> GRANT_MINT_TOOL \<and>
       validate_predicate (JStr (g_predicate r)) = Inr (g_predicate r) \<and>
       (\<exists>n. in_range n \<and> g_expires_at r = iso_utc n))"
  using gate.reach_inv [OF assms] validate_normal by (simp add: grant_inv_def grant_wf_def)

theorem grants_well_formed_witness:
  "list_all (\<lambda>r. \<not> is_worker_identity (g_minted_by r)) (grants mail_store)"
  using grants_well_formed [OF mail_reach] by (simp add: list_all_iff)

text \<open>
  C11. Quotas hold: in every reachable store the dispatch ledger shows no more allowed calls for a grant
  than its quota, and every allowed call in the ledger names a grant of that very scope and tool.
\<close>

theorem grant_quota_bound:
  assumes "reach new_grants (grant_step durable ip6) st"
  shows "(\<forall>r \<in> set (grants st). \<forall>q. g_quota r = Some q \<longrightarrow> int (paid (g_id r) st) \<le> g_consumed r \<and> g_consumed r \<le> q) \<and>
    (\<forall>x \<in> set (dispatches st). x_decision x = Allow \<longrightarrow>
      (\<exists>r \<in> set (grants st). x_grant x = Some (g_id r) \<and> g_scope r = x_scope x \<and> g_tool r = x_tool x))"
  using gate.reach_inv [OF assms] by (fastforce simp: grant_inv_def grant_wf_def ledger_ok_def)

theorem grant_quota_bound_witness:
  "int (paid 1 (snd mail_paid)) \<le> 2"
proof -
  have "reach new_grants (grant_step (\<lambda>_. None) (\<lambda>_. None)) (snd mail_paid)"
    by (rule reach_step [OF mail_reach step_check [OF G0_range(1) mail_check]])
  from grant_quota_bound [OF this] show ?thesis
    by (simp add: mail_paid_def pay_def mail_store_def mail_grant_def consume_def record_dispatch_def empty_grants_def Let_def)
qed

lemma check_grants_decision:
  assumes "normalize_tool_name tool \<noteq> GRANT_MINT_TOOL" "\<not> is_interactive_scope (the_scope scope)"
    "effective_tier durable (normalize_tool_name tool) (JObj (the_args input)) \<noteq> 1"
  shows "\<exists>d st'. check_grants durable ip6 now True scope tool input None (Some st) = Inr (d, Some st') \<and>
    (allowed d \<longleftrightarrow> (\<exists>r \<in> set (grants st). is_live now r \<and> g_scope r = the_scope scope \<and>
       payer_row (normalize_tool_name tool) r \<and> \<not> spent r \<and> predicate_matches (g_predicate r) (the_args input) \<and>
       (bounded_row r \<or> (\<forall>b \<in> set (grants st). is_live now b \<and> g_scope b = the_scope scope \<and>
          payer_row (normalize_tool_name tool) b \<longrightarrow> \<not> bounded_row b)))) \<and>
    (allowed d \<longleftrightarrow> grant_id d \<noteq> None) \<and>
    grants st' = upd_where (\<lambda>r. grant_id d = Some (g_id r)) (\<lambda>r. r\<lparr>g_consumed := g_consumed r + 1\<rparr>) (grants st) \<and>
    (\<exists>x. dispatches st' = dispatches st @ [x] \<and> x_grant x = grant_id d \<and> (x_decision x = Allow \<longleftrightarrow> allowed d))"
proof -
  let ?s = "the_scope scope" and ?t = "normalize_tool_name tool" and ?a = "the_args input"
  let ?rows = "live now (Some ?s) st"
  let ?pool = "if bounded_for ?t ?rows \<noteq> [] then bounded_for ?t ?rows else broad_for ?t ?rows"
  obtain tier where run: "check_grants durable ip6 now True scope tool input None (Some st) =
      map_sum id (\<lambda>(d, st'). (d, Some st')) (Inr (decide_tier durable now True tier ?s ?t ?a st))"
    using assms by (simp add: check_grants_def the_scope_def [symmetric] the_args_def [symmetric] Let_def)
  have pool: "r \<in> set ?pool \<longleftrightarrow> r \<in> set (grants st) \<and> is_live now r \<and> g_scope r = ?s \<and> payer_row ?t r \<and>
      (bounded_row r \<or> (\<forall>b \<in> set (grants st). is_live now b \<and> g_scope b = ?s \<and> payer_row ?t b \<longrightarrow> \<not> bounded_row b))" for r
    by (auto simp: bounded_for_def broad_for_def filter_empty_conv)
  show ?thesis
  proof (cases "payer now ?s ?t ?a st")
    case None
    then have "\<forall>r \<in> set ?pool. spent r \<or> \<not> predicate_matches (g_predicate r) ?a"
      unfolding payer_def Let_def find_None_iff by blast
    then have no: "\<not> (\<exists>r \<in> set (grants st). is_live now r \<and> g_scope r = ?s \<and> payer_row ?t r \<and> \<not> spent r \<and>
        predicate_matches (g_predicate r) ?a \<and> (bounded_row r \<or> (\<forall>b \<in> set (grants st). is_live now b \<and>
          g_scope b = ?s \<and> payer_row ?t b \<longrightarrow> \<not> bounded_row b)))"
      using pool by blast
    obtain why where "decide_tier durable now True tier ?s ?t ?a st = refuse now True ?s ?t why st"
      using decide_tier_payer None by (metis option.case(1))
    then show ?thesis using run unfolding no [THEN Eq_FalseI]
      by (simp add: refuse_def record_dispatch_def upd_where_none)
  next
    case (Some r)
    then have "r \<in> set ?pool" "\<not> spent r" "predicate_matches (g_predicate r) ?a"
      unfolding payer_def Let_def using find_keyD by fastforce+
    then have yes: "\<exists>r \<in> set (grants st). is_live now r \<and> g_scope r = ?s \<and> payer_row ?t r \<and> \<not> spent r \<and>
        predicate_matches (g_predicate r) ?a \<and> (bounded_row r \<or> (\<forall>b \<in> set (grants st). is_live now b \<and>
          g_scope b = ?s \<and> payer_row ?t b \<longrightarrow> \<not> bounded_row b))"
      using pool by blast
    have "decide_tier durable now True tier ?s ?t ?a st = pay now True ?s ?t r st"
      using decide_tier_payer Some by (metis option.case(2))
    then show ?thesis using run unfolding yes [THEN Eq_TrueI]
      by (simp add: pay_def record_dispatch_def consume_def Let_def eq_commute [of "g_id r"])
  qed
qed

text \<open>
  C12. Most-specific-wins: an unattended call above tier 1 is allowed exactly when some live, unspent grant
  for its scope and tool, off the destination axis, has a predicate the call satisfies, and that grant
  is bounded by a predicate unless no live grant of the pair is. The grant that pays is charged
  once, a refusal charges nothing, and either way one ledger row is written.
\<close>

theorem check_grants_most_specific:
  assumes "normalize_tool_name tool \<noteq> GRANT_MINT_TOOL" "\<not> is_interactive_scope (the_scope scope)"
    "effective_tier durable (normalize_tool_name tool) (JObj (the_args input)) \<noteq> 1"
  shows "\<exists>d st'. check_grants durable ip6 now True scope tool input None (Some st) = Inr (d, Some st') \<and>
    (allowed d \<longleftrightarrow> (\<exists>r \<in> set (grants st). is_live now r \<and> g_scope r = the_scope scope \<and>
       payer_row (normalize_tool_name tool) r \<and> \<not> spent r \<and> predicate_matches (g_predicate r) (the_args input) \<and>
       (bounded_row r \<or> (\<forall>b \<in> set (grants st). is_live now b \<and> g_scope b = the_scope scope \<and>
          payer_row (normalize_tool_name tool) b \<longrightarrow> \<not> bounded_row b)))) \<and>
    (allowed d \<longleftrightarrow> grant_id d \<noteq> None) \<and>
    grants st' = upd_where (\<lambda>r. grant_id d = Some (g_id r)) (\<lambda>r. r\<lparr>g_consumed := g_consumed r + 1\<rparr>) (grants st) \<and>
    (\<exists>x. dispatches st' = dispatches st @ [x] \<and> x_grant x = grant_id d \<and> (x_decision x = Allow \<longleftrightarrow> allowed d))"
  by (rule check_grants_decision [OF assms])

theorem check_grants_most_specific_witness:
  "\<exists>d st'. check_grants (\<lambda>_. None) (\<lambda>_. None) G0 True ''worker:mail'' ''email_send'' (JObj []) None (Some mail_store) =
     Inr (d, Some st') \<and> allowed d \<and> grant_id d \<noteq> None"
  using check_grants_most_specific [of "''email_send''" "''worker:mail''" "\<lambda>_. None" "JObj []" "\<lambda>_. None" G0 mail_store]
    mail_check by (auto simp: mail_paid_def pay_def)

text \<open>
  C13. A dead grant stays dead: whatever happens to the store after a grant was seen, a call it pays for
  later finds it not revoked when it was seen, not past its expiry at the time of the call, and not
  spent. No operation moves an expiry, lifts a revocation or gives quota back.
\<close>

theorem dead_grant_never_pays:
  assumes "reach new_grants (grant_step durable ip6) st" "(grant_step durable ip6)\<^sup>*\<^sup>* st st'" "r \<in> set (grants st)"
    "check_grants durable ip6 now rec scope tool input dest (Some st') = Inr (d, db)" "grant_id d = Some (g_id r)"
  shows "g_revoked_at r = None \<and> text_less (iso_utc now) (g_expires_at r) \<and> \<not> spent r"
proof -
  have inv: "grant_inv st'" using gate.reach_inv gate.reach_steps assms(1,2) by blast
  obtain r' where r': "r' \<in> set (grants st')" "carries r r'"
    using kept_steps [OF assms(2)] assms(3) by (auto simp: kept_def)
  obtain q where q: "q \<in> set (grants st')" "is_live now q" "\<not> spent q" "g_id q = g_id r"
    using assms(4,5) by (cases rule: check_grants_cases) (auto simp: pay_def refuse_def)
  have "q = r'" using grant_row_eq [OF inv q(1) r'(1)] q(4) r'(2) by (simp add: carries_def)
  then show ?thesis using q r'(2) by (auto simp: carries_def is_live_def spent_def split: option.splits)
qed

theorem dead_grant_never_pays_witness:
  "text_less (iso_utc G0) (g_expires_at (mail_grant 1 [] (Some 2) None))"
  using dead_grant_never_pays [OF mail_reach rtranclp.rtrancl_refl _ mail_check]
  by (simp add: mail_store_def mail_paid_def pay_def)

text \<open>
  A destination covers a host exactly by whole domain labels: the host's labels end with the
  destination's. A name that merely ends in the same letters is not covered.
\<close>

theorem destination_covers_labels:
  "destination_covers entry host \<longleftrightarrow>
     (let e = lower (strip (case entry of None \<Rightarrow> [] | Some x \<Rightarrow> x)); h = lower (strip host)
      in e \<noteq> [] \<and> h \<noteq> [] \<and> (\<exists>ls. split_on (CHR ''.'') h = ls @ split_on (CHR ''.'') e))"
  by (simp add: destination_covers_def Let_def labels_suffix [symmetric] endswith_iff)

text \<open>
  Egress is non-transferable: an unattended call that names a host is paid only by a live, unspent grant
  of its scope and tool that carries a destination covering that very host; a grant without a
  destination never pays for it.
\<close>

theorem egress_needs_destination:
  assumes "check_grants durable ip6 now rec scope tool input (Some host) (Some st) = Inr (d, db)" "allowed d"
    "normalize_tool_name tool \<noteq> GRANT_MINT_TOOL" "\<not> is_interactive_scope (the_scope scope)"
  shows "\<exists>r \<in> set (grants st). \<exists>e h. grant_id d = Some (g_id r) \<and> is_live now r \<and> \<not> spent r \<and>
    g_scope r = the_scope scope \<and> g_tool r = normalize_tool_name tool \<and>
    normalize_destination ip6 host = Inr h \<and> g_destination r = Some e \<and> destination_covers (Some e) h"
proof -
  let ?s = "the_scope scope" and ?t = "normalize_tool_name tool"
  obtain st' where run: "decide_destination ip6 now rec ?s ?t host st = Inr (d, st')"
    using assms by (auto simp: check_grants_def the_scope_def [symmetric] Let_def map_sum_Inr split: if_split_asm)
  then obtain h where h: "normalize_destination ip6 host = Inr h"
    by (cases "normalize_destination ip6 host") (simp_all add: decide_destination_def)
  obtain r where r: "find (\<lambda>r. g_tool r = ?t \<and> destination_covers (g_destination r) h \<and> \<not> spent r) (live now (Some ?s) st) = Some r"
    using run h assms(2)
    by (cases "find (\<lambda>r. g_tool r = ?t \<and> destination_covers (g_destination r) h \<and> \<not> spent r) (live now (Some ?s) st)")
      (auto simp: decide_destination_def refuse_def)
  note find_liveD [OF r]
  moreover have "grant_id d = Some (g_id r)" using run h r by (auto simp: decide_destination_def pay_def)
  moreover have "destination_covers None h = False" by (simp add: destination_covers_def lower_def)
  ultimately show ?thesis using h by (cases "g_destination r") auto
qed

definition web_store :: gstore where
  "web_store = empty_grants\<lparr>grants := [mail_grant 1 [] (Some 2) (Some ''example.com'')], grants_seq := 1\<rparr>"

lemma web_hosts:
  "normalize_destination (\<lambda>_. None) ''api.example.com'' = Inr ''api.example.com''"
  "destination_covers (Some ''example.com'') ''api.example.com''"
proof -
  have st: "strip ''api.example.com'' = ''api.example.com''" "strip ''example.com'' = ''example.com''"
    by (simp_all add: strip_id is_space_def)
  have lo: "lower ''api.example.com'' = ''api.example.com''" "lower ''example.com'' = ''example.com''"
    by (simp_all add: lower_def lower_char_def)
  show "normalize_destination (\<lambda>_. None) ''api.example.com'' = Inr ''api.example.com''"
    by (simp add: normalize_destination_def st lo ip_text_def startswith_def all_digits_def is_hostname_def is_label_def
        is_alnum_def)
  show "destination_covers (Some ''example.com'') ''api.example.com''"
    by (simp add: destination_covers_def st lo endswith_def)
qed

lemma web_check:
  "\<exists>st'. check_grants (\<lambda>_. None) (\<lambda>_. None) G0 True ''worker:mail'' ''email_send'' (JObj []) (Some ''api.example.com'')
     (Some web_store) = Inr (\<lparr>allowed = True, grant_id = Some 1, reason = Silent\<rparr>, Some st')"
proof -
  have live: "live G0 (Some ''worker:mail'') web_store = [mail_grant 1 [] (Some 2) (Some ''example.com'')]"
    by (simp add: live_def web_store_def mail_grant_def is_live_def G0_def)
  show ?thesis
    by (simp add: check_grants_def the_scope_def [symmetric] Let_def decide_destination_def live web_hosts mail_grant_def
        spent_def pay_def)
qed

theorem egress_needs_destination_witness:
  "list_ex (\<lambda>r. g_destination r \<noteq> None) (grants web_store)"
proof -
  obtain st' where "check_grants (\<lambda>_. None) (\<lambda>_. None) G0 True ''worker:mail'' ''email_send'' (JObj [])
      (Some ''api.example.com'') (Some web_store) = Inr (\<lparr>allowed = True, grant_id = Some 1, reason = Silent\<rparr>, Some st')"
    using web_check by blast
  from egress_needs_destination [OF this] show ?thesis by (auto simp: list_ex_iff)
qed

lemma egress_decision:
  assumes "normalize_tool_name tool \<noteq> GRANT_MINT_TOOL" "\<not> is_interactive_scope (the_scope scope)"
    "normalize_destination ip6 host = Inr h"
  obtains d st' where "check_grants durable ip6 now rec scope tool input (Some host) (Some st) = Inr (d, Some st')"
    "allowed d \<longleftrightarrow> (\<exists>r \<in> set (grants st). is_live now r \<and> g_scope r = the_scope scope \<and>
      g_tool r = normalize_tool_name tool \<and> destination_covers (g_destination r) h \<and> \<not> spent r)"
    "\<not> allowed d \<Longrightarrow> grants st' = grants st"
proof -
  let ?s = "the_scope scope" and ?t = "normalize_tool_name tool"
  let ?hit = "find (\<lambda>r. g_tool r = ?t \<and> destination_covers (g_destination r) h \<and> \<not> spent r) (live now (Some ?s) st)"
  have run: "check_grants durable ip6 now rec scope tool input (Some host) (Some st) =
      map_sum id (\<lambda>(d, st'). (d, Some st')) (decide_destination ip6 now rec ?s ?t host st)"
    using assms by (simp add: check_grants_def the_scope_def [symmetric] Let_def)
  show thesis
  proof (cases ?hit)
    case None
    then obtain why where "decide_destination ip6 now rec ?s ?t host st = Inr (refuse now rec ?s ?t why st)"
      by (simp add: decide_destination_def assms(3))
    then show thesis using None run that [of "fst (refuse now rec ?s ?t why st)" "snd (refuse now rec ?s ?t why st)"]
      by (auto simp: find_None_iff refuse_def record_dispatch_def)
  next
    case (Some r)
    then have "decide_destination ip6 now rec ?s ?t host st = Inr (pay now rec ?s ?t r st)"
      by (simp add: decide_destination_def assms(3))
    then show thesis using find_liveD [OF Some] run that [of "fst (pay now rec ?s ?t r st)" "snd (pay now rec ?s ?t r st)"]
      by (auto simp: pay_def)
  qed
qed

text \<open>
  The remedy an egress denial prints does not work: \<open>grant_create\<close> has no destination argument, so
  whatever it is called with after the denial, the same call is denied again.
\<close>

theorem grant_create_never_pays_egress:
  assumes "normalize_tool_name tool \<noteq> GRANT_MINT_TOOL" "\<not> is_interactive_scope (the_scope scope)"
    "check_grants durable ip6 now rec scope tool input (Some host) (Some st) = Inr (d, Some st1)" "\<not> allowed d"
    "grant_create ip6 now' human kvs st1 = (res, st2)"
  shows "\<exists>d2 st3. check_grants durable ip6 now rec scope tool input (Some host) (Some st2) = Inr (d2, Some st3) \<and> \<not> allowed d2"
proof -
  obtain h where h: "normalize_destination ip6 host = Inr h"
    using assms(1-3) by (cases "normalize_destination ip6 host")
      (simp_all add: check_grants_def the_scope_def [symmetric] Let_def decide_destination_def)
  let ?ok = "\<lambda>r. is_live now r \<and> g_scope r = the_scope scope \<and> g_tool r = normalize_tool_name tool \<and>
      destination_covers (g_destination r) h \<and> \<not> spent r"
  have none: "\<forall>r \<in> set (grants st). \<not> ?ok r" and same: "grants st1 = grants st"
    using egress_decision [OF assms(1,2) h, of durable now rec input st] assms(3,4) by (metis Inr_inject Pair_inject option.inject)+
  have "set (grants st2) \<subseteq> set (grants st1) \<union> {r. g_destination r = None}"
    using grant_create_store [OF assms(5)]
    by (auto simp: mint_def map_sum_Inr mint_destination_def create_args_def elim!: mint_rowE)
  moreover have "\<not> destination_covers None h" by (simp add: destination_covers_def lower_def)
  ultimately have "\<forall>r \<in> set (grants st2). \<not> ?ok r" using none same by auto
  then show ?thesis using egress_decision [OF assms(1,2) h, of durable now rec input st2] by metis
qed

theorem grant_create_never_pays_egress_witness:
  "\<exists>d2 st3. check_grants (\<lambda>_. None) (\<lambda>_. None) G0 False ''worker:mail'' ''email_send'' (JObj []) (Some ''api.example.com'')
     (Some mail_store) = Inr (d2, Some st3) \<and> \<not> allowed d2"
proof -
  have live: "live G0 (Some ''worker:mail'') mail_store = [mail_grant 1 [] (Some 2) None]"
    by (simp add: live_def mail_store_def mail_grant_def is_live_def G0_def)
  have "\<exists>d. check_grants (\<lambda>_. None) (\<lambda>_. None) G0 False ''worker:mail'' ''email_send'' (JObj []) (Some ''api.example.com'')
      (Some mail_store) = Inr (d, Some mail_store) \<and> \<not> allowed d"
    by (simp add: check_grants_def the_scope_def [symmetric] Let_def decide_destination_def live web_hosts mail_grant_def
        destination_covers_def lower_def refuse_def)
  then obtain d where "check_grants (\<lambda>_. None) (\<lambda>_. None) G0 False ''worker:mail'' ''email_send'' (JObj []) (Some ''api.example.com'')
      (Some mail_store) = Inr (d, Some mail_store)" "\<not> allowed d" by blast
  from grant_create_never_pays_egress [OF _ _ this, of G0 False "[]"] show ?thesis by (simp add: grant_create_def)
qed

text \<open>
  The predicate language round-trips: a predicate that \<open>validate_predicate\<close> accepts is stored in a
  normal form that it accepts unchanged and that reads back as the same length test, field, operator
  and number, so the gate interprets exactly what was approved.
\<close>

theorem validate_predicate_roundtrip:
  assumes "validate_predicate (JStr raw) = Inr s" "strip raw \<noteq> []"
  shows "validate_predicate (JStr s) = Inr s \<and> parse_predicate s = parse_predicate (strip raw) \<and> parse_predicate s \<noteq> None"
proof -
  obtain p where p: "parse_predicate (strip raw) = Some p" "p_len p = p_closer p" "s = predicate_text p"
    using assms by (auto simp: validate_predicate_def Let_def split: if_split_asm option.splits)
  then have "parse_predicate s = Some p" using predicate_text_reads_back parse_predicate_ok by blast
  then show ?thesis using p validate_normal validate_predicate_normal [OF assms(1)] by simp
qed

theorem validate_predicate_roundtrip_witness:
  "validate_predicate (JStr ''len(to)<=3'') = Inr ''len(to)<=3'' \<and> parse_predicate ''len(to)<=3'' \<noteq> None"
proof -
  have st: "strip ''len( to ) <= 3'' = ''len( to ) <= 3''" by (simp add: strip_id is_space_def)
  have "validate_predicate (JStr ''len( to ) <= 3'') = Inr ''len(to)<=3''"
    by (simp add: validate_predicate_def st parse_predicate_def parse_op_def startswith_def is_space_def is_ident_def
        is_digit_def predicate_text_def)
  then have "validate_predicate (JStr ''len(to)<=3'') = Inr ''len(to)<=3'' \<and>
      parse_predicate ''len(to)<=3'' = parse_predicate (strip ''len( to ) <= 3'') \<and> parse_predicate ''len(to)<=3'' \<noteq> None"
    by (rule validate_predicate_roundtrip) (simp add: st)
  then show ?thesis by blast
qed

lemma tiered_normal:
  "normalize_tool_name tool = BASH_TOOL \<or> normalize_tool_name tool \<in> set TIER3_TOOLS \<or> normalize_tool_name tool \<in> set TIER2_TOOLS \<Longrightarrow>
   normalize_tool_name (normalize_tool_name tool) = normalize_tool_name tool"
  by (auto simp: BASH_TOOL_def TIER3_TOOLS_def TIER2_TOOLS_def normalize_tool_name_def [of "_ # _"] startswith_def)

lemma effective_tier_normal:
  assumes "effective_tier durable tool input \<noteq> 1"
  shows "effective_tier durable (normalize_tool_name tool) input = effective_tier durable tool input"
proof -
  have "normalize_tool_name tool = BASH_TOOL \<or> normalize_tool_name tool \<in> set TIER3_TOOLS \<or> normalize_tool_name tool \<in> set TIER2_TOOLS"
    using assms by (auto simp: effective_tier_def tool_tier_def Let_def split: if_split_asm)
  then show ?thesis using tiered_normal [of tool]
    by (simp add: effective_tier_def tool_tier_def changes_schedule_state_def Let_def)
qed

text \<open>
  C14. The hook fails closed: when it lets an unattended call through, either the call is tier 1 or a live,
  unspent grant of the scope and tool was charged for it in the ledger. In particular nothing above
  tier 1 passes when the store cannot be read, and the minting tool never passes under its own name.
\<close>

theorem policy_hook_closed:
  assumes "policy_hook durable ip6 now scope cur tool (JObj kvs) db = (Pass, db')"
    "\<not> is_interactive_scope (the_scope (if scope = [] then cur else scope))"
  shows "effective_tier durable tool (JObj kvs) = 1 \<and> tool \<noteq> GRANT_MINT_TOOL \<or>
    (\<exists>st st' r. db = Some st \<and> db' = Some st' \<and> r \<in> set (grants st) \<and> is_live now r \<and> \<not> spent r \<and>
       g_scope r = the_scope (if scope = [] then cur else scope) \<and> g_tool r = normalize_tool_name tool \<and>
       paid (g_id r) st' = Suc (paid (g_id r) st))"
proof (cases "effective_tier durable tool (JObj kvs) = 1 \<and> tool \<noteq> GRANT_MINT_TOOL")
  case False
  let ?sc = "if scope = [] then cur else scope"
  have input: "(if truthy (JObj kvs) then JObj kvs else JObj []) = JObj kvs" by (cases kvs) auto
  obtain d where d: "check_grants durable ip6 now True ?sc tool (JObj kvs) None db = Inr (d, db')" "allowed d"
    using assms(1) False unfolding policy_hook_def input Let_def
    by (auto split: sum.splits prod.splits if_split_asm)
  have name: "normalize_tool_name tool \<noteq> GRANT_MINT_TOOL"
    using d assms(2) by (auto simp: check_grants_def the_scope_def [symmetric] Let_def)
  then have "tool \<noteq> GRANT_MINT_TOOL" by (auto simp: GRANT_MINT_TOOL_def normalize_tool_name_def startswith_def)
  then have tier: "effective_tier durable (normalize_tool_name tool) (JObj kvs) \<noteq> 1"
    using False effective_tier_normal by force
  then obtain st where st: "db = Some st"
    using d(1) name assms(2) by (cases db) (auto simp: check_grants_def the_scope_def [symmetric] Let_def)
  have "(\<exists>t st'. d = fst (decide_tier durable now True t (the_scope ?sc) (normalize_tool_name tool) kvs st))"
    using d(1) name tier assms(2) st
    by (auto simp: check_grants_def the_scope_def [symmetric] Let_def case_prod_beta)
  then have paid: "grant_id d \<noteq> None" using d(2) decide_tier_payer
    by (metis (no_types, lifting) decision.select_convs(1,2) fst_conv option.case_eq_if option.distinct(1) pay_def refuse_def)
  show ?thesis using d(1) [unfolded st]
  proof (cases rule: check_grants_cases)
    case (paid r st')
    have "paid (g_id r) st' = Suc (paid (g_id r) st)" using paid(7) by (simp add: pay_def Let_def)
    then show ?thesis using st paid(1-6) by blast
  next
    case (refused why st')
    then show ?thesis using d(2) by (simp add: refuse_def)
  qed (use paid in simp)
qed simp

theorem policy_hook_closed_witness:
  "\<exists>st' r. snd (policy_hook (\<lambda>_. None) (\<lambda>_. None) G0 ''worker:mail'' [] ''email_send'' (JObj []) (Some mail_store)) = Some st' \<and>
     r \<in> set (grants mail_store) \<and> paid (g_id r) st' = Suc (paid (g_id r) mail_store)"
proof -
  have "policy_hook (\<lambda>_. None) (\<lambda>_. None) G0 ''worker:mail'' [] ''email_send'' (JObj []) (Some mail_store) =
      (Pass, Some (snd mail_paid))"
    by (simp add: policy_hook_def mail_check) (simp add: mail_paid_def pay_def)
  from policy_hook_closed [OF this] this show ?thesis by auto
qed

text \<open>
  The hook's own exception for the minting tool compares the name as it arrived, so the qualified
  spelling of \<open>grant_create\<close> passes the hook from an unattended scope, although the check behind it
  denies the very same call.
\<close>

theorem qualified_mint_passes_hook:
  "policy_hook durable ip6 now ''worker:mail'' cur ''mcp__lloyd-mcp__grant_create'' input db = (Pass, db) \<and>
   (\<exists>d. check_grants durable ip6 now True ''worker:mail'' ''mcp__lloyd-mcp__grant_create'' input None db = Inr (d, db) \<and> \<not> allowed d)"
proof -
  have name: "normalize_tool_name ''mcp__lloyd-mcp__grant_create'' = GRANT_MINT_TOOL"
    by (simp add: normalize_tool_name_def startswith_def GRANT_MINT_TOOL_def)
  then have "effective_tier durable ''mcp__lloyd-mcp__grant_create'' x = 1" for x
    by (simp add: effective_tier_def tool_tier_def BASH_TOOL_def TIER3_TOOLS_def TIER2_TOOLS_def GRANT_MINT_TOOL_def)
  then show ?thesis using name
    by (simp add: policy_hook_def check_grants_def the_scope_def [symmetric] Let_def) (simp add: GRANT_MINT_TOOL_def)
qed

lemma parse_expiry_date:
  assumes "n < days_before_year 10000"
  shows "parse_expiry (Val (JStr (date_text n))) = Inr (n * day_us)" "n * day_us < max_wall"
proof -
  obtain y m d where ymd: "days_to_ymd n = (y, m, d)" by (cases "days_to_ymd n")
  have digits: "\<forall>c \<in> set (pad w k). is_digit c" for w k using list_all_pad by (simp add: list_all_iff)
  have ends: "date_text n \<noteq> []" "\<not> is_space (hd (date_text n))" "is_digit (last (date_text n))"
    using digits is_digit_not_space by (auto simp: date_text_def ymd pad_numeral hd_append)
  have st: "strip (date_text n) = date_text n" using ends is_digit_not_space strip_id by blast
  have "\<not> endswith (date_text n) ''Z''"
    using ends by (auto simp: endswith_iff is_digit_def)
  moreover have "fromisoformat (date_text n) = Some \<lparr>wall = n * day_us, offset = None\<rparr>"
    using assms by (simp add: fromisoformat_def parse_date_text)
  moreover show "n * day_us < max_wall" using assms by (simp add: max_wall_def del: max_wall_eq)
  ultimately show "parse_expiry (Val (JStr (date_text n))) = Inr (n * day_us)"
    using ends st by (simp add: parse_expiry_text_def utc_of_def instant_def del: max_wall_eq)
qed

text \<open>
  An expiry written as a bare date ends when that day begins, not when it ends: a grant minted with
  it is dead at every moment of the day it names.
\<close>

theorem date_only_expiry_is_midnight:
  assumes "n < days_before_year 10000" "m_expires a = Val (JStr (date_text n))" "mint ip6 t a st = Inr (r, st')"
    "n * day_us \<le> now" "in_range now"
  shows "g_expires_at r = iso_utc (n * day_us) \<and> \<not> is_live now r"
proof -
  have "g_expires_at r = iso_utc (n * day_us)"
    using assms(2,3) parse_expiry_date(1) [OF assms(1)] by (auto simp: mint_def map_sum_Inr elim!: mint_rowE)
  then show ?thesis using parse_expiry_date(2) [OF assms(1)] assms(4,5) by (simp add: is_live_def)
qed

theorem date_only_expiry_is_midnight_witness:
  "\<exists>r st'. mint (\<lambda>_. None) G0 (mail_args\<lparr>m_expires := Val (JStr (date_text 739584))\<rparr>) mail_store = Inr (r, st') \<and>
     \<not> is_live (739584 * day_us) r"
proof -
  have n: "(739584 :: nat) < days_before_year 10000" by (simp add: days_before_year_def)
  have "\<exists>r st'. mint (\<lambda>_. None) G0 (mail_args\<lparr>m_expires := Val (JStr (date_text 739584))\<rparr>) mail_store = Inr (r, st')"
    using parse_expiry_date(1) [OF n]
    by (simp add: mint_def mint_row_def mail_args_def GRANT_MINT_TOOL_def is_worker_identity_def scope_head_def
        NON_INTERACTIVE_PREFIXES_def mint_quota_def int_of_def py_int_def validate_predicate_def mint_destination_def)
  then obtain r st' where "mint (\<lambda>_. None) G0 (mail_args\<lparr>m_expires := Val (JStr (date_text 739584))\<rparr>) mail_store = Inr (r, st')"
    by blast
  from this date_only_expiry_is_midnight [OF n _ this, of "739584 * day_us"] show ?thesis by auto
qed

end
