(* ===== verification/Grant_Sync.thy ===== *)
theory Grant_Sync
  imports Grant_Theorems
begin

text \<open>
  The \<open>grants:\<close> block of a task file (\<open>sync_task_grants\<close>): one pass settles every declared grant, so a
  second pass at the same time has nothing to mint and nothing to withdraw.
\<close>

section \<open>Settled declarations\<close>

definition settled :: "nat \<Rightarrow> string \<Rightarrow> grant_spec \<Rightarrow> 'why grant_store \<Rightarrow> bool" where
  "settled now scope s st \<longleftrightarrow> t_expires s \<le> now \<or>
     (\<exists>r \<in> set (grants st). g_scope r = scope \<and> g_tool r = t_tool s \<and> g_predicate r = t_predicate s \<and>
        text_less (iso_utc now) (g_expires_at r) \<and>
        (\<not> is_revoked r \<or> text_le (iso_utc (t_expires s)) (g_expires_at r)))"

lemma blocking_iff:
  "(case first_min (\<lambda>a b. text_le (g_expires_at b) (g_expires_at a)) rows of None \<Rightarrow> False | Some b \<Rightarrow> text_le e (g_expires_at b))
   \<longleftrightarrow> (\<exists>b \<in> set rows. text_le e (g_expires_at b))"
proof (cases "first_min (\<lambda>a b. text_le (g_expires_at b) (g_expires_at a)) rows")
  case (Some m)
  have "text_le (g_expires_at b) (g_expires_at m)" if "b \<in> set rows" for b
    by (rule first_min_least [OF _ _ Some that]) (use text_le_total text_le_trans in blast)+
  then show ?thesis using Some first_min_in [OF Some] text_le_trans by auto
qed simp

lemma sync_spec_settled:
  "sync_spec ip6 now task scope s st =
     (if settled now scope s st then Inr (False, st)
      else map_sum id (\<lambda>(r, st'). (True, st')) (mint ip6 now (spec_mint_args task scope s) st))"
proof -
  let ?u = "unexpired_for now scope s st"
  have u: "r \<in> set ?u \<longleftrightarrow> r \<in> set (grants st) \<and> g_scope r = scope \<and> g_tool r = t_tool s \<and> g_predicate r = t_predicate s \<and>
      text_less (iso_utc now) (g_expires_at r)" for r
    by (auto simp: unexpired_for_def)
  have "settled now scope s st \<longleftrightarrow> t_expires s \<le> now \<or> filter (\<lambda>r. \<not> is_revoked r) ?u \<noteq> [] \<or>
      (\<exists>b \<in> set (filter is_revoked ?u). text_le (iso_utc (t_expires s)) (g_expires_at b))"
    unfolding settled_def filter_empty_conv set_filter using u by blast
  then show ?thesis unfolding sync_spec_def Let_def blocking_iff by simp
qed

definition spec_ok :: "grant_spec \<Rightarrow> bool" where
  "spec_ok s \<longleftrightarrow> predicate_normal (t_predicate s) \<and> in_range (t_expires s)"

lemma settled_mono: "settled now scope s st \<Longrightarrow> set (grants st) \<subseteq> set (grants st') \<Longrightarrow> settled now scope s st'"
  by (auto simp: settled_def)

lemma mint_row_fields:
  assumes "mint_row ip6 now n a = Inr r" "validate_predicate (m_predicate a) = Inr p" "parse_expiry (m_expires a) = Inr e"
  shows "g_predicate r = p \<and> g_expires_at r = iso_utc e"
  by (rule mint_rowE [OF assms(1)]) (use assms(2,3) in simp)

lemma sync_spec_settles:
  assumes "sync_spec ip6 now task scope s st = Inr (b, st')" "strip scope = scope" "in_range now"
    "normalize_tool_name (t_tool s) = t_tool s" "spec_ok s"
  shows "settled now scope s st'" "set (grants st) \<subseteq> set (grants st')"
proof -
  show "set (grants st) \<subseteq> set (grants st')"
    using assms(1) by (auto simp: sync_spec_settled mint_def map_sum_Inr split: if_split_asm)
  show "settled now scope s st'"
  proof (cases "settled now scope s st")
    case False
    then obtain r where m: "mint ip6 now (spec_mint_args task scope s) st = Inr (r, st')"
      using assms(1) by (auto simp: sync_spec_settled map_sum_Inr)
    then have row: "mint_row ip6 now (Suc (grants_seq st)) (spec_mint_args task scope s) = Inr r" "r \<in> set (grants st')"
      by (auto simp: mint_def map_sum_Inr)
    have "validate_predicate (JStr (t_predicate s)) = Inr (t_predicate s)"
      "parse_expiry (Time (utc (t_expires s))) = Inr (t_expires s)"
      using assms(5) validate_normal by (simp_all add: spec_ok_def utc_of_def utc_def instant_def)
    then have "g_predicate r = t_predicate s \<and> g_expires_at r = iso_utc (t_expires s)"
      using mint_row_fields [OF row(1)] by (simp add: spec_mint_args_def)
    moreover have "g_revoked_at r = None" "g_scope r = scope" "g_tool r = t_tool s"
      using mint_row_wf [OF row(1)] assms(2,4) by (simp_all add: spec_mint_args_def)
    moreover have "now < t_expires s" using False by (auto simp: settled_def)
    ultimately show ?thesis using row(2) assms(3,5) by (auto simp: settled_def is_revoked_def spec_ok_def intro!: bexI [of _ r])
  qed (use assms(1) sync_spec_settled [of ip6 now task scope s st] in simp)
qed

lemma sync_specs_settle:
  assumes "sync_specs ip6 now task scope specs n st = (Inr k, st')" "strip scope = scope" "in_range now"
    "\<forall>s \<in> set specs. normalize_tool_name (t_tool s) = t_tool s \<and> spec_ok s"
  shows "(\<forall>s \<in> set specs. settled now scope s st') \<and> set (grants st) \<subseteq> set (grants st')"
  using assms
proof (induction specs arbitrary: n st)
  case (Cons s specs)
  obtain b s1 where one: "sync_spec ip6 now task scope s st = Inr (b, s1)"
    using Cons.prems(1) by (auto split: sum.splits)
  have "settled now scope s s1" "set (grants st) \<subseteq> set (grants s1)"
    using sync_spec_settles [OF one] Cons.prems by auto
  moreover have "(\<forall>s \<in> set specs. settled now scope s st') \<and> set (grants s1) \<subseteq> set (grants st')"
    using Cons.IH [of "if b then Suc n else n" s1] Cons.prems one by simp
  ultimately show ?case using settled_mono by auto
qed simp

lemma sync_specs_again:
  "\<forall>s \<in> set specs. settled now scope s st \<Longrightarrow> sync_specs ip6 now task scope specs n st = (Inr n, st)"
  by (induction specs) (simp_all add: sync_spec_settled)

section \<open>The block\<close>

lemma validate_entry_ok:
  assumes "validate_entry m = Inr (errs, Some s)"
  shows "spec_ok s"
proof -
  have "validate_entry m = Inr (errs, Some s) \<Longrightarrow> (\<exists>p e. entry_predicate (val_get m ''predicate'') = Inr p
      \<and> parse_expiry (val_get m ''expires_at'') = Inr e \<and> t_predicate s = p \<and> t_expires s = e)"
    unfolding validate_entry_def Let_def
    by (cases "entry_predicate (val_get m ''predicate'')"; cases "parse_expiry (val_get m ''expires_at'')" rule: sum.exhaust)
      (auto split: grant_error.splits if_split_asm)
  then show ?thesis using assms
    by (auto simp: spec_ok_def entry_predicate_def dest: validate_predicate_normal parse_expiry_range split: pyval.splits)
qed

lemma validate_entries_ok:
  "validate_entries i es (specs, errs) = Inr (specs', errs') \<Longrightarrow> \<forall>s \<in> set specs. spec_ok s \<Longrightarrow> \<forall>s \<in> set specs'. spec_ok s"
proof (induction i es "(specs, errs)" arbitrary: specs errs rule: validate_entries.induct)
  case (3 i m es specs errs)
  obtain new spec where e: "validate_entry m = Inr (new, spec)" using 3(2) by (auto split: sum.splits)
  let ?errs = "errs @ map (Pair i) new"
  let ?specs = "if ?errs = [] then specs @ (case spec of Some s \<Rightarrow> [s] | None \<Rightarrow> []) else specs"
  have "\<forall>s \<in> set ?specs. spec_ok s" using 3(3) e validate_entry_ok by (auto split: option.splits if_split_asm)
  moreover have "validate_entries (Suc i) es (?specs, ?errs) = Inr (specs', errs')" using 3(2) e by (simp add: Let_def)
  ultimately show ?case using 3(1) [OF e refl refl] by blast
qed auto

lemma validate_task_grants_ok: "validate_task_grants block = Inr (specs, errs) \<Longrightarrow> \<forall>s \<in> set specs. spec_ok s"
  using validate_entries_ok [of 0 _ "[]" "[]"] by (auto simp: validate_task_grants_def split: grants_block.splits)

section \<open>Withdrawal\<close>

lemma revoke_other: "r \<in> set (grants st) \<Longrightarrow> g_id r \<noteq> n \<Longrightarrow> r \<in> set (grants (snd (revoke now n st)))"
  by (simp add: revoke_def set_upd_where)

lemma revoke_unrevoked:
  "r \<in> set (grants (snd (revoke now n st))) \<Longrightarrow> g_revoked_at r = None \<Longrightarrow> r \<in> set (grants st) \<and> g_id r \<noteq> n"
  by (auto simp: revoke_def set_upd_where)

lemma withdraw_other:
  "r \<in> set (grants st) \<Longrightarrow> \<forall>w \<in> set rows. g_id w \<noteq> g_id r \<Longrightarrow>
   r \<in> set (grants (fold (\<lambda>r s. snd (revoke now (g_id r) s)) rows st))"
  by (induction rows arbitrary: st) (simp_all add: revoke_other not_sym)

lemma withdraw_unrevoked:
  "r \<in> set (grants (fold (\<lambda>r s. snd (revoke now (g_id r) s)) rows st)) \<Longrightarrow> g_revoked_at r = None \<Longrightarrow>
   r \<in> set (grants st) \<and> (\<forall>w \<in> set rows. g_id w \<noteq> g_id r)"
proof (induction rows arbitrary: st)
  case (Cons w rows)
  then have "r \<in> set (grants (snd (revoke now (g_id w) st)))" "\<forall>w \<in> set rows. g_id w \<noteq> g_id r" by simp_all
  then show ?case using Cons.prems(2) revoke_unrevoked by fastforce
qed simp

section \<open>Properties\<close>

text \<open>
  Materialising a task's \<open>grants:\<close> block is idempotent and stays within its own rows: a second sync at
  the same time mints nothing, withdraws nothing and leaves the store as it is, and no row that
  another minter wrote is ever touched. So a task cannot extend its authority by running again.
\<close>

theorem sync_task_grants_idempotent:
  assumes "reach new_grants (grant_step durable ip6) st" "in_range now" "strip scope = scope"
    "validate_task_grants block = Inr (specs, [])" "\<forall>s \<in> set specs. normalize_tool_name (t_tool s) = t_tool s"
    "sync_task_grants ip6 now task scope block st = (Inr n, st')"
  shows "sync_task_grants ip6 now task scope block st' = (Inr 0, st') \<and>
    (\<forall>r \<in> set (grants st). g_minted_by r \<noteq> FRONTMATTER_MINTER @ task \<longrightarrow> r \<in> set (grants st'))"
proof -
  obtain s1 where run: "sync_specs ip6 now task scope specs 0 st = (Inr n, s1)"
    and st': "st' = fold (\<lambda>r s. snd (revoke now (g_id r) s)) (withdrawn_rows now task scope specs s1) s1"
    using assms(4,6) by (auto simp: sync_task_grants_def split: prod.splits sum.splits)
  let ?w = "withdrawn_rows now task scope specs s1"
  have inv: "grant_inv s1" using sync_specs_inv [OF gate.reach_inv [OF assms(1)] run] .
  have settle: "\<forall>s \<in> set specs. settled now scope s s1" "set (grants st) \<subseteq> set (grants s1)"
    using sync_specs_settle [OF run assms(3,2)] assms(5) validate_task_grants_ok [OF assms(4)] by auto
  have keep: "r \<in> set (grants st')" if "r \<in> set (grants s1)" "r \<notin> set ?w" for r
  proof -
    have "set ?w \<subseteq> set (grants s1)" by (auto simp: withdrawn_rows_def)
    then have "\<forall>w \<in> set ?w. g_id w \<noteq> g_id r" using that grant_row_eq [OF inv] by blast
    then show ?thesis using withdraw_other that(1) by (simp add: st')
  qed
  have "settled now scope s st'" if "s \<in> set specs" for s
  proof -
    have "r \<notin> set ?w" if "g_tool r = t_tool s" "g_predicate r = t_predicate s" for r
      using that \<open>s \<in> set specs\<close> by (auto simp: withdrawn_rows_def)
    then show ?thesis using settle(1) that keep unfolding settled_def by metis
  qed
  then have "sync_specs ip6 now task scope specs 0 st' = (Inr 0, st')" by (simp add: sync_specs_again)
  moreover have "withdrawn_rows now task scope specs st' = []"
  proof -
    have False if "r \<in> set (withdrawn_rows now task scope specs st')" for r
    proof -
      have "r \<in> set (grants s1)" "\<forall>w \<in> set ?w. g_id w \<noteq> g_id r"
        using that withdraw_unrevoked [of r now ?w s1] by (auto simp: withdrawn_rows_def is_live_def st')
      then show False using that by (auto simp: withdrawn_rows_def)
    qed
    then show ?thesis using list.set_intros(1) neq_Nil_conv by metis
  qed
  moreover have "\<forall>r \<in> set (grants st). g_minted_by r \<noteq> FRONTMATTER_MINTER @ task \<longrightarrow> r \<in> set (grants st')"
    using settle(2) keep by (auto simp: withdrawn_rows_def)
  ultimately show ?thesis using assms(4) by (simp add: sync_task_grants_def)
qed

definition task_spec :: grant_spec where
  "task_spec = \<lparr>t_tool = ''email_send'', t_predicate = [], t_quota = None, t_expires = G0 + 86400000000,
     t_issued_by = ''alan'', t_note = []\<rparr>"

definition task_block :: grants_block where
  "task_block = Entries [Entry [(''tool'', Val (JStr ''email_send'')), (''expires_at'', Time (utc (G0 + 86400000000))),
     (''issued_by'', Val (JStr ''alan''))]]"

lemma task_block_valid: "validate_task_grants task_block = Inr ([task_spec], [])"
proof -
  have "parse_expiry (Time (utc (G0 + 86400000000))) = Inr (G0 + 86400000000)"
    by (simp add: utc_of_def utc_def instant_def G0_def)
  then show ?thesis
    by (simp add: validate_task_grants_def task_block_def validate_entry_def val_get_def entry_keys_def text_or_def py_str_def
        GRANT_MINT_TOOL_def entry_predicate_def validate_predicate_def entry_quota_def task_spec_def Let_def)
qed

lemma task_sync:
  "\<exists>st'. sync_task_grants (\<lambda>_. None) G0 ''39'' ''autonomy-task:39'' task_block mail_store = (Inr 1, st')"
proof -
  have st: "strip ''autonomy-task:39'' = ''autonomy-task:39''" "strip ''frontmatter:39'' = ''frontmatter:39''"
    by (simp_all add: strip_id is_space_def)
  have "\<not> settled G0 ''autonomy-task:39'' task_spec mail_store"
    by (simp add: settled_def task_spec_def mail_store_def mail_grant_def G0_def)
  moreover have "\<exists>r st'. mint (\<lambda>_. None) G0 (spec_mint_args ''39'' ''autonomy-task:39'' task_spec) mail_store = Inr (r, st')"
    by (simp add: mint_def mint_row_def spec_mint_args_def task_spec_def st GRANT_MINT_TOOL_def is_worker_identity_def
        scope_head_def NON_INTERACTIVE_PREFIXES_def FRONTMATTER_MINTER_def mint_quota_def validate_predicate_def utc_of_def
        utc_def instant_def mint_destination_def G0_def)
  ultimately show ?thesis
    by (auto simp: sync_task_grants_def task_block_valid sync_spec_settled)
qed

theorem sync_task_grants_idempotent_witness:
  "\<exists>st'. sync_task_grants (\<lambda>_. None) G0 ''39'' ''autonomy-task:39'' task_block mail_store = (Inr 1, st') \<and>
     sync_task_grants (\<lambda>_. None) G0 ''39'' ''autonomy-task:39'' task_block st' = (Inr 0, st')"
proof -
  obtain st' where run: "sync_task_grants (\<lambda>_. None) G0 ''39'' ''autonomy-task:39'' task_block mail_store = (Inr 1, st')"
    using task_sync by blast
  have "strip ''autonomy-task:39'' = ''autonomy-task:39''" by (simp add: strip_id is_space_def)
  from sync_task_grants_idempotent [OF mail_reach _ this task_block_valid _ run] run show ?thesis
    by (auto simp: task_spec_def G0_def)
qed

section \<open>The remedy of a denial\<close>

lemma nth_digit: "n < 10 \<Longrightarrow> ''0123456789'' ! n = digit n"
proof -
  assume "n < 10"
  then have "n \<in> {0, 1, 2, 3, 4, 5, 6, 7, 8, 9}" by auto
  then show ?thesis by (auto simp: digit_def)
qed

lemma nat_text_digits: "nat_text n \<noteq> [] \<and> list_all is_digit (nat_text n)"
  by (induction n rule: nat_text.induct) (subst (1 2) nat_text.simps, auto simp: nth_digit)

lemma nat_text_val: "digits_val (nat_text n) = int n"
proof (induction n rule: nat_text.induct)
  case (1 n)
  have "int (of_char (digit (n mod 10))) = 48 + int (n mod 10)" using of_char_digit [of "n mod 10"] by simp
  with 1 show ?case by (subst nat_text.simps) (auto simp: digits_val_def nth_digit zdiv_int zmod_int)
qed

lemma nat_text_length: "n < 10 ^ k \<Longrightarrow> 0 < k \<Longrightarrow> length (nat_text n) \<le> k"
proof (induction n arbitrary: k rule: nat_text.induct)
  case (1 n)
  show ?case
  proof (cases "n < 10")
    case True
    then show ?thesis using 1(3) by (simp add: nat_text.simps)
  next
    case False
    then obtain j where j: "k = Suc j" "0 < j" using 1(2,3) by (cases k; cases "k - 1") auto
    then have "n div 10 < 10 ^ j" using 1(2) by (simp add: less_mult_imp_div_less mult.commute)
    then show ?thesis using 1(1) [OF False, of j] False j by (subst nat_text.simps) simp
  qed
qed

text \<open>Arguments whose names a predicate can mention and whose lists a nine-digit bound can count.\<close>

definition plain_args :: "(string \<times> json) list \<Rightarrow> bool" where
  "plain_args args \<longleftrightarrow> distinct (map fst args) \<and>
     list_all (\<lambda>(k, v). k \<noteq> [] \<and> list_all is_ident k \<and> \<not> is_digit (hd k) \<and>
       (case v of JArr vs \<Rightarrow> length vs < 10 ^ 9 | _ \<Rightarrow> True)) args"

lemma suggested_matches:
  assumes "plain_args args"
  shows "predicate_normal (suggested_predicate args) \<and> predicate_matches (suggested_predicate args) args"
proof (cases "suggested_predicate args = []")
  case False
  have "\<exists>k x xs. (k, JArr (x # xs)) \<in> set kvs \<and> suggested_predicate kvs = ''len('' @ k @ '')<='' @ nat_text (length (x # xs))"
    if "suggested_predicate kvs \<noteq> []" for kvs
    using that
    by (induction kvs rule: suggested_predicate.induct) (fastforce split: json.splits list.splits)+
  then obtain k x xs where kv: "(k, JArr (x # xs)) \<in> set args"
    and sp: "suggested_predicate args = ''len('' @ k @ '')<='' @ nat_text (length (x # xs))" using False by blast
  let ?p = "\<lparr>p_len = True, p_closer = True, p_field = k, p_op = ''<='', p_num = nat_text (length (x # xs))\<rparr>"
  have k: "k \<noteq> []" "list_all is_ident k" "\<not> is_digit (hd k)" "length (x # xs) < 10 ^ 9" "map_of args k = Some (JArr (x # xs))"
    using assms kv by (auto simp: plain_args_def list_all_iff)
  have ok: "predicate_ok ?p" using k nat_text_digits nat_text_length [of "length (x # xs)" 9]
    by (auto simp: predicate_ok_def OPS_def Suc_le_eq)
  have shown: "suggested_predicate args = predicate_text ?p" by (simp add: sp predicate_text_def)
  have "parse_predicate (suggested_predicate args) = Some ?p" using predicate_text_reads_back [OF ok] shown by simp
  then have "predicate_matches (suggested_predicate args) args"
    using k nat_text_val [of "length (x # xs)"]
    by (simp add: predicate_matches_def arg_value_def measured_def compare_def del: nat_text.simps)
  moreover have "predicate_normal (suggested_predicate args)" unfolding predicate_normal_def using ok shown by auto
  ultimately show ?thesis by blast
qed (simp add: predicate_normal_def predicate_matches_def)

lemma parse_expiry_iso: "in_range n \<Longrightarrow> parse_expiry (Val (JStr (iso_utc n))) = Inr n"
  by (simp add: parse_expiry_text_def utc_of_def utc_def instant_def iso_utc_plain)

definition shape_args :: "shape \<Rightarrow> (string \<times> json) list" where
  "shape_args sh = [(''scope'', JStr (sh_scope sh)), (''tool'', JStr (sh_tool sh)), (''predicate'', JStr (sh_predicate sh)),
     (''expires_at'', JStr (sh_expires sh)), (''issued_by'', JStr ''alan'')]"

lemma the_scope_strip: "strip (the_scope scope) = the_scope scope" "the_scope scope \<noteq> []"
  by (simp_all add: the_scope_def strip_id is_space_def)

text \<open>What the mint line of a denial writes.\<close>

lemma shape_mints:
  assumes sh: "sh = grant_shape now (the_scope scope) tool args None" and args: "plain_args args"
    and tool: "normalize_tool_name tool = tool" "tool \<noteq> []" "tool \<noteq> GRANT_MINT_TOOL"
    and now: "in_range (now + 7 * day_us)"
    and run: "grant_create ip6 now True (shape_args sh) st = (res, st')"
  obtains r where "grants st' = grants st @ [r]" "is_live now r" "g_scope r = the_scope scope" "payer_row tool r"
    "\<not> spent r" "g_predicate r = suggested_predicate args"
proof -
  let ?n = "Suc (grants_seq st)" and ?a = "create_args (shape_args sh)"
  have fields: "m_scope ?a = the_scope scope" "m_tool ?a = tool" "m_predicate ?a = JStr (suggested_predicate args)"
      "m_quota ?a = JInt 1" "m_issued_by ?a = ''alan''" "m_expires ?a = Val (JStr (iso_utc (now + 7 * day_us)))"
      "m_minted_by ?a = ''interactive-tool''" "m_destination ?a = None"
    using tool(2) the_scope_strip(2)
    by (simp_all add: create_args_def shape_args_def dict_get_def text_or_def py_str_def sh grant_shape_def SUGGESTED_TTL_DAYS_def)
  have pred: "validate_predicate (m_predicate ?a) = Inr (suggested_predicate args)"
    using suggested_matches [OF args] validate_normal fields(3) by simp
  have expiry: "parse_expiry (m_expires ?a) = Inr (now + 7 * day_us)" using parse_expiry_iso [OF now] fields(6) by simp
  have it: "strip ''interactive-tool'' = ''interactive-tool''" by (simp add: strip_id is_space_def)
  have "\<exists>r. mint_row ip6 now ?n ?a = Inr r"
    unfolding mint_row_def Let_def pred expiry unfolding fields mint_destination_def
    using tool the_scope_strip by (simp add: is_worker_identity_def scope_head_def NON_INTERACTIVE_PREFIXES_def it
        mint_quota_def int_of_def py_int_def)
  then obtain r where row: "mint_row ip6 now ?n ?a = Inr r" by blast
  then have st': "grants st' = grants st @ [r]" using run by (auto simp: grant_create_def mint_def)
  have quota: "g_quota r = Some 1" "g_destination r = None"
    by (rule mint_rowE [OF row], simp add: fields mint_quota_def int_of_def py_int_def mint_destination_def)+
  have exp: "g_predicate r = suggested_predicate args" "g_expires_at r = iso_utc (now + 7 * day_us)"
    using mint_row_fields [OF row pred expiry] by simp_all
  have "is_live now r" using mint_row_wf [OF row] exp now by (simp add: is_live_def)
  then show thesis using that [OF st'] mint_row_wf [OF row] quota exp fields tool the_scope_strip
    by (simp add: payer_row_def spent_def)
qed

text \<open>
  A denial on the tier axis names a remedy that works: when no predicate-bearing grant shadows the
  pair, the mint line printed with the denial, run by a human, makes the very same call pass.
\<close>

theorem denial_remedy_pays:
  assumes "normalize_tool_name tool = tool" "tool \<noteq> GRANT_MINT_TOOL" "\<not> is_interactive_scope (the_scope scope)"
    "effective_tier durable tool (JObj args) \<noteq> 1" "plain_args args" "in_range (now + 7 * day_us)"
    "\<forall>r \<in> set (grants st). is_live now r \<and> g_scope r = the_scope scope \<and> payer_row tool r \<longrightarrow> \<not> bounded_row r"
    "check_grants durable ip6 now True scope tool (JObj args) None (Some st) = Inr (d, Some st1)" "reason d = Denied dn"
    "grant_create ip6 now True (shape_args (dn_shape dn)) st1 = (res, st2)"
  shows "\<exists>d2 st3. check_grants durable ip6 now True scope tool (JObj args) None (Some st2) = Inr (d2, Some st3) \<and> allowed d2"
proof -
  have ar: "the_args (JObj args) = args" by (simp add: the_args_def)
  obtain t where dt: "decide_tier durable now True t (the_scope scope) tool args st = (d, st1)"
    using assms(1-4,8) by (auto simp: check_grants_def the_scope_def [symmetric] Let_def split: prod.splits)
  have none: "payer now (the_scope scope) tool args st = None"
    using dt assms(9) decide_tier_payer [of durable now True t "the_scope scope" tool args st]
    by (cases "payer now (the_scope scope) tool args st") (auto simp: pay_def)
  have shape: "dn_shape dn = grant_shape now (the_scope scope) tool args None" and same: "grants st1 = grants st"
    using dt none assms(9) by (auto simp: decide_tier_def payer_def Let_def refuse_def record_dispatch_def split: option.splits)
  have "tool \<noteq> []" using assms(4) by (auto simp: effective_tier_def tool_tier_def normalize_tool_name_def startswith_def
      BASH_TOOL_def TIER3_TOOLS_def TIER2_TOOLS_def)
  then obtain r where r: "grants st2 = grants st @ [r]" "is_live now r" "g_scope r = the_scope scope" "payer_row tool r"
      "\<not> spent r" "g_predicate r = suggested_predicate args"
    using shape_mints [OF shape assms(5,1) _ assms(2,6,10)] same by auto
  have match: "predicate_matches (g_predicate r) args" using r(6) suggested_matches [OF assms(5)] by simp
  have "bounded_row r \<or> (\<forall>b \<in> set (grants st2). is_live now b \<and> g_scope b = the_scope scope \<and> payer_row tool b \<longrightarrow> \<not> bounded_row b)"
    using assms(7) r(1) by auto
  then have "\<exists>r \<in> set (grants st2). is_live now r \<and> g_scope r = the_scope scope \<and> payer_row tool r \<and> \<not> spent r \<and>
      predicate_matches (g_predicate r) args \<and> (bounded_row r \<or> (\<forall>b \<in> set (grants st2). is_live now b \<and>
        g_scope b = the_scope scope \<and> payer_row tool b \<longrightarrow> \<not> bounded_row b))"
    using r match by (intro bexI [of _ r]) auto
  then show ?thesis
    using check_grants_decision [of tool scope durable "JObj args" ip6 now st2] assms(1-4) unfolding ar by auto
qed

theorem denial_remedy_pays_witness:
  "\<exists>d st1 dn d2 st3.
     check_grants (\<lambda>_. None) (\<lambda>_. None) G0 True ''worker:mail'' ''email_send'' (JObj [(''to'', JArr [JStr ''a''])]) None
       (Some empty_grants) = Inr (d, Some st1) \<and> reason d = Denied dn \<and>
     check_grants (\<lambda>_. None) (\<lambda>_. None) G0 True ''worker:mail'' ''email_send'' (JObj [(''to'', JArr [JStr ''a''])]) None
       (Some (snd (grant_create (\<lambda>_. None) G0 True (shape_args (dn_shape dn)) st1))) = Inr (d2, Some st3) \<and> allowed d2"
proof -
  let ?args = "[(''to'', JArr [JStr ''a''])]"
  have "live G0 (Some ''worker:mail'') (empty_grants :: gstore) = []" by (simp add: live_def empty_grants_def)
  then have "\<exists>d st1 dn. check_grants (\<lambda>_. None) (\<lambda>_. None) G0 True ''worker:mail'' ''email_send'' (JObj ?args) None
      (Some empty_grants) = Inr (d, Some st1) \<and> reason d = Denied dn"
    by (simp add: check_grants_def the_scope_def [symmetric] Let_def decide_tier_def bounded_for_def broad_for_def refuse_def)
  then obtain d st1 dn where run: "check_grants (\<lambda>_. None) (\<lambda>_. None) G0 True ''worker:mail'' ''email_send'' (JObj ?args) None
      (Some empty_grants) = Inr (d, Some st1)" and dn: "reason d = Denied dn" by blast
  have "plain_args ?args" by (simp add: plain_args_def is_ident_def is_digit_def)
  from denial_remedy_pays [OF _ _ _ _ this _ _ run dn prod.collapse [symmetric]]
  have "\<exists>d2 st3. check_grants (\<lambda>_. None) (\<lambda>_. None) G0 True ''worker:mail'' ''email_send'' (JObj ?args) None
       (Some (snd (grant_create (\<lambda>_. None) G0 True (shape_args (dn_shape dn)) st1))) = Inr (d2, Some st3) \<and> allowed d2"
    by (simp add: empty_grants_def G0_def)
  with run dn show ?thesis by blast
qed

end
