(* ===== verification/Pool_Pause.thy ===== *)
theory Pool_Pause
  imports Journals
begin

text \<open>
  The holds of the worker pool (\<open>workers/pool.py\<close>, \<open>class WorkerPool\<close>): the operator hold, which is
  kept in the watermark table and reloaded by the next process, the in-memory hold of a landing, the
  lease that lets a start tell a dead machine's hold from a live one, and the journal row that every
  transition appends.

  \<open>hold_state\<close> has the attributes of a pool these methods read and write; the database is the \<^typ>\<open>store\<close>
  they share with the queue. A read or write of the database succeeds here, so the branches that
  report an unreadable or unwritable file are left out; the log lines are left out as well.
\<close>

section \<open>Watermark rows and kinds\<close>

definition PAUSE_WM_SOURCE :: string where "PAUSE_WM_SOURCE = ''_pool''"
definition PAUSE_WM_KEY :: string where "PAUSE_WM_KEY = ''operator_paused''"
definition PAUSE_WM_HOLDER_KEY :: string where "PAUSE_WM_HOLDER_KEY = ''operator_pause_holder''"
definition PAUSE_ANNOUNCE_WM_KEY :: string where "PAUSE_ANNOUNCE_WM_KEY = ''operator_pause_announced''"
definition HOLDER_PERSON :: string where "HOLDER_PERSON = ''person''"
definition HOLDER_MACHINE :: string where "HOLDER_MACHINE = ''machine''"
definition HOLDER_DEFAULT :: string where "HOLDER_DEFAULT = HOLDER_PERSON"
definition PAUSE_ACTOR_DEFAULT :: string where "PAUSE_ACTOR_DEFAULT = ''unattributed''"
definition PAUSE_ACTOR_RECONCILE :: string where "PAUSE_ACTOR_RECONCILE = ''startup-reconcile''"
definition MACHINE_LEASE_STALE_SECONDS :: int where "MACHINE_LEASE_STALE_SECONDS = 300"
definition PAUSE_ANNOUNCE_FLOOR_SECONDS :: int where "PAUSE_ANNOUNCE_FLOOR_SECONDS = 3600"

lemmas pause_keys = PAUSE_WM_SOURCE_def PAUSE_WM_KEY_def PAUSE_WM_HOLDER_KEY_def PAUSE_ANNOUNCE_WM_KEY_def
lemmas holder_kinds = HOLDER_PERSON_def HOLDER_MACHINE_def HOLDER_DEFAULT_def

text \<open>An age is a number of microseconds, \<open>second\<close> of them in a second.\<close>

abbreviation second :: int where "second \<equiv> 1000000"

definition lease_age_seconds :: "nat \<Rightarrow> string option \<Rightarrow> int option" where
  "lease_age_seconds now updated_at =
     (case updated_at of None \<Rightarrow> None
      | Some s \<Rightarrow> if s = [] then None else map_option (\<lambda>i. int now - i) (parse_instant s))"

definition lease_is_stale :: "int option \<Rightarrow> bool" where
  "lease_is_stale age \<longleftrightarrow> (case age of None \<Rightarrow> True | Some a \<Rightarrow> MACHINE_LEASE_STALE_SECONDS * second < a)"

definition holder_kind :: "jtext option \<Rightarrow> string" where
  "holder_kind raw = (if map_option column_text raw = Some HOLDER_MACHINE then HOLDER_MACHINE else HOLDER_DEFAULT)"

text \<open>The two values of the hold's row, as the column holds them: \<open>1\<close> and \<open>0\<close> are also JSON texts.\<close>

definition flag_text :: "bool \<Rightarrow> string" where
  "flag_text on = (if on then ''1'' else ''0'')"

definition pause_flag :: "bool \<Rightarrow> jtext" where
  "pause_flag on = JDoc (JInt (if on then 1 else 0))"

lemma column_pause_flag [simp]: "column_text (pause_flag on) = flag_text on"
  by (simp add: pause_flag_def flag_text_def column_text_def int_text_def nat_text.simps)

section \<open>The hold as the database has it\<close>

record pause_state =
  ps_paused :: bool
  ps_since :: "string option"
  ps_holder :: "string option"
  ps_lease_age :: "int option"

definition operator_pause_state :: "nat \<Rightarrow> store \<Rightarrow> pause_state" where
  "operator_pause_state now st =
     (let paused = (map_option column_text (wm_get PAUSE_WM_SOURCE PAUSE_WM_KEY st) = Some (flag_text True));
          holder = (if paused then Some (holder_kind (wm_get PAUSE_WM_SOURCE PAUSE_WM_HOLDER_KEY st)) else None)
      in \<lparr>ps_paused = paused,
          ps_since = (if paused then wm_updated_at PAUSE_WM_SOURCE PAUSE_WM_KEY st else None),
          ps_holder = holder,
          ps_lease_age = (if holder = Some HOLDER_MACHINE
            then lease_age_seconds now (wm_updated_at PAUSE_WM_SOURCE PAUSE_WM_HOLDER_KEY st) else None)\<rparr>)"

section \<open>The hold as the pool has it\<close>

record inherited_pause =
  ih_state :: pause_state
  ih_reconciled :: bool
  ih_lease_age_judged :: "int option"

record hold_state =
  paused_operator :: bool
  paused_automod :: bool
  inherited :: "inherited_pause option"

definition journal_pause :: "nat \<Rightarrow> string \<Rightarrow> string \<Rightarrow> string \<Rightarrow> store \<Rightarrow> store" where
  "journal_pause now val kind actor st = snd (pause_journal_append now val kind actor None st)"

definition release_dead_machine_pause :: "nat \<Rightarrow> inherited_pause \<Rightarrow> store \<Rightarrow> inherited_pause \<times> store" where
  "release_dead_machine_pause now ih st =
     (let st1 = wm_set now PAUSE_WM_SOURCE PAUSE_WM_KEY (pause_flag False) st;
          ih1 = ih\<lparr>ih_reconciled := True, ih_lease_age_judged := ps_lease_age (ih_state ih)\<rparr>
      in (ih1, journal_pause now (flag_text False) (or_else (ps_holder (ih_state ih)) HOLDER_DEFAULT) PAUSE_ACTOR_RECONCILE st1))"

definition load_operator_pause :: "nat \<Rightarrow> store \<Rightarrow> bool \<times> inherited_pause option \<times> store" where
  "load_operator_pause now st =
     (let state = operator_pause_state now st;
          ih = \<lparr>ih_state = state, ih_reconciled = False, ih_lease_age_judged = None\<rparr>
      in if \<not> ps_paused state then (False, None, st)
         else if ps_holder state = Some HOLDER_MACHINE \<and> lease_is_stale (ps_lease_age state)
         then (case release_dead_machine_pause now ih st of (ih', st') \<Rightarrow> (False, Some ih', st'))
         else (True, Some ih, st))"

text \<open>The hold attributes as \<open>__init__\<close> sets them.\<close>

definition boot_holds :: "nat \<Rightarrow> store \<Rightarrow> hold_state \<times> store" where
  "boot_holds now st = (case load_operator_pause now st of
     (on, ih, st') \<Rightarrow> (\<lparr>paused_operator = on, paused_automod = False, inherited = ih\<rparr>, st'))"

definition pause ::
    "nat \<Rightarrow> bool \<Rightarrow> string \<Rightarrow> string \<Rightarrow> string option \<Rightarrow> hold_state \<times> store \<Rightarrow> hold_state \<times> store" where
  "pause now paused owner kind_arg actor = (\<lambda>(hs, st).
     let kind = (if kind_arg = HOLDER_MACHINE then HOLDER_MACHINE else HOLDER_PERSON);
         journal_actor = or_else (Some (strip (or_else actor []))) PAUSE_ACTOR_DEFAULT
     in if owner = ''automod'' then (hs\<lparr>paused_automod := paused\<rparr>, st)
        else
          let transitioned = (paused \<noteq> paused_operator hs);
              held_kind = (if transitioned then holder_kind (wm_get PAUSE_WM_SOURCE PAUSE_WM_HOLDER_KEY st)
                           else HOLDER_DEFAULT);
              hs1 = hs\<lparr>paused_operator := paused, paused_automod := (paused \<and> paused_automod hs)\<rparr>;
              st1 = (if transitioned
                     then wm_set now PAUSE_WM_SOURCE PAUSE_WM_KEY (pause_flag paused) st else st);
              st2 = (if paused then wm_set now PAUSE_WM_SOURCE PAUSE_WM_HOLDER_KEY (JRaw kind) st1 else st1)
          in (hs1, if transitioned
                   then journal_pause now (flag_text paused) (if paused then kind else held_kind)
                          journal_actor st2
                   else st2))"

section \<open>What the pool reports\<close>

definition pool_paused :: "hold_state \<Rightarrow> bool" where
  "pool_paused hs \<longleftrightarrow> paused_operator hs \<or> paused_automod hs"

definition paused_by :: "hold_state \<Rightarrow> string list" where
  "paused_by hs = (if paused_operator hs then [''operator''] else []) @ (if paused_automod hs then [''automod''] else [])"

definition paused_since :: "nat \<Rightarrow> hold_state \<times> store \<Rightarrow> string option" where
  "paused_since now = (\<lambda>(hs, st). if \<not> paused_operator hs then None else ps_since (operator_pause_state now st))"

definition pool_holder_kind :: "nat \<Rightarrow> hold_state \<times> store \<Rightarrow> string option" where
  "pool_holder_kind now = (\<lambda>(hs, st). if \<not> paused_operator hs then None else ps_holder (operator_pause_state now st))"

definition machine_lease_age_s :: "nat \<Rightarrow> hold_state \<times> store \<Rightarrow> int option" where
  "machine_lease_age_s now = (\<lambda>(hs, st). if \<not> paused_operator hs then None else ps_lease_age (operator_pause_state now st))"

section \<open>The announcement of an inherited hold\<close>

text \<open>\<open>f'{x:.0f}'\<close> of a number of microseconds read as seconds: ties go to the even second.\<close>

definition half_even :: "nat \<Rightarrow> nat \<Rightarrow> nat" where
  "half_even n d = (let q = n div d; r = n mod d in if 2 * r < d \<or> (2 * r = d \<and> even q) then q else Suc q)"

definition seconds_text :: "int \<Rightarrow> string" where
  "seconds_text us = (if us < 0 then ''-'' else []) @ nat_text (half_even (nat \<bar>us\<bar>) 1000000)"

definition age_text :: "int option \<Rightarrow> string" where
  "age_text age = (case age of None \<Rightarrow> ''n/a'' | Some a \<Rightarrow> seconds_text a @ '' s'')"

definition inherited_verdict :: "inherited_pause \<Rightarrow> string" where
  "inherited_verdict ih =
     (if ih_reconciled ih then ''yes (released at startup; dispatch resumes)''
      else if ps_holder (ih_state ih) = Some HOLDER_MACHINE
      then ''no (lease still fresh; the hold stands across this restart)''
      else ''no (a person's hold is durable by design)'')"

definition since_text :: "inherited_pause \<Rightarrow> string" where
  "since_text ih = (case ps_since (ih_state ih) of None \<Rightarrow> ''None'' | Some s \<Rightarrow> s)"

definition announcement :: "inherited_pause \<Rightarrow> string \<times> string \<times> string" where
  "announcement ih =
     (let kind = or_else (ps_holder (ih_state ih)) HOLDER_DEFAULT; since = since_text ih; verdict = inherited_verdict ih;
          lease = age_text (if ih_reconciled ih then ih_lease_age_judged ih else ps_lease_age (ih_state ih))
      in if ih_reconciled ih
         then (''Worker pool released a stale '' @ kind @ '' pause at boot'',
               ''The '' @ kind @ '' hold taken at '' @ since @ '' was released by this boot: its lease was last refreshed ''
               @ lease @ '' before it started, past the '' @ int_text MACHINE_LEASE_STALE_SECONDS
               @ '' s a machine's setter is believed alive for, so it cannot have survived the restart. reconciled=''
               @ verdict @ ''  lease_age='' @ lease @ ''  since='' @ since @ [CHR 0x0A]
               @ ''Dispatch resumes; nobody resumed it.'',
               ''info'')
         else (''Worker pool is still halted by a '' @ kind @ '' pause'',
               ''This boot did not reconcile it ('' @ verdict @ ''). kind='' @ kind @ ''  since='' @ since
               @ ''  lease_age='' @ lease @ [CHR 0x0A] @ ''Nothing is being dispatched until someone resumes it.'',
               ''warning''))"

text \<open>
  \<open>fan_out\<close> is the guardian's announce callable: whether the call with this title, body and level
  returned. The result names the announcement that was sent, if one was.
\<close>

definition announce_inherited_pause ::
    "(string \<times> string \<times> string \<Rightarrow> bool) \<Rightarrow> nat \<Rightarrow> hold_state \<times> store
      \<Rightarrow> (string \<times> string \<times> string) option \<times> store" where
  "announce_inherited_pause fan_out now = (\<lambda>(hs, st).
     case inherited hs of None \<Rightarrow> (None, st)
     | Some ih \<Rightarrow>
         (case lease_age_seconds now (wm_updated_at PAUSE_WM_SOURCE PAUSE_ANNOUNCE_WM_KEY st) of
            Some age \<Rightarrow> if age < PAUSE_ANNOUNCE_FLOOR_SECONDS * second then (None, st)
              else if fan_out (announcement ih)
              then (Some (announcement ih), wm_set now PAUSE_WM_SOURCE PAUSE_ANNOUNCE_WM_KEY (JRaw ''announced'') st)
              else (None, st)
          | None \<Rightarrow> if fan_out (announcement ih)
              then (Some (announcement ih), wm_set now PAUSE_WM_SOURCE PAUSE_ANNOUNCE_WM_KEY (JRaw ''announced'') st)
              else (None, st)))"

end
