(* ===== verification/Pause_Safety.thy ===== *)
theory Pause_Safety
  imports Pool_Pause
begin

text \<open>
  The hold protocol of the pool as a transition system: calls of \<open>pause\<close>, process restarts, boot
  announcements, and everything else that writes the database without touching the hold's rows. Its
  invariant ties the three places a hold is recorded together: the flag in memory, the watermark row
  and the journal.
\<close>

section \<open>Reading back the watermarks\<close>

lemma find_wm_set:
  assumes "(src', key') \<noteq> (src, key)"
  shows "find (wm_at src' key') (watermarks (wm_set now src key v st)) = find (wm_at src' key') (watermarks st)"
proof -
  have "map_option (\<lambda>r. if wm_at src key r then r\<lparr>w_value := v, w_updated_at := now_iso now\<rparr> else r)
      (find (wm_at src' key') (watermarks st)) = find (wm_at src' key') (watermarks st)"
    using assms by (cases "find (wm_at src' key') (watermarks st)") (auto simp: wm_at_def dest!: find_keyD)
  then show ?thesis using assms
    by (auto simp: wm_set_def find_upd_where find_append wm_at_def split: option.splits)
qed

lemma wm_updated_set_other:
  "(src', key') \<noteq> (src, key) \<Longrightarrow> wm_updated_at src' key' (wm_set now src key v st) = wm_updated_at src' key' st"
  by (simp add: wm_updated_at_def find_wm_set)

lemma wm_updated_set: "wm_updated_at src key (wm_set now src key v st) = Some (now_iso now)"
proof (cases "find (wm_at src key) (watermarks st)")
  case None
  then have "\<not> list_ex (wm_at src key) (watermarks st)" by (auto simp: list_ex_iff find_None_iff)
  then show ?thesis using None by (simp add: wm_updated_at_def wm_set_def find_append wm_at_def)
next
  case (Some r)
  then have "list_ex (wm_at src key) (watermarks st)" using find_keyD by (fastforce simp: list_ex_iff)
  then show ?thesis using Some find_keyD [OF Some] by (simp add: wm_updated_at_def wm_set_def find_upd_where wm_at_def)
qed

lemma wm_set_rest [simp]:
  "pause_journal (wm_set now src key v st) = pause_journal st" "pause_seq (wm_set now src key v st) = pause_seq st"
  "hold_journal (wm_set now src key v st) = hold_journal st" "hold_seq (wm_set now src key v st) = hold_seq st"
  "queue (wm_set now src key v st) = queue st" "runs (wm_set now src key v st) = runs st"
  "queue_seq (wm_set now src key v st) = queue_seq st" "max_attempts (wm_set now src key v st) = max_attempts st"
  by (simp_all add: wm_set_def)

lemma journal_pause_rest [simp]:
  "watermarks (journal_pause now val kind actor st) = watermarks st"
  "queue (journal_pause now val kind actor st) = queue st" "runs (journal_pause now val kind actor st) = runs st"
  by (simp_all add: journal_pause_def pause_journal_append_def Let_def)

lemma wm_get_journal [simp]:
  "wm_get src key (journal_pause now val kind actor st) = wm_get src key st"
  "wm_updated_at src key (journal_pause now val kind actor st) = wm_updated_at src key st"
  by (simp_all add: wm_get_def wm_updated_at_def)

lemma iso_utc_nonempty [simp]: "iso_utc n \<noteq> []"
  by (simp add: iso_utc_def isoformat_def date_text_def Let_def split: prod.splits)

lemma lease_age_iso: "in_range t \<Longrightarrow> lease_age_seconds now (Some (iso_utc t)) = Some (int now - int t)"
  by (simp add: lease_age_seconds_def del: max_wall_eq)

lemmas wm_read = wm_get_set wm_get_set_other wm_updated_set wm_updated_set_other

section \<open>The transition system\<close>

definition stored_flag :: "store \<Rightarrow> bool" where
  "stored_flag st \<longleftrightarrow> map_option column_text (wm_get PAUSE_WM_SOURCE PAUSE_WM_KEY st) = Some (flag_text True)"

definition stored_holder :: "store \<Rightarrow> string" where
  "stored_holder st = holder_kind (wm_get PAUSE_WM_SOURCE PAUSE_WM_HOLDER_KEY st)"

text \<open>A write that leaves the hold's rows and its journal alone, as every operation of the queue is.\<close>

definition same_hold :: "store \<Rightarrow> store \<Rightarrow> bool" where
  "same_hold st st' \<longleftrightarrow> pause_journal st' = pause_journal st \<and> pause_seq st' = pause_seq st \<and>
     (\<forall>key \<in> {PAUSE_WM_KEY, PAUSE_WM_HOLDER_KEY}. wm_get PAUSE_WM_SOURCE key st' = wm_get PAUSE_WM_SOURCE key st \<and>
        wm_updated_at PAUSE_WM_SOURCE key st' = wm_updated_at PAUSE_WM_SOURCE key st)"

inductive quiet_step :: "hold_state \<times> store \<Rightarrow> hold_state \<times> store \<Rightarrow> bool" where
  quiet_automod: "quiet_step s (pause now on ''automod'' kind actor s)"
| quiet_boot: "quiet_step (hs, st) (boot_holds now st)"
| quiet_announce: "quiet_step (hs, st) (hs, snd (announce_inherited_pause fan_out now (hs, st)))"
| quiet_other: "same_hold st st' \<Longrightarrow> quiet_step (hs, st) (hs, st')"

inductive hold_step :: "hold_state \<times> store \<Rightarrow> hold_state \<times> store \<Rightarrow> bool" where
  step_quiet: "quiet_step s t \<Longrightarrow> hold_step s t"
| step_pause: "hold_step s (pause now on owner kind actor s)"

definition first_boot :: "hold_state \<times> store \<Rightarrow> bool" where
  "first_boot s \<longleftrightarrow> (\<exists>now cap. s = boot_holds now (empty_store cap))"

definition hold_consistent :: "hold_state \<times> store \<Rightarrow> bool" where
  "hold_consistent = (\<lambda>(hs, st). pause_inv st \<and> paused_operator hs = stored_flag st \<and>
     length (open_stack st) = (if paused_operator hs then 1 else 0))"


lemma keys_differ [simp]:
  "PAUSE_WM_KEY \<noteq> PAUSE_WM_HOLDER_KEY" "PAUSE_WM_HOLDER_KEY \<noteq> PAUSE_WM_KEY"
  "PAUSE_WM_KEY \<noteq> PAUSE_ANNOUNCE_WM_KEY" "PAUSE_WM_HOLDER_KEY \<noteq> PAUSE_ANNOUNCE_WM_KEY"
  "PAUSE_ANNOUNCE_WM_KEY \<noteq> PAUSE_WM_KEY" "PAUSE_ANNOUNCE_WM_KEY \<noteq> PAUSE_WM_HOLDER_KEY"
  by (simp_all add: pause_keys)

lemma flag_text_inj [simp]: "flag_text a = flag_text b \<longleftrightarrow> a = b"
  by (simp add: flag_text_def)

lemma stored_flag_set [simp]:
  "stored_flag (wm_set now PAUSE_WM_SOURCE PAUSE_WM_KEY (pause_flag on) st) = on"
  "stored_flag (wm_set now PAUSE_WM_SOURCE PAUSE_WM_HOLDER_KEY v st) = stored_flag st"
  "stored_flag (journal_pause now val kind actor st) = stored_flag st"
  by (simp_all add: stored_flag_def wm_read)

lemma stored_holder_set [simp]:
  "stored_holder (wm_set now PAUSE_WM_SOURCE PAUSE_WM_KEY v st) = stored_holder st"
  "stored_holder (journal_pause now val kind actor st) = stored_holder st"
  by (simp_all add: stored_holder_def wm_read)

lemma wm_set_journal [simp]:
  "pause_inv (wm_set now src key v st) = pause_inv st" "open_stack (wm_set now src key v st) = open_stack st"
  by (simp_all add: pause_inv_def open_stack_def)

lemma journal_pause_inv: "pause_inv st \<Longrightarrow> pause_inv (journal_pause now val kind actor st)"
  unfolding journal_pause_def by (metis pause_inv_append prod.collapse)

lemma journal_pause_stack:
  "pause_inv st \<Longrightarrow> open_stack (journal_pause now (flag_text on) kind actor st) =
     (if on then Suc (pause_seq st) # open_stack st else tl (open_stack st))"
  unfolding journal_pause_def
  by (subst pause_append_stack [OF _ prod.collapse [symmetric]])
    (simp_all add: flag_text_def pause_journal_append_def Let_def)

section \<open>What each operation does to the record of the hold\<close>

text \<open>An operator call that changes nothing refreshes the holder row, one that does moves all three records.\<close>

lemma pause_operator:
  assumes "owner \<noteq> ''automod''" "pause now on owner kind actor (hs, st) = (hs', st')"
  shows "paused_operator hs' = on" "inherited hs' = inherited hs" "\<not> on \<Longrightarrow> \<not> paused_automod hs'"
    and "stored_flag st' = (if on \<noteq> paused_operator hs then on else stored_flag st)"
    and "pause_inv st \<Longrightarrow> pause_inv st'"
    and "pause_inv st \<Longrightarrow> open_stack st' = (if on = paused_operator hs then open_stack st
           else if on then Suc (pause_seq st) # open_stack st else tl (open_stack st))"
  using assms journal_pause_inv
  by (auto simp: pause_def Let_def journal_pause_stack split: if_splits)

lemma pause_holder:
  "owner \<noteq> ''automod'' \<Longrightarrow> stored_holder (snd (pause now True owner kind actor s)) =
     (if kind = HOLDER_MACHINE then HOLDER_MACHINE else HOLDER_PERSON)"
  by (simp add: pause_def Let_def stored_holder_def wm_read holder_kind_def holder_kinds column_text_def split_beta)

lemma pause_automod: "pause now on ''automod'' kind actor (hs, st) = (hs\<lparr>paused_automod := on\<rparr>, st)"
  by (simp add: pause_def Let_def)

lemma pause_state_fields:
  "ps_paused (operator_pause_state now st) = stored_flag st"
  "ps_holder (operator_pause_state now st) = (if stored_flag st then Some (stored_holder st) else None)"
  "ps_since (operator_pause_state now st) = (if stored_flag st then wm_updated_at PAUSE_WM_SOURCE PAUSE_WM_KEY st else None)"
  "ps_lease_age (operator_pause_state now st) = (if stored_flag st \<and> stored_holder st = HOLDER_MACHINE
     then lease_age_seconds now (wm_updated_at PAUSE_WM_SOURCE PAUSE_WM_HOLDER_KEY st) else None)"
  unfolding operator_pause_state_def stored_flag_def stored_holder_def Let_def by auto

text \<open>The hold a start may drop: a machine's, whose lease is stale.\<close>

definition dead_hold :: "nat \<Rightarrow> store \<Rightarrow> bool" where
  "dead_hold now st \<longleftrightarrow> stored_flag st \<and> stored_holder st = HOLDER_MACHINE \<and>
     lease_is_stale (lease_age_seconds now (wm_updated_at PAUSE_WM_SOURCE PAUSE_WM_HOLDER_KEY st))"

lemma boot_keeps:
  assumes "\<not> dead_hold now st"
  shows "snd (boot_holds now st) = st" "paused_operator (fst (boot_holds now st)) = stored_flag st"
  using assms
  by (auto simp: boot_holds_def load_operator_pause_def pause_state_fields dead_hold_def Let_def
      release_dead_machine_pause_def split: prod.splits if_splits)

lemma boot_releases:
  assumes "dead_hold now st"
  shows "snd (boot_holds now st) = journal_pause now (flag_text False) HOLDER_MACHINE PAUSE_ACTOR_RECONCILE
      (wm_set now PAUSE_WM_SOURCE PAUSE_WM_KEY (pause_flag False) st)"
    and "\<not> paused_operator (fst (boot_holds now st))"
  using assms
  by (auto simp: boot_holds_def load_operator_pause_def pause_state_fields dead_hold_def Let_def or_else_def
      release_dead_machine_pause_def HOLDER_MACHINE_def split: prod.splits if_splits)

lemma boot_automod: "\<not> paused_automod (fst (boot_holds now st))"
  by (simp add: boot_holds_def split: prod.splits)

lemma announce_same: "same_hold st (snd (announce_inherited_pause fan_out now (hs, st)))"
  by (auto simp: announce_inherited_pause_def same_hold_def wm_read split: option.splits)

lemma same_holdD:
  assumes "same_hold st st'"
  shows "stored_flag st' = stored_flag st" "stored_holder st' = stored_holder st"
    "pause_inv st' = pause_inv st" "open_stack st' = open_stack st"
    "operator_pause_state now st' = operator_pause_state now st"
    "wm_updated_at PAUSE_WM_SOURCE PAUSE_WM_KEY st' = wm_updated_at PAUSE_WM_SOURCE PAUSE_WM_KEY st"
  using assms
  by (simp_all add: same_hold_def stored_flag_def stored_holder_def operator_pause_state_def
      pause_inv_def open_stack_def cong: if_cong)

section \<open>The invariant\<close>

lemma consistent_start: "first_boot s \<Longrightarrow> hold_consistent s"
proof -
  have "\<not> stored_flag (empty_store cap)" for cap
    by (simp add: stored_flag_def wm_get_def empty_store_def)
  moreover have "pause_inv (empty_store cap)" "open_stack (empty_store cap) = []" for cap
    by (auto simp: pause_inv_def open_stack_def open_takes_def empty_store_def)
  ultimately show "first_boot s \<Longrightarrow> hold_consistent s"
    using boot_keeps by (auto simp: first_boot_def hold_consistent_def dead_hold_def split: prod.splits)
      (metis fst_conv snd_conv)+
qed

lemma consistent_boot:
  assumes "hold_consistent (hs, st)"
  shows "hold_consistent (boot_holds now st)"
proof (cases "dead_hold now st")
  case True
  let ?st = "wm_set now PAUSE_WM_SOURCE PAUSE_WM_KEY (pause_flag False) st"
  have "stored_flag st" using True by (simp add: dead_hold_def)
  then have "pause_inv ?st" "tl (open_stack ?st) = []" using assms
    by (auto simp: hold_consistent_def length_Suc_conv)
  then show ?thesis using boot_releases [OF True] journal_pause_inv [of ?st] journal_pause_stack [of ?st]
    by (cases "boot_holds now st") (auto simp: hold_consistent_def)
next
  case False
  then show ?thesis using boot_keeps [OF False] assms
    by (cases "boot_holds now st") (auto simp: hold_consistent_def)
qed

lemma consistent_quiet: "quiet_step s t \<Longrightarrow> hold_consistent s \<Longrightarrow> hold_consistent t"
proof (induction rule: quiet_step.induct)
  case (quiet_automod s now on kind actor)
  then show ?case by (cases s) (auto simp: pause_automod hold_consistent_def)
next
  case (quiet_boot hs st now)
  then show ?case by (rule consistent_boot)
next
  case (quiet_announce hs st fan_out now)
  then show ?case using same_holdD [OF announce_same [of st fan_out now hs]] by (simp add: hold_consistent_def)
next
  case (quiet_other st st' hs)
  then show ?case using same_holdD [OF quiet_other(1)] by (simp add: hold_consistent_def)
qed

lemma consistent_pause: "hold_consistent s \<Longrightarrow> hold_consistent (pause now on owner kind actor s)"
proof -
  assume inv: "hold_consistent s"
  obtain hs st hs' st' where s: "s = (hs, st)" and p: "pause now on owner kind actor (hs, st) = (hs', st')"
    by (metis surj_pair)
  show ?thesis
  proof (cases "owner = ''automod''")
    case True
    then show ?thesis using inv s by (simp add: pause_automod hold_consistent_def)
  next
    case False
    then show ?thesis using inv pause_operator [OF False p] s p by (auto simp: hold_consistent_def length_Suc_conv)
  qed
qed

interpretation holds: invariant_system first_boot hold_step hold_consistent
proof unfold_locales
  show "first_boot s \<Longrightarrow> hold_consistent s" for s by (rule consistent_start)
  show "hold_step s t \<Longrightarrow> hold_consistent s \<Longrightarrow> hold_consistent t" for s t
    by (induction rule: hold_step.induct) (auto intro: consistent_quiet consistent_pause)
qed

section \<open>A person's hold\<close>

text \<open>What stays as it is while nobody makes an operator call: the hold, its kind and the instant it began.\<close>

definition person_hold :: "string option \<Rightarrow> hold_state \<times> store \<Rightarrow> bool" where
  "person_hold since = (\<lambda>(hs, st). paused_operator hs \<and> stored_flag st \<and> stored_holder st \<noteq> HOLDER_MACHINE \<and>
     wm_updated_at PAUSE_WM_SOURCE PAUSE_WM_KEY st = since)"

lemma person_hold_quiet: "quiet_step s t \<Longrightarrow> person_hold since s \<Longrightarrow> person_hold since t"
proof (induction rule: quiet_step.induct)
  case (quiet_automod s now on kind actor)
  then show ?case by (cases s) (auto simp: pause_automod person_hold_def)
next
  case (quiet_boot hs st now)
  then have "\<not> dead_hold now st" by (simp add: person_hold_def dead_hold_def)
  then show ?case using boot_keeps [of now st] quiet_boot
    by (cases "boot_holds now st") (auto simp: person_hold_def)
next
  case (quiet_announce hs st fan_out now)
  then show ?case using same_holdD [OF announce_same [of st fan_out now hs]] by (simp add: person_hold_def)
next
  case (quiet_other st st' hs)
  then show ?case using same_holdD [OF quiet_other(1)] by (simp add: person_hold_def)
qed

lemma person_hold_steps: "quiet_step\<^sup>*\<^sup>* s t \<Longrightarrow> person_hold since s \<Longrightarrow> person_hold since t"
  by (induction rule: rtranclp_induct) (auto intro: person_hold_quiet)

end
