(* ===== verification/Pause_Theorems.thy ===== *)
theory Pause_Theorems
  imports Pause_Safety
begin

text \<open>The properties of the pool's holds, over every sequence of calls, restarts and unrelated writes.\<close>

text \<open>
  C33. However \<open>pause\<close>, restarts and boot announcements interleave, the flag in memory, the watermark
  row and the journal tell the same story: the database reads as held exactly when the pool holds,
  and the journal then has exactly one hold open, and none otherwise.
\<close>

theorem hold_records_agree:
  assumes "reach first_boot hold_step (hs, st)"
  shows "ps_paused (operator_pause_state now st) = paused_operator hs \<and>
    length (open_stack st) = (if paused_operator hs then 1 else 0)"
  using holds.reach_inv [OF assms] by (simp add: hold_consistent_def pause_state_fields)

text \<open>A start on an empty database, then a hold taken by a person at the instant 1.\<close>

definition boot0 :: "hold_state \<times> store" where
  "boot0 = boot_holds 0 (empty_store (JInt 3))"

definition held1 :: "hold_state \<times> store" where
  "held1 = pause 1 True ''operator'' ''person'' (Some ''alan'') boot0"

lemma boot0_reach: "reach first_boot hold_step boot0"
  by (rule reach_start) (auto simp: first_boot_def boot0_def)

lemma held1_reach: "reach first_boot hold_step held1"
  unfolding held1_def by (rule reach_step [OF boot0_reach step_pause])

lemma boot0_open: "\<not> paused_operator (fst boot0)"
  by (simp add: boot0_def boot_keeps dead_hold_def stored_flag_def wm_get_def empty_store_def)

lemma held1_paused: "paused_operator (fst held1)"
  using pause_operator(1) [of "''operator''" 1 True "''person''" "Some ''alan''" "fst boot0" "snd boot0"]
  by (cases held1) (simp add: held1_def)

lemma held1_holder: "stored_holder (snd held1) = HOLDER_PERSON"
  by (simp add: held1_def pause_holder HOLDER_MACHINE_def)

lemma held1_flag: "stored_flag (snd held1)"
  using holds.reach_inv [OF held1_reach] held1_paused by (simp add: hold_consistent_def split_beta)

theorem hold_records_agree_witness:
  "ps_paused (operator_pause_state 5 (snd held1)) \<and> length (open_stack (snd held1)) = 1"
  using hold_records_agree [of "fst held1" "snd held1" 5] held1_reach held1_paused by simp

text \<open>
  A person's hold is durable: whatever restarts, landings, boot announcements and queue writes
  follow, as long as nobody makes an operator call, the pool stays held, it reports the same
  instant the hold began, and it claims nothing.
\<close>

theorem person_hold_durable:
  assumes "reach first_boot hold_step (hs, st)" "paused_operator hs"
    and "pool_holder_kind now (hs, st) = Some HOLDER_PERSON"
    and "quiet_step\<^sup>*\<^sup>* (hs, st) (hs', st')"
  shows "pool_paused hs' \<and> paused_since now' (hs', st') = paused_since now (hs, st)"
proof -
  have flag: "stored_flag st" using holds.reach_inv [OF assms(1)] assms(2) by (simp add: hold_consistent_def)
  have "stored_holder st \<noteq> HOLDER_MACHINE" using assms(2,3) flag
    by (simp add: pool_holder_kind_def pause_state_fields holder_kinds)
  then have "person_hold (wm_updated_at PAUSE_WM_SOURCE PAUSE_WM_KEY st) (hs, st)"
    using assms(2) flag by (simp add: person_hold_def)
  from person_hold_steps [OF assms(4) this] show ?thesis
    using assms(2) flag by (auto simp: person_hold_def pool_paused_def paused_since_def pause_state_fields)
qed

theorem person_hold_durable_witness:
  "pool_paused (fst (boot_holds 9 (snd (boot_holds 7 (snd held1)))))"
proof -
  let ?hs = "fst held1" and ?st = "snd held1"
  have "quiet_step (?hs, ?st) (boot_holds 7 ?st)" "quiet_step (boot_holds 7 ?st) (boot_holds 9 (snd (boot_holds 7 ?st)))"
    using quiet_boot [of "fst (boot_holds 7 ?st)" "snd (boot_holds 7 ?st)" 9] quiet_boot [of ?hs ?st 7] by simp_all
  then have "quiet_step\<^sup>*\<^sup>* (?hs, ?st) (boot_holds 9 (snd (boot_holds 7 ?st)))" by (meson r_into_rtranclp rtranclp.rtrancl_into_rtrancl)
  moreover have "pool_holder_kind 5 (?hs, ?st) = Some HOLDER_PERSON"
    using held1_paused held1_holder held1_flag by (simp add: pool_holder_kind_def pause_state_fields split_beta)
  ultimately show ?thesis
    using person_hold_durable [of ?hs ?st 5 "fst (boot_holds 9 (snd (boot_holds 7 ?st)))" "snd (boot_holds 9 (snd (boot_holds 7 ?st)))"]
      held1_reach held1_paused by simp
qed

text \<open>The hold a start judges: a machine's, whose lease it reads as stale.\<close>

definition lapsed :: "nat \<Rightarrow> store \<Rightarrow> bool" where
  "lapsed now st \<longleftrightarrow> ps_holder (operator_pause_state now st) = Some HOLDER_MACHINE \<and>
     lease_is_stale (ps_lease_age (operator_pause_state now st))"

lemma lapsed_dead: "lapsed now st \<longleftrightarrow> dead_hold now st"
  by (auto simp: lapsed_def dead_hold_def pause_state_fields)

lemma release_row:
  assumes "hold_consistent (hs, st)" "dead_hold now st"
  shows "\<exists>row. pause_journal (snd (boot_holds now st)) = pause_journal st @ [row] \<and> p_value row = ''0'' \<and>
    p_holder_kind row = HOLDER_MACHINE \<and> p_actor row = PAUSE_ACTOR_RECONCILE \<and> p_hold_id row = Some (hd (open_stack st))"
proof -
  have open1: "open_stack st \<noteq> []" and pinv: "pause_inv st"
    using assms by (auto simp: dead_hold_def hold_consistent_def)
  have "newest_id p_id (open_takes (pause_journal st)) = Some (hd (open_stack st))"
    using open1 newest_id_last [OF open_takes_sorted [OF pinv]] by (auto simp: open_stack_def hd_rev last_map)
  then show ?thesis using boot_releases(1) [OF assms(2)]
    by (simp add: journal_pause_def pause_journal_append_def Let_def flag_text_def)
qed

text \<open>
  A restart keeps a hold unless it is a machine's whose lease is stale, and that one it releases
  for good: the watermark and the journal are closed by a row that names the reconciliation and the
  hold it ends, so the next start finds nothing. A landing's in-memory hold never survives.
\<close>

theorem restart_reconciles:
  assumes "reach first_boot hold_step (hs, st)" "boot_holds now st = (hs', st')"
  shows "\<not> paused_automod hs' \<and>
    (if lapsed now st
     then \<not> paused_operator hs' \<and> \<not> ps_paused (operator_pause_state later st') \<and>
       (\<exists>row. pause_journal st' = pause_journal st @ [row] \<and> p_value row = ''0'' \<and> p_holder_kind row = HOLDER_MACHINE \<and>
          p_actor row = PAUSE_ACTOR_RECONCILE \<and> p_hold_id row = Some (hd (open_stack st)))
     else paused_operator hs' = paused_operator hs \<and> st' = st)"
proof -
  note inv = holds.reach_inv [OF assms(1)]
  have auto: "\<not> paused_automod hs'" using boot_automod [of now st] assms(2) by simp
  show ?thesis
  proof (cases "dead_hold now st")
    case True
    then show ?thesis using auto boot_releases [OF True] release_row [OF inv True] assms(2) lapsed_dead
      by (simp add: pause_state_fields)
  next
    case False
    then show ?thesis using auto boot_keeps [OF False] inv assms(2) lapsed_dead by (simp add: hold_consistent_def)
  qed
qed

text \<open>A measurement window taken by a process that does not come back, and the start ten minutes later.\<close>

definition machine1 :: "hold_state \<times> store" where
  "machine1 = pause 1 True ''operator'' ''machine'' (Some ''eval'') boot0"

lemma machine1_reach: "reach first_boot hold_step machine1"
  unfolding machine1_def by (rule reach_step [OF boot0_reach step_pause])

lemma machine1_lapsed: "lapsed 600000001 (snd machine1)"
proof -
  have "paused_operator (fst machine1)"
    using pause_operator(1) [of "''operator''" 1 True "''machine''" "Some ''eval''" "fst boot0" "snd boot0"]
    by (cases machine1) (simp add: machine1_def)
  then have "stored_flag (snd machine1)" using holds.reach_inv [OF machine1_reach] by (simp add: hold_consistent_def split_beta)
  moreover have "stored_holder (snd machine1) = HOLDER_MACHINE"
    by (simp add: machine1_def pause_holder HOLDER_MACHINE_def)
  moreover have "wm_updated_at PAUSE_WM_SOURCE PAUSE_WM_HOLDER_KEY (snd machine1) = Some (iso_utc 1)"
    by (simp add: machine1_def pause_def Let_def wm_read now_iso_def split_beta)
  moreover have "lease_age_seconds 600000001 (Some (iso_utc 1)) = Some 600000000"
    by (simp add: lease_age_iso)
  ultimately show ?thesis
    by (simp add: lapsed_dead dead_hold_def lease_is_stale_def MACHINE_LEASE_STALE_SECONDS_def)
qed

theorem restart_reconciles_witness:
  "\<not> paused_operator (fst (boot_holds 600000001 (snd machine1)))"
  using restart_reconciles [of "fst machine1" "snd machine1" 600000001 _ _ 0, OF _ prod.collapse [symmetric]]
    machine1_reach machine1_lapsed by simp

end
