(* ===== verification/Pool_Gates.thy ===== *)
theory Pool_Gates
  imports Journals Complex_Main
begin

text \<open>
  The gates that decide which sources a claim may take (\<open>workers/pool.py\<close>): the KV gate, the round
  hold with its bounded exemptions, and the primary reachability hold, together with the ring of
  engine samples the first two read (\<open>app/engine_pressure.py\<close>) and the journal row of every
  transition.

  A \<open>float\<close> is the rational number it stands for and arithmetic on it is exact; times read from
  \<open>time.monotonic\<close> and \<open>time.time\<close> are rationals in seconds. \<open>gate_env\<close> holds what a claim attempt reads from outside
  the pool: the registry, the three configuration blocks (a missing key is \<^term>\<open>None\<close>), the sample ring, the
  two clocks, the answer of the engine's health endpoint and the landing marker. Log lines are left out.
\<close>

section \<open>Engine samples\<close>

record sample =
  sm_t :: rat
  sm_wall :: rat
  sm_kv :: "rat option"
  sm_running :: "int option"
  sm_waiting :: "int option"

definition STALE_AFTER_S :: rat where "STALE_AFTER_S = 30"

definition record_sample :: "rat \<Rightarrow> sample \<Rightarrow> sample list \<Rightarrow> sample list" where
  "record_sample window s ring = dropWhile (\<lambda>x. sm_t x < sm_t s - window) (ring @ [s])"

definition latest :: "rat \<Rightarrow> rat \<Rightarrow> sample list \<Rightarrow> sample option" where
  "latest max_age now ring =
     (if ring = [] then None else if now - sm_t (last ring) \<le> max_age then Some (last ring) else None)"

definition samples_since :: "rat \<Rightarrow> sample list \<Rightarrow> sample list" where
  "samples_since t0 ring = filter (\<lambda>s. t0 \<le> sm_t s) ring"

definition kv_percentile :: "rat \<Rightarrow> rat \<Rightarrow> rat \<Rightarrow> sample list \<Rightarrow> rat option" where
  "kv_percentile q window now ring =
     (let vals = sort (List.map_filter sm_kv (samples_since (now - window) ring));
          rank = max 0 (min (int (length vals) - 1) (\<lceil>q * of_nat (length vals)\<rceil> - 1))
      in if vals = [] then None else Some (vals ! nat rank))"

definition neighbours_during :: "rat \<Rightarrow> rat \<Rightarrow> sample list \<Rightarrow> int option" where
  "neighbours_during t0 now ring =
     (let vals = List.map_filter sm_running (filter (\<lambda>s. t0 \<le> sm_t s \<and> sm_t s \<le> now) ring)
      in if vals = [] then None else Some (max 0 (fold max vals (hd vals) - 1)))"

definition gate_reading :: "rat \<Rightarrow> rat \<Rightarrow> sample list \<Rightarrow> rat option" where
  "gate_reading window now ring =
     (if latest STALE_AFTER_S now ring = None then None else kv_percentile (1 / 2) window now ring)"

section \<open>Configuration\<close>

record source_module =
  m_name :: string
  m_long_lived :: bool
  m_repoll_on_complete :: bool
  m_charge_task_on_death :: bool

type_synonym registry = "(string \<times> source_module) list"

record kv_cfg =
  kc_enabled :: "bool option"
  kc_max_kv_usage :: "rat option"
  kc_window_seconds :: "rat option"

record exempt_bound =
  eb_sources :: "string list option"
  eb_max_exempt_inflight :: "int option"
  eb_kv_median_above :: "rat option"

text \<open>
  The key \<open>exempt_bound\<close> may be missing (\<^term>\<open>None\<close>), present and naming no bound, an empty mapping or a
  value that is not one (\<^term>\<open>Some None\<close>), or a bound.
\<close>

record round_cfg =
  rc_enabled :: "bool option"
  rc_exempt :: "string list option"
  rc_exempt_bound :: "exempt_bound option option"

record primary_cfg =
  pc_enabled :: "bool option"
  pc_sources :: "string list option"
  pc_probe_seconds :: "rat option"
  pc_probe_timeout_s :: "rat option"

definition or_default :: "'a option \<Rightarrow> 'a \<Rightarrow> 'a" where
  "or_default v d = (case v of None \<Rightarrow> d | Some x \<Rightarrow> x)"

definition DEFAULT_KV_GATE_MAX :: rat where "DEFAULT_KV_GATE_MAX = 3 / 5"
definition DEFAULT_KV_GATE_WINDOW_S :: rat where "DEFAULT_KV_GATE_WINDOW_S = 60"
definition ROUND_SOURCE :: string where "ROUND_SOURCE = ''autocode''"
definition LANDING_PROBE_SECONDS :: rat where "LANDING_PROBE_SECONDS = 5"
definition DEFAULT_ROUND_HOLD_EXEMPT :: "string list" where "DEFAULT_ROUND_HOLD_EXEMPT = [''scheduled-task'']"
definition DEFAULT_ROUND_HOLD_EXEMPT_BOUND :: exempt_bound where
  "DEFAULT_ROUND_HOLD_EXEMPT_BOUND =
     \<lparr>eb_sources = Some [''scheduled-task''], eb_max_exempt_inflight = None, eb_kv_median_above = Some (3 / 5)\<rparr>"
definition PRIMARY_PROBE_SECONDS :: rat where "PRIMARY_PROBE_SECONDS = 10"
definition PRIMARY_PROBE_TIMEOUT_S :: rat where "PRIMARY_PROBE_TIMEOUT_S = 2"
definition DEFAULT_PRIMARY_HOLD_SOURCES :: "string list" where "DEFAULT_PRIMARY_HOLD_SOURCES = [ROUND_SOURCE]"

definition round_hold_exempt_bound :: "round_cfg \<Rightarrow> exempt_bound option" where
  "round_hold_exempt_bound cfg = or_default (rc_exempt_bound cfg) (Some DEFAULT_ROUND_HOLD_EXEMPT_BOUND)"

text \<open>\<open>sorted(set(xs))\<close>.\<close>

definition sorted_set :: "string list \<Rightarrow> string list" where
  "sorted_set xs = order_by text_le (remdups xs)"

lemma set_sorted_set [simp]: "set (sorted_set xs) = set xs"
  by (simp add: sorted_set_def)

definition long_lived_sources :: "registry \<Rightarrow> string list" where
  "long_lived_sources reg = order_by text_le (map fst (filter (\<lambda>(_, m). m_long_lived m) reg))"

section \<open>The state of the gates\<close>

record flight =
  fl_source :: string
  fl_kind :: string
  fl_started_at :: string
  fl_worker :: string

record kv_gate =
  kg_engaged :: bool
  kg_since :: "string option"
  kg_engagements :: nat
  kg_usage :: "rat option"
  kg_held :: "string list"

record round_hold =
  rh_engaged :: bool
  rh_since :: "string option"
  rh_engagements :: nat
  rh_held :: "string list"
  rh_exempt_refused :: "(string \<times> nat) list"
  rh_bound_held :: "string list"

record primary_hold =
  ph_engaged :: bool
  ph_since :: "string option"
  ph_engagements :: nat
  ph_held :: "string list"
  ph_answering :: "bool option"
  ph_last_detail :: "string option"
  ph_last_probe :: rat
  ph_probing :: bool

record gates =
  g_kv :: kv_gate
  g_round :: round_hold
  g_primary :: primary_hold
  g_landing_probe :: "rat \<times> bool"
  g_landing_probe_running :: bool
  g_flights :: "(nat \<times> flight) list"

definition new_gates :: gates where
  "new_gates =
     \<lparr>g_kv = \<lparr>kg_engaged = False, kg_since = None, kg_engagements = 0, kg_usage = None, kg_held = []\<rparr>,
      g_round = \<lparr>rh_engaged = False, rh_since = None, rh_engagements = 0, rh_held = [],
        rh_exempt_refused = [], rh_bound_held = []\<rparr>,
      g_primary = \<lparr>ph_engaged = False, ph_since = None, ph_engagements = 0, ph_held = [],
        ph_answering = None, ph_last_detail = None, ph_last_probe = 0, ph_probing = False\<rparr>,
      g_landing_probe = (0, False), g_landing_probe_running = False, g_flights = []\<rparr>"

text \<open>
  What a health request can come to: it raises, or it is asked. Asking can still find the probe's
  module missing (\<^term>\<open>Inl\<close>); otherwise it gives the HTTP status, or \<^term>\<open>None\<close> when nothing answers.
\<close>

datatype probe_answer = Crashed string | Asked "string + int option"

record gate_env =
  ge_registry :: registry
  ge_kv_cfg :: kv_cfg
  ge_round_cfg :: round_cfg
  ge_primary_cfg :: primary_cfg
  ge_ring :: "sample list"
  ge_monotonic :: rat
  ge_time :: rat
  ge_get :: "rat \<Rightarrow> probe_answer"
  ge_landing :: bool

definition journal_gate :: "nat \<Rightarrow> string \<Rightarrow> string \<Rightarrow> string list \<Rightarrow> string \<Rightarrow> store \<Rightarrow> store" where
  "journal_gate now gate val held detail st =
     snd (hold_journal_append now gate val (Some (order_by text_le held)) detail None st)"

section \<open>The KV gate\<close>

text \<open>\<open>f'{100 * x:.0f}'\<close>: the nearest whole percent, a tie to the even one.\<close>

definition round_half_even :: "rat \<Rightarrow> int" where
  "round_half_even x = (let q = \<lfloor>x\<rfloor>; r = x - of_int q in if r < 1 / 2 \<or> (r = 1 / 2 \<and> even q) then q else q + 1)"

definition percent_text :: "rat \<Rightarrow> string" where
  "percent_text x = int_text (round_half_even (100 * x)) @ ''%''"

definition kv_gate_held :: "gate_env \<Rightarrow> nat \<Rightarrow> gates \<times> store \<Rightarrow> string list \<times> gates \<times> store" where
  "kv_gate_held env now = (\<lambda>(g, st).
     let cfg = ge_kv_cfg env;
         enabled = or_default (kc_enabled cfg) True;
         limit = or_default (kc_max_kv_usage cfg) DEFAULT_KV_GATE_MAX;
         window = or_default (kc_window_seconds cfg) DEFAULT_KV_GATE_WINDOW_S;
         kv = (if enabled then gate_reading window (ge_monotonic env) (ge_ring env) else None);
         engaged = (enabled \<and> (case kv of None \<Rightarrow> False | Some x \<Rightarrow> limit < x));
         held = (if engaged then long_lived_sources (ge_registry env) else []);
         gate = (g_kv g)\<lparr>kg_usage := kv\<rparr>
     in if engaged \<and> \<not> kg_engaged gate
        then (held,
          g\<lparr>g_kv := gate\<lparr>kg_engaged := True, kg_engagements := kg_engagements gate + 1,
             kg_since := Some (iso_utc now), kg_held := held\<rparr>\<rparr>,
          journal_gate now ''kv_gate'' ''engage'' held
            (''kv '' @ percent_text (the kv) @ '' > '' @ percent_text limit) st)
        else if \<not> engaged \<and> kg_engaged gate
        then (held,
          g\<lparr>g_kv := gate\<lparr>kg_engaged := False, kg_since := None, kg_held := []\<rparr>\<rparr>,
          journal_gate now ''kv_gate'' ''release'' (kg_held gate)
            (case kv of None \<Rightarrow> ''kv unknown'' | Some x \<Rightarrow> ''kv '' @ percent_text x) st)
        else (held, g\<lparr>g_kv := gate\<rparr>, st))"

section \<open>The round hold\<close>

definition landing_in_flight :: "gate_env \<Rightarrow> gates \<Rightarrow> bool \<times> gates" where
  "landing_in_flight env g =
     (case g_landing_probe g of (checked, v) \<Rightarrow>
        if ge_monotonic env - checked < LANDING_PROBE_SECONDS \<or> g_landing_probe_running g then (v, g)
        else (ge_landing env, g\<lparr>g_landing_probe := (ge_monotonic env, ge_landing env)\<rparr>))"

definition refresh_landing_probe :: "gate_env \<Rightarrow> gates \<Rightarrow> gates" where
  "refresh_landing_probe env g =
     (if ge_monotonic env - fst (g_landing_probe g) < LANDING_PROBE_SECONDS then g
      else if g_landing_probe_running g then g
      else g\<lparr>g_landing_probe := (ge_monotonic env, ge_landing env)\<rparr>)"

definition running_sources :: "gates \<Rightarrow> string list" where
  "running_sources g = map (\<lambda>(_, f). fl_source f) (g_flights g)"

fun bump :: "string \<Rightarrow> (string \<times> nat) list \<Rightarrow> (string \<times> nat) list" where
  "bump k [] = [(k, 1)]"
| "bump k ((k', n) # kvs) = (if k' = k then (k, n + 1) # kvs else (k', n) # bump k kvs)"

definition bound_covers :: "exempt_bound \<Rightarrow> string list \<Rightarrow> string list" where
  "bound_covers bound exempt =
     filter (\<lambda>s. s \<noteq> ROUND_SOURCE)
       (case eb_sources bound of None \<Rightarrow> exempt | Some sources \<Rightarrow> filter (\<lambda>s. s \<in> set exempt) sources)"

definition exempt_in_flight :: "string list \<Rightarrow> gates \<Rightarrow> int" where
  "exempt_in_flight exempt g =
     int (count_where (\<lambda>s. s \<in> set exempt \<and> s \<noteq> ROUND_SOURCE) (running_sources g))"

definition bound_over :: "gate_env \<Rightarrow> exempt_bound \<Rightarrow> string list \<Rightarrow> gates \<Rightarrow> bool" where
  "bound_over env bound exempt g \<longleftrightarrow> bound_covers bound exempt \<noteq> [] \<and>
     ((case eb_max_exempt_inflight bound of None \<Rightarrow> False | Some cap \<Rightarrow> cap \<le> exempt_in_flight exempt g) \<or>
      (case eb_kv_median_above bound of None \<Rightarrow> False
       | Some limit \<Rightarrow>
           (case gate_reading (or_default (kc_window_seconds (ge_kv_cfg env)) DEFAULT_KV_GATE_WINDOW_S)
               (ge_monotonic env) (ge_ring env) of None \<Rightarrow> False | Some kv \<Rightarrow> limit < kv)))"

definition exempt_bound_held :: "gate_env \<Rightarrow> string list \<Rightarrow> gates \<Rightarrow> string list \<times> gates" where
  "exempt_bound_held env exempt g =
     (let tripped = (case round_hold_exempt_bound (ge_round_cfg env) of None \<Rightarrow> []
            | Some bound \<Rightarrow> if bound_over env bound exempt g
                then order_by text_le (filter (\<lambda>n. n \<in> set (bound_covers bound exempt)) (map fst (ge_registry env)))
                else []);
          hold = g_round g;
          newly = filter (\<lambda>n. n \<notin> set (rh_bound_held hold)) tripped
      in (tripped, g\<lparr>g_round := hold\<lparr>rh_exempt_refused := fold bump newly (rh_exempt_refused hold),
                                      rh_bound_held := tripped\<rparr>\<rparr>))"

definition release_round_hold :: "nat \<Rightarrow> gates \<times> store \<Rightarrow> gates \<times> store" where
  "release_round_hold now = (\<lambda>(g, st).
     let hold = (g_round g)\<lparr>rh_bound_held := []\<rparr>
     in if rh_engaged hold
        then (g\<lparr>g_round := hold\<lparr>rh_engaged := False, rh_since := None, rh_held := []\<rparr>\<rparr>,
              journal_gate now ''round_hold'' ''release'' (rh_held hold) ''round no longer in flight'' st)
        else (g\<lparr>g_round := hold\<rparr>, st))"

definition round_hold_held :: "gate_env \<Rightarrow> nat \<Rightarrow> gates \<times> store \<Rightarrow> string list \<times> gates \<times> store" where
  "round_hold_held env now = (\<lambda>(g, st).
     let cfg = ge_round_cfg env in
     if \<not> or_default (rc_enabled cfg) True then ([], release_round_hold now (g, st))
     else
       let (protect, g1) = (if ROUND_SOURCE \<in> set (running_sources g) then (True, g) else landing_in_flight env g)
       in if \<not> protect then ([], release_round_hold now (g1, st))
          else
            let exempt = or_default (rc_exempt cfg) DEFAULT_ROUND_HOLD_EXEMPT @ [ROUND_SOURCE];
                (bound_held, g2) = exempt_bound_held env exempt g1;
                held = sorted_set (filter (\<lambda>n. n \<notin> set exempt) (map fst (ge_registry env)) @ bound_held);
                hold = g_round g2
            in if \<not> rh_engaged hold
               then (held,
                 g2\<lparr>g_round := hold\<lparr>rh_engaged := True, rh_engagements := rh_engagements hold + 1,
                    rh_since := Some (iso_utc now), rh_held := held\<rparr>\<rparr>,
                 journal_gate now ''round_hold'' ''engage'' held ROUND_SOURCE st)
               else (held, g2\<lparr>g_round := hold\<lparr>rh_held := held\<rparr>\<rparr>, st))"

section \<open>The primary reachability hold\<close>

definition primary_engine_answering :: "string + int option \<Rightarrow> bool \<times> string" where
  "primary_engine_answering answer =
     (case answer of
        Inl e \<Rightarrow> (True, ''probe unavailable ('' @ e @ '')'')
      | Inr None \<Rightarrow> (False, ''no answer (connection refused or timed out)'')
      | Inr (Some status) \<Rightarrow>
          if status = 200 then (True, ''HTTP 200'') else (False, ''HTTP '' @ int_text status))"

definition primary_probe :: "gate_env \<Rightarrow> primary_hold \<Rightarrow> primary_hold" where
  "primary_probe env ph =
     (let cfg = ge_primary_cfg env in
      if or_default (pc_enabled cfg) True \<and> \<not> ph_probing ph \<and>
         or_default (pc_probe_seconds cfg) PRIMARY_PROBE_SECONDS \<le> ge_time env - ph_last_probe ph
      then (case (case ge_get env (or_default (pc_probe_timeout_s cfg) PRIMARY_PROBE_TIMEOUT_S) of
                    Crashed e \<Rightarrow> (True, ''probe raised '' @ e)
                  | Asked answer \<Rightarrow> primary_engine_answering answer) of
              (answering, detail) \<Rightarrow>
                ph\<lparr>ph_last_probe := ge_time env, ph_answering := Some answering, ph_last_detail := Some detail\<rparr>)
      else ph)"

definition detail_text :: "primary_hold \<Rightarrow> string" where
  "detail_text ph = or_default (ph_last_detail ph) ''None''"

definition primary_hold_held :: "gate_env \<Rightarrow> nat \<Rightarrow> gates \<times> store \<Rightarrow> string list \<times> gates \<times> store" where
  "primary_hold_held env now = (\<lambda>(g, st).
     let cfg = ge_primary_cfg env;
         ph = primary_probe env (g_primary g);
         engaged = (or_default (pc_enabled cfg) True \<and> ph_answering ph = Some False);
         held = (if engaged
           then sorted_set (filter (\<lambda>n. n \<in> set (or_default (pc_sources cfg) DEFAULT_PRIMARY_HOLD_SOURCES))
                  (long_lived_sources (ge_registry env)))
           else [])
     in if engaged
        then
          if \<not> ph_engaged ph
          then (held,
            g\<lparr>g_primary := ph\<lparr>ph_held := held, ph_engaged := True, ph_engagements := ph_engagements ph + 1,
               ph_since := Some (iso_utc now)\<rparr>\<rparr>,
            journal_gate now ''primary_hold'' ''engage'' held (detail_text ph) st)
          else (held, g\<lparr>g_primary := ph\<lparr>ph_held := held\<rparr>\<rparr>, st)
        else if ph_engaged ph
        then (held,
          g\<lparr>g_primary := ph\<lparr>ph_engaged := False, ph_since := None, ph_held := []\<rparr>\<rparr>,
          journal_gate now ''primary_hold'' ''release'' (ph_held ph) (detail_text ph) st)
        else (held, g\<lparr>g_primary := ph\<rparr>, st))"

section \<open>All three\<close>

text \<open>
  The three gates are read in one step: what other coroutines do between their awaits is not modelled, only what they do before
  and after all three (\<open>worker_poll_race\<close>).
\<close>

definition claim_holds :: "gate_env \<Rightarrow> nat \<Rightarrow> gates \<times> store \<Rightarrow> string list \<times> gates \<times> store" where
  "claim_holds env now gs =
     (case primary_hold_held env now gs of (held1, gs1) \<Rightarrow>
      case kv_gate_held env now gs1 of (held2, g2, st2) \<Rightarrow>
      case round_hold_held env now (refresh_landing_probe env g2, st2) of (held3, gs3) \<Rightarrow>
        (sorted_set (held1 @ held2 @ held3), gs3))"

definition held_source_names :: "gates \<Rightarrow> string list" where
  "held_source_names g = sorted_set (rh_held (g_round g) @ kg_held (g_kv g) @ ph_held (g_primary g))"

end
