(* ===== verification/Evidence.thy ===== *)
theory Evidence
  imports Grant_Language Complex_Main
begin

text \<open>
  The evidence verifier of worker runs (\<open>workers/evidence.py\<close>): each claim of a run is checked against
  the disk when the run is recorded, and what did not verify is carried to the next run.

  The disk and the two library engines the checks call are a \<open>world\<close>: \<open>real_path\<close> is \<open>expanduser\<close>, the
  join with the root and \<open>Path.resolve\<close> (components, or the text of an \<open>OSError\<close>), \<open>node_at\<close> the file
  system, \<open>glob_count\<close> the regular files a glob finds, \<open>find_all\<close> and \<open>search_line\<close> the \<open>re\<close> module (the
  text of a \<open>re.error\<close>, or the hits), and \<open>json_loads\<close> the parser on a text. The fence parser
  \<open>parse_claims_block\<close> and the prompt texts are not modelled.
\<close>

section \<open>Floats\<close>

text \<open>\<open>float(v)\<close>. A finite value is the decimal itself, before it is rounded to 53 bits; digit-group underscores are not read.\<close>

datatype pyfloat = Fin rat | Infinite bool | NaN

definition float_bound :: rat where "float_bound = 2 ^ 1024 - 2 ^ 970"

definition ten_to :: "int \<Rightarrow> rat" where
  "ten_to k = (if 0 \<le> k then 10 ^ nat k else 1 / 10 ^ nat (- k))"

definition unsigned :: "string \<Rightarrow> bool \<times> string" where
  "unsigned s = (if startswith s ''-'' then (True, tl s) else (False, if startswith s ''+'' then tl s else s))"

definition exponent_of :: "string \<Rightarrow> int option" where
  "exponent_of s = (case unsigned s of (neg, d) \<Rightarrow>
     if all_digits d then Some ((if neg then -1 else 1) * digits_val d) else None)"

definition mantissa_of :: "string \<Rightarrow> (int \<times> nat) option" where
  "mantissa_of s = (let whole = takeWhile (\<lambda>c. c \<noteq> CHR ''.'') s; frac = tl (dropWhile (\<lambda>c. c \<noteq> CHR ''.'') s @ [CHR ''.''])
     in if CHR ''.'' \<notin> set s then (if all_digits s then Some (digits_val s, 0) else None)
        else let f = butlast frac in
          if all_digits (whole @ f) then Some (digits_val (whole @ f), length f) else None)"

definition float_text :: "string \<Rightarrow> pyfloat option" where
  "float_text s =
     (case unsigned (lower (strip s)) of (neg, body) \<Rightarrow>
        if body = ''inf'' \<or> body = ''infinity'' then Some (Infinite neg)
        else if body = ''nan'' then Some NaN
        else
          let m = takeWhile (\<lambda>c. c \<noteq> CHR ''e'') body; e = dropWhile (\<lambda>c. c \<noteq> CHR ''e'') body
          in case (mantissa_of m, if e = [] then Some 0 else exponent_of (tl e)) of
               (Some (digits, places), Some k) \<Rightarrow>
                 let v = (if neg then -1 else 1) * of_int digits * ten_to (k - int places)
                 in Some (if float_bound \<le> \<bar>v\<bar> then Infinite neg else Fin v)
             | _ \<Rightarrow> None)"

definition py_float :: "json \<Rightarrow> py_error + pyfloat" where
  "py_float v = (case v of
     JInt i \<Rightarrow> if float_bound \<le> \<bar>of_int i\<bar> then Inl OverflowError else Inr (Fin (of_int i))
   | JBool b \<Rightarrow> Inr (Fin (if b then 1 else 0))
   | JStr s \<Rightarrow> (case float_text s of None \<Rightarrow> Inl ValueError | Some f \<Rightarrow> Inr f)
   | _ \<Rightarrow> Inl TypeError)"

section \<open>The world a check reads\<close>

type_synonym path = "string list"

datatype node = Absent | Directory | Unreadable string | File nat string

record world =
  real_path :: "string \<Rightarrow> string + path"
  base_path :: path
  node_at :: "path \<Rightarrow> node"
  glob_count :: "path \<Rightarrow> string \<Rightarrow> nat"
  find_all :: "string \<Rightarrow> string \<Rightarrow> string + nat"
  search_line :: "string \<Rightarrow> string \<Rightarrow> string + bool"
  json_loads :: "string \<Rightarrow> string + json"

definition path_text :: "path \<Rightarrow> string" where
  "path_text p = ''/'' @ join ''/'' p"

definition is_dir :: "node \<Rightarrow> bool" where "is_dir n \<longleftrightarrow> n = Directory"

definition is_file :: "node \<Rightarrow> bool" where
  "is_file n \<longleftrightarrow> (case n of File _ _ \<Rightarrow> True | Unreadable _ \<Rightarrow> True | _ \<Rightarrow> False)"

definition MAX_CHECK_BYTES :: nat where "MAX_CHECK_BYTES = 8000000"
definition MAX_BUNDLE_CLAIMS :: nat where "MAX_BUNDLE_CLAIMS = 20"
definition MAX_GAP_ITEMS :: nat where "MAX_GAP_ITEMS = 12"
definition MAX_GAP_CHARS :: nat where "MAX_GAP_CHARS = 400"
definition CHECK_KINDS :: "string list" where "CHECK_KINDS = [''file_exists'', ''count_eq'', ''json_key'', ''regex'']"
definition COUNT_MEASURES :: "string list" where "COUNT_MEASURES = [''files'', ''bytes'', ''lines'', ''matches'']"
definition GAP_STATUSES :: "string list" where "GAP_STATUSES = [''refuted'', ''insufficient'']"
definition RUN_RECORDS_DIR :: string where "RUN_RECORDS_DIR = ''autonomy-runs''"

text \<open>
  What a check comes to: a status with the value observed and a detail, a \<open>re.error\<close> or an \<open>OSError\<close>
  raised inside it, or another exception. The one character beyond ASCII in the texts, the dash, is \<open>dash\<close>.
\<close>

datatype grade = Graded string json string | Re_Error string | Os_Error string | Escapes py_error

definition dash :: string where "dash = '' '' @ [CHR 0x97] @ '' ''"

definition insufficient :: "string \<Rightarrow> grade" where "insufficient detail = Graded ''insufficient'' JNull detail"
definition verified :: "json \<Rightarrow> grade" where "verified observed = Graded ''verified'' observed []"
definition refuted :: "json \<Rightarrow> string \<Rightarrow> grade" where "refuted observed detail = Graded ''refuted'' observed detail"

definition nat_json :: "nat \<Rightarrow> json" where "nat_json n = JInt (int n)"

definition resolve :: "world \<Rightarrow> json \<Rightarrow> string + path" where
  "resolve w v = (case v of
     JStr s \<Rightarrow>
       if strip s = [] then Inl ''check has no path''
       else (case real_path w s of
          Inl e \<Rightarrow> Inl (''path could not be resolved: '' @ e)
        | Inr target \<Rightarrow> if take (length (base_path w)) target = base_path w then Inr target
            else Inl (''path escapes the evidence root '' @ path_text (base_path w)))
   | _ \<Rightarrow> Inl ''check has no path'')"

fun commas :: "nat \<Rightarrow> string" where
  "commas n = (if n < 1000 then nat_text n else commas (n div 1000) @ '','' @ pad 3 (n mod 1000))"

declare commas.simps [simp del]

definition oversized_body :: "path \<Rightarrow> node \<Rightarrow> string \<Rightarrow> string \<Rightarrow> grade option" where
  "oversized_body target n check_name repair = (case n of
     File bytes _ \<Rightarrow>
       if bytes \<le> MAX_CHECK_BYTES then None
       else Some (insufficient (repair @ dash @ path_text target @ '' is '' @ commas bytes @ '' bytes, over the ''
         @ commas MAX_CHECK_BYTES @ ''-byte body-read cap, so the '' @ check_name
         @ '' check could not read the file it was pointed at''))
   | _ \<Rightarrow> None)"

definition directory_target :: "path \<Rightarrow> string \<Rightarrow> grade" where
  "directory_target target check_name =
     insufficient (path_text target @ '' is a directory, not a file'' @ dash @ ''the '' @ check_name
       @ '' check never ran, so bind the file inside it'')"

text \<open>Reading a body: the read itself may raise.\<close>

definition with_body :: "node \<Rightarrow> (string \<Rightarrow> grade) \<Rightarrow> grade" where
  "with_body n k = (case n of File _ body \<Rightarrow> k body | Unreadable e \<Rightarrow> Os_Error e | _ \<Rightarrow> Os_Error [])"

section \<open>The four checks\<close>

definition bool_word :: "bool \<Rightarrow> string" where "bool_word b = (if b then ''True'' else ''False'')"

definition check_file_exists :: "world \<Rightarrow> (string \<times> json) list \<Rightarrow> grade" where
  "check_file_exists w check =
     (case resolve w (dict_get check ''path'') of Inl e \<Rightarrow> insufficient e
      | Inr target \<Rightarrow>
          let want = (case map_of check ''expected'' of None \<Rightarrow> True
                | Some (JStr s) \<Rightarrow> lower (strip s) \<notin> {''false'', ''0'', ''no'', ''absent''}
                | Some v \<Rightarrow> truthy v);
              present = (node_at w target \<noteq> Absent)
          in if present = want then verified (JBool present)
             else refuted (JBool present) (''claimed exists='' @ bool_word want @ '', disk says exists=''
                    @ bool_word present @ '' ('' @ path_text target @ '')''))"

definition whole_run_record_corpus :: "world \<Rightarrow> path \<Rightarrow> string \<Rightarrow> bool" where
  "whole_run_record_corpus w target pattern \<longleftrightarrow>
     CHR ''/'' \<in> set pattern \<and> target = base_path w @ [RUN_RECORDS_DIR]"

definition is_break :: "char \<Rightarrow> bool" where
  "is_break c \<longleftrightarrow> (of_char c :: nat) \<in> {10, 11, 12, 13, 28, 29, 30}"

fun lines_from :: "string \<Rightarrow> string \<Rightarrow> string list" where
  "lines_from acc [] = (if acc = [] then [] else [rev acc])"
| "lines_from acc (c # cs) =
     (if c = CHR 0x0D \<and> startswith cs [CHR 0x0A] then rev acc # lines_from [] (tl cs)
      else if is_break c then rev acc # lines_from [] cs
      else lines_from (c # acc) cs)"

definition splitlines :: "string \<Rightarrow> string list" where
  "splitlines s = lines_from [] s"


text \<open>\<open>sum(1 for ln in lines if re.search(pattern, ln))\<close>: the first bad search stops the sum.\<close>

fun count_lines :: "world \<Rightarrow> json \<Rightarrow> string list \<Rightarrow> grade + nat" where
  "count_lines w pattern [] = Inr 0"
| "count_lines w pattern (l # ls) =
     (case pattern of
        JStr p \<Rightarrow> (case search_line w p l of Inl e \<Rightarrow> Inl (Re_Error e)
          | Inr hit \<Rightarrow> map_sum id (\<lambda>n. n + (if hit then 1 else 0)) (count_lines w pattern ls))
      | _ \<Rightarrow> Inl (Escapes TypeError))"

definition hits_in :: "world \<Rightarrow> string \<Rightarrow> string \<Rightarrow> grade + nat" where
  "hits_in w pattern body = (case find_all w pattern body of Inl e \<Rightarrow> Inl (Re_Error e) | Inr n \<Rightarrow> Inr n)"

text \<open>\<open>abs(float(observed) - float(expected)) <= float(tolerance)\<close> on the numbers it is given.\<close>

definition close_to :: "nat \<Rightarrow> int \<Rightarrow> pyfloat \<Rightarrow> bool" where
  "close_to observed expected tolerance = (case tolerance of
     Fin t \<Rightarrow> \<bar>of_nat observed - of_int expected\<bar> \<le> t | Infinite neg \<Rightarrow> \<not> neg | NaN \<Rightarrow> False)"

definition count_verdict :: "string \<Rightarrow> path \<Rightarrow> (string \<times> json) list \<Rightarrow> int \<Rightarrow> nat \<Rightarrow> grade" where
  "count_verdict meas target check expected observed =
     (let tolerance = (if truthy (dict_get check ''tolerance'') then dict_get check ''tolerance'' else JInt 0) in
      if float_bound \<le> of_nat observed \<or> float_bound \<le> \<bar>of_int expected\<bar> then Escapes OverflowError
      else case py_float tolerance of
        Inl OverflowError \<Rightarrow> Escapes OverflowError
      | Inl _ \<Rightarrow> insufficient ''expected/tolerance are not numeric''
      | Inr t \<Rightarrow> if close_to observed expected t then verified (nat_json observed)
          else refuted (nat_json observed) (''claimed '' @ meas @ ''='' @ int_text expected @ '', disk says ''
                 @ nat_text observed @ '' ('' @ path_text target @ '')''))"

definition corpus_detail :: "path \<Rightarrow> string \<Rightarrow> string" where
  "corpus_detail target pattern =
     ''bind the closed set instead'' @ dash @ ''path '' @ py_repr (JStr (RUN_RECORDS_DIR @ ''/<task_id>''))
     @ '' with glob '' @ py_repr (JStr ''run_*.md'') @ '' (no directory separator), or a dated run id. A count over ''
     @ ''every run record ('' @ py_repr (JStr pattern) @ '' under '' @ path_text target
     @ '') cannot be settled by this check: this run's own record is in that corpus before its claims are graded.''"

definition count_files :: "world \<Rightarrow> path \<Rightarrow> (string \<times> json) list \<Rightarrow> grade + nat" where
  "count_files w target check =
     (if \<not> is_dir (node_at w target) then Inl (refuted (nat_json 0) (path_text target @ '' is not a directory''))
      else
        let pattern = (let g = text_or (dict_get check ''glob'') in if g = [] then ''*'' else g)
        in if whole_run_record_corpus w target pattern then Inl (insufficient (corpus_detail target pattern))
           else Inr (glob_count w target pattern))"

definition count_body :: "world \<Rightarrow> string \<Rightarrow> path \<Rightarrow> (string \<times> json) list \<Rightarrow> grade + nat" where
  "count_body w meas target check =
     (let n = node_at w target; name = ''count_eq measure='' @ meas; pattern = dict_get check ''pattern'' in
      if is_dir n then Inl (directory_target target name)
      else if \<not> is_file n then Inl (refuted (nat_json 0) (path_text target @ '' does not exist''))
      else if meas = ''bytes'' then (case n of File bytes _ \<Rightarrow> Inr bytes | Unreadable e \<Rightarrow> Inl (Os_Error e) | _ \<Rightarrow> Inl (Os_Error []))
      else case oversized_body target n name ''bind a smaller artefact carrying the same count'' of
        Some g \<Rightarrow> Inl g
      | None \<Rightarrow>
          (case n of File _ body \<Rightarrow>
             if meas = ''lines''
             then (if truthy pattern then count_lines w pattern (splitlines body) else Inr (length (splitlines body)))
             else (case pattern of JStr (c # cs) \<Rightarrow> hits_in w (c # cs) body
                   | _ \<Rightarrow> Inl (insufficient ''matches needs a `pattern`''))
           | Unreadable e \<Rightarrow> Inl (Os_Error e) | _ \<Rightarrow> Inl (Os_Error [])))"

text \<open>
  The \<open>expected\<close> of the source may be a float too; the JSON of the model has integers only, so that case is left out.
\<close>

definition check_count_eq :: "world \<Rightarrow> (string \<times> json) list \<Rightarrow> grade" where
  "check_count_eq w check =
     (case resolve w (dict_get check ''path'') of Inl e \<Rightarrow> insufficient e
      | Inr target \<Rightarrow>
          let meas = (let m = text_or (dict_get check ''measure'') in if m = [] then ''files'' else m) in
          if meas \<notin> set COUNT_MEASURES
          then insufficient (''unknown count measure '' @ py_repr (JStr meas) @ '' (expected one of ''
                 @ py_repr (JArr (map JStr COUNT_MEASURES)) @ '')'')
          else case dict_get check ''expected'' of
            JInt expected \<Rightarrow>
              (case (if meas = ''files'' then count_files w target check else count_body w meas target check) of
                 Inl g \<Rightarrow> g | Inr observed \<Rightarrow> count_verdict meas target check expected observed)
          | _ \<Rightarrow> insufficient ''count_eq needs a numeric `expected`'')"

text \<open>\<open>_dig\<close>: a dotted key, where a segment indexes a list from either end.\<close>

definition list_item :: "json list \<Rightarrow> string \<Rightarrow> json option" where
  "list_item vs part = (case py_int (JStr part) of None \<Rightarrow> None
     | Some i \<Rightarrow> let k = (if i < 0 then i + int (length vs) else i)
         in if 0 \<le> k \<and> k < int (length vs) then Some (vs ! nat k) else None)"

fun dig :: "string list \<Rightarrow> json \<Rightarrow> json option" where
  "dig [] cur = Some cur"
| "dig (part # parts) cur =
     (case (case cur of JObj kvs \<Rightarrow> map_of kvs part | JArr vs \<Rightarrow> list_item vs part | _ \<Rightarrow> None) of
        None \<Rightarrow> None | Some v \<Rightarrow> dig parts v)"

definition check_json_key :: "world \<Rightarrow> (string \<times> json) list \<Rightarrow> grade" where
  "check_json_key w check =
     (case resolve w (dict_get check ''path'') of Inl e \<Rightarrow> insufficient e
      | Inr target \<Rightarrow>
          (case dict_get check ''key'' of
             JStr (c # cs) \<Rightarrow>
               let key = c # cs; n = node_at w target in
               if is_dir n then directory_target target ''json_key''
               else if \<not> is_file n then refuted JNull (path_text target @ '' does not exist'')
               else (case oversized_body target n ''json_key'' ''bind a smaller artefact carrying the same numbers'' of
                 Some g \<Rightarrow> g
               | None \<Rightarrow> with_body n (\<lambda>body.
                   case json_loads w body of
                     Inl e \<Rightarrow> insufficient (path_text target @ '' is not valid JSON: '' @ e)
                   | Inr data \<Rightarrow>
                       (case dig (split_on CHR ''.'' key) data of
                          None \<Rightarrow> refuted JNull (''key '' @ py_repr (JStr key) @ '' absent from '' @ path_text target)
                        | Some v \<Rightarrow>
                            let expected = dict_get check ''expected'' in
                            if expected = JNull \<or> canon v = canon expected then verified v
                            else refuted v (''claimed '' @ key @ ''='' @ py_repr expected @ '', file says ''
                                   @ py_repr v @ '' ('' @ path_text target @ '')''))))
           | _ \<Rightarrow> insufficient ''json_key needs a dotted `key`''))"

definition check_regex :: "world \<Rightarrow> (string \<times> json) list \<Rightarrow> grade" where
  "check_regex w check =
     (case resolve w (dict_get check ''path'') of Inl e \<Rightarrow> insufficient e
      | Inr target \<Rightarrow>
          (case dict_get check ''pattern'' of
             JStr (c # cs) \<Rightarrow>
               let want = (let x = text_or (dict_get check ''expect'') in if x = [] then ''match'' else x);
                   n = node_at w target in
               if want \<noteq> ''match'' \<and> want \<noteq> ''absent'' then insufficient ''regex `expect` must be match or absent''
               else if is_dir n then directory_target target ''regex''
               else if \<not> is_file n then
                 (if want = ''absent''
                  then Graded ''verified'' (nat_json 0) (path_text target @ '' does not exist, so nothing matches'')
                  else refuted (nat_json 0) (path_text target @ '' does not exist''))
               else (case oversized_body target n ''regex'' ''bind a smaller artefact holding the text claimed about'' of
                 Some g \<Rightarrow> g
               | None \<Rightarrow> with_body n (\<lambda>body.
                   case hits_in w (c # cs) body of Inl g \<Rightarrow> g
                   | Inr hits \<Rightarrow>
                       if (if want = ''match'' then 0 < hits else hits = 0) then verified (nat_json hits)
                       else refuted (nat_json hits) (''claimed '' @ want @ '' for /'' @ (c # cs) @ ''/ on ''
                              @ path_text target @ '', disk says '' @ nat_text hits @ '' hit(s)'')))
           | _ \<Rightarrow> insufficient ''regex needs a `pattern`''))"

definition evaluate :: "world \<Rightarrow> string \<Rightarrow> (string \<times> json) list \<Rightarrow> grade" where
  "evaluate w kind check =
     (if kind = ''file_exists'' then check_file_exists w check
      else if kind = ''count_eq'' then check_count_eq w check
      else if kind = ''json_key'' then check_json_key w check
      else check_regex w check)"

section \<open>Verification\<close>

definition with_verdict :: "(string \<times> json) list \<Rightarrow> string \<Rightarrow> (string \<times> json) list \<Rightarrow> string \<Rightarrow> json \<Rightarrow> string \<Rightarrow> (string \<times> json) list" where
  "with_verdict claim text' check status observed detail =
     dict_set (dict_set (dict_set (dict_set (dict_set claim ''claim'' (JStr text')) ''check'' (JObj check))
       ''status'' (JStr status)) ''observed'' observed) ''detail'' (JStr detail)"

definition verify_claim :: "world \<Rightarrow> json \<Rightarrow> py_error + (string \<times> json) list" where
  "verify_claim w claim = (case claim of
     JObj kvs \<Rightarrow>
       let text' = strip (text_or (dict_get kvs ''claim''));
           check = (case dict_get kvs ''check'' of JObj c \<Rightarrow> c | _ \<Rightarrow> []);
           kind = text_or (dict_get check ''kind'')
       in if kind \<notin> set CHECK_KINDS
          then Inr (with_verdict kvs text' check ''insufficient'' JNull
            (''unknown check kind '' @ py_repr (JStr kind) @ dash @ ''no verifier ran (expected one of ''
             @ py_repr (JArr (map JStr CHECK_KINDS)) @ '')''))
          else (case evaluate w kind check of
             Graded status observed detail \<Rightarrow> Inr (with_verdict kvs text' check status observed detail)
           | Re_Error e \<Rightarrow> Inr (with_verdict kvs text' check ''insufficient'' JNull (''invalid regex: '' @ e))
           | Os_Error e \<Rightarrow> Inr (with_verdict kvs text' check ''insufficient'' JNull (''read failed: '' @ e))
           | Escapes e \<Rightarrow> Inl e)
   | _ \<Rightarrow> Inr [(''claim'', JStr (take 300 (py_str claim))), (''check'', JObj []), (''status'', JStr ''insufficient''),
         (''observed'', JNull), (''detail'', JStr ''claim is not an object'')])"

fun verify_claims :: "world \<Rightarrow> json list \<Rightarrow> py_error + (string \<times> json) list list" where
  "verify_claims w [] = Inr []"
| "verify_claims w (c # cs) =
     (case verify_claim w c of Inl e \<Rightarrow> Inl e | Inr v \<Rightarrow> map_sum id (Cons v) (verify_claims w cs))"

definition status_of :: "(string \<times> json) list \<Rightarrow> string" where
  "status_of v = py_str (dict_get v ''status'')"

definition gap_line :: "(string \<times> json) list \<Rightarrow> string" where
  "gap_line v =
     (let detail = py_str (dict_get v ''detail'') in
      take MAX_GAP_CHARS (''['' @ status_of v @ ''] '' @ py_str (dict_get v ''claim'')
        @ (if detail = [] then [] else dash @ detail)))"

text \<open>
  A verified bundle. \<open>bu_rate\<close> is the share that did not verify, before it is rounded to three
  decimals; \<open>None\<close> when nothing was checked.
\<close>

record evidence_bundle =
  bu_claims :: "(string \<times> json) list list"
  bu_verified :: "json list"
  bu_gap :: "string list"
  bu_total :: nat
  bu_verified_count :: nat
  bu_refuted :: nat
  bu_insufficient :: nat
  bu_rate :: "rat option"

definition is_obj :: "json \<Rightarrow> bool" where
  "is_obj v \<longleftrightarrow> (case v of JObj _ \<Rightarrow> True | _ \<Rightarrow> False)"

definition verify_bundle :: "world \<Rightarrow> bool \<Rightarrow> json list \<Rightarrow> py_error + evidence_bundle" where
  "verify_bundle w emitted raw =
     (let claims = take MAX_BUNDLE_CLAIMS (filter is_obj raw) in
      map_sum id (\<lambda>checked.
        let good = filter (\<lambda>v. status_of v = ''verified'') checked;
            gap = map gap_line (filter (\<lambda>v. status_of v \<in> set GAP_STATUSES) checked);
            gap' = (if claims = []
              then (if emitted then ''no evidence claims were emitted, so nothing this run asserted was checked against disk''
                    else ''no evidence claims were emitted (the run did not complete)'') # gap
              else gap);
            bad = count_where (\<lambda>v. status_of v = ''refuted'') checked;
            unable = count_where (\<lambda>v. status_of v = ''insufficient'') checked
        in \<lparr>bu_claims = checked, bu_verified = map (\<lambda>v. dict_get v ''claim'') good, bu_gap = take MAX_GAP_ITEMS gap',
            bu_total = length checked, bu_verified_count = length good, bu_refuted = bad, bu_insufficient = unable,
            bu_rate = (if checked = [] then None else Some (of_nat (bad + unable) / of_nat (length checked)))\<rparr>)
        (verify_claims w claims))"

definition gaps_key :: "string \<Rightarrow> string" where
  "gaps_key task_id = ''evidence_gaps:'' @ task_id"

definition parse_gap_list :: "jtext option \<Rightarrow> string list" where
  "parse_gap_list raw = (case raw of None \<Rightarrow> []
     | Some t \<Rightarrow> (case loads t of Some (JArr vs) \<Rightarrow> map py_str (take MAX_GAP_ITEMS vs) | _ \<Rightarrow> []))"

end
