(* ===== verification/Pool_Runs.thy ===== *)
theory Pool_Runs
  imports Pool_Pause Pool_Gates Evidence
begin

text \<open>
  One claimed item from claim to record (\<open>workers/pool.py\<close>): \<open>normalize_result\<close> and its helpers, the
  scopes a run borrows, and the body of \<open>_worker_loop\<close> as two steps, the claim and the handling of the
  source's outcome, with every branch on which the loop itself dies. What the source's code does in
  between is its outcome and a \<open>run_ctx\<close> (the session ids, turn counts and scratchpad totals
  collected while it ran, and whether it marked its task's verdict).

  Parameters: \<open>world\<close> of the verifier, \<open>hex\<close> for the run id's digits, \<open>message\<close> for the text of an exception
  of the library, \<open>charge\<close> for \<open>charge_death_without_verdict\<close> (\<^term>\<open>None\<close> when it raises), and \<open>arm\<close> for what the
  cost-outlier trigger writes to the queue. A step takes one clock reading. The response text is stored
  as it is, and \<open>bundle_doc\<close> leaves out the rate, the one float of the stored bundle.
\<close>

section \<open>The run record a source's result becomes\<close>

definition RUN_STATUSES :: "string list" where "RUN_STATUSES = [''success'', ''failed'', ''skipped'']"
definition DEFAULT_MAX_DURATION_SECONDS :: int where "DEFAULT_MAX_DURATION_SECONDS = 900"

record norm_result =
  n_status :: string
  n_summary :: string
  n_artifact_path :: string
  n_response :: string
  n_task_id :: "string option"
  n_meta :: "(string \<times> json) list"
  n_claims :: "json list option"
  n_defer_seconds :: "rat option"

text \<open>\<open>item.payload.get(k)\<close>: a payload that is not an object has no \<open>get\<close>.\<close>

definition payload_get :: "queue_item \<Rightarrow> string \<Rightarrow> py_error + json" where
  "payload_get it k = (case i_payload it of JObj kvs \<Rightarrow> Inr (dict_get kvs k) | _ \<Rightarrow> Inl AttributeError)"

definition some_text :: "json \<Rightarrow> string option" where
  "some_text v = (if v = JNull then None else Some (py_str v))"

definition task_id_of :: "queue_item \<Rightarrow> (string \<times> json) list option \<Rightarrow> py_error + string option" where
  "task_id_of it result =
     (let tid = (case result of None \<Rightarrow> JNull | Some kvs \<Rightarrow> dict_get kvs ''task_id'') in
      if tid \<noteq> JNull then Inr (some_text tid) else map_sum id some_text (payload_get it ''task_id''))"

definition defer_seconds_of :: "(string \<times> json) list \<Rightarrow> string \<Rightarrow> py_error + rat option" where
  "defer_seconds_of result status =
     (let raw = dict_get result ''defer_seconds'' in
      if raw = JNull then Inr None
      else case py_float raw of
        Inl OverflowError \<Rightarrow> Inl OverflowError
      | Inl _ \<Rightarrow> Inr None
      | Inr seconds \<Rightarrow>
          if status = ''success'' then Inr None
          else (case seconds of Fin s \<Rightarrow> Inr (if s \<le> 0 then None else Some s) | _ \<Rightarrow> Inr None))"

definition result_status :: "(string \<times> json) list \<Rightarrow> string" where
  "result_status kvs =
     (case dict_get kvs ''status'' of
        JStr s \<Rightarrow> if s \<in> set RUN_STATUSES then s
                  else if truthy (dict_get kvs ''skipped'') then ''skipped'' else ''success''
      | _ \<Rightarrow> if truthy (dict_get kvs ''skipped'') then ''skipped'' else ''success'')"

definition result_summary :: "(string \<times> json) list \<Rightarrow> string \<Rightarrow> string" where
  "result_summary kvs status =
     (let s = text_or (dict_get kvs ''summary'') in
      if s = [] \<and> status = ''skipped'' then text_or (dict_get kvs ''skipped'') else s)"

definition result_meta :: "(string \<times> json) list \<Rightarrow> (string \<times> json) list" where
  "result_meta kvs =
     (let meta = (case dict_get kvs ''meta'' of JObj m \<Rightarrow> m | _ \<Rightarrow> []) in
      case dict_get kvs ''round_id'' of
        JStr r \<Rightarrow> if strip r \<noteq> [] \<and> ''round_id'' \<notin> fst ` set meta then dict_set meta ''round_id'' (JStr (strip r)) else meta
      | _ \<Rightarrow> meta)"

text \<open>
  A result is a value of \<open>json\<close>: its numbers are integers. A float literal, an infinity or a NaN among them, can only be written as
  a text here, which \<open>float()\<close> reads the same way.
\<close>

definition normalize_result :: "queue_item \<Rightarrow> json \<Rightarrow> py_error + norm_result" where
  "normalize_result it result =
     (let kvs = (case result of JObj kvs \<Rightarrow> kvs | _ \<Rightarrow> []); status = result_status kvs in
      case defer_seconds_of kvs status of Inl e \<Rightarrow> Inl e
      | Inr defer \<Rightarrow>
      (case shorten_summary (result_summary kvs status) SUMMARY_MAX_CHARS of Inl e \<Rightarrow> Inl e
       | Inr summary \<Rightarrow>
       (case task_id_of it (Some kvs) of Inl e \<Rightarrow> Inl e
        | Inr tid \<Rightarrow> Inr \<lparr>n_status = status, n_summary = summary,
            n_artifact_path = text_or (dict_get kvs ''artifact_path''),
            n_response = take 50000 (text_or (dict_get kvs ''response'')), n_task_id = tid,
            n_meta = result_meta kvs,
            n_claims = (case dict_get kvs ''claims'' of JArr vs \<Rightarrow> Some vs | _ \<Rightarrow> None),
            n_defer_seconds = defer\<rparr>)))"

section \<open>Scopes\<close>

definition grant_scope_for :: "queue_item \<Rightarrow> py_error + string" where
  "grant_scope_for it =
     (if i_source it = ''scheduled-task''
      then map_sum id (\<lambda>v. if v = JNull then ''worker:'' @ i_source it else ''autonomy-task:'' @ py_str v)
             (payload_get it ''task_id'')
      else Inr (''worker:'' @ i_source it))"

definition effect_scope_for :: "queue_item \<Rightarrow> string" where
  "effect_scope_for it = ''item:'' @ i_source it @ '':'' @ nat_text (i_id it)"

section \<open>What a run leaves on its record\<close>

record run_ctx =
  rx_sessions :: "string list"
  rx_turns :: "int list"
  rx_scratchpad :: "(string \<times> json) list"
  rx_verdict :: bool

definition bind_step_count :: "int list \<Rightarrow> (string \<times> json) list \<Rightarrow> (string \<times> json) list" where
  "bind_step_count turns meta =
     (if ''num_turns'' \<in> fst ` set meta then meta
      else if turns \<noteq> [] then dict_set meta ''num_turns'' (JInt (sum_list turns)) else meta)"

definition context_meta :: "run_ctx \<Rightarrow> (string \<times> json) list \<Rightarrow> (string \<times> json) list" where
  "context_meta rx meta =
     dict_set (dict_set meta ''session_ids'' (JArr (map JStr (rx_sessions rx)))) ''scratchpad'' (JObj (rx_scratchpad rx))"

definition INFRA_EXC_NAMES :: "string list" where
  "INFRA_EXC_NAMES = [''ConnectError'', ''ConnectTimeout'', ''ReadError'', ''ReadTimeout'', ''PoolTimeout'',
     ''RemoteProtocolError'', ''ConnectionRefusedError'', ''ConnectionResetError'', ''ToolDiscoveryError'',
     ''StreamStalledError'']"

definition failure_kind_of :: "string \<Rightarrow> string" where
  "failure_kind_of exc_name = (if exc_name \<in> set INFRA_EXC_NAMES then ''infra'' else ''task'')"

definition death_meta ::
    "(string \<Rightarrow> bool option) \<Rightarrow> queue_item \<Rightarrow> source_module \<Rightarrow> string \<Rightarrow> bool \<Rightarrow> py_error + (string \<times> json) list" where
  "death_meta charge it src exc_name verdict =
     (let meta = [(''failure_kind'', JStr (failure_kind_of exc_name))] in
      case task_id_of it None of Inl e \<Rightarrow> Inl e
      | Inr tid \<Rightarrow> Inr (case tid of None \<Rightarrow> meta
          | Some t \<Rightarrow>
              if \<not> m_charge_task_on_death src \<or> verdict then meta
              else if charge t = Some True then meta @ [(''task_budget_charged'', JBool True)] else meta))"

definition carry_gaps :: "nat \<Rightarrow> queue_item \<Rightarrow> string option \<Rightarrow> evidence_bundle \<Rightarrow> store \<Rightarrow> store" where
  "carry_gaps now it tid b st = (case tid of
     Some (c # cs) \<Rightarrow> wm_set now (i_source it) (gaps_key (c # cs)) (clip 4000 (JDoc (JArr (map JStr (bu_gap b))))) st
   | _ \<Rightarrow> st)"

definition bundle_doc :: "evidence_bundle \<Rightarrow> json" where
  "bundle_doc b = JObj [(''claims'', JArr (map JObj (bu_claims b))), (''verified'', JArr (bu_verified b)),
     (''gap'', JArr (map JStr (bu_gap b))),
     (''counts'', JObj [(''total'', JInt (int (bu_total b))), (''verified'', JInt (int (bu_verified_count b))),
        (''refuted'', JInt (int (bu_refuted b))), (''insufficient'', JInt (int (bu_insufficient b)))])]"

section \<open>The pool\<close>

record pool =
  wp_holds :: hold_state
  wp_gates :: gates
  wp_store :: store
  wp_slots :: nat
  wp_max_attempts :: int

definition worker_ids :: "pool \<Rightarrow> string list" where
  "worker_ids p = map (\<lambda>i. ''worker-'' @ nat_text i) [0..<wp_slots p]"

definition new_pool :: "nat \<Rightarrow> nat \<Rightarrow> int \<Rightarrow> store \<Rightarrow> pool" where
  "new_pool now slots cap st =
     (case boot_holds now (snd (set_max_attempts (JInt cap) st)) of
        (hs, st') \<Rightarrow> \<lparr>wp_holds = hs, wp_gates = new_gates, wp_store = st', wp_slots = slots,
          wp_max_attempts = cap\<rparr>)"

type_synonym sources_cfg = "(string \<times> (string \<times> json) list) list"

definition cfg_of :: "sources_cfg \<Rightarrow> string \<Rightarrow> (string \<times> json) list" where
  "cfg_of cfg name = (case map_of cfg name of None \<Rightarrow> [] | Some c \<Rightarrow> c)"

fun max_inflight :: "sources_cfg \<Rightarrow> py_error + (string \<times> int option) list" where
  "max_inflight [] = Inr []"
| "max_inflight ((name, src) # rest) =
     (if dict_get src ''max_inflight'' = JNull then max_inflight rest
      else case int_of (dict_get src ''max_inflight'') of Inl e \<Rightarrow> Inl e
        | Inr n \<Rightarrow> map_sum id (Cons (name, Some n)) (max_inflight rest))"

section \<open>Claim\<close>

text \<open>
  What one turn of the loop comes to before the source runs: nothing to do, an item of no registered
  source, a started item with its run id, start stamp, time limit and authority scope, or an exception
  that leaves the loop.
\<close>

datatype poll =
    Idle
  | Unknown_Source nat
  | Started queue_item source_module string string int string
  | Loop_Died py_error

definition drop_flight :: "nat \<Rightarrow> (nat \<times> flight) list \<Rightarrow> (nat \<times> flight) list" where
  "drop_flight n flights = filter (\<lambda>(k, _). k \<noteq> n) flights"

definition start_item :: "nat \<Rightarrow> string \<Rightarrow> string \<Rightarrow> sources_cfg \<Rightarrow> queue_item \<Rightarrow> source_module \<Rightarrow> pool \<Rightarrow> poll \<times> pool" where
  "start_item now hex worker cfg it src p =
     (let run_id = new_run_id (i_source it) now hex;
          p1 = p\<lparr>wp_store := mark_running (i_id it) (Some run_id) (wp_store p)\<rparr>;
          fl = \<lparr>fl_source = i_source it, fl_kind = i_kind it, fl_started_at = iso_utc now, fl_worker = worker\<rparr>;
          p2 = p1\<lparr>wp_gates := (wp_gates p1)\<lparr>g_flights := drop_flight (i_id it) (g_flights (wp_gates p1)) @ [(i_id it, fl)]\<rparr>\<rparr>
      in case int_of (get_or (cfg_of cfg (i_source it)) ''max_duration_seconds'' (JInt DEFAULT_MAX_DURATION_SECONDS)) of
           Inl e \<Rightarrow> (Loop_Died e, p2)
         | Inr limit \<Rightarrow> (case grant_scope_for it of Inl e \<Rightarrow> (Loop_Died e, p2)
             | Inr scope \<Rightarrow> (Started it src run_id (iso_utc now) limit scope, p2)))"

text \<open>
  The turn awaits its gates and its claim, and never looks at the pause again: \<open>race 0\<close> is what the other
  coroutines do to the pool between the pause test and the gates, \<open>race 1\<close> what they do between the gates
  and the claim.
\<close>

definition worker_poll_race ::
    "(nat \<Rightarrow> pool \<Rightarrow> pool) \<Rightarrow> gate_env \<Rightarrow> nat \<Rightarrow> string \<Rightarrow> string \<Rightarrow> sources_cfg \<Rightarrow> pool \<Rightarrow> poll \<times> pool" where
  "worker_poll_race race env now hex worker cfg p =
     (if pool_paused (wp_holds p) then (Idle, p)
      else case max_inflight cfg of Inl e \<Rightarrow> (Loop_Died e, p)
      | Inr quotas \<Rightarrow>
      (let q = race 0 p in
       case claim_holds env now (wp_gates q, wp_store q) of (held, g, st) \<Rightarrow>
       let q1 = race 1 (q\<lparr>wp_gates := g, wp_store := st\<rparr>) in
       case claim_next now worker quotas held (wp_store q1) of (claim, st1) \<Rightarrow>
         let p1 = q1\<lparr>wp_store := st1\<rparr> in
         (case claim of
            Inl e \<Rightarrow> (Loop_Died e, p1)
          | Inr None \<Rightarrow> (Idle, p1)
          | Inr (Some it) \<Rightarrow>
              (case map_of (ge_registry env) (i_source it) of
                 None \<Rightarrow> (Unknown_Source (i_id it), p1\<lparr>wp_store := snd (mark_failed now (i_id it)
                   (''unknown source '' @ i_source it) (Some 0) st1)\<rparr>)
               | Some src \<Rightarrow> start_item now hex worker cfg it src p1))))"

definition worker_poll :: "gate_env \<Rightarrow> nat \<Rightarrow> string \<Rightarrow> string \<Rightarrow> sources_cfg \<Rightarrow> pool \<Rightarrow> poll \<times> pool" where
  "worker_poll = worker_poll_race (\<lambda>_ p. p)"

section \<open>Completion\<close>

datatype outcome = Returned json | Timed_Out | Raised string string

fun error_name :: "py_error \<Rightarrow> string" where
  "error_name AttributeError = ''AttributeError''"
| "error_name IndexError = ''IndexError''"
| "error_name IntegrityError = ''IntegrityError''"
| "error_name JSONDecodeError = ''JSONDecodeError''"
| "error_name KeyError = ''KeyError''"
| "error_name OverflowError = ''OverflowError''"
| "error_name RuntimeError = ''RuntimeError''"
| "error_name TypeError = ''TypeError''"
| "error_name ValueError = ''ValueError''"

record run_job =
  j_item :: queue_item
  j_source :: source_module
  j_run_id :: string
  j_started_at :: string
  j_limit :: int
  j_duration :: int

definition run_row_of :: "run_job \<Rightarrow> nat \<Rightarrow> string \<Rightarrow> string \<Rightarrow> string option \<Rightarrow> (string \<times> json) list \<Rightarrow> run_row" where
  "run_row_of j now status summary tid meta =
     \<lparr>r_run_id = j_run_id j, r_queue_id = Some (i_id (j_item j)), r_source = i_source (j_item j), r_task_id = tid,
      r_status = status, r_started_at = j_started_at j, r_completed_at = iso_utc now, r_duration = j_duration j,
      r_summary = summary, r_artifact_path = [], r_response_json = JRaw [], r_meta_json = Some (JDoc (JObj meta)),
      r_claims_json = None, r_kind = Some (i_kind (j_item j))\<rparr>"

text \<open>\<open>datetime.now(utc) + timedelta(seconds=s)\<close>: both the difference and the sum have a range.\<close>

definition defer_to :: "nat \<Rightarrow> rat option \<Rightarrow> py_error + string option" where
  "defer_to now defer = (case defer of None \<Rightarrow> Inr None
     | Some s \<Rightarrow>
         let us = round_half_even (s * 1000000); later = int now + us
         in if us < - (999999999 * int day_us) \<or> 1000000000 * int day_us \<le> us then Inl OverflowError
            else if later < 0 \<or> int max_wall \<le> later then Inl OverflowError
            else Inr (Some (iso_utc (nat later))))"

text \<open>
  The \<open>try\<close> block on a result: the store as far as it was written, and the exception that ended it, if
  one did.
\<close>

definition settle_result ::
    "world \<Rightarrow> (store \<Rightarrow> store) \<Rightarrow> nat \<Rightarrow> run_ctx \<Rightarrow> run_job \<Rightarrow> json \<Rightarrow> store \<Rightarrow> py_error option \<times> store" where
  "settle_result w arm now rx j result st =
     (case normalize_result (j_item j) result of Inl e \<Rightarrow> (Some e, st)
      | Inr n \<Rightarrow>
      let meta = bind_step_count (rx_turns rx) (context_meta rx (n_meta n)) in
      case (case n_claims n of None \<Rightarrow> Inr None | Some cs \<Rightarrow> map_sum id Some (verify_bundle w True cs)) of
        Inl e \<Rightarrow> (Some e, st)
      | Inr bundle' \<Rightarrow>
      let st1 = (case bundle' of None \<Rightarrow> st | Some b \<Rightarrow> carry_gaps now (j_item j) (n_task_id n) b st);
          row = (run_row_of j now (n_status n) (n_summary n) (n_task_id n) meta)
                  \<lparr>r_artifact_path := n_artifact_path n, r_response_json := JRaw (n_response n),
                   r_claims_json := map_option (\<lambda>b. JDoc (bundle_doc b)) bundle'\<rparr>
      in case record_run row st1 of Inl e \<Rightarrow> (Some e, st1)
         | Inr st2 \<Rightarrow>
             (case defer_to now (n_defer_seconds n) of Inl e \<Rightarrow> (Some e, st2)
              | Inr nb \<Rightarrow> (None, arm (mark_completed now (i_id (j_item j)) True nb st2))))"

text \<open>The two \<open>except\<close> arms: record the death, then fail the row; an exception in an arm ends the loop.\<close>

definition settle_death ::
    "nat \<Rightarrow> int \<Rightarrow> run_job \<Rightarrow> string \<Rightarrow> (string \<times> json) list \<Rightarrow> store \<Rightarrow> py_error option \<times> store" where
  "settle_death now cap j error_msg meta st =
     (case task_id_of (j_item j) None of Inl e \<Rightarrow> (Some e, st)
      | Inr tid \<Rightarrow>
      (case record_run (run_row_of j now ''failed'' error_msg tid meta) st of Inl e \<Rightarrow> (Some e, st)
       | Inr st1 \<Rightarrow> (None, snd (mark_failed now (i_id (j_item j)) error_msg (Some cap) st1))))"

definition settle_timeout :: "nat \<Rightarrow> int \<Rightarrow> run_ctx \<Rightarrow> run_job \<Rightarrow> store \<Rightarrow> py_error option \<times> store" where
  "settle_timeout now cap rx j st =
     settle_death now cap j (''TimeoutError: exceeded max_duration_seconds='' @ int_text (j_limit j))
       (bind_step_count (rx_turns rx) (context_meta rx
         [(''pool_timeout'', JBool True), (''max_duration_seconds'', JInt (j_limit j))])) st"

definition settle_exception ::
    "(string \<Rightarrow> bool option) \<Rightarrow> nat \<Rightarrow> int \<Rightarrow> run_ctx \<Rightarrow> run_job \<Rightarrow> string \<Rightarrow> string \<Rightarrow> store \<Rightarrow> py_error option \<times> store" where
  "settle_exception charge now cap rx j exc_name exc_text st =
     (case death_meta charge (j_item j) (j_source j) exc_name (rx_verdict rx) of Inl e \<Rightarrow> (Some e, st)
      | Inr death \<Rightarrow>
          settle_death now cap j (exc_name @ '': '' @ exc_text)
            (bind_step_count (rx_turns rx) (fold (\<lambda>(k, v) m. dict_set m k v) death
              (context_meta rx [(''exception'', JStr exc_name)]))) st)"

text \<open>\<open>datetime(1970, 1, 1, tzinfo=utc)\<close>.\<close>

definition EPOCH :: nat where "EPOCH = ymd_to_days (1970, 1, 1) * day_us"

definition repoll_on_complete :: "nat \<Rightarrow> source_module \<Rightarrow> store \<Rightarrow> store" where
  "repoll_on_complete now src st =
     (if \<not> m_repoll_on_complete src \<or> m_name src = [] then st
      else wm_set now (m_name src) ''last_enqueue_check'' (JRaw (iso_utc EPOCH)) st)"

definition settle ::
    "world \<Rightarrow> (store \<Rightarrow> store) \<Rightarrow> (string \<Rightarrow> bool option) \<Rightarrow> (py_error \<Rightarrow> string) \<Rightarrow> nat \<Rightarrow> int \<Rightarrow> run_ctx \<Rightarrow> run_job
      \<Rightarrow> outcome \<Rightarrow> store \<Rightarrow> py_error option \<times> store" where
  "settle w arm charge message now cap rx j out st = (case out of
     Returned result \<Rightarrow>
       (case settle_result w arm now rx j result st of
          (None, st1) \<Rightarrow> (None, st1)
        | (Some e, st1) \<Rightarrow> settle_exception charge now cap rx j (error_name e) (message e) st1)
   | Timed_Out \<Rightarrow> settle_timeout now cap rx j st
   | Raised exc_name exc_text \<Rightarrow> settle_exception charge now cap rx j exc_name exc_text st)"

definition finish_item ::
    "world \<Rightarrow> (store \<Rightarrow> store) \<Rightarrow> (string \<Rightarrow> bool option) \<Rightarrow> (py_error \<Rightarrow> string) \<Rightarrow> nat \<Rightarrow> run_ctx \<Rightarrow> run_job \<Rightarrow> outcome
      \<Rightarrow> pool \<Rightarrow> py_error option \<times> pool" where
  "finish_item w arm charge message now rx j out p =
     (case settle w arm charge message now (wp_max_attempts p) rx j out (wp_store p) of (died, st) \<Rightarrow>
        (died, p\<lparr>wp_store := repoll_on_complete now (j_source j) st,
                 wp_gates := (wp_gates p)\<lparr>g_flights := drop_flight (i_id (j_item j)) (g_flights (wp_gates p))\<rparr>\<rparr>))"

end
