(* ===== verification/Gate_Facts.thy ===== *)
theory Gate_Facts
  imports Pool_Gates
begin

text \<open>
  What each gate decides, as a condition on what it read, what it writes, and the invariant that keeps
  the published list of held sources equal to the list a claim is given.
\<close>

section \<open>Sorted sets\<close>

lemma sorted_set_unique:
  assumes "sorted_wrt text_le xs" "sorted_wrt text_le ys" "distinct xs" "distinct ys" "set xs = set ys"
  shows "xs = ys"
  using assms
proof (induction xs arbitrary: ys)
  case (Cons x xs)
  then obtain y ys' where ys: "ys = y # ys'" by (cases ys) auto
  have "y \<in> set (x # xs)" "x \<in> set (y # ys')" using Cons.prems(5) ys by auto
  then have "text_le x y" "text_le y x" using Cons.prems(1,2) ys by auto
  then have "x = y" by (rule text_le_antisym)
  then show ?case using Cons.IH [of ys'] Cons.prems ys by (metis distinct.simps(2) insert_ident list.simps(15) sorted_wrt.simps(2))
qed simp

lemma sorted_order_text: "sorted_wrt text_le (order_by text_le xs)"
  by (rule sorted_order_by) (use text_le_total in \<open>auto intro: text_le_trans\<close>)

lemma sorted_set_cong: "set xs = set ys \<Longrightarrow> sorted_set xs = sorted_set ys"
  unfolding sorted_set_def by (rule sorted_set_unique) (auto simp: sorted_order_text)

lemma sorted_set_empty [simp]: "sorted_set xs = [] \<longleftrightarrow> xs = []"
  by (metis set_empty set_sorted_set)

section \<open>What the journal writes touch\<close>

definition gate_only :: "store \<Rightarrow> store \<Rightarrow> bool" where
  "gate_only st st' \<longleftrightarrow> st'\<lparr>hold_journal := [], hold_seq := 0\<rparr> = st\<lparr>hold_journal := [], hold_seq := 0\<rparr>"

lemma gate_only_refl [simp]: "gate_only st st"
  by (simp add: gate_only_def)

lemma gate_only_trans: "gate_only a b \<Longrightarrow> gate_only b c \<Longrightarrow> gate_only a c"
  by (simp add: gate_only_def)

lemma gate_only_journal [simp]: "gate_only st (journal_gate now gate val held detail st)"
  by (simp add: gate_only_def journal_gate_def hold_journal_append_def Let_def)

lemma gate_onlyD:
  assumes "gate_only st st'"
  shows "queue st' = queue st" "runs st' = runs st" "watermarks st' = watermarks st" "queue_seq st' = queue_seq st"
    "max_attempts st' = max_attempts st" "pause_journal st' = pause_journal st" "pause_seq st' = pause_seq st"
proof -
  let ?a = "st'\<lparr>hold_journal := [], hold_seq := 0\<rparr>" and ?b = "st\<lparr>hold_journal := [], hold_seq := 0\<rparr>"
  have e: "?a = ?b" using assms by (simp add: gate_only_def)
  show "queue st' = queue st" using arg_cong [OF e, of queue] by simp
  show "runs st' = runs st" using arg_cong [OF e, of runs] by simp
  show "watermarks st' = watermarks st" using arg_cong [OF e, of watermarks] by simp
  show "queue_seq st' = queue_seq st" using arg_cong [OF e, of queue_seq] by simp
  show "max_attempts st' = max_attempts st" using arg_cong [OF e, of max_attempts] by simp
  show "pause_journal st' = pause_journal st" using arg_cong [OF e, of pause_journal] by simp
  show "pause_seq st' = pause_seq st" using arg_cong [OF e, of pause_seq] by simp
qed

lemma hold_seq_journal [simp]: "hold_seq (journal_gate now gate val held detail st) = Suc (hold_seq st)"
  by (simp add: journal_gate_def hold_journal_append_def Let_def)

definition flip :: "bool \<Rightarrow> bool \<Rightarrow> nat" where
  "flip a b = (if a = b then 0 else 1)"

section \<open>The conditions the gates test\<close>

definition kv_now :: "gate_env \<Rightarrow> rat option" where
  "kv_now env = gate_reading (or_default (kc_window_seconds (ge_kv_cfg env)) DEFAULT_KV_GATE_WINDOW_S)
     (ge_monotonic env) (ge_ring env)"

definition kv_limit :: "gate_env \<Rightarrow> rat" where
  "kv_limit env = or_default (kc_max_kv_usage (ge_kv_cfg env)) DEFAULT_KV_GATE_MAX"

definition kv_over :: "gate_env \<Rightarrow> bool" where
  "kv_over env \<longleftrightarrow> or_default (kc_enabled (ge_kv_cfg env)) True \<and> (\<exists>kv. kv_now env = Some kv \<and> kv_limit env < kv)"

definition primary_down :: "gate_env \<Rightarrow> gates \<Rightarrow> bool" where
  "primary_down env g \<longleftrightarrow> or_default (pc_enabled (ge_primary_cfg env)) True \<and>
     ph_answering (primary_probe env (g_primary g)) = Some False"

definition primary_sources :: "gate_env \<Rightarrow> string list" where
  "primary_sources env = or_default (pc_sources (ge_primary_cfg env)) DEFAULT_PRIMARY_HOLD_SOURCES"

definition round_exempt :: "gate_env \<Rightarrow> string list" where
  "round_exempt env = or_default (rc_exempt (ge_round_cfg env)) DEFAULT_ROUND_HOLD_EXEMPT @ [ROUND_SOURCE]"

definition round_protected :: "gate_env \<Rightarrow> gates \<Rightarrow> bool" where
  "round_protected env g \<longleftrightarrow> or_default (rc_enabled (ge_round_cfg env)) True \<and>
     (ROUND_SOURCE \<in> set (running_sources g) \<or> fst (landing_in_flight env g))"

lemma set_long_lived: "set (long_lived_sources reg) = {n. \<exists>m. (n, m) \<in> set reg \<and> m_long_lived m}"
  by (force simp: long_lived_sources_def)

text \<open>The lists the gates publish, given the gates' flags.\<close>

definition gates_ok :: "registry \<Rightarrow> gates \<Rightarrow> bool" where
  "gates_ok reg g \<longleftrightarrow> kg_held (g_kv g) = (if kg_engaged (g_kv g) then long_lived_sources reg else []) \<and>
     (\<not> rh_engaged (g_round g) \<longrightarrow> rh_held (g_round g) = []) \<and>
     (\<not> ph_engaged (g_primary g) \<longrightarrow> ph_held (g_primary g) = [])"

section \<open>One gate at a time\<close>

lemma kv_gate_spec:
  assumes "kv_gate_held env now (g, st) = (held, g', st')"
  shows "held = (if kv_over env then long_lived_sources (ge_registry env) else [])"
    and "kg_engaged (g_kv g') = kv_over env"
    and "g'\<lparr>g_kv := k\<rparr> = g\<lparr>g_kv := k\<rparr>"
    and "gate_only st st'" "hold_seq st' = hold_seq st + flip (kg_engaged (g_kv g)) (kg_engaged (g_kv g'))"
    and "kg_held (g_kv g) = (if kg_engaged (g_kv g) then long_lived_sources (ge_registry env) else []) \<Longrightarrow> kg_held (g_kv g') = held"
  using assms unfolding kv_gate_held_def kv_over_def kv_now_def kv_limit_def flip_def Let_def
  by (auto split: if_splits option.splits)

lemma primary_probe_engaged [simp]:
  "ph_engaged (primary_probe env ph) = ph_engaged ph" "ph_held (primary_probe env ph) = ph_held ph"
  by (simp_all add: primary_probe_def Let_def split: prod.splits)

lemma primary_hold_spec:
  assumes "primary_hold_held env now (g, st) = (held, g', st')"
  shows "set held = (if primary_down env g then set (primary_sources env) \<inter> set (long_lived_sources (ge_registry env)) else {})"
    and "ph_engaged (g_primary g') = primary_down env g"
    and "g'\<lparr>g_primary := k\<rparr> = g\<lparr>g_primary := k\<rparr>"
    and "gate_only st st'" "hold_seq st' = hold_seq st + flip (ph_engaged (g_primary g)) (ph_engaged (g_primary g'))"
    and "(\<not> ph_engaged (g_primary g) \<longrightarrow> ph_held (g_primary g) = []) \<Longrightarrow> ph_held (g_primary g') = held"
  using assms unfolding primary_hold_held_def primary_down_def primary_sources_def flip_def Let_def
  by (auto split: if_splits)

lemma release_round_spec:
  assumes "release_round_hold now (g, st) = (g', st')"
  shows "\<not> rh_engaged (g_round g')" "g'\<lparr>g_round := k\<rparr> = g\<lparr>g_round := k\<rparr>"
    and "gate_only st st'" "hold_seq st' = hold_seq st + flip (rh_engaged (g_round g)) False"
    and "(\<not> rh_engaged (g_round g) \<longrightarrow> rh_held (g_round g) = []) \<Longrightarrow> rh_held (g_round g') = []"
  using assms unfolding release_round_hold_def flip_def Let_def by (auto split: if_splits)

lemma exempt_bound_spec:
  assumes "exempt_bound_held env exempt g = (tripped, g')"
  shows "set tripped \<subseteq> set exempt - {ROUND_SOURCE}" "rh_engaged (g_round g') = rh_engaged (g_round g)"
    "rh_held (g_round g') = rh_held (g_round g)" "g'\<lparr>g_round := k\<rparr> = g\<lparr>g_round := k\<rparr>"
proof -
  note parts = assms [unfolded exempt_bound_held_def Let_def prod.inject]
  show "set tripped \<subseteq> set exempt - {ROUND_SOURCE}" unfolding conjunct1 [OF parts, symmetric]
    by (auto simp: bound_covers_def split: option.splits if_splits)
  obtain a b where "g' = g\<lparr>g_round := (g_round g)\<lparr>rh_exempt_refused := a, rh_bound_held := b\<rparr>\<rparr>"
    using conjunct2 [OF parts] by blast
  then show "rh_engaged (g_round g') = rh_engaged (g_round g)" "rh_held (g_round g') = rh_held (g_round g)"
    "g'\<lparr>g_round := k\<rparr> = g\<lparr>g_round := k\<rparr>"
    by simp_all
qed

lemma landing_round [simp]:
  "g_round (snd (landing_in_flight env g)) = g_round g" "g_kv (snd (landing_in_flight env g)) = g_kv g"
  "g_primary (snd (landing_in_flight env g)) = g_primary g" "g_flights (snd (landing_in_flight env g)) = g_flights g"
  by (simp_all add: landing_in_flight_def split: prod.splits)

lemma refresh_round [simp]:
  "g_round (refresh_landing_probe env g) = g_round g" "g_kv (refresh_landing_probe env g) = g_kv g"
  "g_primary (refresh_landing_probe env g) = g_primary g" "g_flights (refresh_landing_probe env g) = g_flights g"
  by (simp_all add: refresh_landing_probe_def split: prod.splits)

lemma refresh_landing: "fst (landing_in_flight env (refresh_landing_probe env g)) = fst (landing_in_flight env g)"
  by (simp add: refresh_landing_probe_def landing_in_flight_def LANDING_PROBE_SECONDS_def split: prod.splits)


lemma gates_upd_cong:
  assumes "g'\<lparr>g_round := k\<rparr> = g\<lparr>g_round := k\<rparr>"
  shows "g_kv g' = g_kv g" "g_primary g' = g_primary g" "g_flights g' = g_flights g"
    "g_landing_probe g' = g_landing_probe g"
  using arg_cong [OF assms, of g_kv] arg_cong [OF assms, of g_primary] arg_cong [OF assms, of g_flights]
    arg_cong [OF assms, of g_landing_probe] by simp_all

lemma kv_upd_cong:
  assumes "g'\<lparr>g_kv := k\<rparr> = g\<lparr>g_kv := k\<rparr>"
  shows "g_round g' = g_round g" "g_primary g' = g_primary g" "g_flights g' = g_flights g"
    "g_landing_probe g' = g_landing_probe g"
  using arg_cong [OF assms, of g_round] arg_cong [OF assms, of g_primary] arg_cong [OF assms, of g_flights]
    arg_cong [OF assms, of g_landing_probe] by simp_all

lemma primary_upd_cong:
  assumes "g'\<lparr>g_primary := k\<rparr> = g\<lparr>g_primary := k\<rparr>"
  shows "g_round g' = g_round g" "g_kv g' = g_kv g" "g_flights g' = g_flights g"
    "g_landing_probe g' = g_landing_probe g" "g_landing_probe_running g' = g_landing_probe_running g"
  using arg_cong [OF assms, of g_round] arg_cong [OF assms, of g_kv] arg_cong [OF assms, of g_flights]
    arg_cong [OF assms, of g_landing_probe] arg_cong [OF assms, of g_landing_probe_running] by simp_all

text \<open>The gates a round decision starts from: the landing marker may have been read afresh.\<close>

definition probed :: "gate_env \<Rightarrow> gates \<Rightarrow> gates" where
  "probed env g = (if ROUND_SOURCE \<in> set (running_sources g) then g else snd (landing_in_flight env g))"

lemma probed_same [simp]:
  "g_round (probed env g) = g_round g" "g_kv (probed env g) = g_kv g" "g_primary (probed env g) = g_primary g"
  "g_flights (probed env g) = g_flights g"
  by (simp_all add: probed_def)

definition round_list :: "gate_env \<Rightarrow> gates \<Rightarrow> string list" where
  "round_list env g = sorted_set (filter (\<lambda>n. n \<notin> set (round_exempt env)) (map fst (ge_registry env))
     @ fst (exempt_bound_held env (round_exempt env) (probed env g)))"

text \<open>The exempt sources a round keeps back all the same while the bound on exemptions is over.\<close>

lemma bound_over_cong:
  assumes "g_flights g' = g_flights g"
  shows "bound_over env bound exempt g' = bound_over env bound exempt g"
proof -
  have "exempt_in_flight exempt g' = exempt_in_flight exempt g"
    by (simp add: exempt_in_flight_def running_sources_def assms)
  then show ?thesis
    unfolding bound_over_def by (simp only: assms split: option.splits)
qed

definition round_tripped :: "gate_env \<Rightarrow> gates \<Rightarrow> string set" where
  "round_tripped env g = (case round_hold_exempt_bound (ge_round_cfg env) of None \<Rightarrow> {}
     | Some bound \<Rightarrow> if bound_over env bound (round_exempt env) g then set (bound_covers bound (round_exempt env)) else {})"

lemma round_list_set:
  "set (round_list env g) =
     {n \<in> fst ` set (ge_registry env). n \<notin> set (round_exempt env) \<or> n \<in> round_tripped env g}"
proof -
  have "bound_over env bound (round_exempt env) (probed env g) = bound_over env bound (round_exempt env) g" for bound
    by (rule bound_over_cong) simp
  then show ?thesis
    by (auto simp: round_list_def round_tripped_def exempt_bound_held_def Let_def split: option.splits if_splits)
qed

lemma round_tripped_cong:
  assumes "g_flights g' = g_flights g"
  shows "round_tripped env g' = round_tripped env g"
  unfolding round_tripped_def bound_over_cong [OF assms] ..

lemma round_released:
  assumes "\<not> round_protected env g"
  obtains g1 where "round_hold_held env now (g, st) = ([], release_round_hold now (g1, st))"
    "g_round g1 = g_round g" "g_kv g1 = g_kv g" "g_primary g1 = g_primary g" "g_flights g1 = g_flights g"
proof (cases "or_default (rc_enabled (ge_round_cfg env)) True")
  case True
  then show thesis using that [of "probed env g"] assms
    by (auto simp: round_hold_held_def round_protected_def probed_def Let_def split_beta)
next
  case False
  then show thesis using that [of g] by (simp add: round_hold_held_def Let_def)
qed

lemma round_engaged:
  assumes "round_protected env g" "exempt_bound_held env (round_exempt env) (probed env g) = (tripped, g2)"
  shows "round_hold_held env now (g, st) =
    (if \<not> rh_engaged (g_round g2)
     then (round_list env g, g2\<lparr>g_round := (g_round g2)\<lparr>rh_engaged := True, rh_engagements := rh_engagements (g_round g2) + 1,
             rh_since := Some (iso_utc now), rh_held := round_list env g\<rparr>\<rparr>,
           journal_gate now ''round_hold'' ''engage'' (round_list env g) ROUND_SOURCE st)
     else (round_list env g, g2\<lparr>g_round := (g_round g2)\<lparr>rh_held := round_list env g\<rparr>\<rparr>, st))"
proof -
  have on: "or_default (rc_enabled (ge_round_cfg env)) True" using assms(1) by (simp add: round_protected_def)
  have probe: "(if ROUND_SOURCE \<in> set (running_sources g) then (True, g) else landing_in_flight env g) = (True, probed env g)"
    using assms(1) by (cases "landing_in_flight env g") (auto simp: round_protected_def probed_def)
  have list: "round_list env g = sorted_set (filter (\<lambda>n. n \<notin> set (round_exempt env)) (map fst (ge_registry env)) @ tripped)"
    by (simp add: round_list_def assms(2))
  show ?thesis
    unfolding round_hold_held_def prod.case Let_def probe round_exempt_def [symmetric] assms(2) list [symmetric]
    using on by simp
qed

lemma round_hold_spec:
  assumes "round_hold_held env now (g, st) = (held, g', st')"
  shows "held = (if round_protected env g then round_list env g else [])"
    and "rh_engaged (g_round g') = round_protected env g"
    and "g_kv g' = g_kv g" "g_primary g' = g_primary g" "g_flights g' = g_flights g"
    and "gate_only st st'" "hold_seq st' = hold_seq st + flip (rh_engaged (g_round g)) (rh_engaged (g_round g'))"
    and "(\<not> rh_engaged (g_round g) \<longrightarrow> rh_held (g_round g) = []) \<Longrightarrow> rh_held (g_round g') = held"
proof -
  have "held = (if round_protected env g then round_list env g else []) \<and> rh_engaged (g_round g') = round_protected env g \<and>
      g_kv g' = g_kv g \<and> g_primary g' = g_primary g \<and> g_flights g' = g_flights g \<and> gate_only st st' \<and>
      hold_seq st' = hold_seq st + flip (rh_engaged (g_round g)) (rh_engaged (g_round g')) \<and>
      ((\<not> rh_engaged (g_round g) \<longrightarrow> rh_held (g_round g) = []) \<longrightarrow> rh_held (g_round g') = held)"
  proof (cases "round_protected env g")
    case True
    obtain tripped g2 where b: "exempt_bound_held env (round_exempt env) (probed env g) = (tripped, g2)" by fastforce
    show ?thesis
      using assms round_engaged [OF True b, of now st] exempt_bound_spec(2,3,4) [OF b] gates_upd_cong [OF exempt_bound_spec(4) [OF b]] True
      by (auto simp: flip_def split: if_splits)
  next
    case False
    then obtain g1 where g1: "round_hold_held env now (g, st) = ([], release_round_hold now (g1, st))"
      "g_round g1 = g_round g" "g_kv g1 = g_kv g" "g_primary g1 = g_primary g" "g_flights g1 = g_flights g"
      by (rule round_released)
    then have r: "release_round_hold now (g1, st) = (g', st')" and "held = []" using assms by auto
    then show ?thesis using release_round_spec [OF r] gates_upd_cong [OF release_round_spec(2) [OF r]] g1 False by auto
  qed
  then show "held = (if round_protected env g then round_list env g else [])"
    "rh_engaged (g_round g') = round_protected env g" "g_kv g' = g_kv g" "g_primary g' = g_primary g" "g_flights g' = g_flights g"
    "gate_only st st'" "hold_seq st' = hold_seq st + flip (rh_engaged (g_round g)) (rh_engaged (g_round g'))"
    "(\<not> rh_engaged (g_round g) \<longrightarrow> rh_held (g_round g) = []) \<Longrightarrow> rh_held (g_round g') = held"
    by blast+
qed

section \<open>All three gates\<close>

lemma landing_cong:
  "g_landing_probe g' = g_landing_probe g \<Longrightarrow> g_landing_probe_running g' = g_landing_probe_running g \<Longrightarrow>
   fst (landing_in_flight env g') = fst (landing_in_flight env g)"
  by (simp add: landing_in_flight_def split: prod.splits)

lemma round_protected_cong:
  "g_landing_probe g' = g_landing_probe g \<Longrightarrow> g_landing_probe_running g' = g_landing_probe_running g \<Longrightarrow>
   g_flights g' = g_flights g \<Longrightarrow> round_protected env (refresh_landing_probe env g') = round_protected env g"
  by (simp add: round_protected_def running_sources_def refresh_landing landing_cong [of g' g])

lemma claim_holds_spec:
  assumes "claim_holds env now (g, st) = (held, g', st')"
  shows "kg_engaged (g_kv g') = kv_over env" "ph_engaged (g_primary g') = primary_down env g"
    "rh_engaged (g_round g') = round_protected env g" "g_flights g' = g_flights g"
    and "gate_only st st'"
    and "hold_seq st' = hold_seq st + flip (ph_engaged (g_primary g)) (primary_down env g)
      + flip (kg_engaged (g_kv g)) (kv_over env) + flip (rh_engaged (g_round g)) (round_protected env g)"
    and "set held \<supseteq> (if kv_over env then set (long_lived_sources (ge_registry env)) else {})
      \<union> (if primary_down env g then set (primary_sources env) \<inter> set (long_lived_sources (ge_registry env)) else {})
      \<union> (if round_protected env g
         then {n \<in> fst ` set (ge_registry env). n \<notin> set (round_exempt env) \<or> n \<in> round_tripped env g} else {})"
    and "\<not> kv_over env \<Longrightarrow> \<not> primary_down env g \<Longrightarrow> \<not> round_protected env g \<Longrightarrow> held = []"
    and "gates_ok (ge_registry env) g \<Longrightarrow> gates_ok (ge_registry env) g' \<and> held = held_source_names g'"
proof -
  obtain held1 g1 st1 where p: "primary_hold_held env now (g, st) = (held1, g1, st1)" by (metis prod_cases3)
  obtain held2 g2 st2 where k: "kv_gate_held env now (g1, st1) = (held2, g2, st2)" by (metis prod_cases3)
  let ?g3 = "refresh_landing_probe env g2"
  obtain held3 where r: "round_hold_held env now (?g3, st2) = (held3, g', st')" and held: "held = sorted_set (held1 @ held2 @ held3)"
    using assms p k by (auto simp: claim_holds_def split: prod.splits)
  note ps = primary_hold_spec [OF p] and ks = kv_gate_spec [OF k] and rs = round_hold_spec [OF r]
  note pc = primary_upd_cong [OF ps(3)] and kc = kv_upd_cong [OF ks(3)]
  have run: "g_landing_probe_running g2 = g_landing_probe_running g"
    using arg_cong [OF ks(3), of g_landing_probe_running] pc(5) by simp
  have prot: "round_protected env ?g3 = round_protected env g"
    using round_protected_cong [of g2 g env] pc kc run by simp
  show "kg_engaged (g_kv g') = kv_over env" using ks rs by simp
  show "ph_engaged (g_primary g') = primary_down env g" using ps rs kc by simp
  show "rh_engaged (g_round g') = round_protected env g" using rs prot by simp
  show "g_flights g' = g_flights g" using rs kc pc by simp
  show "gate_only st st'" using ps(4) ks(4) rs(6) gate_only_trans by blast
  show "hold_seq st' = hold_seq st + flip (ph_engaged (g_primary g)) (primary_down env g)
      + flip (kg_engaged (g_kv g)) (kv_over env) + flip (rh_engaged (g_round g)) (round_protected env g)"
    using ps(2,5) ks(2,5) rs(2,7) pc kc prot by simp
  have "round_tripped env ?g3 = round_tripped env g" by (rule round_tripped_cong) (use pc kc in simp)
  then have "{n \<in> fst ` set (ge_registry env). n \<notin> set (round_exempt env) \<or> n \<in> round_tripped env g} \<subseteq> set held3"
    if "round_protected env g"
    using rs(1) prot that by (simp add: round_list_set)
  then show "set held \<supseteq> (if kv_over env then set (long_lived_sources (ge_registry env)) else {})
      \<union> (if primary_down env g then set (primary_sources env) \<inter> set (long_lived_sources (ge_registry env)) else {})
      \<union> (if round_protected env g
         then {n \<in> fst ` set (ge_registry env). n \<notin> set (round_exempt env) \<or> n \<in> round_tripped env g} else {})"
    using ps(1) ks(1) held by auto
  show "held = []" if "\<not> kv_over env" "\<not> primary_down env g" "\<not> round_protected env g"
    using that ps(1) ks(1) rs(1) prot held by simp
  show "gates_ok (ge_registry env) g' \<and> held = held_source_names g'" if ok: "gates_ok (ge_registry env) g"
  proof -
    have "ph_held (g_primary g1) = held1" using ok ps(6) by (simp add: gates_ok_def)
    moreover have "kg_held (g_kv g2) = held2" using ok ks(6) pc by (simp add: gates_ok_def)
    moreover have "rh_held (g_round g') = held3" using ok rs(8) pc kc by (simp add: gates_ok_def)
    ultimately show ?thesis using ps(1,2) ks(1,2) rs prot kc held
      by (auto simp: gates_ok_def held_source_names_def intro: sorted_set_cong)
  qed
qed

end
