(* ===== verification/Pool_Facts.thy ===== *)
theory Pool_Facts
  imports Pool_Runs Pause_Safety Gate_Facts Queue_Lifecycle Run_Summary
begin

text \<open>
  Lemmas about a turn of the worker loop: what a started item says about the gates and the queue, and
  that every outcome of a run is recorded once and settles its row.
\<close>

section \<open>Records\<close>

lemma shorten_500: "\<exists>s. shorten_summary t SUMMARY_MAX_CHARS = Inr s \<and> length s \<le> SUMMARY_MAX_CHARS"
proof (cases "length t \<le> SUMMARY_MAX_CHARS")
  case True
  then show ?thesis by (simp add: shorten_summary_def)
next
  case False
  then show ?thesis using shorten_long [of SUMMARY_MAX_CHARS t]
    by (auto simp: SUMMARY_MAX_CHARS_def SUMMARY_MARKER_def cut_ok_def)
qed

lemma record_run_fresh:
  assumes "r_run_id raw \<notin> r_run_id ` set (runs st)"
  obtains st' run where "record_run raw st = Inr st'" "queue st' = queue st" "max_attempts st' = max_attempts st"
    "queue_seq st' = queue_seq st" "runs st' = runs st @ [run]" "r_run_id run = r_run_id raw"
    "r_queue_id run = r_queue_id raw" "r_status run = r_status raw"
proof -
  obtain s where "shorten_summary (r_summary raw) SUMMARY_MAX_CHARS = Inr s" using shorten_500 by blast
  then show thesis using assms that by (auto simp: record_run_def insert_run_def)
qed

lemma record_run_dup: "r_run_id raw \<in> r_run_id ` set (runs st) \<Longrightarrow> record_run raw st = Inl IntegrityError"
  using shorten_500 [of "r_summary raw"] by (auto simp: record_run_def insert_run_def)

text \<open>One attempt has its run, and its row is no longer in flight.\<close>

definition attempt_recorded :: "nat \<Rightarrow> string \<Rightarrow> store \<Rightarrow> store \<Rightarrow> bool" where
  "attempt_recorded n rid st st' \<longleftrightarrow>
     (\<exists>run. runs st' = runs st @ [run] \<and> r_run_id run = rid \<and> r_queue_id run = Some n \<and> r_status run \<in> set RUN_STATUSES) \<and>
     (\<exists>r \<in> set (queue st'). q_id r = n) \<and> (\<forall>r \<in> set (queue st'). q_id r = n \<longrightarrow> \<not> in_flight (q_state r))"

text \<open>What the cost-outlier trigger may do to the queue: add rows nobody holds, and change rows nobody holds.\<close>

definition only_enqueues :: "(store \<Rightarrow> store) \<Rightarrow> bool" where
  "only_enqueues arm \<longleftrightarrow> (\<forall>s. runs (arm s) = runs s \<and> q_id ` set (queue s) \<subseteq> q_id ` set (queue (arm s)) \<and>
     {r \<in> set (queue (arm s)). in_flight (q_state r)} \<subseteq> set (queue s))"

lemma upd_settles:
  assumes "row \<in> set rows" "q_id row = n" "\<And>r. q_id (f r) = q_id r" "\<And>r. \<not> in_flight (q_state (f r))"
  shows "\<exists>r \<in> set (upd_where (\<lambda>r. q_id r = n) f rows). q_id r = n"
    "\<forall>r \<in> set (upd_where (\<lambda>r. q_id r = n) f rows). q_id r = n \<longrightarrow> \<not> in_flight (q_state r)"
proof -
  have "f row \<in> set (upd_where (\<lambda>r. q_id r = n) f rows)" using assms(1,2) by (intro upd_whereI) auto
  then show "\<exists>r \<in> set (upd_where (\<lambda>r. q_id r = n) f rows). q_id r = n" using assms(2,3) by (intro bexI) simp_all
  show "\<forall>r \<in> set (upd_where (\<lambda>r. q_id r = n) f rows). q_id r = n \<longrightarrow> \<not> in_flight (q_state r)"
    using assms(4) by (auto simp: upd_where_def split: if_splits)
qed

lemma mark_failed_settles:
  assumes "row \<in> set (queue st)" "q_id row = n"
  shows "runs (snd (mark_failed now n err cap st)) = runs st"
    "\<exists>r \<in> set (queue (snd (mark_failed now n err cap st))). q_id r = n"
    "\<forall>r \<in> set (queue (snd (mark_failed now n err cap st))). q_id r = n \<longrightarrow> \<not> in_flight (q_state r)"
proof -
  obtain r where "find (\<lambda>r. q_id r = n) (queue st) = Some r"
    using assms by (cases "find (\<lambda>r. q_id r = n) (queue st)") (auto simp: find_None_iff)
  then have "\<exists>f. queue (snd (mark_failed now n err cap st)) = upd_where (\<lambda>r. q_id r = n) f (queue st) \<and>
      runs (snd (mark_failed now n err cap st)) = runs st \<and> (\<forall>r. q_id (f r) = q_id r \<and> \<not> in_flight (q_state (f r)))"
    by (auto simp: mark_failed_def Let_def in_flight_def intro!: exI)
  then obtain f where f: "queue (snd (mark_failed now n err cap st)) = upd_where (\<lambda>r. q_id r = n) f (queue st)"
      "runs (snd (mark_failed now n err cap st)) = runs st" "\<And>r. q_id (f r) = q_id r" "\<And>r. \<not> in_flight (q_state (f r))"
    by blast
  show "runs (snd (mark_failed now n err cap st)) = runs st" by (rule f)
  show "\<exists>r \<in> set (queue (snd (mark_failed now n err cap st))). q_id r = n"
    "\<forall>r \<in> set (queue (snd (mark_failed now n err cap st))). q_id r = n \<longrightarrow> \<not> in_flight (q_state r)"
    unfolding f(1) by (rule upd_settles [OF assms f(3,4)])+
qed

lemma mark_completed_settles:
  assumes "row \<in> set (queue st)" "q_id row = n"
  shows "runs (mark_completed now n rel nb st) = runs st"
    "\<exists>r \<in> set (queue (mark_completed now n rel nb st)). q_id r = n"
    "\<forall>r \<in> set (queue (mark_completed now n rel nb st)). q_id r = n \<longrightarrow> \<not> in_flight (q_state r)"
proof -
  have "\<exists>f. queue (mark_completed now n rel nb st) = upd_where (\<lambda>r. q_id r = n) f (queue st) \<and>
      (\<forall>r. q_id (f r) = q_id r \<and> \<not> in_flight (q_state (f r)))"
    by (cases "deferral now nb"; cases rel) (auto simp: mark_completed_def in_flight_def intro!: exI)
  then obtain f where f: "queue (mark_completed now n rel nb st) = upd_where (\<lambda>r. q_id r = n) f (queue st)"
      "\<And>r. q_id (f r) = q_id r" "\<And>r. \<not> in_flight (q_state (f r))" by blast
  show "runs (mark_completed now n rel nb st) = runs st" by (simp add: mark_completed_def split: option.splits)
  show "\<exists>r \<in> set (queue (mark_completed now n rel nb st)). q_id r = n"
    "\<forall>r \<in> set (queue (mark_completed now n rel nb st)). q_id r = n \<longrightarrow> \<not> in_flight (q_state r)"
    unfolding f(1) by (rule upd_settles [OF assms f(2,3)])+
qed

text \<open>The trigger leaves a settled attempt as it is.\<close>

lemma attempt_recorded_arm:
  assumes "only_enqueues arm" "attempt_recorded n rid st st'"
  shows "attempt_recorded n rid st (arm st')"
proof -
  have arm: "runs (arm st') = runs st'" "q_id ` set (queue st') \<subseteq> q_id ` set (queue (arm st'))"
    "\<And>r. r \<in> set (queue (arm st')) \<Longrightarrow> in_flight (q_state r) \<Longrightarrow> r \<in> set (queue st')"
    using assms(1) by (auto simp: only_enqueues_def)
  have "n \<in> q_id ` set (queue st')" using assms(2) by (auto simp: attempt_recorded_def)
  then have "n \<in> q_id ` set (queue (arm st'))" using arm(2) by blast
  then have "\<exists>r \<in> set (queue (arm st')). q_id r = n" by auto
  then show ?thesis using assms(2) arm(1,3) unfolding attempt_recorded_def by metis
qed

lemma settle_death_ok:
  assumes row: "row \<in> set (queue st)" "q_id row = i_id (j_item j)"
    and fresh: "j_run_id j \<notin> r_run_id ` set (runs st)" and tid: "task_id_of (j_item j) None = Inr t"
  shows "fst (settle_death now cap j msg meta st) = None"
    "attempt_recorded (i_id (j_item j)) (j_run_id j) st (snd (settle_death now cap j msg meta st))"
proof -
  let ?raw = "run_row_of j now ''failed'' msg t meta"
  have "r_run_id ?raw \<notin> r_run_id ` set (runs st)" using fresh by (simp add: run_row_of_def)
  then obtain st1 run where st1: "record_run ?raw st = Inr st1" "queue st1 = queue st" "runs st1 = runs st @ [run]"
    "r_run_id run = r_run_id ?raw" "r_queue_id run = r_queue_id ?raw" "r_status run = r_status ?raw"
    by (rule record_run_fresh) blast
  note failed = mark_failed_settles [of row st1 "i_id (j_item j)" now msg "Some cap"]
  show "fst (settle_death now cap j msg meta st) = None" using tid st1(1) by (simp add: settle_death_def)
  show "attempt_recorded (i_id (j_item j)) (j_run_id j) st (snd (settle_death now cap j msg meta st))"
    using tid st1 failed row by (simp add: settle_death_def attempt_recorded_def run_row_of_def RUN_STATUSES_def)
qed

lemma task_id_object: "i_payload it = JObj pl \<Longrightarrow> \<exists>t. task_id_of it res = Inr t"
  by (simp add: task_id_of_def payload_get_def Let_def)

lemma settle_exception_ok:
  assumes "row \<in> set (queue st)" "q_id row = i_id (j_item j)" "j_run_id j \<notin> r_run_id ` set (runs st)"
    and "i_payload (j_item j) = JObj pl"
  shows "fst (settle_exception charge now cap rx j name txt st) = None"
    "attempt_recorded (i_id (j_item j)) (j_run_id j) st (snd (settle_exception charge now cap rx j name txt st))"
proof -
  obtain t where t: "task_id_of (j_item j) None = Inr t" using task_id_object [OF assms(4)] by blast
  then obtain d where "death_meta charge (j_item j) (j_source j) name (rx_verdict rx) = Inr d"
    by (simp add: death_meta_def Let_def)
  then show "fst (settle_exception charge now cap rx j name txt st) = None"
    "attempt_recorded (i_id (j_item j)) (j_run_id j) st (snd (settle_exception charge now cap rx j name txt st))"
    using settle_death_ok [OF assms(1-3) t] by (simp_all add: settle_exception_def)
qed

lemma carry_gaps_rest [simp]:
  "queue (carry_gaps now it tid b st) = queue st" "runs (carry_gaps now it tid b st) = runs st"
  by (simp_all add: carry_gaps_def split: option.splits list.splits)

lemma result_status_ok: "result_status kvs \<in> set RUN_STATUSES"
  by (auto simp: result_status_def RUN_STATUSES_def split: json.splits)

lemma normalize_fields:
  assumes "normalize_result it res = Inr n"
  shows "n_status n \<in> set RUN_STATUSES" "length (n_summary n) \<le> SUMMARY_MAX_CHARS" "length (n_response n) \<le> 50000"
    "n_defer_seconds n = Some s \<Longrightarrow> 0 < s \<and> n_status n \<noteq> ''success''"
proof -
  define kvs where "kvs = (case res of JObj kvs \<Rightarrow> kvs | _ \<Rightarrow> [])"
  have n: "n_status n = result_status kvs" "shorten_summary (result_summary kvs (result_status kvs)) SUMMARY_MAX_CHARS = Inr (n_summary n)"
    "n_response n = take 50000 (text_or (dict_get kvs ''response''))" "defer_seconds_of kvs (result_status kvs) = Inr (n_defer_seconds n)"
    using assms unfolding normalize_result_def kvs_def [symmetric] Let_def by (auto split: sum.splits)
  show "n_status n \<in> set RUN_STATUSES" using n(1) result_status_ok by simp
  show "length (n_summary n) \<le> SUMMARY_MAX_CHARS"
    using n(2) shorten_500 [of "result_summary kvs (result_status kvs)"] by auto
  show "length (n_response n) \<le> 50000" using n(3) by simp
  show "0 < s \<and> n_status n \<noteq> ''success''" if "n_defer_seconds n = Some s"
    using n(1,4) that unfolding defer_seconds_of_def Let_def
    by (auto split: if_splits sum.splits py_error.splits pyfloat.splits)
qed

lemma settle_result_cases:
  assumes row: "row \<in> set (queue st)" "q_id row = i_id (j_item j)" and fresh: "j_run_id j \<notin> r_run_id ` set (runs st)"
    and arm: "only_enqueues arm"
    and range: "\<And>n e. normalize_result (j_item j) res = Inr n \<Longrightarrow> defer_to now (n_defer_seconds n) \<noteq> Inl e"
  shows "(\<exists>e. settle_result w arm now rx j res st = (Some e, st)) \<or>
    (\<exists>st'. settle_result w arm now rx j res st = (None, st') \<and> attempt_recorded (i_id (j_item j)) (j_run_id j) st st')"
proof (cases "normalize_result (j_item j) res")
  case (Inl e)
  then show ?thesis by (simp add: settle_result_def)
next
  case (Inr n)
  let ?b = "case n_claims n of None \<Rightarrow> Inr None | Some cs \<Rightarrow> map_sum id Some (verify_bundle w True cs)"
  show ?thesis
  proof (cases ?b)
    case (Inl e)
    then show ?thesis using Inr by (simp add: settle_result_def Let_def)
  next
    case b: (Inr b)
    define st1 where "st1 = (case b of None \<Rightarrow> st | Some b \<Rightarrow> carry_gaps now (j_item j) (n_task_id n) b st)"
    define raw where "raw = (run_row_of j now (n_status n) (n_summary n) (n_task_id n)
        (bind_step_count (rx_turns rx) (context_meta rx (n_meta n))))
        \<lparr>r_artifact_path := n_artifact_path n, r_response_json := JRaw (n_response n),
         r_claims_json := map_option (\<lambda>b. JDoc (bundle_doc b)) b\<rparr>"
    have same: "queue st1 = queue st" "runs st1 = runs st" by (auto simp: st1_def split: option.splits)
    have raw: "r_run_id raw = j_run_id j" "r_queue_id raw = Some (i_id (j_item j))" "r_status raw = n_status n"
      by (simp_all add: raw_def run_row_of_def)
    then have "r_run_id raw \<notin> r_run_id ` set (runs st1)" using fresh same by simp
    then obtain st2 run where st2: "record_run raw st1 = Inr st2" "queue st2 = queue st" "runs st2 = runs st @ [run]"
      "r_run_id run = j_run_id j" "r_queue_id run = Some (i_id (j_item j))" "r_status run = n_status n"
      using same raw by (elim record_run_fresh) auto
    obtain nb where nb: "defer_to now (n_defer_seconds n) = Inr nb" using range [OF Inr] by (cases "defer_to now (n_defer_seconds n)") auto
    let ?st3 = "mark_completed now (i_id (j_item j)) True nb st2"
    have run: "settle_result w arm now rx j res st = (None, arm ?st3)"
      using Inr b st2(1) nb by (simp add: settle_result_def Let_def st1_def raw_def)
    have "row \<in> set (queue st2)" using row st2(2) by simp
    note done3 = mark_completed_settles [OF this row(2), of now True nb]
    have "attempt_recorded (i_id (j_item j)) (j_run_id j) st ?st3"
      using done3 st2 normalize_fields(1) [OF Inr] by (simp add: attempt_recorded_def)
    from attempt_recorded_arm [OF arm this]
    show ?thesis using run by blast
  qed
qed

lemma settle_ok:
  assumes row: "row \<in> set (queue st)" "q_id row = i_id (j_item j)" and fresh: "j_run_id j \<notin> r_run_id ` set (runs st)"
    and obj: "i_payload (j_item j) = JObj pl" and arm: "only_enqueues arm"
    and range: "\<And>res n e. out = Returned res \<Longrightarrow> normalize_result (j_item j) res = Inr n \<Longrightarrow> defer_to now (n_defer_seconds n) \<noteq> Inl e"
  shows "fst (settle w arm charge message now cap rx j out st) = None \<and>
    attempt_recorded (i_id (j_item j)) (j_run_id j) st (snd (settle w arm charge message now cap rx j out st))"
proof (cases out)
  case (Returned res)
  from settle_result_cases [OF row fresh arm, of res now w rx] range [OF Returned] show ?thesis
    using settle_exception_ok [OF row fresh obj] by (fastforce simp: settle_def Returned)
next
  case Timed_Out
  obtain t where "task_id_of (j_item j) None = Inr t" using task_id_object [OF obj] by blast
  from settle_death_ok [OF row fresh this] show ?thesis by (simp add: settle_def Timed_Out settle_timeout_def)
next
  case (Raised name why)
  then show ?thesis using settle_exception_ok [OF row fresh obj] by (simp add: settle_def)
qed


section \<open>A started item\<close>

lemma queue_inv_gate: "gate_only st st' \<Longrightarrow> queue_inv st \<Longrightarrow> queue_inv st'"
  using gate_onlyD [of st st'] by (simp add: queue_inv_def ids_ok_def)

lemma claim_next_taken:
  assumes "queue_inv st" "claim_next now worker quotas exclude st = (Inr (Some it), st')"
  obtains row where "row \<in> set (queue st')" "from_row row = Inr it" "q_state row = Claimed" "q_claimed_by row = Some worker"
    "q_source row = i_source it" "i_source it \<notin> set exclude" "i_source it \<notin> set (saturated st quotas)"
proof -
  obtain r where r: "r \<in> set (queue st)" "eligible now (max_attempts st) (barred st quotas exclude) r"
    "from_row (claimed now worker r) = Inr it" "claimed now worker r \<in> set (queue st')"
    using claim_next_row [OF assms] by blast
  have src: "i_source it = q_source r" using r(3) by (auto simp: from_row_def claimed_def split: option.splits)
  have "q_source r \<notin> barred st quotas exclude" using r(2) claimableD by (auto simp: eligible_def)
  then show thesis using that [OF r(4,3)] src by (simp add: claimed_def barred_def)
qed

lemma worker_poll_started:
  assumes inv: "queue_inv (wp_store p)" "\<And>k p. queue_inv (wp_store p) \<Longrightarrow> queue_inv (wp_store (race k p))"
    and poll: "worker_poll_race race env now hex worker cfg p = (Started it src rid at0 limit scope, p')"
  obtains held g st where "\<not> pool_paused (wp_holds p)"
    "claim_holds env now (wp_gates (race 0 p), wp_store (race 0 p)) = (held, g, st)"
    "i_source it \<notin> set held" "map_of (ge_registry env) (i_source it) = Some src" "grant_scope_for it = Inr scope"
    "rid = new_run_id (i_source it) now hex"
    "\<exists>row \<in> set (queue (wp_store p')). q_id row = i_id it \<and> q_state row = Running \<and> q_claimed_by row = Some worker \<and>
       q_current_run_id row = Some rid \<and> q_source row = i_source it"
    "(i_id it, \<lparr>fl_source = i_source it, fl_kind = i_kind it, fl_started_at = at0, fl_worker = worker\<rparr>) \<in> set (g_flights (wp_gates p'))"
proof -
  let ?q = "race 0 p"
  have free: "\<not> pool_paused (wp_holds p)" using poll by (auto simp: worker_poll_race_def)
  obtain quotas where q: "max_inflight cfg = Inr quotas" using poll free by (auto simp: worker_poll_race_def split: sum.splits)
  obtain held g st where h: "claim_holds env now (wp_gates ?q, wp_store ?q) = (held, g, st)" by (metis prod_cases3)
  define q1 where "q1 = race 1 (?q\<lparr>wp_gates := g, wp_store := st\<rparr>)"
  obtain claim st1 where c: "claim_next now worker quotas held (wp_store q1) = (claim, st1)" by fastforce
  let ?p1 = "q1\<lparr>wp_store := st1\<rparr>"
  have "\<exists>it'. claim = Inr (Some it') \<and> (\<exists>m. map_of (ge_registry env) (i_source it') = Some m \<and>
      start_item now hex worker cfg it' m ?p1 = (Started it src rid at0 limit scope, p'))"
    using poll free q h c by (auto simp add: worker_poll_race_def q1_def [symmetric] Let_def simp del: One_nat_def split: sum.splits option.splits)
  then obtain it' m where started: "claim = Inr (Some it')" "map_of (ge_registry env) (i_source it') = Some m"
      "start_item now hex worker cfg it' m ?p1 = (Started it src rid at0 limit scope, p')" by blast
  then have s: "it' = it" "m = src" "rid = new_run_id (i_source it) now hex" "at0 = iso_utc now" "grant_scope_for it = Inr scope"
      "wp_store p' = mark_running (i_id it) (Some rid) st1"
      "wp_gates p' = (wp_gates q1)\<lparr>g_flights := drop_flight (i_id it) (g_flights (wp_gates q1)) @
         [(i_id it, \<lparr>fl_source = i_source it, fl_kind = i_kind it, fl_started_at = at0, fl_worker = worker\<rparr>)]\<rparr>"
    by (auto simp: start_item_def Let_def split: sum.splits)
  have "queue_inv st" using queue_inv_gate [OF claim_holds_spec(5) [OF h] inv(2) [OF inv(1)]] .
  then have "queue_inv (wp_store q1)" unfolding q1_def by (intro inv(2)) simp
  then obtain row where row: "row \<in> set (queue st1)" "from_row row = Inr it" "q_state row = Claimed"
      "q_claimed_by row = Some worker" "q_source row = i_source it" "i_source it \<notin> set held"
    using claim_next_taken [of "wp_store q1" now worker quotas held it st1] c started(1) s(1) by metis
  have rid: "q_id row = i_id it" using from_row_fields [OF row(2)] by simp
  let ?f = "\<lambda>r. r\<lparr>q_state := Running, q_current_run_id := Some rid\<rparr>"
  have "?f row \<in> set (queue (wp_store p'))"
    using upd_whereI [OF row(1), of "\<lambda>r. q_id r = i_id it \<and> q_state r = Claimed" ?f] row(3) rid s(6)
    by (simp add: mark_running_def)
  then have "\<exists>row \<in> set (queue (wp_store p')). q_id row = i_id it \<and> q_state row = Running \<and> q_claimed_by row = Some worker \<and>
      q_current_run_id row = Some rid \<and> q_source row = i_source it"
    using rid row by (intro bexI [of _ "?f row"]) simp_all
  then show thesis using that [OF free h row(6)] started(2) s by simp
qed

section \<open>Scopes\<close>

lemma strip_prefixed:
  assumes "h \<noteq> []" "\<forall>c \<in> set h. \<not> is_space c"
  shows "\<exists>t. strip (h @ r) = h @ t"
proof -
  obtain c cs where h: "h = c # cs" using assms(1) by (cases h) auto
  have "lstrip (h @ r) = h @ r" using assms(2) h by (simp add: lstrip_def)
  moreover have "dropWhile is_space (rev h) = rev h"
    using assms by (cases "rev h") (auto simp: rev_eq_Cons_iff)
  then have "rstrip (h @ r) = h @ (if \<forall>c \<in> set r. is_space c then [] else rstrip r)"
    by (auto simp: rstrip_def dropWhile_append)
  ultimately show ?thesis by (auto simp: strip_def)
qed

lemma prefixed_unattended:
  assumes "p \<in> {''worker'', ''autonomy-task''}"
  shows "\<not> is_interactive_scope (p @ '':'' @ r)"
proof -
  obtain t where "strip ((p @ '':'') @ r) = (p @ '':'') @ t"
    using strip_prefixed [of "p @ '':''" r] assms by (auto simp: is_space_def)
  then show ?thesis using assms
    by (auto simp: is_interactive_scope_def scope_head_def NON_INTERACTIVE_PREFIXES_def INTERACTIVE_SCOPE_def startswith_def Let_def)
qed

lemma scope_unattended: "grant_scope_for it = Inr scope \<Longrightarrow> \<not> is_interactive_scope scope"
  using prefixed_unattended [of "''worker''" "i_source it"] prefixed_unattended [of "''autonomy-task''"]
  by (auto simp: grant_scope_for_def map_sum_Inr split: if_splits)

end
