(* ===== verification/Pool_Theorems.thy ===== *)
theory Pool_Theorems
  imports Pool_Facts
begin

text \<open>
  The properties of the pool: what the claim gates hold and publish, that every run leaves one record
  and settles its row, and whose authority it borrows.
\<close>

section \<open>The gates\<close>

inductive gate_step :: "registry \<Rightarrow> gates \<times> store \<Rightarrow> gates \<times> store \<Rightarrow> bool" for reg where
  gate_claim: "ge_registry env = reg \<Longrightarrow> gate_step reg gs (snd (claim_holds env now gs))"
| gate_flights: "gate_step reg (g, st) (g\<lparr>g_flights := fs\<rparr>, st')"
| gate_restart: "gate_step reg gs (new_gates, st')"

definition gates_start :: "gates \<times> store \<Rightarrow> bool" where
  "gates_start gs \<longleftrightarrow> fst gs = new_gates"

interpretation gate_sys: invariant_system gates_start "gate_step reg" "\<lambda>gs. gates_ok reg (fst gs)" for reg
proof unfold_locales
  show "gates_start s \<Longrightarrow> gates_ok reg (fst s)" for s by (simp add: gates_start_def gates_ok_def new_gates_def)
  show "gate_step reg s t \<Longrightarrow> gates_ok reg (fst s) \<Longrightarrow> gates_ok reg (fst t)" for s t
  proof (induction rule: gate_step.induct)
    case (gate_claim env gs now)
    obtain held g' st' where "claim_holds env now (fst gs, snd gs) = (held, g', st')" by (metis prod_cases3)
    then show ?case using claim_holds_spec(9) gate_claim by fastforce
  qed (auto simp: gates_ok_def new_gates_def)
qed

text \<open>
  The list of held sources that the status, the health route and the stall alarm read is exactly
  the list the last claim was made to skip, over every sequence of claims, run starts and ends, and
  restarts.
\<close>

theorem held_names_are_skipped:
  assumes "reach gates_start (gate_step (ge_registry env)) (g, st)"
  shows "held_source_names (fst (snd (claim_holds env now (g, st)))) = fst (claim_holds env now (g, st))"
proof -
  obtain held g' st' where c: "claim_holds env now (g, st) = (held, g', st')" by (metis prod_cases3)
  then show ?thesis using claim_holds_spec(9) [OF c] gate_sys.reach_inv [OF assms] by simp
qed

text \<open>An engine that does not answer, and a registry with one long-lived source and one other.\<close>

definition autocode_module :: source_module where
  "autocode_module = \<lparr>m_name = ''autocode'', m_long_lived = True, m_repoll_on_complete = True, m_charge_task_on_death = False\<rparr>"

definition task_module :: source_module where
  "task_module = \<lparr>m_name = ''scheduled-task'', m_long_lived = False, m_repoll_on_complete = False, m_charge_task_on_death = True\<rparr>"

definition sample_env :: gate_env where
  "sample_env = \<lparr>ge_registry = [(''scheduled-task'', task_module), (''autocode'', autocode_module)],
     ge_kv_cfg = \<lparr>kc_enabled = None, kc_max_kv_usage = None, kc_window_seconds = None\<rparr>,
     ge_round_cfg = \<lparr>rc_enabled = None, rc_exempt = None, rc_exempt_bound = None\<rparr>,
     ge_primary_cfg = \<lparr>pc_enabled = None, pc_sources = None, pc_probe_seconds = None, pc_probe_timeout_s = None\<rparr>,
     ge_ring = [], ge_monotonic = 100, ge_time = 100, ge_get = (\<lambda>_. Asked (Inr None)), ge_landing = False\<rparr>"

lemmas gate_eval = sample_env_def new_gates_def claim_holds_def primary_hold_held_def primary_probe_def primary_engine_answering_def
  kv_gate_held_def round_hold_held_def release_round_hold_def refresh_landing_probe_def landing_in_flight_def
  gate_reading_def latest_def or_default_def running_sources_def sorted_set_def long_lived_sources_def
  autocode_module_def task_module_def DEFAULT_PRIMARY_HOLD_SOURCES_def ROUND_SOURCE_def PRIMARY_PROBE_SECONDS_def
  PRIMARY_PROBE_TIMEOUT_S_def LANDING_PROBE_SECONDS_def held_source_names_def

theorem held_names_are_skipped_witness:
  "held_source_names (fst (snd (claim_holds sample_env 0 (new_gates, empty_store (JInt 3))))) = [''autocode'']"
proof -
  have "fst (claim_holds sample_env 0 (new_gates, empty_store (JInt 3))) = [''autocode'']"
    by (simp add: gate_eval Let_def split_beta)
  then show ?thesis
    using held_names_are_skipped [of sample_env new_gates "empty_store (JInt 3)" 0, OF reach_start] by (simp add: gates_start_def)
qed

text \<open>
  The gate journal is exact: deciding a claim writes one row for each gate that engages or lets go
  and none for a gate that stays as it was, and touches nothing else of the database.
\<close>

theorem gate_journal_transitions:
  assumes "claim_holds env now (g, st) = (names, g', st')"
  shows "hold_seq st' = hold_seq st + flip (ph_engaged (g_primary g)) (ph_engaged (g_primary g'))
      + flip (kg_engaged (g_kv g)) (kg_engaged (g_kv g')) + flip (rh_engaged (g_round g)) (rh_engaged (g_round g')) \<and>
    st'\<lparr>hold_journal := [], hold_seq := 0\<rparr> = st\<lparr>hold_journal := [], hold_seq := 0\<rparr>"
  using claim_holds_spec [OF assms] by (simp add: gate_only_def)

lemma sample_flags:
  "\<not> kv_over sample_env" "primary_down sample_env new_gates" "\<not> round_protected sample_env new_gates"
  by (simp_all add: kv_over_def kv_now_def kv_limit_def primary_down_def round_protected_def probed_def gate_eval Let_def split_beta)

theorem gate_journal_transitions_witness:
  "hold_seq (snd (snd (claim_holds sample_env 0 (new_gates, empty_store (JInt 3))))) = 1"
proof -
  let ?c = "claim_holds sample_env 0 (new_gates, empty_store (JInt 3))"
  have c: "?c = (fst ?c, fst (snd ?c), snd (snd ?c))" by simp
  show ?thesis unfolding conjunct1 [OF gate_journal_transitions [OF c]] claim_holds_spec(1-3) [OF c]
    by (simp add: sample_flags flip_def) (simp add: new_gates_def empty_store_def)
qed

lemma half_rank: "0 < n \<Longrightarrow> nat (max 0 (min (int n - 1) (\<lceil>1 / 2 * rat_of_nat n\<rceil> - 1))) = (n + 1) div 2 - 1"
proof -
  have "\<lceil>1 / 2 * rat_of_nat n\<rceil> = \<lceil>rat_of_int (int n) / rat_of_int 2\<rceil>" by simp
  also have "\<dots> = - (- int n div 2)" by (rule ceiling_divide_eq_div)
  finally show "0 < n \<Longrightarrow> ?thesis" by linarith
qed

lemma sort_Nil [simp]: "sort xs = [] \<longleftrightarrow> xs = []"
  by (metis length_0_conv length_sort)

lemma above_rank:
  fixes vals :: "rat list"
  assumes "k < length vals" "limit < sort vals ! k"
  shows "length vals - k \<le> length (filter (\<lambda>x. limit < x) vals)"
proof -
  let ?s = "sort vals"
  have "limit < ?s ! i" if "k \<le> i" "i < length vals" for i
    using assms that sorted_nth_mono [of ?s k i] by fastforce
  then have "\<forall>x \<in> set (drop k ?s). limit < x" by (fastforce simp: in_set_conv_nth)
  then have "length (filter (\<lambda>x. limit < x) (drop k ?s)) = length vals - k" by (simp add: filter_True)
  moreover have "length (filter (\<lambda>x. limit < x) ?s) =
      length (filter (\<lambda>x. limit < x) (take k ?s)) + length (filter (\<lambda>x. limit < x) (drop k ?s))"
    by (metis append_take_drop_id filter_append length_append)
  moreover have "length (filter (\<lambda>x. limit < x) ?s) = length (filter (\<lambda>x. limit < x) vals)"
    by (simp add: filter_sort)
  ultimately show ?thesis by simp
qed

text \<open>
  The KV gate judges residents, not spikes: it engages only if more than half of the samples in its
  window read above the limit, so a prefill that fills the cache for less than half of the window
  does not hold anybody back.
\<close>

theorem kv_gate_needs_majority:
  assumes "kv_gate_held env now (g, st) = (names, g', st')" "kg_engaged (g_kv g')"
    and "vals = List.map_filter sm_kv (samples_since (ge_monotonic env -
           or_default (kc_window_seconds (ge_kv_cfg env)) DEFAULT_KV_GATE_WINDOW_S) (ge_ring env))"
  shows "length vals < 2 * length (filter (\<lambda>kv. or_default (kc_max_kv_usage (ge_kv_cfg env)) DEFAULT_KV_GATE_MAX < kv) vals)"
proof -
  let ?limit = "or_default (kc_max_kv_usage (ge_kv_cfg env)) DEFAULT_KV_GATE_MAX" and ?k = "(length vals + 1) div 2 - 1"
  obtain kv where kv: "kv_now env = Some kv" "?limit < kv"
    using kv_gate_spec(2) [OF assms(1)] assms(2) by (auto simp: kv_over_def kv_limit_def)
  then have ne: "vals \<noteq> []" and "kv = sort vals ! nat (max 0 (min (int (length vals) - 1) (\<lceil>1 / 2 * rat_of_nat (length vals)\<rceil> - 1)))"
    by (auto simp: kv_now_def gate_reading_def kv_percentile_def Let_def assms(3) split: if_splits)
  then have "?limit < sort vals ! ?k" using kv(2) half_rank [of "length vals"] by simp
  moreover have "?k < length vals" using ne by (cases vals) auto
  ultimately have "length vals - ?k \<le> length (filter (\<lambda>kv. ?limit < kv) vals)" by (intro above_rank)
  then show ?thesis using ne by (cases vals) auto
qed

definition pressure_env :: gate_env where
  "pressure_env = sample_env\<lparr>ge_ring := [\<lparr>sm_t = 90, sm_wall = 0, sm_kv = Some (2 / 3), sm_running = None, sm_waiting = None\<rparr>,
     \<lparr>sm_t = 95, sm_wall = 0, sm_kv = Some (3 / 4), sm_running = None, sm_waiting = None\<rparr>]\<rparr>"

theorem kv_gate_needs_majority_witness:
  "kg_engaged (g_kv (fst (snd (kv_gate_held pressure_env 0 (new_gates, empty_store (JInt 3)))))) \<and>
   2 < 2 * length (filter (\<lambda>kv. 3 / 5 < kv) [2 / 3, 3 / 4 :: rat])"
proof -
  let ?c = "kv_gate_held pressure_env 0 (new_gates, empty_store (JInt 3))"
  have vals: "[2 / 3, 3 / 4] = List.map_filter sm_kv (samples_since (ge_monotonic pressure_env -
      or_default (kc_window_seconds (ge_kv_cfg pressure_env)) DEFAULT_KV_GATE_WINDOW_S) (ge_ring pressure_env))"
    by (simp add: pressure_env_def sample_env_def samples_since_def List.map_filter_simps or_default_def DEFAULT_KV_GATE_WINDOW_S_def)
  have on: "kg_engaged (g_kv (fst (snd ?c)))"
    by (simp add: kv_gate_held_def pressure_env_def gate_eval kv_percentile_def samples_since_def List.map_filter_simps
        DEFAULT_KV_GATE_WINDOW_S_def DEFAULT_KV_GATE_MAX_def STALE_AFTER_S_def Let_def split_beta)
  have "?c = (fst ?c, fst (snd ?c), snd (snd ?c))" by simp
  from kv_gate_needs_majority [OF this on vals] on show ?thesis by simp
qed

text \<open>
  The gates fail open: without a reading of the engine, with a health probe that could not be asked
  or that answered 200, and with neither a round nor a landing in flight, a claim is made to skip nobody.
\<close>

theorem gates_fail_open:
  assumes "gate_reading (or_default (kc_window_seconds (ge_kv_cfg env)) DEFAULT_KV_GATE_WINDOW_S) (ge_monotonic env) (ge_ring env) = None"
    and "ph_answering (primary_probe env (g_primary g)) \<noteq> Some False"
    and "ROUND_SOURCE \<notin> set (running_sources g)" "\<not> ge_landing env" "\<not> snd (g_landing_probe g)"
  shows "fst (claim_holds env now (g, st)) = []"
proof -
  obtain names g' st' where c: "claim_holds env now (g, st) = (names, g', st')" by (metis prod_cases3)
  have "\<not> kv_over env" using assms(1) by (simp add: kv_over_def kv_now_def)
  moreover have "\<not> primary_down env g" using assms(2) by (simp add: primary_down_def)
  moreover have "\<not> round_protected env g" using assms(3-5)
    by (auto simp: round_protected_def landing_in_flight_def split: prod.splits)
  ultimately show ?thesis using claim_holds_spec(8) [OF c] c by simp
qed

theorem gates_fail_open_witness:
  "fst (claim_holds (sample_env\<lparr>ge_get := \<lambda>_. Crashed ''OSError''\<rparr>) 0 (new_gates, empty_store (JInt 3))) = []"
  by (rule gates_fail_open) (simp_all add: gate_eval)

end
