(* ===== verification/Evidence_Theorems.thy ===== *)
theory Evidence_Theorems
  imports Pool_Runs Queue_Reads
begin

text \<open>
  The properties of the evidence verifier: a verdict is grounded in what was read, a bundle's counts
  partition its claims and are the ones the rollup reads back from the stored record, and the list of
  gaps reaches the next run only while its text fits the watermark.
\<close>

section \<open>Verdicts\<close>

definition conclusive :: "grade \<Rightarrow> bool" where
  "conclusive g \<longleftrightarrow> (case g of Graded s _ _ \<Rightarrow> s \<noteq> ''insufficient'' | _ \<Rightarrow> False)"

definition graded_ok :: "grade \<Rightarrow> bool" where
  "graded_ok g \<longleftrightarrow> (case g of Graded s _ _ \<Rightarrow> s \<in> set ROLLUP_STATUSES | _ \<Rightarrow> True)"

lemma conclusive_simps [simp]:
  "\<not> conclusive (insufficient d)" "conclusive (verified v)" "conclusive (refuted v d)" "\<not> conclusive (Re_Error e)" "\<not> conclusive (Os_Error e)"
  "\<not> conclusive (Escapes x)" "conclusive (Graded ''verified'' v d)"
  by (simp_all add: conclusive_def insufficient_def verified_def refuted_def)

lemma graded_ok_simps [simp]:
  "graded_ok (insufficient d)" "graded_ok (verified v)" "graded_ok (refuted v d)" "graded_ok (Re_Error e)" "graded_ok (Os_Error e)"
  "graded_ok (Escapes x)" "graded_ok (Graded ''verified'' v d)"
  by (simp_all add: graded_ok_def insufficient_def verified_def refuted_def ROLLUP_STATUSES_def)

lemma directory_unsettled [simp]: "\<not> conclusive (directory_target t n)" "graded_ok (directory_target t n)"
  by (simp_all add: directory_target_def)

lemma oversized_unsettled:
  "oversized_body t n name repair = Some g \<Longrightarrow> \<not> conclusive g \<and> graded_ok g"
  "oversized_body t n name repair = None \<Longrightarrow> n = File bytes body \<Longrightarrow> bytes \<le> MAX_CHECK_BYTES"
  by (auto simp: oversized_body_def split: node.splits if_splits)

lemma with_body_ok: "(\<And>body. graded_ok (k body)) \<Longrightarrow> graded_ok (with_body n k)"
  by (auto simp: with_body_def split: node.splits)

lemma hits_in_ok: "hits_in w p b = Inl g \<Longrightarrow> graded_ok g \<and> \<not> conclusive g"
  by (auto simp: hits_in_def split: sum.splits)

lemma count_lines_ok: "count_lines w p ls = Inl g \<Longrightarrow> graded_ok g \<and> \<not> conclusive g"
  by (induction ls) (auto split: json.splits sum.splits if_splits simp: map_sum_Inl)

lemma count_verdict_ok [simp]: "graded_ok (count_verdict m t c e n)"
  by (auto simp: count_verdict_def Let_def split: sum.splits py_error.splits)

lemma count_files_ok: "count_files w t c = Inl g \<Longrightarrow> graded_ok g"
  by (auto simp: count_files_def Let_def split: if_splits)

lemma count_body_ok:
  assumes "count_body w m t c = Inl g" shows "graded_ok g"
proof (cases "oversized_body t (node_at w t) (''count_eq measure='' @ m) ''bind a smaller artefact carrying the same count''")
  case None
  then show ?thesis using assms hits_in_ok count_lines_ok
    by (auto simp: count_body_def Let_def split: if_splits node.splits json.splits list.splits)
next
  case (Some g')
  then show ?thesis using assms oversized_unsettled(1) [OF Some]
    by (auto simp: count_body_def Let_def split: if_splits node.splits)
qed

lemma json_key_ok: "graded_ok (check_json_key w check)"
  unfolding check_json_key_def Let_def
  by (intro branch [where P = graded_ok] with_body_ok graded_ok_simps directory_unsettled) (simp add: oversized_unsettled(1))

lemma regex_ok: "graded_ok (check_regex w check)"
  unfolding check_regex_def Let_def
  by (intro branch [where P = graded_ok] with_body_ok graded_ok_simps directory_unsettled)
    (simp_all add: oversized_unsettled(1) hits_in_ok)

lemma count_eq_ok: "graded_ok (check_count_eq w check)"
  unfolding check_count_eq_def Let_def
  by (intro branch [where P = graded_ok] graded_ok_simps count_verdict_ok)
    (auto intro: count_files_ok count_body_ok split: if_splits)

lemma evaluate_ok: "graded_ok (evaluate w kind check)"
proof -
  have "graded_ok (check_file_exists w check)" by (simp add: check_file_exists_def Let_def split: sum.splits)
  then show ?thesis by (simp add: evaluate_def json_key_ok regex_ok count_eq_ok)
qed

text \<open>The checks that read a file's body.\<close>

definition reads_body :: "string \<Rightarrow> (string \<times> json) list \<Rightarrow> bool" where
  "reads_body kind check \<longleftrightarrow> kind = ''json_key'' \<or> kind = ''regex'' \<or>
     kind = ''count_eq'' \<and> text_or (dict_get check ''measure'') \<in> {''lines'', ''matches''}"

lemma resolve_inside: "resolve w v = Inr t \<Longrightarrow> take (length (base_path w)) t = base_path w"
  by (auto simp: resolve_def split: json.splits if_splits sum.splits)

definition whole_body :: "node \<Rightarrow> bool" where
  "whole_body n \<longleftrightarrow> (case n of File bytes _ \<Rightarrow> bytes \<le> MAX_CHECK_BYTES | _ \<Rightarrow> False)"

text \<open>What a check of a body may rest a verdict on: the body read whole, or there being no file, which only refutes.\<close>

definition body_ground :: "node \<Rightarrow> grade \<Rightarrow> bool" where
  "body_ground n g \<longleftrightarrow> (conclusive g \<longrightarrow> whole_body n \<or> n = Absent \<and> (\<exists>ob d. g = refuted ob d))"

lemma body_ground_simps [simp]:
  "body_ground n (insufficient d)" "body_ground n (directory_target t m)" "body_ground n (Re_Error e)" "body_ground n (Os_Error e)"
  "body_ground n (Escapes x)"
  by (simp_all add: body_ground_def)

lemma body_ground_missing: "\<not> is_dir n \<Longrightarrow> \<not> is_file n \<Longrightarrow> body_ground n (refuted ob d)" "\<not> is_dir n \<Longrightarrow> \<not> is_file n \<Longrightarrow> n = Absent"
  by (auto simp: body_ground_def is_dir_def is_file_def split: node.splits)

lemma body_ground_oversized: "oversized_body t n name repair = Some g \<Longrightarrow> body_ground n g"
  by (simp add: body_ground_def oversized_unsettled(1))

lemma body_ground_read: "oversized_body t n name repair = None \<Longrightarrow> body_ground n (with_body n k)"
  by (auto simp: body_ground_def whole_body_def with_body_def oversized_body_def split: node.splits if_splits)

lemma count_body_grounded:
  assumes "m = ''lines'' \<or> m = ''matches''"
  shows "case count_body w m t c of Inl g \<Rightarrow> body_ground (node_at w t) g | Inr k \<Rightarrow> whole_body (node_at w t)"
proof (cases "is_file (node_at w t)")
  case True
  have m: "m \<noteq> ''bytes''" using assms by auto
  show ?thesis
  proof (cases "oversized_body t (node_at w t) (''count_eq measure='' @ m) ''bind a smaller artefact carrying the same count''")
    case None
    then have "whole_body (node_at w t) \<or> (\<exists>e. node_at w t = Unreadable e)"
      using True by (auto simp: whole_body_def is_file_def oversized_body_def split: node.splits if_splits)
    then show ?thesis using None True m
      by (auto simp: count_body_def Let_def body_ground_def is_dir_def split: node.splits sum.splits)
  next
    case (Some g)
    then have "count_body w m t c = Inl g" using True m by (auto simp: count_body_def Let_def is_dir_def is_file_def)
    then show ?thesis using body_ground_oversized [OF Some] by simp
  qed
qed (auto simp: count_body_def Let_def body_ground_missing)

lemma count_bytes_grounded:
  "case count_body w ''bytes'' t c of
     Inl g \<Rightarrow> conclusive g \<longrightarrow> node_at w t = Absent \<and> (\<exists>ob d. g = refuted ob d)
   | Inr k \<Rightarrow> \<exists>body. node_at w t = File k body"
  by (auto simp: count_body_def Let_def is_dir_def is_file_def split: node.splits)

lemma json_key_grounded:
  assumes "resolve w (dict_get check ''path'') = Inr t"
  shows "body_ground (node_at w t) (check_json_key w check)"
  unfolding check_json_key_def Let_def assms sum.case
  by (intro branch [where P = "body_ground (node_at w t)"])
    (simp_all add: body_ground_missing body_ground_oversized body_ground_read)

lemma regex_grounded:
  assumes "resolve w (dict_get check ''path'') = Inr t"
    and "node_at w t \<noteq> Absent \<or> text_or (dict_get check ''expect'') \<noteq> ''absent''"
  shows "body_ground (node_at w t) (check_regex w check)"
  unfolding check_regex_def Let_def assms(1) sum.case
  by (intro branch [where P = "body_ground (node_at w t)"])
    (use assms(2) in \<open>auto simp: body_ground_missing body_ground_oversized body_ground_read split: if_splits\<close>)

lemma count_eq_grounded:
  assumes "resolve w (dict_get check ''path'') = Inr t"
    and "text_or (dict_get check ''measure'') = m" "m = ''lines'' \<or> m = ''matches''"
  shows "body_ground (node_at w t) (check_count_eq w check)"
proof -
  have n: "m \<noteq> []" "m \<noteq> ''files''" using assms(3) by auto
  have read: "whole_body x \<Longrightarrow> body_ground x g" for x g by (simp add: body_ground_def)
  show ?thesis
    unfolding check_count_eq_def Let_def assms(1,2) sum.case if_not_P [OF n(1)] if_not_P [OF n(2)]
    by (intro branch [where P = "body_ground (node_at w t)"])
      (use count_body_grounded [OF assms(3), of w t check] in \<open>auto simp: read\<close>)
qed

lemma count_stat_grounded:
  assumes "check_count_eq w check = Graded s ob d" "s \<noteq> ''insufficient''" "resolve w (dict_get check ''path'') = Inr t"
  shows "text_or (dict_get check ''measure'') = ''bytes'' \<Longrightarrow>
      (\<exists>k body. node_at w t = File k body \<and> ob = nat_json k) \<or> node_at w t = Absent \<and> s = ''refuted''"
    and "text_or (dict_get check ''measure'') \<in> {[], ''files''} \<Longrightarrow>
      node_at w t = Directory \<or> s = ''refuted'' \<and> ob = nat_json 0"
proof -
  have verdict: "count_verdict m t c e k = Graded s ob d \<Longrightarrow> s \<noteq> ''insufficient'' \<Longrightarrow> ob = nat_json k" for m c e k
    by (auto simp: count_verdict_def verified_def refuted_def insufficient_def Let_def split: if_splits sum.splits py_error.splits)
  show "(\<exists>k body. node_at w t = File k body \<and> ob = nat_json k) \<or> node_at w t = Absent \<and> s = ''refuted''"
    if "text_or (dict_get check ''measure'') = ''bytes''"
    using assms that count_bytes_grounded [of w t check] verdict
    by (auto simp: check_count_eq_def COUNT_MEASURES_def conclusive_def insufficient_def refuted_def Let_def
        split: if_splits json.splits sum.splits)
  show "node_at w t = Directory \<or> s = ''refuted'' \<and> ob = nat_json 0"
    if "text_or (dict_get check ''measure'') \<in> {[], ''files''}"
    using assms that
    by (auto simp: check_count_eq_def count_files_def COUNT_MEASURES_def is_dir_def insufficient_def refuted_def Let_def
        split: if_splits json.splits sum.splits)
qed

lemma body_check_grounded:
  assumes "reads_body kind check" "resolve w (dict_get check ''path'') = Inr t"
  shows "body_ground (node_at w t) (evaluate w kind check) \<or>
    node_at w t = Absent \<and> kind = ''regex'' \<and> text_or (dict_get check ''expect'') = ''absent''"
proof -
  consider "kind = ''json_key''" | "kind = ''regex''"
    | "kind = ''count_eq''" "text_or (dict_get check ''measure'') = ''lines'' \<or> text_or (dict_get check ''measure'') = ''matches''"
    using assms(1) unfolding reads_body_def by blast
  then show ?thesis
  proof cases
    case 1
    then show ?thesis using json_key_grounded [OF assms(2)] by (simp add: evaluate_def)
  next
    case 2
    then show ?thesis using regex_grounded [OF assms(2)] by (fastforce simp: evaluate_def)
  next
    case 3
    then show ?thesis using count_eq_grounded [OF assms(2) refl 3(2)] by (simp add: evaluate_def)
  qed
qed

text \<open>
  C37. A verdict is conclusive, verified or refuted, only on what was read under the evidence root. A check of a
  file's body (a key of a document, a pattern, a count of lines or matches) found a regular file that could be read, no larger
  than the read cap; its one other ground is that there is no such file, which refutes the claim, except that a claim of absence of
  a pattern is then verified. A claim of existence reports whether there is anything at the path, a count
  of bytes the file's size, whatever it is, with a missing file refuting, and a count of files is of a directory, with anything
  else refuting as a count of zero.
\<close>

theorem settled_claim_grounded:
  assumes "kind \<in> set CHECK_KINDS" "evaluate w kind check = Graded s ob d" "s \<noteq> ''insufficient''"
  shows "\<exists>t. resolve w (dict_get check ''path'') = Inr t \<and> take (length (base_path w)) t = base_path w \<and>
    (reads_body kind check \<longrightarrow>
       (\<exists>bytes body. node_at w t = File bytes body \<and> bytes \<le> MAX_CHECK_BYTES) \<or>
       node_at w t = Absent \<and> (s = ''refuted'' \<or> kind = ''regex'' \<and> text_or (dict_get check ''expect'') = ''absent'')) \<and>
    (kind = ''file_exists'' \<longrightarrow> ob = JBool (node_at w t \<noteq> Absent)) \<and>
    (kind = ''count_eq'' \<and> text_or (dict_get check ''measure'') = ''bytes'' \<longrightarrow>
       (\<exists>bytes body. node_at w t = File bytes body \<and> ob = nat_json bytes) \<or> node_at w t = Absent \<and> s = ''refuted'') \<and>
    (kind = ''count_eq'' \<and> text_or (dict_get check ''measure'') \<in> {[], ''files''} \<longrightarrow>
       node_at w t = Directory \<or> s = ''refuted'' \<and> ob = nat_json 0)"
proof -
  have "\<exists>t. resolve w (dict_get check ''path'') = Inr t" using assms(2,3)
    by (cases "resolve w (dict_get check ''path'')")
      (auto simp: evaluate_def check_file_exists_def check_count_eq_def check_json_key_def check_regex_def insufficient_def split: if_splits)
  then obtain t where t: "resolve w (dict_get check ''path'') = Inr t" by blast
  have settled: "body_ground (node_at w t) (evaluate w kind check) \<Longrightarrow>
      (\<exists>bytes body. node_at w t = File bytes body \<and> bytes \<le> MAX_CHECK_BYTES) \<or> node_at w t = Absent \<and> s = ''refuted''"
    using assms(2,3) by (auto simp: body_ground_def whole_body_def conclusive_def refuted_def split: node.splits)
  have body: "body_ground (node_at w t) (evaluate w kind check) \<or>
      node_at w t = Absent \<and> kind = ''regex'' \<and> text_or (dict_get check ''expect'') = ''absent''" if "reads_body kind check"
    using body_check_grounded [OF that t] .
  have exists: "ob = JBool (node_at w t \<noteq> Absent)" if "kind = ''file_exists''"
    using assms(2) that t by (auto simp: evaluate_def check_file_exists_def verified_def refuted_def Let_def split: if_splits)
  have "check_count_eq w check = Graded s ob d" if "kind = ''count_eq''" using assms(2) that by (simp add: evaluate_def)
  note stat = count_stat_grounded [OF this assms(3) t]
  have whole: "(\<exists>bytes body. node_at w t = File bytes body \<and> bytes \<le> MAX_CHECK_BYTES) \<or>
      node_at w t = Absent \<and> (s = ''refuted'' \<or> kind = ''regex'' \<and> text_or (dict_get check ''expect'') = ''absent'')"
    if "reads_body kind check" using body [OF that] settled by blast
  show ?thesis
    by (rule exI [of _ t], intro conjI impI) (use t resolve_inside [OF t] whole exists stat in \<open>simp_all\<close>)
qed

text \<open>A disk with one report of three lines under the root, where every other name is missing.\<close>

definition report_world :: world where
  "report_world = \<lparr>real_path = (\<lambda>s. Inr [''data'', s]), base_path = [''data''],
     node_at = (\<lambda>t. if t = [''data'', ''report''] then File 5 [CHR ''a'', CHR 0x0A, CHR ''b'', CHR 0x0A, CHR ''c''] else Absent),
     glob_count = (\<lambda>_ _. 0), find_all = (\<lambda>_ _. Inr 0), search_line = (\<lambda>_ _. Inr False),
     json_loads = (\<lambda>_. Inl ''not read'')\<rparr>"

definition lines_check :: "(string \<times> json) list" where
  "lines_check = [(''kind'', JStr ''count_eq''), (''path'', JStr ''report''), (''measure'', JStr ''lines''), (''expected'', JInt 3)]"

lemma lines_check_verified: "evaluate report_world ''count_eq'' lines_check = Graded ''verified'' (JInt 3) []"
  by (simp add: evaluate_def check_count_eq_def lines_check_def dict_get_def resolve_def report_world_def text_or_def py_str_def
      strip_def lstrip_def rstrip_def is_space_def COUNT_MEASURES_def count_body_def is_dir_def is_file_def oversized_body_def MAX_CHECK_BYTES_def
      splitlines_def is_break_def startswith_def count_verdict_def float_bound_def py_float_def close_to_def
      verified_def nat_json_def Let_def)

theorem settled_claim_grounded_witness:
  "evaluate report_world ''count_eq'' lines_check = Graded ''verified'' (JInt 3) [] \<and>
   (\<exists>bytes body. node_at report_world [''data'', ''report''] = File bytes body \<and> bytes \<le> MAX_CHECK_BYTES)"
proof -
  have r: "resolve report_world (dict_get lines_check ''path'') = Inr [''data'', ''report'']" "reads_body ''count_eq'' lines_check"
    by (simp_all add: lines_check_def report_world_def resolve_def dict_get_def strip_def lstrip_def rstrip_def is_space_def
        reads_body_def text_or_def py_str_def)
  show ?thesis using settled_claim_grounded [OF _ lines_check_verified] r by (auto simp: CHECK_KINDS_def lines_check_verified)
qed

section \<open>Bundles\<close>

lemma verify_claim_status:
  assumes "verify_claim w c = Inr v"
  shows "\<exists>st. dict_get v ''status'' = JStr st \<and> st \<in> set ROLLUP_STATUSES"
proof (cases c)
  case (JObj kvs)
  define check where "check = (case dict_get kvs ''check'' of JObj c \<Rightarrow> c | _ \<Rightarrow> [])"
  have "\<exists>text' st ob d. v = with_verdict kvs text' check st ob d \<and> st \<in> set ROLLUP_STATUSES"
    using assms evaluate_ok [of w "text_or (dict_get check ''kind'')" check]
    unfolding JObj verify_claim_def json.case Let_def check_def [symmetric]
    by (auto simp: graded_ok_def ROLLUP_STATUSES_def split: if_splits grade.splits)
  then show ?thesis by (auto simp: with_verdict_def dict_get_set)
qed (use assms in \<open>auto simp: verify_claim_def ROLLUP_STATUSES_def dict_get_def\<close>)

lemma verify_claims_status:
  "verify_claims w cs = Inr vs \<Longrightarrow> length vs = length cs \<and> (\<forall>v \<in> set vs. \<exists>st. dict_get v ''status'' = JStr st \<and> st \<in> set ROLLUP_STATUSES)"
  using verify_claim_status by (induction cs arbitrary: vs) (auto simp: map_sum_Inr split: sum.splits)

lemma status_counts:
  assumes "\<forall>v \<in> set vs. \<exists>st. dict_get v ''status'' = JStr st \<and> st \<in> set ROLLUP_STATUSES"
  shows "length vs = length (filter (\<lambda>v. status_of v = ''verified'') vs) + count_where (\<lambda>v. status_of v = ''refuted'') vs
    + count_where (\<lambda>v. status_of v = ''insufficient'') vs"
  using assms
proof (induction vs)
  case (Cons v vs)
  then obtain st where "dict_get v ''status'' = JStr st" "st \<in> set ROLLUP_STATUSES" by auto
  with Cons show ?case by (auto simp: status_of_def py_str_def ROLLUP_STATUSES_def count_where_def)
qed (simp add: count_where_def)

lemma gap_statuses:
  assumes "\<forall>v \<in> set vs. \<exists>st. dict_get v ''status'' = JStr st \<and> st \<in> set ROLLUP_STATUSES"
  shows "filter (\<lambda>v. status_of v \<in> set GAP_STATUSES) vs = [] \<longleftrightarrow> length (filter (\<lambda>v. status_of v = ''verified'') vs) = length vs"
  using assms
proof (induction vs)
  case (Cons v vs)
  then obtain st where "dict_get v ''status'' = JStr st" "st \<in> set ROLLUP_STATUSES" by auto
  then have "status_of v \<in> set GAP_STATUSES \<longleftrightarrow> status_of v \<noteq> ''verified''"
    by (auto simp: status_of_def py_str_def ROLLUP_STATUSES_def GAP_STATUSES_def)
  moreover have "length (filter (\<lambda>v. status_of v = ''verified'') vs) \<noteq> Suc (length vs)"
    using length_filter_le [of "\<lambda>v. status_of v = ''verified''" vs] by linarith
  ultimately show ?case using Cons by simp
qed simp

text \<open>
  A bundle's counts account for every claim that was checked, at most 20 of them; what is handed to
  the next run is at most 12 lines of at most 400 characters; and there is nothing to hand on only if
  something was checked and all of it verified.
\<close>

theorem bundle_accounts:
  assumes "verify_bundle w emitted raw = Inr b"
  shows "bu_total b = bu_verified_count b + bu_refuted b + bu_insufficient b \<and> bu_total b = length (bu_claims b) \<and>
    bu_total b \<le> 20 \<and> length (bu_gap b) \<le> 12 \<and> (\<forall>l \<in> set (bu_gap b). length l \<le> 400) \<and>
    (bu_gap b = [] \<longleftrightarrow> 0 < bu_total b \<and> bu_verified_count b = bu_total b)"
proof -
  let ?cs = "take MAX_BUNDLE_CLAIMS (filter is_obj raw)"
  obtain vs where vs: "verify_claims w ?cs = Inr vs" using assms by (auto simp: verify_bundle_def Let_def map_sum_Inr)
  note st = verify_claims_status [OF vs]
  define gap where "gap = map gap_line (filter (\<lambda>v. status_of v \<in> set GAP_STATUSES) vs)"
  have b: "bu_claims b = vs" "bu_total b = length vs" "bu_verified_count b = length (filter (\<lambda>v. status_of v = ''verified'') vs)"
    "bu_refuted b = count_where (\<lambda>v. status_of v = ''refuted'') vs" "bu_insufficient b = count_where (\<lambda>v. status_of v = ''insufficient'') vs"
    "\<exists>l. bu_gap b = take MAX_GAP_ITEMS (if ?cs = [] then l # gap else gap) \<and> length l \<le> 400"
    using assms vs by (auto simp: verify_bundle_def Let_def gap_def)
  then obtain l where l: "bu_gap b = take MAX_GAP_ITEMS (if ?cs = [] then l # gap else gap)" "length l \<le> 400" by blast
  have "\<forall>l \<in> set gap. length l \<le> 400" by (auto simp: gap_def gap_line_def MAX_GAP_CHARS_def Let_def)
  moreover have "set (bu_gap b) \<subseteq> insert l (set gap)"
    using set_take_subset [of MAX_GAP_ITEMS "if ?cs = [] then l # gap else gap"] l(1) by auto
  ultimately have lines: "\<forall>l \<in> set (bu_gap b). length l \<le> 400" using l(2) by blast
  have "gap = [] \<longleftrightarrow> length (filter (\<lambda>v. status_of v = ''verified'') vs) = length vs"
    using gap_statuses [OF conjunct2 [OF st]] by (simp add: gap_def)
  then have "bu_gap b = [] \<longleftrightarrow> 0 < bu_total b \<and> bu_verified_count b = bu_total b"
    using l(1) b(2,3) conjunct1 [OF st] by (cases "?cs = []") (simp_all add: MAX_GAP_ITEMS_def)
  moreover have "length vs \<le> 20" using st by (simp add: MAX_BUNDLE_CLAIMS_def)
  moreover have "length (bu_gap b) \<le> 12" using l(1) by (simp add: MAX_GAP_ITEMS_def)
  ultimately show ?thesis using b(1-5) lines status_counts [OF conjunct2 [OF st]] by simp
qed

definition lines_claim :: json where
  "lines_claim = JObj [(''claim'', JStr ''three rows''), (''check'', JObj lines_check)]"

lemma lines_bundle:
  "\<exists>b. verify_bundle report_world True [lines_claim] = Inr b \<and> bu_total b = 1 \<and> bu_verified_count b = 1"
proof -
  have "verify_claim report_world lines_claim = Inr (with_verdict [(''claim'', JStr ''three rows''), (''check'', JObj lines_check)]
      ''three rows'' lines_check ''verified'' (JInt 3) [])"
    using lines_check_verified
    by (simp add: verify_claim_def lines_claim_def dict_get_def text_or_def py_str_def strip_def lstrip_def rstrip_def is_space_def
        CHECK_KINDS_def Let_def) (simp add: lines_check_def)
  then show ?thesis
    by (simp add: verify_bundle_def lines_claim_def [symmetric] is_obj_def MAX_BUNDLE_CLAIMS_def Let_def)
      (simp add: lines_claim_def status_of_def with_verdict_def dict_get_def py_str_def)
qed

theorem bundle_accounts_witness:
  "\<exists>b. verify_bundle report_world True [lines_claim] = Inr b \<and> bu_total b = 1 \<and> bu_gap b = []"
proof -
  obtain b where b: "verify_bundle report_world True [lines_claim] = Inr b" "bu_total b = 1" "bu_verified_count b = 1"
    using lines_bundle by blast
  then show ?thesis using bundle_accounts [OF b(1)] by simp
qed

lemma tally_statuses:
  assumes "\<forall>v \<in> set vs. \<exists>st. dict_get v ''status'' = JStr st \<and> st \<in> set ROLLUP_STATUSES"
  shows "tally_claims (map JObj vs) t = \<lparr>claims_checked = claims_checked t + length vs,
    claims_verified = claims_verified t + length (filter (\<lambda>v. status_of v = ''verified'') vs),
    claims_refuted = claims_refuted t + count_where (\<lambda>v. status_of v = ''refuted'') vs,
    claims_insufficient = claims_insufficient t + count_where (\<lambda>v. status_of v = ''insufficient'') vs\<rparr>"
  using assms
proof (induction vs arbitrary: t)
  case Nil
  then show ?case by (simp add: tally_claims_def count_where_def)
next
  case (Cons v vs)
  then obtain st where st: "dict_get v ''status'' = JStr st" "st \<in> set ROLLUP_STATUSES" by auto
  then have "tally_claims (map JObj (v # vs)) t = tally_claims (map JObj vs) (tally_add st t)"
    by (auto simp: tally_claims_def claim_status_def py_str_def ROLLUP_STATUSES_def)
  also have "\<dots> = \<lparr>claims_checked = claims_checked (tally_add st t) + length vs,
    claims_verified = claims_verified (tally_add st t) + length (filter (\<lambda>v. status_of v = ''verified'') vs),
    claims_refuted = claims_refuted (tally_add st t) + count_where (\<lambda>v. status_of v = ''refuted'') vs,
    claims_insufficient = claims_insufficient (tally_add st t) + count_where (\<lambda>v. status_of v = ''insufficient'') vs\<rparr>"
    using Cons by simp
  finally show ?case using st
    by (auto simp: tally_add_def status_of_def py_str_def ROLLUP_STATUSES_def count_where_def Let_def)
qed

text \<open>
  The counts a run was judged by are the counts the rollup reads back: tallying the stored bundle of
  a run adds exactly its verified, refuted and insufficient claims.
\<close>

theorem stored_bundle_tally:
  assumes "verify_bundle w emitted raw = Inr b"
  shows "\<exists>stored items. row_claims (Some (JDoc (bundle_doc b))) = Some stored \<and> bundle_items stored = Inr items \<and>
    tally_claims items t = \<lparr>claims_checked = claims_checked t + bu_total b, claims_verified = claims_verified t + bu_verified_count b,
      claims_refuted = claims_refuted t + bu_refuted b, claims_insufficient = claims_insufficient t + bu_insufficient b\<rparr>"
proof -
  obtain vs where vs: "verify_claims w (take MAX_BUNDLE_CLAIMS (filter is_obj raw)) = Inr vs"
    using assms by (auto simp: verify_bundle_def Let_def map_sum_Inr)
  then have b: "bu_claims b = vs" "bu_total b = length vs" "bu_verified_count b = length (filter (\<lambda>v. status_of v = ''verified'') vs)"
    "bu_refuted b = count_where (\<lambda>v. status_of v = ''refuted'') vs" "bu_insufficient b = count_where (\<lambda>v. status_of v = ''insufficient'') vs"
    using assms by (auto simp: verify_bundle_def Let_def)
  obtain stored where stored: "bundle_doc b = JObj stored" "dict_get stored ''claims'' = JArr (map JObj vs)"
    using b(1) by (simp add: bundle_doc_def dict_get_def)
  have "row_claims (Some (JDoc (bundle_doc b))) = Some stored"
    by (simp add: row_claims_def non_empty_def column_text_def stored(1) loads_or_none_def loads_def as_obj_def)
  moreover have "bundle_items stored = Inr (map JObj vs)" by (simp add: bundle_items_def stored(2))
  moreover note tally_statuses [OF verify_claims_status [OF vs, THEN conjunct2], of t]
  ultimately show ?thesis using b by auto
qed

theorem stored_bundle_tally_witness:
  "\<exists>b stored items. verify_bundle report_world True [lines_claim] = Inr b \<and> row_claims (Some (JDoc (bundle_doc b))) = Some stored \<and>
     bundle_items stored = Inr items \<and> claims_verified (tally_claims items tally_zero) = 1"
proof -
  obtain b where b: "verify_bundle report_world True [lines_claim] = Inr b" "bu_verified_count b = 1" using lines_bundle by blast
  then show ?thesis using stored_bundle_tally [OF b(1), of tally_zero] by (fastforce simp: tally_zero_def)
qed

section \<open>The carried gap list\<close>

lemma length_concat_escape: "length s \<le> length (concat (map escape_char s))"
proof (induction s)
  case (Cons c s)
  have "escape_char c \<noteq> []" by (simp add: escape_char_def Let_def)
  with Cons show ?case by (cases "escape_char c") auto
qed simp

lemma length_join: "sum_list (map length xs) \<le> length (join sep xs)"
  by (induction sep xs rule: join.induct) auto

lemma dumps_longer: "sum_list (map length xs) < length (dumps (JArr (map JStr xs)))"
proof -
  have "sum_list (map length xs) \<le> sum_list (map length (map (dumps \<circ> JStr) xs))"
    using length_concat_escape by (induction xs) (auto simp: string_text_def intro!: add_mono le_SucI)
  also have "\<dots> \<le> length (join '', '' (map (dumps \<circ> JStr) xs))" by (rule length_join)
  finally show ?thesis by simp
qed

lemma carried_list:
  assumes "tid \<noteq> []"
  shows "wm_get (i_source it) (gaps_key tid) (carry_gaps now it (Some tid) b st) = Some (clip 4000 (JDoc (JArr (map JStr (bu_gap b)))))"
  using assms by (cases tid) (simp_all add: carry_gaps_def wm_get_set)

text \<open>
  What a run leaves unverified reaches the next run of its task line by line, as long as the encoded
  list fits the 4000 characters the watermark is cut to.
\<close>

theorem gaps_carry_roundtrip:
  assumes "verify_bundle w emitted raw = Inr b" "tid \<noteq> []" "length (dumps (JArr (map JStr (bu_gap b)))) \<le> 4000"
  shows "parse_gap_list (wm_get (i_source it) (gaps_key tid) (carry_gaps now it (Some tid) b st)) = bu_gap b"
proof -
  have "length (bu_gap b) \<le> MAX_GAP_ITEMS" using assms(1) by (auto simp: verify_bundle_def Let_def map_sum_Inr)
  then show ?thesis using assms(3)
    by (simp add: carried_list [OF assms(2)] clip_def column_text_def parse_gap_list_def loads_def py_str_def take_map [symmetric] o_def)
qed

definition task_item :: queue_item where
  "task_item = \<lparr>i_id = 2, i_source = ''scheduled-task'', i_kind = ''run'', i_priority = 50, i_payload = JObj [(''task_id'', JStr ''digest'')],
     i_dedup_key = None, i_state = Running, i_attempts = 1, i_enqueued_at = ''2026-01-01T00:00:00+00:00'', i_claimed_at = None, i_claimed_by = None,
     i_completed_at = None, i_error = None, i_not_before = None, i_triaged_at = None, i_triage = None\<rparr>"

theorem gaps_carry_roundtrip_witness:
  "\<exists>b. verify_bundle report_world False [] = Inr b \<and>
     parse_gap_list (wm_get ''scheduled-task'' (gaps_key ''digest'') (carry_gaps 0 task_item (Some ''digest'') b (empty_store (JInt 3)))) =
       [''no evidence claims were emitted (the run did not complete)'']"
proof -
  obtain b where b: "verify_bundle report_world False [] = Inr b" "bu_gap b = [''no evidence claims were emitted (the run did not complete)'']"
    by (simp add: verify_bundle_def MAX_GAP_ITEMS_def Let_def)
  have "length (dumps (JArr (map JStr (bu_gap b)))) \<le> 4000" by (simp add: b(2) string_text_def escape_char_def)
  from gaps_carry_roundtrip [OF b(1) _ this, of "''digest''" task_item] b show ?thesis by (simp add: task_item_def)
qed

text \<open>
  Past that length nothing is carried: the slice cuts the encoded list, what is left does not parse,
  and the next run is told of no gap at all. The caps of a bundle allow it, as 12 lines of 400 characters
  are 4800.
\<close>

theorem long_gap_list_lost:
  assumes "tid \<noteq> []" "4000 \<le> sum_list (map length (bu_gap b))"
  shows "parse_gap_list (wm_get (i_source it) (gaps_key tid) (carry_gaps now it (Some tid) b st)) = []"
proof -
  have "4000 < length (dumps (JArr (map JStr (bu_gap b))))" using dumps_longer [of "bu_gap b"] assms(2) by linarith
  then show ?thesis by (simp add: carried_list [OF assms(1)] clip_def column_text_def parse_gap_list_def loads_def del: dumps.simps)
qed

definition long_claim :: json where
  "long_claim = JObj [(''claim'', JStr (replicate 400 CHR ''a''))]"

lemma verify_replicate: "verify_claim w c = Inr v \<Longrightarrow> verify_claims w (replicate n c) = Inr (replicate n v)"
  by (induction n) simp_all

lemma long_bundle:
  "\<exists>b. verify_bundle report_world True (replicate 11 long_claim) = Inr b \<and> sum_list (map length (bu_gap b)) = 4400"
proof -
  let ?a = "replicate 400 CHR ''a''"
  obtain d where v: "verify_claim report_world long_claim = Inr (with_verdict [(''claim'', JStr ?a)] ?a [] ''insufficient'' JNull d)"
    by (simp add: verify_claim_def long_claim_def dict_get_def text_or_def py_str_def strip_def lstrip_def rstrip_def is_space_def
        dropWhile_replicate CHECK_KINDS_def Let_def)
  define v where "v = with_verdict [(''claim'', JStr ?a)] ?a [] ''insufficient'' JNull d"
  have st: "status_of v = ''insufficient''" "dict_get v ''claim'' = JStr ?a"
    by (simp_all add: v_def status_of_def with_verdict_def dict_get_def py_str_def)
  then have len: "length (gap_line v) = 400" by (simp add: gap_line_def MAX_GAP_CHARS_def py_str_def Let_def)
  have "filter is_obj (replicate 11 long_claim) = replicate 11 long_claim" by (simp add: is_obj_def long_claim_def)
  moreover have "verify_claims report_world (replicate 11 long_claim) = Inr (replicate 11 v)"
    using verify_replicate v by (simp add: v_def)
  ultimately show ?thesis
    by (simp add: verify_bundle_def MAX_BUNDLE_CLAIMS_def MAX_GAP_ITEMS_def GAP_STATUSES_def st(1) Let_def len sum_list_replicate
        map_replicate_const [symmetric])
qed

theorem long_gap_list_lost_witness:
  "\<exists>b. verify_bundle report_world True (replicate 11 long_claim) = Inr b \<and> sum_list (map length (bu_gap b)) = 4400 \<and>
     parse_gap_list (wm_get ''scheduled-task'' (gaps_key ''digest'') (carry_gaps 0 task_item (Some ''digest'') b (empty_store (JInt 3)))) = []"
proof -
  obtain b where b: "verify_bundle report_world True (replicate 11 long_claim) = Inr b" "sum_list (map length (bu_gap b)) = 4400"
    using long_bundle by blast
  then show ?thesis using long_gap_list_lost [of "''digest''" b task_item] by (auto simp: task_item_def)
qed

end
