(* ===== verification/Run_Theorems.thy ===== *)
theory Run_Theorems
  imports Pool_Theorems Queue_Theorems Evidence_Theorems
begin

text \<open>
  The properties of one turn of a worker: what a started item says about the holds, the gates and the
  queue, that every outcome of a run is recorded once and settles its row, and the one kind of result
  on which it is not.
\<close>

section \<open>Starting a run\<close>

text \<open>
  C34. Nothing starts past a gate: when a turn of the loop starts an item, neither hold stood at the turn's
  pause test, and, as the gates stood when the turn read them, the item's source is not a long-lived one under cache
  pressure, not one kept back from an engine that does not answer, and, while a round is in flight or landing, it is
  on the list of exemptions and not taken back by their bound. Whatever the other workers do between the pause test, the
  gates and the claim (a pause that comes there is only seen by the next turn), as long as they keep the queue's invariant.
\<close>

theorem gates_bind_claims:
  assumes "queue_inv (wp_store p)" "\<And>k p. queue_inv (wp_store p) \<Longrightarrow> queue_inv (wp_store (race k p))"
    and "worker_poll_race race env now hex worker cfg p = (Started it src rid at0 limit scope, p')"
  shows "\<not> pool_paused (wp_holds p) \<and>
    (kv_over env \<longrightarrow> i_source it \<notin> set (long_lived_sources (ge_registry env))) \<and>
    (primary_down env (wp_gates (race 0 p)) \<longrightarrow>
       i_source it \<notin> set (primary_sources env) \<inter> set (long_lived_sources (ge_registry env))) \<and>
    (round_protected env (wp_gates (race 0 p)) \<longrightarrow> i_source it \<in> set (round_exempt env) \<and>
       (\<forall>bound. round_hold_exempt_bound (ge_round_cfg env) = Some bound \<longrightarrow>
          bound_over env bound (round_exempt env) (wp_gates (race 0 p)) \<longrightarrow>
          i_source it \<notin> set (bound_covers bound (round_exempt env))))"
  using assms
proof (rule worker_poll_started)
  fix held g st
  assume open_: "\<not> pool_paused (wp_holds p)"
    and h: "claim_holds env now (wp_gates (race 0 p), wp_store (race 0 p)) = (held, g, st)"
    and free: "i_source it \<notin> set held" and known: "map_of (ge_registry env) (i_source it) = Some src"
  have "i_source it \<in> fst ` set (ge_registry env)" using known by (metis map_of_eq_None_iff option.distinct(1))
  then show ?thesis using open_ free claim_holds_spec(7) [OF h] by (auto simp: round_tripped_def split: if_splits)
qed

text \<open>A pool with one item of the non-resident source waiting, while the engine does not answer.\<close>

definition waiting_pool :: pool where
  "waiting_pool = \<lparr>wp_holds = \<lparr>paused_operator = False, paused_automod = False, inherited = None\<rparr>, wp_gates = new_gates,
     wp_store = (empty_store (JInt 3))\<lparr>queue := [demo_row 1 ''autocode'' 20 Queued 0, demo_row 2 ''scheduled-task'' 50 Queued 0],
       queue_seq := 2\<rparr>, wp_slots = 1, wp_max_attempts = 3\<rparr>"

lemma waiting_inv: "queue_inv (wp_store waiting_pool)"
  by (simp add: waiting_pool_def demo_simps queue_inv_def ids_ok_def keys_unique_def row_ok_simps)

lemma waiting_holds:
  "\<exists>g st. claim_holds sample_env T0 (wp_gates waiting_pool, wp_store waiting_pool) = ([''autocode''], g, st) \<and>
     queue st = queue (wp_store waiting_pool) \<and> max_attempts st = 3"
proof -
  obtain held g st where h: "claim_holds sample_env T0 (wp_gates waiting_pool, wp_store waiting_pool) = (held, g, st)"
    by (metis prod_cases3)
  moreover have "held = [''autocode'']" using h by (simp add: waiting_pool_def gate_eval Let_def split_beta)
  ultimately show ?thesis using gate_onlyD [OF claim_holds_spec(5) [OF h]] by (simp add: waiting_pool_def empty_store_def valid_cap_def py_int_def)
qed

lemma waiting_claim:
  assumes "queue st = queue (wp_store waiting_pool)" "max_attempts st = 3"
  shows "\<exists>it st'. claim_next T0 ''worker-0'' [] [''autocode''] st = (Inr (Some it), st') \<and>
    i_source it = ''scheduled-task'' \<and> i_id it = 2 \<and> i_payload it = JObj []"
  using assms by (simp add: waiting_pool_def demo_claim_simps claim_loop.simps Let_def)

text \<open>Whatever happens meanwhile to the holds alone, the turn starts the task: a pause that comes then is not seen.\<close>

lemma waiting_starts_race:
  assumes "\<And>k p. wp_gates (race k p) = wp_gates p \<and> wp_store (race k p) = wp_store p"
  shows "\<exists>it src rid at0 limit scope p'. worker_poll_race race sample_env T0 ''0a1b2c'' ''worker-0'' [] waiting_pool =
     (Started it src rid at0 limit scope, p') \<and> i_source it = ''scheduled-task'' \<and> i_id it = 2"
proof -
  obtain g st where h: "claim_holds sample_env T0 (wp_gates waiting_pool, wp_store waiting_pool) = ([''autocode''], g, st)"
    "queue st = queue (wp_store waiting_pool)" "max_attempts st = 3" using waiting_holds by blast
  obtain it st' where c: "claim_next T0 ''worker-0'' [] [''autocode''] st = (Inr (Some it), st')"
    "i_source it = ''scheduled-task''" "i_id it = 2" "i_payload it = JObj []" using waiting_claim [OF h(2,3)] by blast
  have free: "\<not> pool_paused (wp_holds waiting_pool)" "max_inflight [] = Inr []"
    by (simp_all add: waiting_pool_def pool_paused_def)
  have "map_of (ge_registry sample_env) ''scheduled-task'' = Some task_module" by (simp add: sample_env_def)
  then show ?thesis using h(1) c free assms
    by (auto simp: worker_poll_race_def start_item_def grant_scope_for_def payload_get_def dict_get_def get_or_def cfg_of_def
        int_of_def py_int_def Let_def)
qed

lemma waiting_starts:
  "\<exists>it src rid at0 limit scope p'. worker_poll sample_env T0 ''0a1b2c'' ''worker-0'' [] waiting_pool =
     (Started it src rid at0 limit scope, p') \<and> i_source it = ''scheduled-task'' \<and> i_id it = 2"
  unfolding worker_poll_def by (rule waiting_starts_race) simp

definition late_pause :: "nat \<Rightarrow> pool \<Rightarrow> pool" where
  "late_pause k p = (if k = 0 then p\<lparr>wp_holds := (wp_holds p)\<lparr>paused_operator := True\<rparr>\<rparr> else p)"

theorem gates_bind_claims_witness:
  "primary_down sample_env (wp_gates (late_pause 0 waiting_pool)) \<and>
   (\<exists>it src rid at0 limit scope p'. worker_poll_race late_pause sample_env T0 ''0a1b2c'' ''worker-0'' [] waiting_pool =
      (Started it src rid at0 limit scope, p') \<and> i_source it = ''scheduled-task'' \<and>
      i_source it \<notin> set (primary_sources sample_env) \<inter> set (long_lived_sources (ge_registry sample_env)))"
proof -
  have down: "primary_down sample_env (wp_gates (late_pause 0 waiting_pool))"
    by (simp add: primary_down_def late_pause_def waiting_pool_def gate_eval Let_def)
  have keeps_inv: "queue_inv (wp_store p) \<Longrightarrow> queue_inv (wp_store (late_pause k p))" for k p by (simp add: late_pause_def)
  obtain it src rid at0 limit scope p' where run: "worker_poll_race late_pause sample_env T0 ''0a1b2c'' ''worker-0'' [] waiting_pool =
     (Started it src rid at0 limit scope, p')" "i_source it = ''scheduled-task''" using waiting_starts_race [of late_pause] by (auto simp: late_pause_def)
  show ?thesis using down run gates_bind_claims [OF waiting_inv keeps_inv run(1)] by blast
qed

text \<open>
  A started item is owned: its row is running under the worker's name and the run's id, the item is
  registered as in flight, and both name the source whose code is about to run.
\<close>

theorem started_item_owned:
  assumes "queue_inv (wp_store p)" "worker_poll env now hex worker cfg p = (Started it src rid at0 limit scope, p')"
  shows "map_of (ge_registry env) (i_source it) = Some src \<and> rid = new_run_id (i_source it) now hex \<and>
    (\<exists>row \<in> set (queue (wp_store p')). q_id row = i_id it \<and> q_state row = Running \<and> q_claimed_by row = Some worker \<and>
       q_current_run_id row = Some rid \<and> q_source row = i_source it) \<and>
    (i_id it, \<lparr>fl_source = i_source it, fl_kind = i_kind it, fl_started_at = at0, fl_worker = worker\<rparr>) \<in> set (g_flights (wp_gates p'))"
  by (rule worker_poll_started [OF assms(1) _ assms(2) [unfolded worker_poll_def]]) blast+

theorem started_item_owned_witness:
  "\<exists>it src rid at0 limit scope p'. worker_poll sample_env T0 ''0a1b2c'' ''worker-0'' [] waiting_pool =
     (Started it src rid at0 limit scope, p') \<and>
     (\<exists>row \<in> set (queue (wp_store p')). q_id row = 2 \<and> q_state row = Running \<and> q_claimed_by row = Some ''worker-0'')"
proof -
  obtain it src rid at0 limit scope p' where run: "worker_poll sample_env T0 ''0a1b2c'' ''worker-0'' [] waiting_pool =
      (Started it src rid at0 limit scope, p')" "i_id it = 2" using waiting_starts by blast
  then show ?thesis using started_item_owned [OF waiting_inv run(1)] by (intro exI conjI) auto
qed

text \<open>
  A worker never borrows a person's authority: the scope a run's tool calls are gated under is the
  one the policy module derives for the same source and payload, and it is not an interactive scope.
\<close>

theorem worker_scope_is_policy_scope:
  assumes "i_payload it = JObj pl"
  shows "\<exists>scope. grant_scope_for it = Inr scope \<and> scope = grant_scope_for_source (i_source it) (i_payload it) \<and>
    \<not> is_interactive_scope scope"
proof -
  have eq: "grant_scope_for it = Inr (grant_scope_for_source (i_source it) (i_payload it))"
    using assms by (auto simp: grant_scope_for_def grant_scope_for_source_def payload_get_def Let_def)
  from scope_unattended [OF eq] eq show ?thesis by blast
qed

theorem worker_scope_is_policy_scope_witness:
  "grant_scope_for task_item = Inr ''autonomy-task:digest'' \<and> \<not> is_interactive_scope ''autonomy-task:digest''"
proof -
  have "grant_scope_for task_item = Inr ''autonomy-task:digest''"
    by (simp add: task_item_def grant_scope_for_def payload_get_def dict_get_def py_str_def)
  then show ?thesis using worker_scope_is_policy_scope [of task_item] by (auto simp: task_item_def)
qed

section \<open>Ending a run\<close>

text \<open>
  C35. Settling an attempt on a row of the queue, under a run id not yet in the table, for an item whose payload is an object:
  a timeout, an exception, a result \<open>normalize_result\<close> rejects, and a result whose deferral, if it asks for one, is an
  instant of the calendar each leave exactly one run record, with the run's id, its item and one of the three statuses,
  take the row out of flight, and leave the loop running. The task source's re-arming is a parameter that only enqueues.
  A deferral past the calendar is excluded: \<open>oversized_deferral_kills_loop\<close> below shows that the loop then dies with the
  row still in flight.
\<close>

theorem attempt_recorded_once:
  assumes "row \<in> set (queue st)" "q_id row = i_id (j_item j)" "j_run_id j \<notin> r_run_id ` set (runs st)"
    and "i_payload (j_item j) = JObj pl" "only_enqueues arm"
    and "\<And>res n e. out = Returned res \<Longrightarrow> normalize_result (j_item j) res = Inr n \<Longrightarrow> defer_to now (n_defer_seconds n) \<noteq> Inl e"
  shows "fst (settle w arm charge message now cap rx j out st) = None \<and>
    attempt_recorded (i_id (j_item j)) (j_run_id j) st (snd (settle w arm charge message now cap rx j out st))"
  using assms by (rule settle_ok)

definition task_job :: run_job where
  "task_job = \<lparr>j_item = task_item, j_source = task_module, j_run_id = ''run_a'', j_started_at = iso_utc T0, j_limit = 900,
     j_duration = 900\<rparr>"

definition empty_ctx :: run_ctx where
  "empty_ctx = \<lparr>rx_sessions = [], rx_turns = [], rx_scratchpad = [], rx_verdict = False\<rparr>"

lemma only_enqueues_id: "only_enqueues (\<lambda>s. s)"
  by (auto simp: only_enqueues_def)

lemmas job_simps = task_job_def task_item_def demo_row_def new_row_def

theorem attempt_recorded_once_witness:
  "attempt_recorded 2 ''run_a'' demo (snd (settle report_world (\<lambda>s. s) (\<lambda>_. None) (\<lambda>_. []) T0 3 empty_ctx task_job Timed_Out demo))"
  using attempt_recorded_once [OF demo_mem(2), of task_job _ _ Timed_Out, OF _ _ _ only_enqueues_id]
  by (simp add: job_simps demo_def empty_store_def)

text \<open>
  A result whose deferral is finite but reaches past the calendar costs the pool a worker: the run is
  already recorded when the sum of the dates overflows, so the handler of that exception records the
  same run again, the uniqueness of run ids rejects it, and that second exception leaves the loop
  with the row still as it was.
\<close>

theorem oversized_deferral_kills_loop:
  assumes "i_payload (j_item j) = JObj pl" "j_run_id j \<notin> r_run_id ` set (runs st)"
    and "normalize_result (j_item j) res = Inr n" "n_claims n = None" "defer_to now (n_defer_seconds n) = Inl e"
  shows "fst (settle w arm charge message now cap rx j (Returned res) st) = Some IntegrityError \<and>
    queue (snd (settle w arm charge message now cap rx j (Returned res) st)) = queue st"
proof -
  let ?raw = "(run_row_of j now (n_status n) (n_summary n) (n_task_id n) (bind_step_count (rx_turns rx) (context_meta rx (n_meta n))))
      \<lparr>r_artifact_path := n_artifact_path n, r_response_json := JRaw (n_response n), r_claims_json := None\<rparr>"
  have "r_run_id ?raw \<notin> r_run_id ` set (runs st)" using assms(2) by (simp add: run_row_of_def)
  then obtain st2 run where st2: "record_run ?raw st = Inr st2" "queue st2 = queue st" "runs st2 = runs st @ [run]"
    "r_run_id run = j_run_id j" by (elim record_run_fresh) (simp add: run_row_of_def)
  have first: "settle_result w arm now rx j res st = (Some e, st2)"
    using assms(3-5) st2(1) by (simp add: settle_result_def Let_def)
  obtain t where t: "task_id_of (j_item j) None = Inr t" using task_id_object [OF assms(1)] by blast
  have "record_run (run_row_of j now status s t meta) st2 = Inl IntegrityError" for status s meta
    using st2(3,4) by (intro record_run_dup) (simp add: run_row_of_def)
  then have "settle_exception charge now cap rx j (error_name e) (message e) st2 = (Some IntegrityError, st2)"
    using t by (simp add: settle_exception_def death_meta_def settle_death_def Let_def)
  then show ?thesis using first st2(2) by (simp add: settle_def)
qed

definition huge_deferral :: json where
  "huge_deferral = JObj [(''status'', JStr ''skipped''), (''defer_seconds'', JInt (10 ^ 15))]"

lemma huge_deferral_reads:
  "\<exists>n. normalize_result task_item huge_deferral = Inr n \<and> n_claims n = None \<and> n_defer_seconds n = Some (10 ^ 15)"
  by (simp add: normalize_result_def huge_deferral_def task_item_def dict_get_def result_status_def RUN_STATUSES_def
      defer_seconds_of_def py_float_def float_bound_def result_summary_def text_or_def shorten_summary_def
      task_id_of_def payload_get_def some_text_def SUMMARY_MAX_CHARS_def Let_def)

theorem oversized_deferral_kills_loop_witness:
  "fst (settle report_world (\<lambda>s. s) (\<lambda>_. None) (\<lambda>_. []) T0 3 empty_ctx task_job (Returned huge_deferral) demo) = Some IntegrityError"
proof -
  obtain n where n: "normalize_result task_item huge_deferral = Inr n" "n_claims n = None" "n_defer_seconds n = Some (10 ^ 15)"
    using huge_deferral_reads by blast
  have "defer_to T0 (n_defer_seconds n) = Inl OverflowError"
    by (simp add: n(3) defer_to_def round_half_even_def Let_def)
  then show ?thesis
    using oversized_deferral_kills_loop [of task_job _ demo huge_deferral n T0] n(1,2)
    by (simp add: task_job_def) (simp add: task_item_def demo_def empty_store_def)
qed

text \<open>
  C36. For an item whose payload is an object, \<open>normalize_result\<close> turns every value of the modelled JSON (null, booleans,
  integers, texts, lists and objects; a float literal is not one of them, an infinity or a NaN comes only as a text) whose
  \<open>defer_seconds\<close> is not an integer beyond the range of a float, on which it raises, into a record with one of the three statuses,
  a summary within the cap, a response of at most 50000 characters, and a deferral only if it is positive and the run did not
  succeed.
\<close>

theorem normalize_result_typed:
  assumes "i_payload it = JObj pl"
    and "case res of JObj kvs \<Rightarrow> py_float (dict_get kvs ''defer_seconds'') \<noteq> Inl OverflowError | _ \<Rightarrow> True"
  shows "\<exists>n. normalize_result it res = Inr n \<and> n_status n \<in> set RUN_STATUSES \<and>
    length (n_summary n) \<le> SUMMARY_MAX_CHARS \<and> length (n_response n) \<le> 50000 \<and>
    (\<forall>s. n_defer_seconds n = Some s \<longrightarrow> 0 < s \<and> n_status n \<noteq> ''success'')"
proof -
  define kvs where "kvs = (case res of JObj kvs \<Rightarrow> kvs | _ \<Rightarrow> [])"
  have "py_float (dict_get kvs ''defer_seconds'') \<noteq> Inl OverflowError \<or> dict_get kvs ''defer_seconds'' = JNull"
    using assms(2) by (auto simp: kvs_def dict_get_def split: json.splits)
  then have "\<exists>d. defer_seconds_of kvs (result_status kvs) = Inr d"
    by (auto simp: defer_seconds_of_def Let_def split: sum.split py_error.split pyfloat.split)
  then obtain d where d: "defer_seconds_of kvs (result_status kvs) = Inr d" by blast
  obtain s where "shorten_summary (result_summary kvs (result_status kvs)) SUMMARY_MAX_CHARS = Inr s" using shorten_500 by blast
  moreover obtain t where "task_id_of it (Some kvs) = Inr t" using task_id_object [OF assms(1)] by blast
  ultimately obtain n where n: "normalize_result it res = Inr n"
    using d unfolding normalize_result_def kvs_def [symmetric] Let_def by simp
  show ?thesis using normalize_fields [OF n] n by blast
qed

theorem normalize_result_typed_witness:
  "\<exists>n. normalize_result task_item (JArr []) = Inr n \<and> length (n_summary n) \<le> SUMMARY_MAX_CHARS"
  using normalize_result_typed [of task_item _ "JArr []"] by (auto simp: task_item_def)

end
