(* ===== verification/Dispatch.thy ===== *)
theory Dispatch
  imports Pool_Runs
begin

text \<open>
  The scheduler's pass over the sources (\<open>workers/pool.py\<close>, \<open>_scheduler_pass\<close>) and the watch that reads
  the stamps it writes (\<open>workers/dispatch_watch.py\<close>). A source's \<open>enqueue_if_due\<close> is a parameter: the
  word it returned, or \<^term>\<open>None\<close> when it raised, and the queue as it left it. A verdict is its
  state, whether it counts as a stall, and the age it was judged on; the detail texts are left out. A
  stamp without an offset, which nothing here writes, is read as UTC.
\<close>

section \<open>The scheduler pass\<close>

definition DECLINED :: string where "DECLINED = ''declined''"
definition ATTEMPT_WM_KEY :: string where "ATTEMPT_WM_KEY = ''last_enqueue_check''"
definition OK_WM_KEY :: string where "OK_WM_KEY = ''last_enqueue_ok''"

definition positive_int :: "json \<Rightarrow> int option" where
  "positive_int v = (case py_int v of None \<Rightarrow> None | Some n \<Rightarrow> if 0 < n then Some n else None)"

text \<open>Whether a source is due: the stamp is missing, or at least \<open>wait\<close> seconds old; a stamp that does not parse raises.\<close>

definition source_due :: "nat \<Rightarrow> int \<Rightarrow> jtext option \<Rightarrow> py_error + bool" where
  "source_due now wait last_at =
     (let s = (case last_at of None \<Rightarrow> [] | Some t \<Rightarrow> column_text t) in
      if s = [] then Inr True
      else case fromisoformat s of None \<Rightarrow> Inl ValueError
        | Some dt \<Rightarrow> if offset dt = None then Inl TypeError
            else Inr (\<not> int now - instant dt < wait * second))"

definition back_dated :: "nat \<Rightarrow> int \<Rightarrow> (string \<times> json) list \<Rightarrow> string option \<Rightarrow> nat" where
  "back_dated now wait cfg outcome =
     (case positive_int (dict_get cfg ''retry_seconds'') of
        Some retry \<Rightarrow> if outcome = Some DECLINED \<and> retry < wait then now - nat ((wait - retry) * second) else now
      | None \<Rightarrow> now)"

type_synonym enqueuer = "string \<Rightarrow> store \<Rightarrow> string option option \<times> store"

definition visit_source :: "enqueuer \<Rightarrow> nat \<Rightarrow> sources_cfg \<Rightarrow> string \<Rightarrow> store \<Rightarrow> py_error option \<times> store" where
  "visit_source enq now cfg name st =
     (let c = cfg_of cfg name in
      if \<not> truthy (dict_get c ''enabled'') then (None, st)
      else case int_of (get_or c ''interval_seconds'' (JInt 3600)) of Inl e \<Rightarrow> (Some e, st)
      | Inr wait \<Rightarrow>
      (case source_due now wait (wm_get name ATTEMPT_WM_KEY st) of Inl e \<Rightarrow> (Some e, st)
       | Inr due \<Rightarrow>
           if \<not> due then (None, st)
           else (case enq name st of (outcome, st1) \<Rightarrow>
             let st2 = wm_set now name ATTEMPT_WM_KEY
                   (JRaw (iso_utc (back_dated now wait c (case outcome of None \<Rightarrow> None | Some r \<Rightarrow> r)))) st1
             in (None, if outcome = None then st2 else wm_set now name OK_WM_KEY (JRaw (iso_utc now)) st2))))"

text \<open>The pass over the registry; \<open>now\<close> is the clock as it stands when a source is visited.\<close>

fun scheduler_pass :: "enqueuer \<Rightarrow> (string \<Rightarrow> nat) \<Rightarrow> sources_cfg \<Rightarrow> string list \<Rightarrow> store \<Rightarrow> py_error option \<times> store" where
  "scheduler_pass enq now cfg [] st = (None, st)"
| "scheduler_pass enq now cfg (name # names) st =
     (case visit_source enq (now name) cfg name st of
        (Some e, st1) \<Rightarrow> (Some e, st1)
      | (None, st1) \<Rightarrow> scheduler_pass enq now cfg names st1)"

section \<open>The verdict on one source\<close>

datatype dispatch_state = OK | Stalled | Never_Succeeded | Pending | Disabled | Unmeasured | Downtime

record dispatch_verdict =
  dv_state :: dispatch_state
  dv_stalled :: bool
  dv_age :: "rat option"
  dv_threshold :: "pyfloat option"

definition STALL_FACTOR :: rat where "STALL_FACTOR = 3"
definition DEFAULT_INTERVAL_S :: int where "DEFAULT_INTERVAL_S = 3600"

definition scale :: "rat \<Rightarrow> pyfloat \<Rightarrow> pyfloat" where
  "scale k x = (case x of Fin r \<Rightarrow> Fin (k * r) | other \<Rightarrow> other)"

definition not_positive :: "pyfloat \<Rightarrow> bool" where
  "not_positive x = (case x of Fin r \<Rightarrow> r \<le> 0 | Infinite neg \<Rightarrow> neg | NaN \<Rightarrow> False)"

definition exceeds :: "rat \<Rightarrow> pyfloat \<Rightarrow> bool" where
  "exceeds age limit = (case limit of Fin r \<Rightarrow> r < age | Infinite neg \<Rightarrow> neg | NaN \<Rightarrow> False)"

definition parse_stamp :: "jtext option \<Rightarrow> int option" where
  "parse_stamp v = (case v of None \<Rightarrow> None
     | Some t \<Rightarrow> if column_text t = [] then None else parse_instant (column_text t))"

definition stamp_age :: "nat \<Rightarrow> int \<Rightarrow> rat" where
  "stamp_age now stamp = max 0 (of_int (int now - stamp) / 1000000)"

definition verdict_row :: "dispatch_state \<Rightarrow> bool \<Rightarrow> rat option \<Rightarrow> pyfloat option \<Rightarrow> dispatch_verdict" where
  "verdict_row state stalled age limit = \<lparr>dv_state = state, dv_stalled = stalled, dv_age = age, dv_threshold = limit\<rparr>"

definition verdict ::
    "jtext option \<Rightarrow> jtext option \<Rightarrow> json \<Rightarrow> bool \<Rightarrow> nat \<Rightarrow> bool \<Rightarrow> rat \<Rightarrow> py_error + dispatch_verdict" where
  "verdict ok_stamp attempt_stamp interval enabled now repoll factor =
     (if \<not> enabled then Inr (verdict_row Disabled False None None)
      else case (case py_float interval of Inl OverflowError \<Rightarrow> Inl OverflowError | Inl _ \<Rightarrow> Inr (Fin 0) | Inr x \<Rightarrow> Inr x) of
        Inl e \<Rightarrow> Inl e
      | Inr x \<Rightarrow>
      if not_positive x then Inr (verdict_row Unmeasured False None None)
      else
        let limit = scale factor x; row = (\<lambda>state stalled age. Inr (verdict_row state stalled age (Some limit))) in
        (case parse_stamp ok_stamp of
           None \<Rightarrow>
             if ok_stamp \<noteq> None then row Unmeasured False None
             else if repoll then row Unmeasured False None
             else if attempt_stamp = None then row Unmeasured False None
             else (case parse_stamp attempt_stamp of
                None \<Rightarrow> row Unmeasured False None
              | Some att \<Rightarrow>
                  let age = stamp_age now att in
                  if exceeds age limit then row Never_Succeeded True (Some age) else row Pending False (Some age))
         | Some ok \<Rightarrow>
             let age = stamp_age now ok in
             if exceeds age limit
             then (case parse_stamp attempt_stamp of
                Some att \<Rightarrow> if \<not> repoll \<and> exceeds (stamp_age now att) limit then row Downtime False (Some age)
                             else row Stalled True (Some age)
              | None \<Rightarrow> row Stalled True (Some age))
             else row OK False (Some age)))"

section \<open>The watch\<close>

fun dispatch_rows_of :: "sources_cfg \<Rightarrow> (string \<Rightarrow> bool) \<Rightarrow> nat \<Rightarrow> rat \<Rightarrow> store \<Rightarrow> py_error + (string \<times> dispatch_verdict) list" where
  "dispatch_rows_of [] repoll now factor st = Inr []"
| "dispatch_rows_of ((name, c) # cfg) repoll now factor st =
     (case verdict (wm_get name OK_WM_KEY st) (wm_get name ATTEMPT_WM_KEY st)
         (get_or c ''interval_seconds'' (JInt DEFAULT_INTERVAL_S)) (truthy (dict_get c ''enabled'')) now (repoll name) factor of
        Inl e \<Rightarrow> Inl e
      | Inr v \<Rightarrow> map_sum id (Cons (name, v)) (dispatch_rows_of cfg repoll now factor st))"

text \<open>The names announced as stalled, and when the watch first measured each stall that still stands.\<close>

record watch =
  dw_stalled :: "string list"
  dw_since :: "(string \<times> rat) list"

datatype dispatch_event = Announce_Stall string rat | Announce_Recovery string

definition judge :: "rat \<Rightarrow> string \<times> dispatch_verdict \<Rightarrow> watch \<Rightarrow> dispatch_event list \<times> watch" where
  "judge clock = (\<lambda>(name, v) w.
     if dv_state v = Unmeasured then ([], w)
     else if \<not> dv_stalled v then
       let w1 = w\<lparr>dw_since := filter (\<lambda>(n, _). n \<noteq> name) (dw_since w)\<rparr>
       in if name \<notin> set (dw_stalled w) then ([], w1)
          else ([Announce_Recovery name], w1\<lparr>dw_stalled := filter (\<lambda>n. n \<noteq> name) (dw_stalled w)\<rparr>)
     else if name \<in> set (dw_stalled w) then ([], w)
     else (case map_of (dw_since w) name of
        None \<Rightarrow> ([], w\<lparr>dw_since := (name, clock) # dw_since w\<rparr>)
      | Some t \<Rightarrow> ([Announce_Stall name (clock - t)], w\<lparr>dw_stalled := name # dw_stalled w\<rparr>)))"

fun judge_all :: "rat \<Rightarrow> (string \<times> dispatch_verdict) list \<Rightarrow> watch \<Rightarrow> dispatch_event list \<times> watch" where
  "judge_all clock [] w = ([], w)"
| "judge_all clock (r # rs) w =
     (case judge clock r w of (es, w1) \<Rightarrow> case judge_all clock rs w1 of (es', w2) \<Rightarrow> (es @ es', w2))"

definition tick ::
    "sources_cfg \<Rightarrow> (string \<Rightarrow> bool) \<Rightarrow> nat \<Rightarrow> rat \<Rightarrow> rat \<Rightarrow> store \<Rightarrow> watch \<Rightarrow> py_error + (dispatch_event list \<times> watch)" where
  "tick cfg repoll now clock factor st w =
     map_sum id (\<lambda>rows. judge_all clock rows w) (dispatch_rows_of cfg repoll now factor st)"

end
