(* ===== verification/Dispatch_Theorems.thy ===== *)
theory Dispatch_Theorems
  imports Dispatch Pause_Safety
begin

text \<open>
  The properties of the scheduler's pass and of the watch over it: when a visited source is due again, what
  the watch announces over a sequence of readings, and the kind of source whose failure it never reports.
\<close>

section \<open>The scheduler pass\<close>

text \<open>A visit that reaches the source: it is enabled, its interval reads as a number, and it is due.\<close>

definition visited :: "nat \<Rightarrow> sources_cfg \<Rightarrow> string \<Rightarrow> int \<Rightarrow> store \<Rightarrow> bool" where
  "visited now cfg name wait st \<longleftrightarrow> truthy (dict_get (cfg_of cfg name) ''enabled'') \<and>
     int_of (get_or (cfg_of cfg name) ''interval_seconds'' (JInt 3600)) = Inr wait \<and>
     source_due now wait (wm_get name ATTEMPT_WM_KEY st) = Inr True"

lemma stamp_keys_differ [simp]: "ATTEMPT_WM_KEY \<noteq> OK_WM_KEY" "OK_WM_KEY \<noteq> ATTEMPT_WM_KEY"
  by (simp_all add: ATTEMPT_WM_KEY_def OK_WM_KEY_def)

lemma visit_stamps:
  assumes "visited now cfg name wait st" "enq name st = (outcome, st1)" "visit_source enq now cfg name st = (e, st')"
  shows "e = None"
    "wm_get name ATTEMPT_WM_KEY st' = Some (JRaw (iso_utc (back_dated now wait (cfg_of cfg name) (case outcome of None \<Rightarrow> None | Some r \<Rightarrow> r))))"
    "wm_get name OK_WM_KEY st' = (if outcome = None then wm_get name OK_WM_KEY st1 else Some (JRaw (iso_utc now)))"
  using assms by (auto simp: visited_def visit_source_def Let_def wm_get_set wm_get_set_other)

lemma due_after:
  assumes "in_range t"
  shows "source_due now' wait (Some (JRaw (iso_utc t))) = Inr (int t + wait * second \<le> int now')"
  using assms by (simp add: source_due_def column_text_def Let_def utc_def instant_def) linarith

text \<open>
  A visited source is asked again after its interval, counted from the visit, and one that declined
  after its shorter \<open>retry_seconds\<close>, if it has them; a source that raised keeps its interval.
\<close>

theorem visited_source_due_again:
  assumes "visited now cfg name wait st" "enq name st = (outcome, st1)" "in_range now" "wait * second \<le> int now" "0 \<le> wait"
  shows "source_due now' wait (wm_get name ATTEMPT_WM_KEY (snd (visit_source enq now cfg name st))) =
    Inr (int now + (case positive_int (dict_get (cfg_of cfg name) ''retry_seconds'') of
       Some retry \<Rightarrow> if outcome = Some (Some DECLINED) \<and> retry < wait then retry else wait
     | None \<Rightarrow> wait) * second \<le> int now')"
proof -
  let ?stamp = "back_dated now wait (cfg_of cfg name) (case outcome of None \<Rightarrow> None | Some r \<Rightarrow> r)"
  obtain e st' where v: "visit_source enq now cfg name st = (e, st')" by fastforce
  have "?stamp \<le> now" by (simp add: back_dated_def split: option.splits)
  then have range: "in_range ?stamp" using assms(3) by (rule le_less_trans)
  have "int ?stamp + wait * second = int now + (case positive_int (dict_get (cfg_of cfg name) ''retry_seconds'') of
       Some retry \<Rightarrow> if outcome = Some (Some DECLINED) \<and> retry < wait then retry else wait
     | None \<Rightarrow> wait) * second"
    using assms(4,5) by (auto simp: back_dated_def positive_int_def algebra_simps of_nat_diff split: option.splits if_splits)
  then show ?thesis using visit_stamps(2) [OF assms(1,2) v] v due_after [OF range, of now' wait] by simp
qed

text \<open>A source with a retry that is never stamped, polled every hour.\<close>

definition hourly_research :: sources_cfg where
  "hourly_research = [(''research'', [(''enabled'', JBool True), (''interval_seconds'', JInt 3600), (''retry_seconds'', JInt 60)])]"

lemma hourly_visited: "visited now hourly_research ''research'' 3600 (empty_store (JInt 3))"
  by (simp add: visited_def hourly_research_def cfg_of_def dict_get_def get_or_def int_of_def py_int_def source_due_def wm_get_def
      empty_store_def Let_def)

theorem visited_source_due_again_witness:
  "\<not> (\<exists>e. source_due (63902822400000000 + 59000000) 3600 (wm_get ''research'' ATTEMPT_WM_KEY (snd (visit_source
      (\<lambda>_ st. (Some (Some DECLINED), st)) 63902822400000000 hourly_research ''research'' (empty_store (JInt 3))))) = Inl e) \<and>
   source_due (63902822400000000 + 60000000) 3600 (wm_get ''research'' ATTEMPT_WM_KEY (snd (visit_source
      (\<lambda>_ st. (Some (Some DECLINED), st)) 63902822400000000 hourly_research ''research'' (empty_store (JInt 3))))) = Inr True"
  using visited_source_due_again [OF hourly_visited, of "\<lambda>_ st. (Some (Some DECLINED), st)" "Some (Some DECLINED)"
      "empty_store (JInt 3)" 63902822400000000]
  by (simp add: hourly_research_def cfg_of_def dict_get_def positive_int_def py_int_def max_wall_def)

text \<open>
  A source that has never returned cleanly and raises every time it is asked is not reported: each
  attempt renews the stamp its silence is measured by, so up to three intervals after any attempt, and the
  next one is due after one, the verdict is \<open>pending\<close>.
\<close>

theorem raising_source_stays_pending:
  assumes "visited now cfg name wait st" "enq name st = (None, st1)" "wm_get name OK_WM_KEY st1 = None"
    and "visit_source enq now cfg name st = (e, st')"
    and "in_range now" "now \<le> now'" "int now' \<le> int now + 3 * wait * second" "0 < wait" "of_int wait < float_bound"
  shows "\<exists>v. verdict (wm_get name OK_WM_KEY st') (wm_get name ATTEMPT_WM_KEY st') (JInt wait) True now' False STALL_FACTOR = Inr v \<and>
    dv_state v = Pending \<and> \<not> dv_stalled v"
proof -
  note stamps = visit_stamps [OF assms(1,2,4)]
  have "back_dated now wait (cfg_of cfg name) None = now" by (simp add: back_dated_def split: option.splits)
  then have att: "parse_stamp (wm_get name ATTEMPT_WM_KEY st') = Some (int now)" "wm_get name OK_WM_KEY st' = None"
    "wm_get name ATTEMPT_WM_KEY st' \<noteq> None"
    using stamps(2,3) assms(3,5) by (simp_all add: parse_stamp_def column_text_def)
  have "stamp_age now' (int now) = of_int (int now' - int now) / 1000000" using assms(6) by (simp add: stamp_age_def)
  moreover have "rat_of_int (int now' - int now) \<le> rat_of_int (3 * wait * second)" using assms(7) by (subst of_int_le_iff) linarith
  ultimately have "\<not> exceeds (stamp_age now' (int now)) (scale 3 (Fin (of_int wait)))"
    by (simp add: exceeds_def scale_def not_less divide_le_eq)
  then show ?thesis using att assms(8,9)
    by (auto simp: verdict_def py_float_def not_positive_def STALL_FACTOR_def parse_stamp_def verdict_row_def Let_def)
qed

theorem raising_source_stays_pending_witness:
  "\<exists>v. verdict (wm_get ''research'' OK_WM_KEY (snd (visit_source (\<lambda>_ st. (None, st)) 63902822400000000 hourly_research ''research'' (empty_store (JInt 3)))))
       (wm_get ''research'' ATTEMPT_WM_KEY (snd (visit_source (\<lambda>_ st. (None, st)) 63902822400000000 hourly_research ''research'' (empty_store (JInt 3)))))
       (JInt 3600) True (63902822400000000 + 10800000000) False STALL_FACTOR = Inr v \<and> dv_state v = Pending \<and> \<not> dv_stalled v"
proof (rule raising_source_stays_pending [OF hourly_visited, where ?st1.0 = "empty_store (JInt 3)"])
  show "wm_get ''research'' OK_WM_KEY (empty_store (JInt 3)) = None" by (simp add: wm_get_def empty_store_def)
  show "visit_source (\<lambda>_ st. (None, st)) 63902822400000000 hourly_research ''research'' (empty_store (JInt 3)) =
    (fst (visit_source (\<lambda>_ st. (None, st)) 63902822400000000 hourly_research ''research'' (empty_store (JInt 3))),
     snd (visit_source (\<lambda>_ st. (None, st)) 63902822400000000 hourly_research ''research'' (empty_store (JInt 3))))" by simp
qed (simp_all add: max_wall_def float_bound_def)

section \<open>The watch\<close>

definition watch_after :: "(rat \<times> (string \<times> dispatch_verdict) list) list \<Rightarrow> watch \<Rightarrow> watch" where
  "watch_after readings w = fold (\<lambda>(clock, rows) w. snd (judge_all clock rows w)) readings w"

fun watch_events :: "(rat \<times> (string \<times> dispatch_verdict) list) list \<Rightarrow> watch \<Rightarrow> dispatch_event list" where
  "watch_events [] w = []"
| "watch_events ((clock, rows) # rest) w = fst (judge_all clock rows w) @ watch_events rest (snd (judge_all clock rows w))"

definition new_watch :: watch where "new_watch = \<lparr>dw_stalled = [], dw_since = []\<rparr>"

text \<open>A stall is announced only when none stands, a recovery only when one does.\<close>

fun alternates :: "string \<Rightarrow> bool \<Rightarrow> dispatch_event list \<Rightarrow> bool" where
  "alternates n on [] = True"
| "alternates n on (Announce_Stall m age # es) = (if m = n then \<not> on \<and> alternates n True es else alternates n on es)"
| "alternates n on (Announce_Recovery m # es) = (if m = n then on \<and> alternates n False es else alternates n on es)"

lemma judge_alternates:
  "judge clock r w = (es, w') \<Longrightarrow> alternates n (n \<in> set (dw_stalled w)) (es @ rest) = alternates n (n \<in> set (dw_stalled w')) rest"
  by (cases r) (auto simp: judge_def Let_def split: if_splits option.splits)

lemma judge_all_alternates:
  "judge_all clock rows w = (es, w') \<Longrightarrow> alternates n (n \<in> set (dw_stalled w)) (es @ rest) = alternates n (n \<in> set (dw_stalled w')) rest"
proof (induction rows arbitrary: w es)
  case (Cons r rows)
  obtain es1 w1 es2 where "judge clock r w = (es1, w1)" "judge_all clock rows w1 = (es2, w')" "es = es1 @ es2"
    using Cons.prems by (auto split: prod.splits)
  then show ?case using judge_alternates Cons.IH by fastforce
qed simp

lemma judge_since:
  "judge clock (m, v) w = (es, w') \<Longrightarrow> (n, t) \<in> set (dw_since w') \<Longrightarrow> (n, t) \<in> set (dw_since w) \<or> n = m \<and> t = clock \<and> dv_stalled v"
  by (auto simp: judge_def Let_def split: if_splits option.splits)

lemma judge_all_since:
  "judge_all clock rows w = (es, w') \<Longrightarrow> (n, t) \<in> set (dw_since w') \<Longrightarrow>
   (n, t) \<in> set (dw_since w) \<or> t = clock \<and> (\<exists>v. (n, v) \<in> set rows \<and> dv_stalled v)"
proof (induction rows arbitrary: w es)
  case (Cons r rows)
  obtain m v where "r = (m, v)" by fastforce
  obtain es1 w1 es2 where j: "judge clock r w = (es1, w1)" "judge_all clock rows w1 = (es2, w')"
    using Cons.prems(1) by (auto split: prod.splits)
  show ?case using Cons.IH [OF j(2) Cons.prems(2)] judge_since j(1) \<open>r = (m, v)\<close> by fastforce
qed simp

lemma watch_since:
  "(n, t) \<in> set (dw_since (watch_after readings w)) \<Longrightarrow>
   (n, t) \<in> set (dw_since w) \<or> (\<exists>rows v. (t, rows) \<in> set readings \<and> (n, v) \<in> set rows \<and> dv_stalled v)"
proof (induction readings arbitrary: w)
  case (Cons r readings)
  obtain clock rows where r: "r = (clock, rows)" by fastforce
  obtain es w' where j: "judge_all clock rows w = (es, w')" by fastforce
  then show ?case using Cons judge_all_since [OF j, of n t] unfolding watch_after_def r by fastforce
qed (simp add: watch_after_def)

lemma announced_rows:
  "judge_all clock rows w = (es, w') \<Longrightarrow> Announce_Stall n age \<in> set es \<Longrightarrow> n \<in> fst ` set rows"
proof (induction rows arbitrary: w es)
  case (Cons r rows)
  obtain es1 w1 es2 where j: "judge clock r w = (es1, w1)" "judge_all clock rows w1 = (es2, w')" "es = es1 @ es2"
    using Cons.prems(1) by (auto split: prod.splits)
  have "Announce_Stall n age \<in> set es1 \<Longrightarrow> n = fst r"
    using j(1) by (cases r) (auto simp: judge_def Let_def split: if_splits option.splits)
  then show ?case using Cons.IH [OF j(2)] Cons.prems(2) j(3) by auto
qed simp

lemma stall_announced:
  assumes "judge_all clock rows w = (es, w')" "Announce_Stall n age \<in> set es" "distinct (map fst rows)"
  shows "\<exists>t. (n, t) \<in> set (dw_since w) \<and> age = clock - t"
  using assms
proof (induction rows arbitrary: w es)
  case (Cons r rows)
  obtain m v where r: "r = (m, v)" by fastforce
  obtain es1 w1 es2 where j: "judge clock r w = (es1, w1)" "judge_all clock rows w1 = (es2, w')" "es = es1 @ es2"
    using Cons.prems(1) by (auto split: prod.splits)
  show ?case
  proof (cases "Announce_Stall n age \<in> set es1")
    case True
    then show ?thesis using j(1) r by (auto simp: judge_def Let_def split: if_splits option.splits dest: map_of_SomeD)
  next
    case False
    then have e2: "Announce_Stall n age \<in> set es2" using Cons.prems(2) j(3) by simp
    then obtain t where t: "(n, t) \<in> set (dw_since w1)" "age = clock - t" using Cons.IH [OF j(2)] Cons.prems(3) by auto
    have "n \<in> fst ` set rows" using e2 j(2) announced_rows by fastforce
    then show ?thesis using t judge_since [of clock m v w es1 w1 n t] j(1) r Cons.prems(3) by auto
  qed
qed simp

text \<open>
  Over every sequence of readings, the announcements of one source alternate: a stall is announced
  once until its recovery, and a recovery only after a stall that was announced.
\<close>

theorem announcements_alternate:
  "alternates n False (watch_events readings new_watch)"
proof -
  have "alternates n (n \<in> set (dw_stalled w)) (watch_events readings w)" for w
  proof (induction readings arbitrary: w)
    case (Cons r readings)
    obtain clock rows where r: "r = (clock, rows)" by fastforce
    obtain es w' where "judge_all clock rows w = (es, w')" by fastforce
    then show ?case using judge_all_alternates Cons.IH r by simp
  qed simp
  from this [of new_watch] show ?thesis by (simp add: new_watch_def)
qed

text \<open>
  A stall is announced on its second measurement at the earliest: when a reading announces one,
  an earlier reading of the same process already measured it, and the age announced is the time
  between the two.
\<close>

theorem stall_measured_twice:
  assumes "judge_all clock rows (watch_after readings new_watch) = (es, w')" "Announce_Stall n age \<in> set es"
    "distinct (map fst rows)"
  shows "\<exists>t rows' v. (t, rows') \<in> set readings \<and> (n, v) \<in> set rows' \<and> dv_stalled v \<and> age = clock - t"
proof -
  obtain t where t: "(n, t) \<in> set (dw_since (watch_after readings new_watch))" "age = clock - t"
    using stall_announced [OF assms] by blast
  from watch_since [OF t(1)] t(2) show ?thesis by (auto simp: new_watch_def)
qed

theorem stall_measured_twice_witness:
  "\<exists>t rows' v. (t, rows') \<in> set [(10, [(''research'', verdict_row Stalled True None None)])] \<and> (''research'', v) \<in> set rows' \<and>
     dv_stalled v \<and> (50 :: rat) = 60 - t"
proof (rule stall_measured_twice [where rows = "[(''research'', verdict_row Stalled True None None)]"])
  show "judge_all 60 [(''research'', verdict_row Stalled True None None)]
      (watch_after [(10, [(''research'', verdict_row Stalled True None None)])] new_watch) =
    ([Announce_Stall ''research'' 50], \<lparr>dw_stalled = [''research''], dw_since = [(''research'', 10)]\<rparr>)"
    by (simp add: watch_after_def judge_def verdict_row_def new_watch_def)
qed simp_all

end
