(* ===== verification/Task_Schedule.thy ===== *)
theory Task_Schedule
  imports Pool_Runs
begin

text \<open>
  The schedule of one autonomy task as its front matter declares it (\<open>app/autonomy.py\<close>): the period, the
  retry step after a failure, the rest after a run of outages, and the window of local hours with the
  instants it opens and closes.

  A task is the mapping of its front matter; a stamp that YAML resolved to a \<open>datetime\<close> is kept as
  the text \<open>str\<close> gives it, and numbers are integers or the texts \<open>int\<close> and \<open>float\<close> read (an integer past
  the range of a float, on which \<open>float\<close> raises, is read as one that does not parse). Seconds are exact
  rationals before \<open>timedelta\<close> rounds them to microseconds; an instant is a number of microseconds
  and is not bounded by the calendar. The machine's zone is a parameter: the wall clock of an
  instant, and the instant of a wall clock.
\<close>

type_synonym task = "(string \<times> json) list"

record zone =
  to_local :: "int \<Rightarrow> int"
  from_local :: "int \<Rightarrow> int"

section \<open>Fields\<close>

text \<open>\<open>str(task.get(k, ""))\<close> and \<open>str(task.get(k) or "")\<close>.\<close>

definition field_text :: "task \<Rightarrow> string \<Rightarrow> string" where
  "field_text t k = py_str (get_or t k (JStr []))"

definition field_text_or :: "task \<Rightarrow> string \<Rightarrow> string" where
  "field_text_or t k = text_or (dict_get t k)"

definition is_null_word :: "string \<Rightarrow> bool" where
  "is_null_word s \<longleftrightarrow> lower (strip s) \<in> {''null'', ''none'', []}"

definition parse_iso_dt :: "json \<Rightarrow> datetime option" where
  "parse_iso_dt v =
     (if \<not> truthy v \<or> is_null_word (py_str v) then None
      else let s = strip (py_str v); s' = (if endswith s ''Z'' then butlast s @ ''+00:00'' else s)
        in map_option (\<lambda>dt. if offset dt = None then dt\<lparr>offset := Some 0\<rparr> else dt) (fromisoformat s'))"

definition parse_iso :: "json \<Rightarrow> int option" where
  "parse_iso v = map_option instant (parse_iso_dt v)"

definition stamp :: "task \<Rightarrow> string \<Rightarrow> int option" where
  "stamp t k = parse_iso (dict_get t k)"

text \<open>\<open>timedelta(seconds=s)\<close> in microseconds, and the seconds between two instants.\<close>

definition delta :: "rat \<Rightarrow> int" where
  "delta s = round_half_even (s * 1000000)"

definition seconds_between :: "int \<Rightarrow> int \<Rightarrow> rat" where
  "seconds_between a b = of_int (b - a) / 1000000"

definition either :: "rat option \<Rightarrow> rat \<Rightarrow> rat" where
  "either x d = (case x of Some v \<Rightarrow> if v = 0 then d else v | None \<Rightarrow> d)"

section \<open>The period\<close>

definition FREQUENCY_INTERVALS :: "(string \<times> rat) list" where
  "FREQUENCY_INTERVALS = [(''hourly'', 3600), (''every-15min'', 900), (''daily'', 86400), (''weekly'', 604800)]"

definition frequency_interval_seconds :: "task \<Rightarrow> rat option" where
  "frequency_interval_seconds t =
     (let rpd = dict_get t ''runs_per_day'';
          listed = map_of FREQUENCY_INTERVALS (lower (strip (field_text t ''frequency'')))
      in if \<not> truthy rpd then listed
         else case py_float rpd of
           Inr (Fin r) \<Rightarrow> if 0 < r then Some (86400 / r) else listed
         | Inr (Infinite neg) \<Rightarrow> if neg then listed else Some 0
         | _ \<Rightarrow> listed)"

section \<open>Failures\<close>

definition FAILURE_BACKOFF_BASE :: rat where "FAILURE_BACKOFF_BASE = 600"
definition FAILURE_BACKOFF_CAP_SECONDS :: rat where "FAILURE_BACKOFF_CAP_SECONDS = 21600"
definition FAILURE_BACKOFF_PERIOD_FRACTION :: rat where "FAILURE_BACKOFF_PERIOD_FRACTION = 4"
definition FAILURE_REARM_PERIODS :: rat where "FAILURE_REARM_PERIODS = 1"
definition DEFAULT_MAX_RETRIES :: int where "DEFAULT_MAX_RETRIES = 5"
definition INFRA_CEILING :: int where "INFRA_CEILING = 5"

text \<open>\<open>int(task.get(k) or d)\<close>.\<close>

definition int_field :: "task \<Rightarrow> string \<Rightarrow> int \<Rightarrow> py_error + int" where
  "int_field t k d = (if truthy (dict_get t k) then int_of (dict_get t k) else Inr d)"

definition max_retries_budget :: "task \<Rightarrow> py_error + int" where
  "max_retries_budget t = int_field t ''max_retries'' DEFAULT_MAX_RETRIES"

text \<open>One retry step; the factor \<open>2 ** (n - 1)\<close> is converted to a float, which has a range.\<close>

definition retry_step :: "rat option \<Rightarrow> nat \<Rightarrow> py_error + rat" where
  "retry_step interval doublings = (case interval of
     None \<Rightarrow> Inr (min (FAILURE_BACKOFF_BASE * 2 ^ doublings) FAILURE_BACKOFF_CAP_SECONDS)
   | Some period \<Rightarrow>
       let first = min (min (max (period / FAILURE_BACKOFF_PERIOD_FRACTION) FAILURE_BACKOFF_BASE)
                     FAILURE_BACKOFF_CAP_SECONDS) period
       in if 1024 \<le> doublings then Inl OverflowError else Inr (min (first * 2 ^ doublings) period))"

definition failure_cooldown_seconds :: "task \<Rightarrow> py_error + rat" where
  "failure_cooldown_seconds t = (case int_field t ''failure_count'' 0 of Inl e \<Rightarrow> Inl e
     | Inr n \<Rightarrow> retry_step (frequency_interval_seconds t) (nat (max 1 n - 1)))"

definition in_failure_cooldown :: "int \<Rightarrow> task \<Rightarrow> py_error + bool" where
  "in_failure_cooldown now t = (case stamp t ''last_attempt'' of None \<Rightarrow> Inr False
     | Some attempt \<Rightarrow>
         if (case stamp t ''last_run'' of None \<Rightarrow> False | Some run \<Rightarrow> attempt \<le> run) then Inr False
         else map_sum id (\<lambda>s. seconds_between attempt now < s) (failure_cooldown_seconds t))"

definition infra_failure_count :: "task \<Rightarrow> int" where
  "infra_failure_count t = (case int_field t ''infra_failure_count'' 0 of Inl _ \<Rightarrow> 0 | Inr n \<Rightarrow> max 0 n)"

definition infra_ceil_window_seconds :: "task \<Rightarrow> rat" where
  "infra_ceil_window_seconds t = either (frequency_interval_seconds t) FAILURE_BACKOFF_CAP_SECONDS"

definition next_infra_failure_count :: "int \<Rightarrow> task \<Rightarrow> int" where
  "next_infra_failure_count now t = (case stamp t ''last_attempt'' of None \<Rightarrow> 1
     | Some prev \<Rightarrow> if seconds_between prev now \<le> infra_ceil_window_seconds t then infra_failure_count t + 1 else 1)"

definition in_infra_rest :: "int \<Rightarrow> task \<Rightarrow> bool" where
  "in_infra_rest now t \<longleftrightarrow> (case stamp t ''infra_rest_until'' of None \<Rightarrow> False | Some until \<Rightarrow> now < until)"

section \<open>The window of hours\<close>

text \<open>\<open>_HHMM_RE\<close>, \<open>^\s*(\d{1,2}):(\d{2})\<close>, as the hour it reads.\<close>

definition hhmm_hour :: "string \<Rightarrow> int option" where
  "hhmm_hour s = (case lstrip s of
       a # b # c # rest \<Rightarrow>
         if is_digit a \<and> b = CHR '':'' \<and> is_digit c \<and> rest \<noteq> [] \<and> is_digit (hd rest) then Some (digits_val [a])
         else if is_digit a \<and> is_digit b \<and> c = CHR '':'' \<and> 2 \<le> length rest \<and> is_digit (rest ! 0) \<and> is_digit (rest ! 1)
         then Some (digits_val [a, b])
         else None
     | _ \<Rightarrow> None)"

fun ints_of :: "json list \<Rightarrow> int list option" where
  "ints_of [] = Some []"
| "ints_of (v # vs) = (case (int_of v, ints_of vs) of (Inr n, Some ns) \<Rightarrow> Some (n # ns) | _ \<Rightarrow> None)"

definition effective_preferred_hours :: "task \<Rightarrow> int list option" where
  "effective_preferred_hours t = (case dict_get t ''preferred_hours'' of
     JArr (v # vs) \<Rightarrow> ints_of (v # vs)
   | _ \<Rightarrow> (case hhmm_hour (field_text_or t ''scheduled_at'') of
        Some h \<Rightarrow> if h < 24 then Some [h] else None
      | None \<Rightarrow> None))"

definition is_preferred_hour :: "int \<Rightarrow> task \<Rightarrow> bool" where
  "is_preferred_hour hour t \<longleftrightarrow> (case effective_preferred_hours t of
     None \<Rightarrow> True | Some hours \<Rightarrow> hours = [] \<or> hour \<in> set hours)"

abbreviation hour_us :: int where "hour_us \<equiv> 3600000000"
abbreviation int_day_us :: int where "int_day_us \<equiv> 86400000000"

definition infra_rest_seconds :: "zone \<Rightarrow> int \<Rightarrow> int \<Rightarrow> task \<Rightarrow> rat" where
  "infra_rest_seconds z hour now t =
     (let period = infra_ceil_window_seconds t in
      case effective_preferred_hours t of
        Some (h # hs) \<Rightarrow>
          let ahead = (case find (\<lambda>k. (hour + int k) mod 24 \<in> set (h # hs)) [1..<25] of Some k \<Rightarrow> int k | None \<Rightarrow> 24);
              target = to_local z now + ahead * hour_us
          in max period (seconds_between now (from_local z target))
      | _ \<Rightarrow> period)"

definition window_hours :: "task \<Rightarrow> int list option" where
  "window_hours t = (case effective_preferred_hours t of
     None \<Rightarrow> None
   | Some hours \<Rightarrow>
       let hs = filter (\<lambda>h. h \<in> (\<lambda>x. x mod 24) ` set hours) [0..23]
       in if 0 < length hs \<and> length hs < 24 then Some hs else None)"

section \<open>Window occurrences\<close>

text \<open>\<open>while (h + length) % 24 in hs: length += 1\<close>; a full window would never leave it, and no hour of one is an opening (\<open>openings\<close>).\<close>

partial_function (option) grow :: "int set \<Rightarrow> int \<Rightarrow> int \<Rightarrow> int option" where
  "grow hs h len = (if (h + len) mod 24 \<in> hs then grow hs h (len + 1) else Some len)"

definition pair_le :: "int \<times> int \<Rightarrow> int \<times> int \<Rightarrow> bool" where
  "pair_le a b \<longleftrightarrow> fst a < fst b \<or> fst a = fst b \<and> snd a \<le> snd b"

definition openings :: "int list \<Rightarrow> int list" where
  "openings hs = filter (\<lambda>h. (h - 1) mod 24 \<notin> set hs) hs"

definition occurrence :: "zone \<Rightarrow> int list \<Rightarrow> int \<Rightarrow> int \<Rightarrow> int \<times> int" where
  "occurrence z hs day h =
     (let start = day * int_day_us + h * hour_us; len = (case grow (set hs) h 1 of Some n \<Rightarrow> n | None \<Rightarrow> 0)
      in (from_local z start, from_local z (start + len * hour_us)))"

definition window_occurrences :: "zone \<Rightarrow> int list \<Rightarrow> int \<Rightarrow> (int \<times> int) list" where
  "window_occurrences z hs around =
     (let base = to_local z around div int_day_us in
      order_by pair_le (concat (map (\<lambda>d. map (occurrence z hs (base + d)) (openings hs)) [-3..2])))"

definition latest_window_open :: "zone \<Rightarrow> int list \<Rightarrow> int \<Rightarrow> (int \<times> int) option" where
  "latest_window_open z hs at' =
     fold (\<lambda>occ best. if fst occ \<le> at' then Some occ else best) (window_occurrences z hs at') None"

fun first_in :: "int \<Rightarrow> (int \<times> int) list \<Rightarrow> int" where
  "first_in at' [] = at'"
| "first_in at' ((start, stop) # occs) =
     (if start \<le> at' \<and> at' < stop then at' else if at' < start then start else first_in at' occs)"

definition first_in_window_at_or_after :: "zone \<Rightarrow> int list \<Rightarrow> int \<Rightarrow> int" where
  "first_in_window_at_or_after z hs at' = first_in at' (window_occurrences z hs at')"

definition window_anchored :: "task \<Rightarrow> int list option" where
  "window_anchored t = (case frequency_interval_seconds t of None \<Rightarrow> None
     | Some interval \<Rightarrow> if interval < 86400 then None else window_hours t)"

section \<open>When a task is due again\<close>

definition due_slack_seconds :: "task \<Rightarrow> rat" where
  "due_slack_seconds t =
     (let interval = either (frequency_interval_seconds t) 0 in
      case effective_preferred_hours t of Some (h # hs) \<Rightarrow> min 3600 (interval / 4) | _ \<Rightarrow> 0)"

definition elapsed_due_at :: "zone \<Rightarrow> task \<Rightarrow> int \<Rightarrow> int option" where
  "elapsed_due_at z t last_run = (case frequency_interval_seconds t of None \<Rightarrow> None
     | Some interval \<Rightarrow>
         let slack = delta (due_slack_seconds t); period = delta interval;
             occ = (case window_anchored t of None \<Rightarrow> None | Some hs \<Rightarrow> latest_window_open z hs last_run)
         in Some (case occ of None \<Rightarrow> last_run + period - slack
              | Some (opened, _) \<Rightarrow> max (opened + period - slack) (last_run + round_half_even (of_int period / 2))))"

definition next_run_after :: "zone \<Rightarrow> task \<Rightarrow> int \<Rightarrow> int option" where
  "next_run_after z t completed = (case frequency_interval_seconds t of None \<Rightarrow> None
     | Some interval \<Rightarrow> (case window_anchored t of
          None \<Rightarrow> Some (completed + delta interval)
        | Some hs \<Rightarrow> map_option (first_in_window_at_or_after z hs) (elapsed_due_at z t completed)))"

definition run_period_start :: "int \<Rightarrow> task \<Rightarrow> int option" where
  "run_period_start now t = map_option (\<lambda>interval. now - delta (max 1 (interval - due_slack_seconds t))) (frequency_interval_seconds t)"

end
