(* ===== verification/Task_Due.thy ===== *)
theory Task_Due
  imports Task_Schedule Grant_Gate
begin

text \<open>
  Which autonomy tasks the scheduler dispatches now, and what the board says of the others
  (\<open>app/autonomy.py\<close>): the dependency gate with its fail-forward bound, the veto of the run records, the
  catch-up of a window lost under a hold, \<open>_is_task_due\<close>, \<open>hold_reason\<close> and \<open>get_due_tasks\<close>.

  What the decision reads besides the tasks is a \<open>due_env\<close>: the instant, the local hour as a second
  reading of the clock, the zone, the size of the file a declared artifact names (\<^term>\<open>None\<close> if
  it cannot be read; the path's home directory is expanded by the parameter), the run records of a
  task in the order of their file names, each with its stem and the mapping its front matter parses
  to. A \<open>timeout_seconds\<close> that is infinite or not a number is read as the default, where the code
  raises. A hold is kept as the data its
  sentence is printed from, and the ledgers that only keep a warning from being logged twice are left
  out. An exception of the readers ends the whole scan, as in the code.
\<close>

record due_env =
  de_now :: int
  de_hour :: int
  de_zone :: zone
  de_file_size :: "string \<Rightarrow> nat option"
  de_records :: "string \<Rightarrow> (string \<times> json option) list"

section \<open>Run records\<close>

definition RUN_STATUS_SUCCESS :: string where "RUN_STATUS_SUCCESS = ''success''"

type_synonym run_note = "string \<times> int \<times> string"

definition record_note :: "string option \<Rightarrow> int option \<Rightarrow> (int \<Rightarrow> bool) \<Rightarrow> string \<times> json option \<Rightarrow> run_note option" where
  "record_note want not_before accept = (\<lambda>(stem, fm).
     case fm of
       Some (JObj m) \<Rightarrow>
         (case dict_get m ''status'' of
            JStr raw \<Rightarrow>
              let status = lower (strip raw);
                  found = (case parse_iso (dict_get m ''completed_at'') of Some w \<Rightarrow> Some w | None \<Rightarrow> parse_iso (dict_get m ''started_at''))
              in if want \<noteq> None \<and> want \<noteq> Some status then None
                 else (case found of None \<Rightarrow> None
                   | Some w \<Rightarrow>
                       if (case not_before of None \<Rightarrow> False | Some b \<Rightarrow> w < b) \<or> \<not> accept w then None
                       else Some (status, w, let rid = text_or (dict_get m ''run_id'') in if rid = [] then stem else rid))
          | _ \<Rightarrow> None)
     | _ \<Rightarrow> None)"

definition newest_note :: "run_note option \<Rightarrow> run_note \<Rightarrow> run_note option" where
  "newest_note best n = (case best of None \<Rightarrow> Some n
     | Some b \<Rightarrow> if fst (snd b) < fst (snd n) then Some n else Some b)"

definition newest_record ::
    "string option \<Rightarrow> int option \<Rightarrow> (int \<Rightarrow> bool) \<Rightarrow> (string \<times> json option) list \<Rightarrow> run_note option" where
  "newest_record want not_before accept records =
     fold (\<lambda>r best. case record_note want not_before accept r of None \<Rightarrow> best | Some n \<Rightarrow> newest_note best n) records None"

definition newest_successful_run ::
    "int option \<Rightarrow> (int \<Rightarrow> bool) \<Rightarrow> (string \<times> json option) list \<Rightarrow> (int \<times> string) option" where
  "newest_successful_run not_before accept records =
     map_option snd (newest_record (Some RUN_STATUS_SUCCESS) not_before accept records)"

definition already_ran_this_period :: "due_env \<Rightarrow> task \<Rightarrow> string" where
  "already_ran_this_period env t =
     (if dict_get t ''id'' = JNull then []
      else case run_period_start (de_now env) t of None \<Rightarrow> []
      | Some start \<Rightarrow>
          let holds = (\<lambda>w. window_anchored t = None \<or>
                (case elapsed_due_at (de_zone env) t w of None \<Rightarrow> False | Some due \<Rightarrow> de_now env < due))
          in (case newest_successful_run (Some start) holds (de_records env (py_str (dict_get t ''id''))) of
                None \<Rightarrow> [] | Some (_, rid) \<Rightarrow> rid))"

section \<open>Dependencies\<close>

definition RUNNABLE_STATUSES :: "string list" where "RUNNABLE_STATUSES = [''up_next'', ''in_progress'', ''failed'']"
definition MISSING_ARTIFACT_GRACE_HOURS :: rat where "MISSING_ARTIFACT_GRACE_HOURS = 24"
definition ARTIFACT_MIN_BYTES :: nat where "ARTIFACT_MIN_BYTES = 512"
definition DATE_MACRO :: string where "DATE_MACRO = ''{date}''"

definition block_of :: "json \<Rightarrow> grants_block" where
  "block_of v = (case v of JNull \<Rightarrow> No_Block
     | JArr vs \<Rightarrow> Entries (map (\<lambda>v. case v of JObj m \<Rightarrow> Entry (map (\<lambda>(k, x). (k, Val x)) m) | _ \<Rightarrow> Not_A_Map v) vs)
     | _ \<Rightarrow> Not_A_List v)"

definition grant_block_errors :: "task \<Rightarrow> py_error + (nat \<times> entry_error) list" where
  "grant_block_errors t =
     (if ''grants'' \<notin> fst ` set t then Inr []
      else map_sum id snd (validate_task_grants (block_of (dict_get t ''grants''))))"

definition dispatch_blocked :: "task \<Rightarrow> py_error + bool" where
  "dispatch_blocked t =
     map_sum id (\<lambda>errs. strip (field_text_or t ''status'') \<notin> set RUNNABLE_STATUSES \<or> errs \<noteq> []) (grant_block_errors t)"

fun replace_macro :: "string \<Rightarrow> string \<Rightarrow> string" where
  "replace_macro day [] = []"
| "replace_macro day (c # cs) =
     (if startswith (c # cs) DATE_MACRO then day @ replace_macro day (drop 5 cs) else c # replace_macro day cs)"

definition artifact_candidates :: "zone \<Rightarrow> string \<Rightarrow> int \<Rightarrow> int \<Rightarrow> string list" where
  "artifact_candidates z declared at' own =
     (let day = (\<lambda>w. date_text (nat (w div int_day_us))); local_day = day (to_local z at'); own_day = day own
      in if replace_macro local_day declared = declared then [declared]
         else [replace_macro local_day declared, replace_macro own_day declared])"

text \<open>
  The artifact an upstream declares: \<^term>\<open>None\<close> when it declares none, else whether one of its
  candidates is on disk. A run is dated by its start, so both its end and that less its timeout are asked.
\<close>

definition upstream_artifact_on_disk :: "due_env \<Rightarrow> task \<Rightarrow> datetime option \<Rightarrow> bool option" where
  "upstream_artifact_on_disk env dep dep_last =
     (let declared = strip (field_text_or dep ''output_artifact'');
          span = (let v = (if truthy (dict_get dep ''timeout_seconds'') then dict_get dep ''timeout_seconds'' else JInt 1800)
                  in case py_float v of Inr (Fin s) \<Rightarrow> s | _ \<Rightarrow> 1800);
          anchors = (case dep_last of None \<Rightarrow> [(de_now env, de_now env)]
            | Some dt \<Rightarrow> [(instant dt, int (wall dt)), (instant dt - delta span, int (wall dt) - delta span)])
      in if declared = [] then None
         else Some (list_ex (\<lambda>p. case de_file_size env p of None \<Rightarrow> False | Some n \<Rightarrow> ARTIFACT_MIN_BYTES \<le> n)
                (concat (map (\<lambda>(at', own). artifact_candidates (de_zone env) declared at' own) anchors))))"

definition stale_bypass_hours :: "task \<Rightarrow> pyfloat option" where
  "stale_bypass_hours t =
     (let v = (if truthy (dict_get t ''stale_bypass_hours'') then dict_get t ''stale_bypass_hours'' else JInt 0) in
      case py_float v of
        Inr (Fin h) \<Rightarrow> if 0 < h then Some (Fin h) else None
      | Inr (Infinite False) \<Rightarrow> Some (Infinite False)
      | _ \<Rightarrow> None)"

definition past_hours :: "int \<Rightarrow> int \<Rightarrow> pyfloat \<Rightarrow> rat \<Rightarrow> bool" where
  "past_hours now dep_last bound extra = (case bound of
     Fin h \<Rightarrow> (h + extra) * 3600 < seconds_between dep_last now | _ \<Rightarrow> False)"

definition dependency_bypassed :: "due_env \<Rightarrow> task \<Rightarrow> task \<Rightarrow> datetime option \<Rightarrow> bool" where
  "dependency_bypassed env t dep dep_last = (case stale_bypass_hours t of None \<Rightarrow> False
     | Some bound \<Rightarrow>
         if strip (field_text dep ''status'') = ''in_progress'' then False
         else if (case dep_last of None \<Rightarrow> False | Some dt \<Rightarrow> \<not> past_hours (de_now env) (instant dt) bound 0) then False
         else if upstream_artifact_on_disk env dep dep_last = Some False
         then (case dep_last of None \<Rightarrow> False
            | Some dt \<Rightarrow> past_hours (de_now env) (instant dt) bound MISSING_ARTIFACT_GRACE_HOURS)
         else True)"

definition window_dependency_fresh :: "due_env \<Rightarrow> task \<Rightarrow> task \<Rightarrow> int \<Rightarrow> bool option" where
  "window_dependency_fresh env t dep dep_last = (case window_anchored t of None \<Rightarrow> None
     | Some mine \<Rightarrow>
         if window_hours dep = None then None
         else case (latest_window_open (de_zone env) mine (de_now env), next_run_after (de_zone env) dep dep_last) of
           (Some (_, close), Some slot) \<Rightarrow> Some (close \<le> slot)
         | _ \<Rightarrow> None)"

text \<open>
  The gate, over what decides once the upstream does not certify the run: the decision is given the
  upstream, its last success, and whether the task's own id was added to the chain already seen.
\<close>

datatype 'r gate_answer = Met | Refused_Bare | Refused 'r

definition dependency_gate ::
    "due_env \<Rightarrow> (task \<Rightarrow> datetime option \<Rightarrow> bool \<Rightarrow> py_error + 'r gate_answer) \<Rightarrow> task list \<Rightarrow> task \<Rightarrow> py_error + 'r gate_answer" where
  "dependency_gate env decide all t =
     (let raw = dict_get t ''depends_on'' in
      if \<not> truthy raw \<or> is_null_word (py_str raw) then Inr Met
      else let dep_id = strip (py_str raw) in
      case find (\<lambda>d. strip (field_text d ''id'') = dep_id) all of
        None \<Rightarrow> decide [(''id'', JStr dep_id), (''status'', JStr ''unknown'')] None False
      | Some dep \<Rightarrow>
          (case dispatch_blocked dep of Inl e \<Rightarrow> Inl e
           | Inr blocked \<Rightarrow>
               let dep_last = parse_iso_dt (dict_get dep ''last_run'') in
               if blocked then decide dep dep_last False
               else (case dep_last of None \<Rightarrow> decide dep None False
                 | Some dt \<Rightarrow>
                     let interval = either (frequency_interval_seconds t) 86400;
                         fresh = (case window_dependency_fresh env t dep (instant dt) of Some b \<Rightarrow> b
                           | None \<Rightarrow> seconds_between (instant dt) (de_now env) \<le> interval / 2)
                     in if \<not> fresh then decide dep dep_last True
                        else (case stamp t ''last_run'' of None \<Rightarrow> Inr Met
                          | Some mine \<Rightarrow> Inr (if mine < instant dt then Met else Refused_Bare)))))"

text \<open>\<open>_is_dependency_met\<close>: the decision is the bound, and nothing is explained.\<close>

definition is_dependency_met :: "due_env \<Rightarrow> task list \<Rightarrow> task \<Rightarrow> py_error + bool" where
  "is_dependency_met env all t =
     map_sum id (\<lambda>a. a = Met)
       (dependency_gate env (\<lambda>dep dep_last _. Inr (if dependency_bypassed env t dep dep_last then Met else Refused_Bare :: unit gate_answer)) all t)"

text \<open>The explained refusal, as the parts its sentence joins.\<close>

datatype detail = Inside_Bound | Never_Succeeded_Yet | Bound_Passed | Upstream_Running | Artifact_Missing | Upstream_Due

definition upstream_due_in_window :: "due_env \<Rightarrow> task list \<Rightarrow> string list \<Rightarrow> task \<Rightarrow> int \<Rightarrow> py_error + bool" where
  "upstream_due_in_window env all seen dep dep_last =
     (if field_text dep ''id'' \<in> set seen then Inr False
      else case window_hours dep of None \<Rightarrow> Inr False
      | Some hours \<Rightarrow>
          if strip (field_text dep ''status'') \<noteq> ''up_next'' then Inr False
          else if in_infra_rest (de_now env) dep then Inr False
          else (case in_failure_cooldown (de_now env) dep of Inl e \<Rightarrow> Inl e
            | Inr cooling \<Rightarrow>
                if cooling \<or> (case elapsed_due_at (de_zone env) dep dep_last of None \<Rightarrow> True | Some due \<Rightarrow> de_now env < due)
                  \<or> first_in_window_at_or_after (de_zone env) hours (de_now env) \<noteq> de_now env then Inr False
                else (case is_dependency_met env all dep of Inl e \<Rightarrow> Inl e
                  | Inr met \<Rightarrow> Inr (met \<and> already_ran_this_period env dep = []))))"

definition bypass_hold_detail ::
    "due_env \<Rightarrow> task list \<Rightarrow> string list \<Rightarrow> task \<Rightarrow> task \<Rightarrow> datetime option \<Rightarrow> py_error + detail list gate_answer" where
  "bypass_hold_detail env all seen t dep dep_last = (case stale_bypass_hours t of None \<Rightarrow> Inr Refused_Bare
     | Some bound \<Rightarrow>
         let inside = (case dep_last of None \<Rightarrow> False | Some dt \<Rightarrow> \<not> past_hours (de_now env) (instant dt) bound 0);
             head = (if inside then Inside_Bound else if dep_last = None then Never_Succeeded_Yet else Bound_Passed);
             why = (if strip (field_text dep ''status'') = ''in_progress'' then [Upstream_Running]
                    else if upstream_artifact_on_disk env dep dep_last = Some False then [Artifact_Missing] else [])
         in if inside then Inr (Refused [head])
            else (case dep_last of None \<Rightarrow> Inr (Refused (head # why))
              | Some dt \<Rightarrow> map_sum id (\<lambda>due. Refused (head # why @ (if due then [Upstream_Due] else [])))
                  (upstream_due_in_window env all seen dep (instant dt))))"

definition dependency_refusal :: "due_env \<Rightarrow> task list \<Rightarrow> task \<Rightarrow> py_error + detail list gate_answer" where
  "dependency_refusal env all t =
     dependency_gate env (\<lambda>dep dep_last own. if dependency_bypassed env t dep dep_last then Inr Met
       else bypass_hold_detail env all (if own then [field_text t ''id''] else []) t dep dep_last) all t"

section \<open>The catch-up of a lost window\<close>

definition WINDOW_LOSS_WM_SOURCE :: string where "WINDOW_LOSS_WM_SOURCE = ''scheduled-task''"
definition WINDOW_LOSS_WM_PREFIX :: string where "WINDOW_LOSS_WM_PREFIX = ''window_lost:''"

definition window_loss_key :: "zone \<Rightarrow> string \<Rightarrow> int \<Rightarrow> string" where
  "window_loss_key z task_id opened =
     (let w = to_local z opened; s = nat (w mod int_day_us div hour_us); m = nat (w mod hour_us div 60000000) in
      WINDOW_LOSS_WM_PREFIX @ task_id @ '':'' @ date_text (nat (w div int_day_us)) @ ''T'' @ pad 2 s @ '':'' @ pad 2 m)"

definition window_loss_from_key :: "string \<Rightarrow> int option" where
  "window_loss_from_key key =
     (if \<not> startswith key WINDOW_LOSS_WM_PREFIX then None
      else py_int (JStr (takeWhile (\<lambda>c. c \<noteq> CHR '':'') (drop (length WINDOW_LOSS_WM_PREFIX) key))))"

type_synonym loss_rows = "(int \<times> (string \<times> json) list) list"

definition add_loss :: "store \<Rightarrow> string \<Rightarrow> loss_rows \<Rightarrow> loss_rows" where
  "add_loss st key rows = (case window_loss_from_key key of None \<Rightarrow> rows
     | Some tid \<Rightarrow>
         (case (case wm_get WINDOW_LOSS_WM_SOURCE key st of None \<Rightarrow> None | Some t \<Rightarrow> loads t) of
            Some (JObj m) \<Rightarrow>
              let row = dict_set m ''_key'' (JStr key) in
              (case map_of rows tid of
                 None \<Rightarrow> rows @ [(tid, row)]
               | Some prev \<Rightarrow> if text_less (text_or (dict_get prev ''window_open'')) (text_or (dict_get row ''window_open''))
                   then map (\<lambda>(k, r). if k = tid then (k, row) else (k, r)) rows else rows)
          | _ \<Rightarrow> rows))"

definition window_loss_rows :: "store \<Rightarrow> loss_rows" where
  "window_loss_rows st = fold (add_loss st) (wm_keys WINDOW_LOSS_WM_SOURCE st) []"

definition loss_for :: "loss_rows \<Rightarrow> json \<Rightarrow> py_error + (string \<times> json) list option" where
  "loss_for rows task_id = (case task_id of
     JInt i \<Rightarrow> Inr (map_of rows i)
   | JBool b \<Rightarrow> Inr (map_of rows (if b then 1 else 0))
   | JStr _ \<Rightarrow> Inr (case py_int task_id of None \<Rightarrow> None | Some i \<Rightarrow> map_of rows i)
   | JNull \<Rightarrow> Inr None
   | _ \<Rightarrow> Inl TypeError)"

definition window_catch_up_row :: "int \<Rightarrow> loss_rows \<Rightarrow> task \<Rightarrow> py_error + (string \<times> json) list option" where
  "window_catch_up_row now rows t =
     (if window_hours t = None \<or> dict_get t ''id'' = JNull then Inr None
      else map_sum id (\<lambda>found. case found of
          None \<Rightarrow> None
        | Some row \<Rightarrow>
            if row = [] \<or> \<not> truthy (dict_get row ''pause_since'') then None
            else (case parse_iso (dict_get row ''window_close'') of None \<Rightarrow> None
              | Some close \<Rightarrow>
                  if delta (either (frequency_interval_seconds t) (2 * 86400)) < now - close then None
                  else if (case stamp t ''last_run'' of None \<Rightarrow> True | Some run \<Rightarrow> run < close) then Some row else None))
        (loss_for rows (dict_get t ''id'')))"

section \<open>Due\<close>

definition has_skill :: "task \<Rightarrow> bool" where
  "has_skill t \<longleftrightarrow> strip (field_text_or t ''skill_name'') \<noteq> [] \<or> strip (field_text_or t ''skill_path'') \<noteq> []"

definition is_task_due :: "due_env \<Rightarrow> task list \<Rightarrow> (string \<times> json) list option \<Rightarrow> task \<Rightarrow> py_error + bool" where
  "is_task_due env all catch_up t =
     (if \<not> has_skill t \<or> strip (field_text t ''status'') \<noteq> ''up_next'' \<or> frequency_interval_seconds t = None then Inr False
      else if (case stamp t ''last_run'' of None \<Rightarrow> False
         | Some run \<Rightarrow> (case elapsed_due_at (de_zone env) t run of None \<Rightarrow> False | Some due \<Rightarrow> de_now env < due)) then Inr False
      else if in_infra_rest (de_now env) t then Inr False
      else case in_failure_cooldown (de_now env) t of Inl e \<Rightarrow> Inl e
      | Inr True \<Rightarrow> Inr False
      | Inr False \<Rightarrow>
      (case is_dependency_met env all t of Inl e \<Rightarrow> Inl e
       | Inr False \<Rightarrow> Inr False
       | Inr True \<Rightarrow>
           if \<not> is_preferred_hour (de_hour env) t \<and> (catch_up = None \<or> catch_up = Some []) then Inr False
           else Inr (already_ran_this_period env t = [])))"

datatype hold =
    No_Skill | Other_Status string | No_Frequency | Infra_Ceiling | Failure_Cooldown
  | Waiting_On json "detail list" | Outside_Hours "int list" | Already_Ran

definition hold_reason :: "due_env \<Rightarrow> task list \<Rightarrow> (string \<times> json) list option \<Rightarrow> task \<Rightarrow> py_error + hold option" where
  "hold_reason env all catch_up t =
     (if \<not> has_skill t then Inr (Some No_Skill)
      else if strip (field_text_or t ''status'') \<noteq> ''up_next'' then Inr (Some (Other_Status (strip (field_text_or t ''status''))))
      else if frequency_interval_seconds t = None then Inr (Some No_Frequency)
      else if in_infra_rest (de_now env) t then Inr (Some Infra_Ceiling)
      else case in_failure_cooldown (de_now env) t of Inl e \<Rightarrow> Inl e
      | Inr True \<Rightarrow> Inr (Some Failure_Cooldown)
      | Inr False \<Rightarrow>
      (case dependency_refusal env all t of Inl e \<Rightarrow> Inl e
       | Inr Refused_Bare \<Rightarrow>
           Inr (Some (if already_ran_this_period env t \<noteq> [] then Already_Ran else Waiting_On (dict_get t ''depends_on'') []))
       | Inr (Refused parts) \<Rightarrow> Inr (Some (Waiting_On (dict_get t ''depends_on'') parts))
       | Inr Met \<Rightarrow>
           if \<not> is_preferred_hour (de_hour env) t \<and> (catch_up = None \<or> catch_up = Some [])
           then Inr (Some (Outside_Hours (case effective_preferred_hours t of None \<Rightarrow> [] | Some hs \<Rightarrow> hs)))
           else Inr (if already_ran_this_period env t \<noteq> [] then Some Already_Ran else None)))"

section \<open>The scan\<close>

definition prio_map :: "(string \<times> int) list" where
  "prio_map = [(''critical'', 4), (''high'', 3), (''medium'', 2), (''low'', 1), (''background'', 0)]"

text \<open>
  The source reads the clock again for every key; the model takes the instant of the scan.
\<close>

definition priority_key :: "int \<Rightarrow> task \<Rightarrow> int \<times> rat" where
  "priority_key now t =
     (let prio = (case map_of prio_map (lower (py_str (get_or t ''priority'' (JStr ''medium'')))) of None \<Rightarrow> 2 | Some p \<Rightarrow> p);
          overdue = (case stamp t ''last_run'' of None \<Rightarrow> 999999 | Some run \<Rightarrow> seconds_between run now)
      in (- prio, - overdue))"

definition key_le :: "int \<times> rat \<Rightarrow> int \<times> rat \<Rightarrow> bool" where
  "key_le a b \<longleftrightarrow> fst a < fst b \<or> fst a = fst b \<and> snd a \<le> snd b"

fun filter_ok :: "('a \<Rightarrow> py_error + bool) \<Rightarrow> 'a list \<Rightarrow> py_error + 'a list" where
  "filter_ok p [] = Inr []"
| "filter_ok p (x # xs) = (case p x of Inl e \<Rightarrow> Inl e
     | Inr keep \<Rightarrow> map_sum id (\<lambda>ys. if keep then x # ys else ys) (filter_ok p xs))"

definition all_runnable_tasks :: "task list \<Rightarrow> py_error + task list" where
  "all_runnable_tasks board = filter_ok (\<lambda>t. map_sum id Not (dispatch_blocked t)) board"

definition get_due_tasks :: "due_env \<Rightarrow> store \<Rightarrow> task list \<Rightarrow> py_error + task list" where
  "get_due_tasks env st board =
     (case all_runnable_tasks board of Inl e \<Rightarrow> Inl e
      | Inr runnable \<Rightarrow>
          map_sum id (order_by (\<lambda>a b. key_le (priority_key (de_now env) a) (priority_key (de_now env) b)))
            (filter_ok (\<lambda>t. case window_catch_up_row (de_now env) (window_loss_rows st) t of Inl e \<Rightarrow> Inl e
               | Inr row \<Rightarrow> is_task_due env board row t) runnable))"

end
