(* ===== verification/Task_Ledger.thy ===== *)
theory Task_Ledger
  imports Task_Due
begin

text \<open>
  What runs write back into an autonomy task's front matter (\<open>app/autonomy.py\<close>): the start and the success
  stamps of \<open>run_task\<close>, \<open>_record_failure\<close> with the retry budget and the ceiling on outages,
  the recovery scan with the re-arming of a retired task, and the charge for a death that left no verdict.
  A task file is its front matter, found by its id. The run record, the activity log and the alerts are
  written besides and change no decision here; \<open>now\<close> is one reading of the clock for a write.
\<close>

text \<open>\<open>_update_task_field\<close>: private keys are dropped, the fields set, and a field set to \<open>None\<close> removed.\<close>

definition update_task_field :: "(string \<times> json) list \<Rightarrow> task \<Rightarrow> task" where
  "update_task_field upd t =
     filter (\<lambda>(_, v). v \<noteq> JNull) (fold (\<lambda>(k, v) m. dict_set m k v) upd (filter (\<lambda>(k, _). \<not> startswith k ''_'') t))"

definition iso_at :: "int \<Rightarrow> json" where
  "iso_at i = JStr (iso_utc (nat i))"

definition start_run :: "nat \<Rightarrow> task \<Rightarrow> task" where
  "start_run now t = update_task_field [(''status'', JStr ''in_progress''), (''updated'', JStr (iso_utc now))] t"

definition record_success :: "zone \<Rightarrow> nat \<Rightarrow> task \<Rightarrow> task" where
  "record_success z now t =
     (let at0 = JStr (iso_utc now);
          slot = (if either (frequency_interval_seconds t) 0 = 0 then None else next_run_after z t (int now))
      in update_task_field ([(''status'', JStr ''up_next''), (''last_run'', at0), (''last_attempt'', at0), (''updated'', at0),
           (''failure_count'', JInt 0), (''infra_failure_count'', JInt 0), (''infra_rest_until'', JNull)]
           @ (case slot of None \<Rightarrow> [] | Some s \<Rightarrow> [(''next_run'', iso_at s)])) t)"

record failure_result =
  fr_failures :: int
  fr_disabled :: bool
  fr_crossed :: bool

text \<open>The fields of the infra ceiling: the count it leaves, and what happens to the rest.\<close>

definition infra_fields :: "zone \<Rightarrow> int \<Rightarrow> nat \<Rightarrow> task \<Rightarrow> bool \<times> (string \<times> json) list" where
  "infra_fields z hour now t =
     (let n = next_infra_failure_count (int now) t in
      if INFRA_CEILING \<le> n
      then (True, [(''infra_rest_until'', iso_at (int now + delta (infra_rest_seconds z hour (int now) t))), (''infra_failure_count'', JInt 0)])
      else (False, (if stamp t ''infra_rest_until'' \<noteq> None \<and> \<not> in_infra_rest (int now) t then [(''infra_rest_until'', JNull)] else [])
              @ [(''infra_failure_count'', JInt n)]))"

definition record_failure :: "zone \<Rightarrow> int \<Rightarrow> nat \<Rightarrow> string \<Rightarrow> task \<Rightarrow> py_error + (failure_result \<times> task)" where
  "record_failure z hour now kind t =
     (case int_field t ''failure_count'' 0 of Inl e \<Rightarrow> Inl e
      | Inr prior \<Rightarrow>
      (case max_retries_budget t of Inl e \<Rightarrow> Inl e
       | Inr budget \<Rightarrow>
       let failures = prior + (if kind = ''task'' then 1 else 0);
           disabled = (kind = ''task'' \<and> budget \<le> failures);
           (crossed, infra) = (if kind = ''infra'' then infra_fields z hour now t else (False, []));
           upd = [(''status'', JStr (if disabled then ''failed'' else ''up_next'')), (''last_attempt'', JStr (iso_utc now)),
                     (''updated'', JStr (iso_utc now))]
                    @ (if kind = ''task'' then [(''failure_count'', JInt failures)] else []) @ infra;
           result = \<lparr>fr_failures = failures, fr_disabled = disabled, fr_crossed = crossed\<rparr>
       in if disabled then Inr (result, update_task_field (upd @ [(''next_run'', JNull)]) t)
          else if crossed then Inr (result, update_task_field (upd @ [(''next_run'', dict_get infra ''infra_rest_until'')]) t)
          else (case (if kind = ''task'' then failure_cooldown_seconds (fold (\<lambda>(k, v) m. dict_set m k v) upd t)
                      else Inr FAILURE_BACKOFF_BASE) of Inl e \<Rightarrow> Inl e
            | Inr cooldown \<Rightarrow>
                Inr (result, update_task_field (upd @ [(''next_run'', iso_at (int now + delta cooldown))]) t))))"

section \<open>Recovery\<close>

definition rearm_after_one_period :: "nat \<Rightarrow> task \<Rightarrow> task option" where
  "rearm_after_one_period now t =
     (case frequency_interval_seconds t of
        Some interval \<Rightarrow>
          if \<not> truthy (dict_get t ''id'') \<or> interval = 0 then None
          else (case stamp t ''last_attempt'' of None \<Rightarrow> None
            | Some attempt \<Rightarrow>
                if seconds_between attempt (int now) < interval * FAILURE_REARM_PERIODS then None
                else Some (update_task_field [(''status'', JStr ''up_next''), (''failure_count'', JInt 0),
                       (''next_run'', iso_at (int now + delta interval)), (''updated'', JStr (iso_utc now))] t))
      | None \<Rightarrow> None)"

definition recover_task :: "nat \<Rightarrow> task \<Rightarrow> py_error + (bool \<times> task)" where
  "recover_task now t =
     (let status = strip (field_text t ''status'') in
      if status = ''failed''
      then Inr (case rearm_after_one_period now t of None \<Rightarrow> (False, t) | Some t' \<Rightarrow> (True, t'))
      else if status \<noteq> ''in_progress'' then Inr (False, t)
      else case int_field t ''timeout_seconds'' 1800 of Inl e \<Rightarrow> Inl e
        | Inr timeout \<Rightarrow>
            let updated = parse_iso (if truthy (dict_get t ''updated'') then dict_get t ''updated'' else dict_get t ''last_run'');
                stuck = (case updated of None \<Rightarrow> of_int timeout + 1 | Some u \<Rightarrow> seconds_between u (int now))
            in if of_int timeout \<le> stuck
               then Inr (True, update_task_field [(''status'', JStr ''up_next''), (''updated'', JStr (iso_utc now))] t)
               else Inr (False, t))"

text \<open>The scan writes each file as it comes to it, so an exception keeps what was written before it.\<close>

fun recover_stuck_tasks :: "nat \<Rightarrow> task list \<Rightarrow> py_error option \<times> json list \<times> task list" where
  "recover_stuck_tasks now [] = (None, [], [])"
| "recover_stuck_tasks now (t # ts) = (case recover_task now t of Inl e \<Rightarrow> (Some e, [], t # ts)
     | Inr (hit, t') \<Rightarrow> (case recover_stuck_tasks now ts of (e, ids, ts') \<Rightarrow>
         (e, (if hit then [dict_get t ''id''] else []) @ ids, t' # ts')))"

section \<open>Unrecorded deaths\<close>

definition charge_death_without_verdict :: "zone \<Rightarrow> int \<Rightarrow> nat \<Rightarrow> string \<Rightarrow> task option \<Rightarrow> string \<times> bool \<times> task option" where
  "charge_death_without_verdict z hour now exc_name file =
     (let kind = failure_kind_of exc_name in
      case file of None \<Rightarrow> (kind, False, None)
      | Some t \<Rightarrow> (case record_failure z hour now kind t of
          Inl _ \<Rightarrow> (kind, False, Some t) | Inr (_, t') \<Rightarrow> (kind, True, Some t')))"

end
