(* ===== verification/Task_Source.thy ===== *)
theory Task_Source
  imports Task_Ledger
begin

text \<open>
  Where the autonomy scheduler meets the pool: the source \<open>scheduled-task\<close> (\<open>workers/sources/scheduled_task.py\<close>), whose tick
  recovers stuck tasks, asks whether the model server answers and enqueues what is due, and whose \<open>execute\<close> turns the
  result of a run into what the pool records; and the writer of the lost-window ledger (\<open>_window_losses\<close> of
  \<open>workers/fleet_watchdog.py\<close>), which the due decision reads.

  Parameters: whether an endpoint answers, the endpoint of a model, the refusal of a model pin that the
  configuration does not name, the closed-port streak of the service probe, and the result of \<open>run_task\<close>.
  Probes of one endpoint within a tick agree, as the code asks once and keeps the answer.
\<close>

section \<open>The lost-window ledger\<close>

definition pad2 :: "int \<Rightarrow> string" where
  "pad2 h = pad 2 (nat h)"

text \<open>\<open>_hour_windows\<close> on sorted hours: contiguous runs collapse.\<close>

definition run_text :: "int \<Rightarrow> int \<Rightarrow> string" where
  "run_text start prev = (if start = prev then pad2 start else pad2 start @ ''-'' @ pad2 prev)"

fun hour_runs :: "int \<Rightarrow> int \<Rightarrow> int list \<Rightarrow> string list" where
  "hour_runs start prev [] = [run_text start prev]"
| "hour_runs start prev (h # hs) = (if h = prev + 1 then hour_runs start h hs else run_text start prev # hour_runs h h hs)"

fun join_comma :: "string list \<Rightarrow> string" where
  "join_comma [] = []"
| "join_comma [s] = s"
| "join_comma (s # ss) = s @ '','' @ join_comma ss"

definition hour_windows :: "int list \<Rightarrow> string" where
  "hour_windows hs = (case hs of [] \<Rightarrow> [] | h # rest \<Rightarrow> join_comma (hour_runs h h rest))"

definition parked_declaration :: "task \<Rightarrow> string" where
  "parked_declaration t = (case dict_get t ''parked'' of JStr s \<Rightarrow> strip s | JBool True \<Rightarrow> ''true'' | _ \<Rightarrow> [])"

definition WINDOW_LOSS_LOOKBACK_SECONDS :: rat where "WINDOW_LOSS_LOOKBACK_SECONDS = 2 * 86400"

definition occurrence_lost :: "int \<Rightarrow> int \<Rightarrow> int option \<Rightarrow> int \<times> int \<Rightarrow> bool" where
  "occurrence_lost now since last_run occ \<longleftrightarrow> snd occ \<le> now \<and> seconds_between (snd occ) now \<le> WINDOW_LOSS_LOOKBACK_SECONDS
     \<and> since \<le> fst occ \<and> (case last_run of None \<Rightarrow> True | Some run \<Rightarrow> run < fst occ)"

definition loss_row :: "nat \<Rightarrow> string \<Rightarrow> task \<Rightarrow> int list \<Rightarrow> int \<times> int \<Rightarrow> (string \<times> json) list" where
  "loss_row now since t hours occ =
     [(''task_id'', dict_get t ''id''), (''name'', dict_get t ''name''), (''window_hours'', JStr (hour_windows hours)),
      (''window_open'', iso_at (fst occ)), (''window_close'', iso_at (snd occ)), (''pause_since'', JStr since),
      (''recorded_at'', JStr (iso_utc now))]"

type_synonym losses = "(string \<times> json) list list \<times> store"

definition record_loss :: "zone \<Rightarrow> nat \<Rightarrow> string \<Rightarrow> int \<Rightarrow> task \<Rightarrow> int list \<Rightarrow> int \<times> int \<Rightarrow> losses \<Rightarrow> losses" where
  "record_loss z now since_at since t hours occ = (\<lambda>(written, st).
     let key = window_loss_key z (py_str (dict_get t ''id'')) (fst occ); row = loss_row now since_at t hours occ in
     if \<not> occurrence_lost (int now) since (stamp t ''last_run'') occ then (written, st)
     else if wm_get WINDOW_LOSS_WM_SOURCE key st \<noteq> None then (written, st)
     else (written @ [row], wm_set now WINDOW_LOSS_WM_SOURCE key (JDoc (JObj row)) st))"

definition task_losses :: "zone \<Rightarrow> nat \<Rightarrow> string \<Rightarrow> int \<Rightarrow> task \<Rightarrow> losses \<Rightarrow> losses" where
  "task_losses z now since_at since t acc =
     (if strip (field_text t ''status'') \<noteq> ''up_next'' \<or> parked_declaration t \<noteq> [] then acc
      else case window_hours t of None \<Rightarrow> acc
      | Some hours \<Rightarrow>
          if truthy (dict_get t ''last_run'') \<and> stamp t ''last_run'' = None then acc
          else fold (record_loss z now since_at since t hours) (window_occurrences z hours (int now)) acc)"

text \<open>
  The pass is the body of the source's \<open>try\<close> block: a row that \<open>json.dumps\<close> refuses, which ends the source's pass early, is not
  among the rows of the model, whose values are all JSON.
\<close>

definition window_losses :: "zone \<Rightarrow> nat \<Rightarrow> task list \<Rightarrow> store \<Rightarrow> losses" where
  "window_losses z now board st =
     (let state = operator_pause_state now st in
      if \<not> ps_paused state then ([], st)
      else case ps_since state of None \<Rightarrow> ([], st)
      | Some since_at \<Rightarrow>
          (case parse_iso (JStr since_at) of None \<Rightarrow> ([], st)
           | Some since \<Rightarrow> fold (task_losses z now since_at since) board ([], st)))"

section \<open>The outage of the model server\<close>

definition VLLM_DOWN_ALERT_SECONDS :: rat where "VLLM_DOWN_ALERT_SECONDS = 45 * 60"

record source_state =
  vllm_down_logged :: bool
  vllm_down_since :: "int option"
  vllm_down_alerted :: bool

definition new_source :: source_state where
  "new_source = \<lparr>vllm_down_logged = False, vllm_down_since = None, vllm_down_alerted = False\<rparr>"

text \<open>One unhealthy tick: whether it alerts, and the state it leaves.\<close>

definition note_vllm_outage :: "int \<Rightarrow> rat option \<Rightarrow> source_state \<Rightarrow> bool \<times> source_state" where
  "note_vllm_outage now probe s =
     (let s1 = (if vllm_down_logged s then s else \<lparr>vllm_down_logged = True, vllm_down_since = Some now, vllm_down_alerted = False\<rparr>)
      in if vllm_down_alerted s1 then (False, s1)
         else let own = seconds_between (case vllm_down_since s1 of None \<Rightarrow> now | Some i \<Rightarrow> i) now;
                  measured = (case probe of None \<Rightarrow> own | Some down \<Rightarrow> down)
              in if VLLM_DOWN_ALERT_SECONDS \<le> measured then (True, s1\<lparr>vllm_down_alerted := True\<rparr>) else (False, s1))"

definition note_vllm_healthy :: "source_state \<Rightarrow> source_state" where
  "note_vllm_healthy s = (if vllm_down_logged s then new_source else s)"

section \<open>Enqueueing\<close>

definition TASK_SOURCE_NAME :: string where "TASK_SOURCE_NAME = ''scheduled-task''"
definition TASK_DEFAULT_PRIORITY :: int where "TASK_DEFAULT_PRIORITY = 30"

definition PRIORITY_MAP :: "(string \<times> int) list" where
  "PRIORITY_MAP = [(''critical'', 10), (''high'', 20), (''medium'', 30), (''low'', 50), (''background'', 70)]"

record source_env =
  se_primary_ok :: bool
  se_probe_down :: "rat option"
  se_pin_refused :: "json \<Rightarrow> bool"
  se_url :: "json \<Rightarrow> string"
  se_healthy :: "string \<Rightarrow> bool"

definition dispatchable :: "source_env \<Rightarrow> task \<Rightarrow> bool" where
  "dispatchable se t \<longleftrightarrow> dict_get t ''id'' \<noteq> JNull \<and> \<not> se_pin_refused se (dict_get t ''id'') \<and> se_healthy se (se_url se (dict_get t ''model''))"

definition task_key :: "task \<Rightarrow> string" where
  "task_key t = ''scheduled-task:'' @ py_str (dict_get t ''id'')"

definition task_priority :: "task \<Rightarrow> int" where
  "task_priority t = (case map_of PRIORITY_MAP (lower (py_str (get_or t ''priority'' (JStr ''medium'')))) of
     None \<Rightarrow> TASK_DEFAULT_PRIORITY | Some p \<Rightarrow> p)"

fun enqueue_tasks :: "source_env \<Rightarrow> nat \<Rightarrow> task list \<Rightarrow> store \<Rightarrow> py_error option \<times> store" where
  "enqueue_tasks se now [] st = (None, st)"
| "enqueue_tasks se now (t # ts) st =
     (if \<not> dispatchable se t then enqueue_tasks se now ts st
      else case enqueue now TASK_SOURCE_NAME ''run'' [(''task_id'', dict_get t ''id''), (''name'', dict_get t ''name'')]
             (task_priority t) (Some (task_key t)) st of
        Inl e \<Rightarrow> (Some e, st)
      | Inr (_, st') \<Rightarrow> enqueue_tasks se now ts st')"

record tick_result =
  tr_error :: "py_error option"
  tr_alert :: bool
  tr_source :: source_state
  tr_board :: "task list"
  tr_store :: store

text \<open>
  The source awaits a health answer between two enqueues; here the tick is one step on the store, the answers being
  part of the environment. What other coroutines enqueue meanwhile meets the dedup key of \<open>enqueue\<close> either way.
\<close>

definition enqueue_if_due :: "source_env \<Rightarrow> due_env \<Rightarrow> nat \<Rightarrow> source_state \<Rightarrow> task list \<Rightarrow> store \<Rightarrow> tick_result" where
  "enqueue_if_due se env now s board st =
     (case recover_stuck_tasks now board of (err, _, board') \<Rightarrow>
      if err \<noteq> None then \<lparr>tr_error = err, tr_alert = False, tr_source = s, tr_board = board', tr_store = st\<rparr>
      else if \<not> se_primary_ok se
      then (case note_vllm_outage (int now) (se_probe_down se) s of (alert, s') \<Rightarrow>
             \<lparr>tr_error = None, tr_alert = alert, tr_source = s', tr_board = board', tr_store = st\<rparr>)
      else (case get_due_tasks env st board' of
          Inl e \<Rightarrow> \<lparr>tr_error = Some e, tr_alert = False, tr_source = note_vllm_healthy s, tr_board = board', tr_store = st\<rparr>
        | Inr due \<Rightarrow> (case enqueue_tasks se now due st of (err', st') \<Rightarrow>
            \<lparr>tr_error = err', tr_alert = False, tr_source = note_vllm_healthy s, tr_board = board', tr_store = st'\<rparr>)))"

section \<open>Executing\<close>

text \<open>What \<open>run_task\<close> returns, by the keys \<open>execute\<close> reads; a missing key is the empty value.\<close>

record run_result =
  rr_success :: bool
  rr_status :: string
  rr_preview :: string
  rr_error :: string
  rr_run_id :: string
  rr_meta :: "(string \<times> json) list"
  rr_claims :: "json list option"
  rr_grade :: "json option"
  rr_alarm :: json

definition MODEL_REFUSAL_CLASS :: string where "MODEL_REFUSAL_CLASS = ''unconfigured_model''"

definition refused_result :: "json \<Rightarrow> string \<Rightarrow> (string \<times> json) list" where
  "refused_result task_id refusal = [(''status'', JStr ''skipped''), (''skipped'', JStr refusal), (''summary'', JStr refusal),
     (''task_id'', task_id), (''refusal'', JStr MODEL_REFUSAL_CLASS), (''meta'', JStr MODEL_REFUSAL_CLASS)]"

definition result_meta_of :: "bool \<Rightarrow> run_result \<Rightarrow> (string \<times> json) list" where
  "result_meta_of on_disk r =
     (let m1 = (if rr_run_id r \<noteq> [] \<and> \<not> on_disk then dict_set (rr_meta r) ''artifact_absent'' (JBool True) else rr_meta r);
          m2 = (case rr_grade r of None \<Rightarrow> m1 | Some g \<Rightarrow> dict_set m1 ''acceptance_grade'' g)
      in if truthy (rr_alarm r) then dict_set m2 ''script_alarm'' (rr_alarm r) else m2)"

definition run_output :: "json \<Rightarrow> bool \<Rightarrow> run_result \<Rightarrow> (string \<times> json) list" where
  "run_output task_id on_disk r =
     [(''status'', JStr (if rr_status r \<noteq> [] then rr_status r else if rr_success r then ''success'' else ''failed'')),
      (''summary'', JStr (take 500 (if rr_preview r \<noteq> [] then rr_preview r else rr_error r))),
      (''task_id'', JStr (py_str task_id)),
      (''artifact_path'', JStr (if rr_run_id r = [] then [] else ''autonomy-runs/'' @ py_str task_id @ ''/'' @ rr_run_id r @ ''.md'')),
      (''response'', JStr (rr_preview r)), (''meta'', JObj (result_meta_of on_disk r))]
     @ (case rr_claims r of None \<Rightarrow> [] | Some vs \<Rightarrow> [(''claims'', JArr vs)])"

definition HEALTH_POLLS :: nat where "HEALTH_POLLS = 18"

text \<open>\<open>polls\<close> are the answers of the health endpoint in turn; \<open>run\<close> is \<open>run_task\<close> on the id.\<close>

definition execute ::
    "(json \<Rightarrow> string option) \<Rightarrow> bool list \<Rightarrow> (int \<Rightarrow> py_error + run_result) \<Rightarrow> bool \<Rightarrow> queue_item \<Rightarrow> py_error + (string \<times> json) list" where
  "execute refusal polls run on_disk it =
     (case payload_get it ''task_id'' of Inl e \<Rightarrow> Inl e
      | Inr task_id \<Rightarrow>
          if task_id = JNull then Inl RuntimeError
          else (case refusal task_id of Some why \<Rightarrow> Inr (refused_result task_id why)
            | None \<Rightarrow>
                if True \<notin> set (take HEALTH_POLLS polls) then Inl RuntimeError
                else (case int_of task_id of Inl e \<Rightarrow> Inl e
                  | Inr i \<Rightarrow> map_sum id (run_output task_id on_disk) (run i))))"

end
