(* ===== verification/Task_Facts.thy ===== *)
theory Task_Facts
  imports Task_Ledger Pause_Safety Grant_Facts
begin

text \<open>
  Lemmas on the autonomy scheduler: rounding, the window loop, the dependency gate under two decisions,
  and reading back the fields a run writes.
\<close>

section \<open>Rounding\<close>

lemma round_half_even_near: "\<bar>of_int (round_half_even x) - x\<bar> \<le> 1 / 2"
proof -
  define q where "q = \<lfloor>x\<rfloor>"
  have "of_int q \<le> x" "x < of_int q + 1" unfolding q_def by linarith+
  then show ?thesis unfolding round_half_even_def Let_def q_def [symmetric] by (auto simp: abs_if)
qed

lemma delta_near: "\<bar>of_int (delta s) - s * 1000000\<bar> \<le> 1 / 2"
  unfolding delta_def by (rule round_half_even_near)

lemma delta_diff: "\<bar>delta (a - b) - (delta a - delta b)\<bar> \<le> 1"
proof -
  have "\<bar>rat_of_int (delta (a - b) - (delta a - delta b))\<bar> \<le> 3 / 2"
    using delta_near [of "a - b"] delta_near [of a] delta_near [of b] by (simp add: algebra_simps abs_if split: if_splits)
  then have "rat_of_int \<bar>delta (a - b) - (delta a - delta b)\<bar> < rat_of_int 2" by simp
  then show ?thesis by (simp only: of_int_less_iff)
qed

lemma round_half_even_mono: "x \<le> y \<Longrightarrow> round_half_even x \<le> round_half_even y"
proof -
  assume le: "x \<le> y"
  show ?thesis
  proof (cases "\<lfloor>x\<rfloor> = \<lfloor>y\<rfloor>")
    case True
    then show ?thesis using le by (auto simp: round_half_even_def Let_def)
  next
    case False
    then have "\<lfloor>x\<rfloor> + 1 \<le> \<lfloor>y\<rfloor>" using floor_mono [OF le] by linarith
    then show ?thesis by (auto simp: round_half_even_def Let_def)
  qed
qed

lemma delta_mono: "a \<le> b \<Longrightarrow> delta a \<le> delta b"
  by (simp add: delta_def round_half_even_mono)

section \<open>The window loop\<close>

lemma grow_reaches:
  assumes "(h + len + int k) mod 24 \<notin> hs"
  shows "\<exists>n. grow hs h len = Some n \<and> len \<le> n \<and> n \<le> len + int k \<and> (h + n) mod 24 \<notin> hs \<and> (\<forall>i. len \<le> i \<and> i < n \<longrightarrow> (h + i) mod 24 \<in> hs)"
  using assms
proof (induction k arbitrary: len)
  case 0
  then show ?case by (subst grow.simps) auto
next
  case (Suc k)
  show ?case
  proof (cases "(h + len) mod 24 \<in> hs")
    case True
    have "(h + (len + 1) + int k) mod 24 \<notin> hs" using Suc.prems by (simp add: algebra_simps)
    from Suc.IH [OF this] obtain n where n: "grow hs h (len + 1) = Some n" "len + 1 \<le> n" "n \<le> len + 1 + int k" "(h + n) mod 24 \<notin> hs"
      "\<forall>i. len + 1 \<le> i \<and> i < n \<longrightarrow> (h + i) mod 24 \<in> hs" by blast
    have "(h + i) mod 24 \<in> hs" if "len \<le> i" "i < n" for i
      using that True n(5) by (cases "i = len") auto
    then show ?thesis using True n by (subst grow.simps) auto
  next
    case False
    then show ?thesis by (subst grow.simps) auto
  qed
qed

section \<open>The gate under two decisions\<close>

lemma gate_met_iff:
  assumes "\<And>dep l own. d1 dep l own = Inr Met \<longleftrightarrow> d2 dep l own = Inr Met"
  shows "dependency_gate env d1 all t = Inr Met \<longleftrightarrow> dependency_gate env d2 all t = Inr Met"
proof (cases "find (\<lambda>d. strip (field_text d ''id'') = strip (py_str (dict_get t ''depends_on''))) all")
  case None
  then show ?thesis using assms by (simp add: dependency_gate_def Let_def)
next
  case (Some dep)
  then show ?thesis
    using assms by (cases "dispatch_blocked dep"; cases "parse_iso_dt (dict_get dep ''last_run'')") (simp_all add: dependency_gate_def Let_def split: option.split)
qed

lemma met_iff_refusal: "is_dependency_met env all t = Inr True \<longleftrightarrow> dependency_refusal env all t = Inr Met"
proof -
  let ?plain = "\<lambda>dep l own. Inr (if dependency_bypassed env t dep l then Met else Refused_Bare :: unit gate_answer)"
  let ?explained = "\<lambda>dep l own. if dependency_bypassed env t dep l then Inr Met
       else bypass_hold_detail env all (if own then [field_text t ''id''] else []) t dep l"
  have "bypass_hold_detail env all seen t dep l \<noteq> Inr Met" for seen dep l
    by (auto simp: bypass_hold_detail_def Let_def map_sum_Inr split: option.splits)
  then have "?plain dep l own = Inr Met \<longleftrightarrow> ?explained dep l own = Inr Met" for dep l own by auto
  from gate_met_iff [of ?plain ?explained, OF this] show ?thesis
    by (auto simp: is_dependency_met_def dependency_refusal_def map_sum_Inr)
qed

lemma up_next_spellings: "strip (field_text t ''status'') = ''up_next'' \<longleftrightarrow> strip (field_text_or t ''status'') = ''up_next''"
proof -
  have digit: "py_str (JInt 0) = ''0''" by (simp add: py_str_def int_text_def nat_text.simps)
  show ?thesis
    by (cases "dict_get t ''status''"; cases "map_of t ''status''")
      (auto simp: field_text_def field_text_or_def text_or_def get_or_def dict_get_def py_str_def strip_def lstrip_def rstrip_def is_space_def
        int_text_def nat_text.simps)
qed

section \<open>Reading back a written field\<close>

lemma dict_get_public: "\<not> startswith k ''_'' \<Longrightarrow> dict_get (filter (\<lambda>(k, _). \<not> startswith k ''_'') t) k = dict_get t k"
  by (induction t) (auto simp: dict_get_def)

lemma map_of_nonnull:
  "distinct (map fst m) \<Longrightarrow> dict_get (filter (\<lambda>(_, v). v \<noteq> JNull) m) k = dict_get m k"
proof (induction m)
  case (Cons kv m)
  obtain a v where kv: "kv = (a, v)" by fastforce
  have "a \<notin> fst ` set m" using Cons.prems kv by auto
  then have "map_of (filter (\<lambda>(_, v). v \<noteq> JNull) m) a = None" by (auto simp: map_of_eq_None_iff)
  then show ?case using Cons kv by (auto simp: dict_get_def)
qed (simp add: dict_get_def)

lemma keys_dict_set: "fst ` set (dict_set m k v) = insert k (fst ` set m)"
  by (induction m k v rule: dict_set.induct) auto

lemma distinct_dict_set: "distinct (map fst m) \<Longrightarrow> distinct (map fst (dict_set m k v))"
proof (induction m k v rule: dict_set.induct)
  case (2 k' v' kvs k v)
  then show ?case using keys_dict_set [of kvs k v] by (auto simp: image_iff)
qed simp

lemma distinct_fold_set: "distinct (map fst m) \<Longrightarrow> distinct (map fst (fold (\<lambda>(k, v) m. dict_set m k v) upd m))"
  by (induction upd arbitrary: m) (auto simp: distinct_dict_set)

lemma dict_get_fold:
  "dict_get (fold (\<lambda>(k, v) m. dict_set m k v) upd m) k = (case map_of (rev upd) k of Some v \<Rightarrow> v | None \<Rightarrow> dict_get m k)"
  by (induction upd arbitrary: m) (auto simp: dict_get_set map_add_def split: option.splits)

lemma distinct_filter_keys: "distinct (map fst t) \<Longrightarrow> distinct (map fst (filter p t))"
  by (induction t) auto

lemma field_after:
  assumes "distinct (map fst t)" "\<not> startswith k ''_''"
  shows "dict_get (update_task_field upd t) k = (case map_of (rev upd) k of Some v \<Rightarrow> v | None \<Rightarrow> dict_get t k)"
  unfolding update_task_field_def
  using assms by (simp add: map_of_nonnull distinct_fold_set distinct_filter_keys dict_get_fold dict_get_public split: option.split)

lemma distinct_update: "distinct (map fst t) \<Longrightarrow> distinct (map fst (update_task_field upd t))"
  by (simp add: update_task_field_def distinct_fold_set distinct_filter_keys)

lemma public_keys [simp]:
  "\<not> startswith ''status'' ''_''" "\<not> startswith ''failure_count'' ''_''" "\<not> startswith ''infra_failure_count'' ''_''"
  "\<not> startswith ''infra_rest_until'' ''_''" "\<not> startswith ''last_attempt'' ''_''" "\<not> startswith ''last_run'' ''_''"
  "\<not> startswith ''next_run'' ''_''" "\<not> startswith ''updated'' ''_''" "\<not> startswith ''frequency'' ''_''"
  "\<not> startswith ''runs_per_day'' ''_''" "\<not> startswith ''max_retries'' ''_''" "\<not> startswith ''id'' ''_''"
  by (simp_all add: startswith_def)

lemma parse_iso_utc_json: "in_range n \<Longrightarrow> parse_iso (JStr (iso_utc n)) = Some (int n)"
proof -
  assume n: "in_range n"
  have "\<not> is_null_word (iso_utc n)"
    using iso_utc_plain [of n] by (cases "iso_utc n") (auto simp: is_null_word_def lower_def lower_char_def is_digit_def)
  then show ?thesis using n
    by (simp add: parse_iso_def parse_iso_dt_def py_str_def iso_utc_plain utc_def instant_def)
qed

end
