(* ===== verification/Task_Theorems.thy ===== *)
theory Task_Theorems
  imports Task_Facts
begin

text \<open>
  What the autonomy scheduler promises: the board explains exactly the tasks the scan leaves out, a
  dependent task runs on a certified input or past a declared bound, a recorded success vetoes a second
  run of its period whatever the front matter says, a failure waits inside the task's period, a run of
  outages rests a period and retires nothing, and a retired task comes back after one period.
\<close>

section \<open>The decision\<close>

definition elapsed :: "due_env \<Rightarrow> task \<Rightarrow> bool" where
  "elapsed env t \<longleftrightarrow> (case stamp t ''last_run'' of None \<Rightarrow> True
     | Some run \<Rightarrow> (case elapsed_due_at (de_zone env) t run of None \<Rightarrow> True | Some due \<Rightarrow> due \<le> de_now env))"

lemma elapsed_gate:
  "(case stamp t ''last_run'' of None \<Rightarrow> False
     | Some run \<Rightarrow> (case elapsed_due_at (de_zone env) t run of None \<Rightarrow> False | Some due \<Rightarrow> de_now env < due)) \<longleftrightarrow> \<not> elapsed env t"
  by (auto simp: elapsed_def split: option.splits)

lemma due_unfold:
  "is_task_due env all c t = Inr True \<longleftrightarrow>
     has_skill t \<and> strip (field_text t ''status'') = ''up_next'' \<and> frequency_interval_seconds t \<noteq> None \<and> elapsed env t
     \<and> \<not> in_infra_rest (de_now env) t \<and> in_failure_cooldown (de_now env) t = Inr False \<and> is_dependency_met env all t = Inr True
     \<and> (is_preferred_hour (de_hour env) t \<or> (c \<noteq> None \<and> c \<noteq> Some [])) \<and> already_ran_this_period env t = []"
  unfolding is_task_due_def elapsed_gate
  by (auto split: sum.splits bool.splits)

lemma unheld_unfold:
  "hold_reason env all c t = Inr None \<longleftrightarrow>
     has_skill t \<and> strip (field_text t ''status'') = ''up_next'' \<and> frequency_interval_seconds t \<noteq> None
     \<and> \<not> in_infra_rest (de_now env) t \<and> in_failure_cooldown (de_now env) t = Inr False \<and> is_dependency_met env all t = Inr True
     \<and> (is_preferred_hour (de_hour env) t \<or> (c \<noteq> None \<and> c \<noteq> Some [])) \<and> already_ran_this_period env t = []"
  unfolding hold_reason_def up_next_spellings met_iff_refusal
  by (auto split: sum.splits bool.splits gate_answer.splits)

lemma due_agrees:
  "is_task_due env all c t = Inr True \<longleftrightarrow> hold_reason env all c t = Inr None \<and> elapsed env t"
  unfolding due_unfold unheld_unfold by blast

text \<open>
  C23. The board and the scheduler agree. \<open>_is_task_due\<close> passes a task exactly when \<open>hold_reason\<close> has nothing to
  say of it and its period has elapsed, although the two run different code over the dependency.
\<close>

theorem due_iff_unheld:
  "is_task_due env all c t = Inr True \<longleftrightarrow> hold_reason env all c t = Inr None \<and>
     (case stamp t ''last_run'' of None \<Rightarrow> True
      | Some run \<Rightarrow> (case elapsed_due_at (de_zone env) t run of None \<Rightarrow> True | Some due \<Rightarrow> due \<le> de_now env))"
  unfolding due_agrees elapsed_def ..

section \<open>Dependencies\<close>

text \<open>
  The two grounds on which a dependent task may run on an upstream of the board: it certifies the input, or the task
  declared how long it waits for it and the upstream never succeeded or that time has passed since it did.
\<close>

definition certified :: "due_env \<Rightarrow> task \<Rightarrow> task \<Rightarrow> bool" where
  "certified env t dep \<longleftrightarrow> dispatch_blocked dep = Inr False \<and> (case stamp dep ''last_run'' of None \<Rightarrow> False
     | Some dep_last \<Rightarrow>
         (case window_dependency_fresh env t dep dep_last of Some fresh \<Rightarrow> fresh
          | None \<Rightarrow> seconds_between dep_last (de_now env) \<le> either (frequency_interval_seconds t) 86400 / 2)
         \<and> (case stamp t ''last_run'' of None \<Rightarrow> True | Some mine \<Rightarrow> mine < dep_last))"

definition past_bound :: "due_env \<Rightarrow> task \<Rightarrow> task \<Rightarrow> bool" where
  "past_bound env t dep \<longleftrightarrow> strip (field_text dep ''status'') \<noteq> ''in_progress'' \<and> (case stale_bypass_hours t of None \<Rightarrow> False
     | Some bound \<Rightarrow>
         let missing = (upstream_artifact_on_disk env dep (parse_iso_dt (dict_get dep ''last_run'')) = Some False) in
         (case stamp dep ''last_run'' of None \<Rightarrow> \<not> missing
          | Some dep_last \<Rightarrow> past_hours (de_now env) dep_last bound (if missing then MISSING_ARTIFACT_GRACE_HOURS else 0)))"

lemma past_hours_mono: "past_hours now dep_last bound b \<Longrightarrow> a \<le> b \<Longrightarrow> past_hours now dep_last bound a"
proof (cases bound)
  case (Fin h)
  assume "past_hours now dep_last bound b" "a \<le> b"
  then have "(h + b) * 3600 < seconds_between dep_last now" "(h + a) * 3600 \<le> (h + b) * 3600" by (simp_all add: past_hours_def Fin)
  then show ?thesis by (simp only: past_hours_def Fin pyfloat.case)
qed (simp_all add: past_hours_def)

lemma bypassed_iff: "dependency_bypassed env t dep (parse_iso_dt (dict_get dep ''last_run'')) \<longleftrightarrow> past_bound env t dep"
  using past_hours_mono [of "de_now env" _ _ MISSING_ARTIFACT_GRACE_HOURS 0]
  by (cases "stale_bypass_hours t"; cases "parse_iso_dt (dict_get dep ''last_run'')")
    (auto simp: dependency_bypassed_def past_bound_def stamp_def parse_iso_def MISSING_ARTIFACT_GRACE_HOURS_def Let_def)

lemma met_upstream:
  assumes "is_dependency_met env all t = Inr True"
    and "truthy (dict_get t ''depends_on'')" "\<not> is_null_word (py_str (dict_get t ''depends_on''))"
    and "find (\<lambda>d. strip (field_text d ''id'') = strip (py_str (dict_get t ''depends_on''))) all = Some dep"
  shows "certified env t dep \<or> past_bound env t dep"
proof (cases "past_bound env t dep")
  case False
  then show ?thesis using assms bypassed_iff [of env t dep]
    by (cases "parse_iso_dt (dict_get dep ''last_run'')")
      (auto simp: is_dependency_met_def dependency_gate_def certified_def stamp_def parse_iso_def map_sum_Inr Let_def
        split: sum.splits if_splits option.splits)
qed simp

text \<open>
  C24. A task that declares an upstream runs in these cases only. The first task of that id is runnable and its
  last success is fresh and newer than this task's own last run; or else this task declares
  \<open>stale_bypass_hours\<close>, and then: the upstream is not on the board (released at once); it is on the board, not
  running, has never succeeded, and no artifact it declares is missing (released at once, with no elapsed condition);
  or it is not running and its last success is older than the bound, by a day more when it declares an artifact that is
  not on disk. Without a bound nothing but a fresh, unconsumed success releases the task.
\<close>

theorem dependent_input_certified:
  assumes "is_dependency_met env all t = Inr True"
    and "truthy (dict_get t ''depends_on'')" "\<not> is_null_word (py_str (dict_get t ''depends_on''))"
  shows "case find (\<lambda>d. strip (field_text d ''id'') = strip (py_str (dict_get t ''depends_on''))) all of
      None \<Rightarrow> stale_bypass_hours t \<noteq> None
    | Some dep \<Rightarrow> certified env t dep \<or>
        (\<exists>bound missing. stale_bypass_hours t = Some bound \<and> strip (field_text dep ''status'') \<noteq> ''in_progress''
         \<and> missing = (upstream_artifact_on_disk env dep (parse_iso_dt (dict_get dep ''last_run'')) = Some False)
         \<and> (case stamp dep ''last_run'' of None \<Rightarrow> \<not> missing
            | Some dep_last \<Rightarrow> past_hours (de_now env) dep_last bound (if missing then 24 else 0)))"
proof (cases "find (\<lambda>d. strip (field_text d ''id'') = strip (py_str (dict_get t ''depends_on''))) all")
  case None
  then show ?thesis using assms
    by (cases "stale_bypass_hours t") (simp_all add: is_dependency_met_def dependency_gate_def dependency_bypassed_def)
next
  case (Some dep)
  then show ?thesis using met_upstream [OF assms Some]
    by (auto simp: past_bound_def MISSING_ARTIFACT_GRACE_HOURS_def Let_def split: option.splits)
qed

definition upstream_task :: task where
  "upstream_task = [(''id'', JStr ''7''), (''status'', JStr ''up_next''), (''skill_name'', JStr ''scan''), (''frequency'', JStr ''daily'')]"

definition dependent_task :: task where
  "dependent_task = [(''id'', JStr ''8''), (''status'', JStr ''up_next''), (''skill_name'', JStr ''brief''), (''frequency'', JStr ''daily''),
     (''depends_on'', JStr ''7''), (''stale_bypass_hours'', JInt 30)]"

abbreviation utc_zone :: zone where "utc_zone \<equiv> \<lparr>to_local = (\<lambda>i. i), from_local = (\<lambda>w. w)\<rparr>"

definition quiet_env :: "int \<Rightarrow> due_env" where
  "quiet_env now = \<lparr>de_now = now, de_hour = 9, de_zone = utc_zone,
     de_file_size = (\<lambda>_. None), de_records = (\<lambda>_. [])\<rparr>"

lemma dependent_task_found:
  "find (\<lambda>d. strip (field_text d ''id'') = strip (py_str (dict_get dependent_task ''depends_on''))) [upstream_task, dependent_task]
     = Some upstream_task"
proof -
  have "field_text upstream_task ''id'' = ''7''" "py_str (dict_get dependent_task ''depends_on'') = ''7''"
    by (simp_all add: upstream_task_def dependent_task_def field_text_def get_or_def dict_get_def py_str_def)
  then show ?thesis by simp
qed

lemma dependent_task_waits:
  "truthy (dict_get dependent_task ''depends_on'')" "\<not> is_null_word (py_str (dict_get dependent_task ''depends_on''))"
  by (simp_all add: dependent_task_def dict_get_def is_null_word_def py_str_def strip_def lstrip_def rstrip_def is_space_def
      lower_def lower_char_def)

lemma daily: "dict_get t ''runs_per_day'' = JNull \<Longrightarrow> dict_get t ''frequency'' = JStr ''daily'' \<Longrightarrow> frequency_interval_seconds t = Some 86400"
proof -
  assume t: "dict_get t ''runs_per_day'' = JNull" "dict_get t ''frequency'' = JStr ''daily''"
  then have "map_of t ''frequency'' = Some (JStr ''daily'')" by (auto simp: dict_get_def split: option.splits)
  then show ?thesis using t
    by (simp add: frequency_interval_seconds_def FREQUENCY_INTERVALS_def field_text_def get_or_def py_str_def strip_def lstrip_def rstrip_def
        is_space_def lower_def lower_char_def)
qed

lemma upstream_daily: "frequency_interval_seconds upstream_task = Some 86400" and upstream_unwindowed: "effective_preferred_hours upstream_task = None"
  by (simp_all add: daily upstream_task_def dict_get_def effective_preferred_hours_def field_text_or_def text_or_def hhmm_hour_def lstrip_def)

lemma upstream_task_fields:
  "dict_get upstream_task ''last_run'' = JNull" "dict_get upstream_task ''output_artifact'' = JNull"
  "field_text upstream_task ''status'' = ''up_next''" "field_text_or upstream_task ''status'' = ''up_next''"
  "grant_block_errors upstream_task = Inr []"
  by (simp_all add: upstream_task_def dict_get_def field_text_def field_text_or_def text_or_def get_or_def py_str_def grant_block_errors_def)

lemma dependent_task_met: "is_dependency_met (quiet_env 0) [upstream_task, dependent_task] dependent_task = Inr True"
proof -
  have "stale_bypass_hours dependent_task = Some (Fin 30)"
    by (simp add: stale_bypass_hours_def dependent_task_def dict_get_def py_float_def float_bound_def)
  then have "past_bound (quiet_env 0) dependent_task upstream_task"
    by (simp add: past_bound_def upstream_task_fields stamp_def parse_iso_def parse_iso_dt_def upstream_artifact_on_disk_def
        field_text_or_def text_or_def strip_def lstrip_def rstrip_def is_space_def)
  then have bypass: "dependency_bypassed (quiet_env 0) dependent_task upstream_task None"
    using bypassed_iff [of "quiet_env 0" dependent_task upstream_task] by (simp add: upstream_task_fields parse_iso_dt_def)
  show ?thesis unfolding is_dependency_met_def dependency_gate_def Let_def dependent_task_found
    by (simp add: dependent_task_waits bypass dispatch_blocked_def upstream_task_fields parse_iso_dt_def)
qed

theorem dependent_input_certified_witness:
  "is_dependency_met (quiet_env 0) [upstream_task, dependent_task] dependent_task = Inr True
   \<and> (certified (quiet_env 0) dependent_task upstream_task \<or> (\<exists>bound. stale_bypass_hours dependent_task = Some bound))"
  using dependent_input_certified [OF dependent_task_met dependent_task_waits] dependent_task_met
  unfolding dependent_task_found by auto

section \<open>Run records\<close>

lemma newest_note_le: "newest_note best n = Some (s, w, rid) \<Longrightarrow> fst (snd n) \<le> w \<and> (\<forall>b. best = Some b \<longrightarrow> fst (snd b) \<le> w)"
  by (auto simp: newest_note_def split: option.splits if_splits)

lemma newest_note_mem: "newest_note best n = Some x \<Longrightarrow> x = n \<or> best = Some x"
  by (auto simp: newest_note_def split: option.splits if_splits)

lemma newest_record_mem:
  "fold (\<lambda>r best. case record_note want nb accept r of None \<Rightarrow> best | Some n \<Rightarrow> newest_note best n) rs best = Some x
     \<Longrightarrow> best = Some x \<or> (\<exists>r \<in> set rs. record_note want nb accept r = Some x)"
proof (induction rs arbitrary: best)
  case (Cons r rs)
  show ?case
  proof (cases "record_note want nb accept r")
    case None
    then show ?thesis using Cons.IH [of best] Cons.prems by auto
  next
    case (Some n)
    then show ?thesis using Cons.IH [of "newest_note best n"] Cons.prems newest_note_mem [of best n x] by auto
  qed
qed simp

lemma newest_record_some:
  "best \<noteq> None \<or> (\<exists>r \<in> set rs. record_note want nb accept r \<noteq> None)
     \<Longrightarrow> fold (\<lambda>r best. case record_note want nb accept r of None \<Rightarrow> best | Some n \<Rightarrow> newest_note best n) rs best \<noteq> None"
proof (induction rs arbitrary: best)
  case (Cons r rs)
  have "newest_note b n = None \<longleftrightarrow> False" for b n by (cases b; cases n) (auto simp: newest_note_def)
  with Cons show ?case by (cases "record_note want nb accept r") auto
qed simp

lemma record_note_named: "record_note want nb accept (stem, fm) = Some (s, w, rid) \<Longrightarrow> stem \<noteq> [] \<Longrightarrow> rid \<noteq> []"
  by (auto simp: record_note_def Let_def split: option.splits json.splits if_splits)

lemma veto_of_note:
  assumes "r \<in> set rs" "record_note (Some RUN_STATUS_SUCCESS) (Some start) accept r \<noteq> None" "list_all (\<lambda>(stem, _). stem \<noteq> []) rs"
  shows "\<exists>w rid. newest_successful_run (Some start) accept rs = Some (w, rid) \<and> rid \<noteq> []"
proof -
  obtain s w rid where new: "newest_record (Some RUN_STATUS_SUCCESS) (Some start) accept rs = Some (s, w, rid)"
    using newest_record_some [of None rs] assms(1, 2) unfolding newest_record_def by fastforce
  then obtain r' where r': "r' \<in> set rs" "record_note (Some RUN_STATUS_SUCCESS) (Some start) accept r' = Some (s, w, rid)"
    using newest_record_mem [of _ _ _ rs None] unfolding newest_record_def by blast
  have "fst r' \<noteq> []" using assms(3) r'(1) by (auto simp: list_all_iff)
  then have "rid \<noteq> []" using record_note_named [of _ _ _ "fst r'" "snd r'"] r'(2) by simp
  then show ?thesis using new by (simp add: newest_successful_run_def)
qed

lemma latest_opened: "latest_window_open z hs w = Some (opened, close) \<Longrightarrow> opened \<le> w"
proof -
  have "fold (\<lambda>occ best. if fst occ \<le> w then Some occ else best) occs best = Some (opened, close)
      \<Longrightarrow> (\<forall>x. best = Some x \<longrightarrow> fst x \<le> w) \<Longrightarrow> opened \<le> w" for occs best
    by (induction occs arbitrary: best) (auto split: if_splits)
  then show "latest_window_open z hs w = Some (opened, close) \<Longrightarrow> opened \<le> w" unfolding latest_window_open_def by blast
qed

lemma anchored_period: "window_anchored t = Some hs \<Longrightarrow> \<exists>p. frequency_interval_seconds t = Some p \<and> 86400 \<le> p"
  by (auto simp: window_anchored_def split: option.splits if_splits)

lemma slack_bounds:
  assumes "frequency_interval_seconds t = Some p" "0 \<le> p"
  shows "0 \<le> due_slack_seconds t" "due_slack_seconds t \<le> p / 4" "due_slack_seconds t \<le> 3600"
  using assms by (auto simp: due_slack_seconds_def either_def Let_def split: option.splits list.splits)

lemma delta_nonneg: "0 \<le> s \<Longrightarrow> 0 \<le> delta s"
  using delta_mono [of 0 s] by (simp add: delta_def round_half_even_def)

lemma interval_nonneg: "frequency_interval_seconds t = Some p \<Longrightarrow> 0 \<le> p"
  by (auto simp: frequency_interval_seconds_def FREQUENCY_INTERVALS_def Let_def split: if_splits sum.splits pyfloat.splits bool.splits)

lemma delta_whole: "delta 86400 = 86400000000" "delta 3600 = 3600000000"
  by (simp_all add: delta_def round_half_even_def)

lemma due_latest:
  assumes "elapsed_due_at z t w = Some due" "frequency_interval_seconds t = Some p"
  shows "due \<le> w + delta p - delta (due_slack_seconds t)"
proof -
  have p: "0 \<le> p" using interval_nonneg [OF assms(2)] .
  show ?thesis
  proof (cases "case window_anchored t of None \<Rightarrow> None | Some hs \<Rightarrow> latest_window_open z hs w")
    case None
    then show ?thesis using assms by (auto simp: elapsed_due_at_def Let_def)
  next
    case (Some occ)
    then obtain hs opened close where hs: "window_anchored t = Some hs" and occ: "occ = (opened, close)" "latest_window_open z hs w = Some (opened, close)"
      by (cases occ) (auto split: option.splits)
    have "86400 \<le> p" using anchored_period [OF hs] assms(2) by auto
    then have P: "86400000000 \<le> delta p" using delta_mono [of 86400 p] by (simp add: delta_whole)
    have S: "delta (due_slack_seconds t) \<le> 3600000000"
      using delta_mono [OF slack_bounds(3) [OF assms(2) p]] by (simp add: delta_whole)
    have "round_half_even (rat_of_int (delta p) / 2) \<le> delta p - delta (due_slack_seconds t)"
    proof -
      have "\<bar>rat_of_int (round_half_even (rat_of_int (delta p) / 2)) - rat_of_int (delta p) / 2\<bar> \<le> 1 / 2" by (rule round_half_even_near)
      then have "rat_of_int (2 * round_half_even (rat_of_int (delta p) / 2)) \<le> rat_of_int (delta p + 1)" by (simp add: abs_if split: if_splits)
      then have "2 * round_half_even (rat_of_int (delta p) / 2) \<le> delta p + 1" by (simp only: of_int_le_iff)
      then show ?thesis using P S by linarith
    qed
    then show ?thesis using assms hs occ latest_opened [OF occ(2)] by (auto simp: elapsed_due_at_def Let_def)
  qed
qed

lemma guard_covers_gate:
  assumes "elapsed_due_at z t w = Some due" "now < due" "run_period_start now t = Some start"
  shows "start \<le> w"
proof -
  obtain p where p: "frequency_interval_seconds t = Some p" and start: "start = now - delta (max 1 (p - due_slack_seconds t))"
    using assms(3) by (auto simp: run_period_start_def)
  have "delta (p - due_slack_seconds t) \<le> delta (max 1 (p - due_slack_seconds t))" by (intro delta_mono) simp
  then show ?thesis
    using due_latest [OF assms(1) p] assms(2) delta_diff [of p "due_slack_seconds t"] by (simp add: start abs_le_iff)
qed

text \<open>
  C25. A recorded success is not repeated. If the runs of a task hold a success that ended at \<open>w\<close>, the
  task is not dispatched before the instant \<open>_elapsed_due_at\<close> gives for \<open>w\<close>, whatever the front matter's
  own stamps say, in a window or out of one, on a catch-up or not.
\<close>

theorem recorded_run_not_repeated:
  assumes "(stem, Some (JObj m)) \<in> set (de_records env (py_str (dict_get t ''id'')))" "dict_get t ''id'' \<noteq> JNull"
    and "list_all (\<lambda>(name, _). name \<noteq> []) (de_records env (py_str (dict_get t ''id'')))"
    and "dict_get m ''status'' = JStr raw" "lower (strip raw) = RUN_STATUS_SUCCESS"
    and "parse_iso (dict_get m ''completed_at'') = Some w"
    and "elapsed_due_at (de_zone env) t w = Some due" "de_now env < due"
  shows "is_task_due env all c t \<noteq> Inr True"
proof -
  obtain start where start: "run_period_start (de_now env) t = Some start"
    using assms(7) by (auto simp: elapsed_due_at_def run_period_start_def split: option.splits)
  let ?holds = "\<lambda>w. window_anchored t = None \<or> (case elapsed_due_at (de_zone env) t w of None \<Rightarrow> False | Some due \<Rightarrow> de_now env < due)"
  have "record_note (Some RUN_STATUS_SUCCESS) (Some start) ?holds (stem, Some (JObj m)) \<noteq> None"
    using guard_covers_gate [OF assms(7, 8) start] assms by (simp add: record_note_def Let_def)
  from veto_of_note [OF assms(1) this assms(3)] show ?thesis
    using start assms(2) by (auto simp: due_unfold already_ran_this_period_def Let_def)
qed

definition recorded_env :: due_env where
  "recorded_env = (quiet_env 3600000000)\<lparr>de_records := (\<lambda>_. [(''run-1'', Some (JObj [(''status'', JStr ''success''),
     (''completed_at'', JStr (iso_utc 1800000000))]))])\<rparr>"

theorem recorded_run_not_repeated_witness: "is_task_due recorded_env [] None upstream_task \<noteq> Inr True"
proof -
  have stamp: "parse_iso (JStr (iso_utc 1800000000)) = Some 1800000000" using parse_iso_utc_json [of 1800000000] by simp
  have "elapsed_due_at z upstream_task 1800000000 = Some 88200000000" for z
    by (simp add: elapsed_due_at_def window_anchored_def window_hours_def due_slack_seconds_def delta_def round_half_even_def
        upstream_daily upstream_unwindowed)
  moreover have "lower (strip ''success'') = RUN_STATUS_SUCCESS"
    by (simp add: RUN_STATUS_SUCCESS_def strip_def lstrip_def rstrip_def is_space_def lower_def lower_char_def)
  moreover have "dict_get upstream_task ''id'' \<noteq> JNull" by (simp add: upstream_task_def dict_get_def)
  ultimately show ?thesis
    using stamp by (intro recorded_run_not_repeated [where stem = "''run-1''" and raw = "''success''" and w = 1800000000 and due = 88200000000])
      (auto simp: recorded_env_def quiet_env_def dict_get_def)
qed

end
