(* ===== verification/Task_Outcomes.thy ===== *)
theory Task_Outcomes
  imports Task_Theorems
begin

text \<open>
  What the failures of an autonomy task leave behind: the retry step and the rest that the next decision
  honours, the budget that only the task's own failures spend, and the way back from retirement.
\<close>

section \<open>Reading the ledger back\<close>

lemma freq_cong:
  assumes "dict_get a ''runs_per_day'' = dict_get b ''runs_per_day''" "dict_get a ''frequency'' = dict_get b ''frequency''"
  shows "frequency_interval_seconds a = frequency_interval_seconds b"
proof -
  have read: "map_of FREQUENCY_INTERVALS (lower (strip (field_text t ''frequency''))) =
      (if dict_get t ''frequency'' = JNull then None
       else map_of FREQUENCY_INTERVALS (lower (strip (py_str (dict_get t ''frequency'')))))" for t
    by (cases "map_of t ''frequency''")
      (auto simp: field_text_def get_or_def dict_get_def py_str_def FREQUENCY_INTERVALS_def strip_def lstrip_def rstrip_def is_space_def
        lower_def lower_char_def)
  show ?thesis unfolding frequency_interval_seconds_def read Let_def assms ..
qed

lemma freq_update:
  assumes "distinct (map fst t)" "''runs_per_day'' \<notin> fst ` set upd" "''frequency'' \<notin> fst ` set upd"
  shows "frequency_interval_seconds (update_task_field upd t) = frequency_interval_seconds t"
proof (rule freq_cong)
  have "map_of (rev upd) ''runs_per_day'' = None" "map_of (rev upd) ''frequency'' = None"
    using assms(2, 3) by (simp_all add: map_of_eq_None_iff)
  then show "dict_get (update_task_field upd t) ''runs_per_day'' = dict_get t ''runs_per_day''"
      "dict_get (update_task_field upd t) ''frequency'' = dict_get t ''frequency''"
    using assms(1) by (simp_all add: field_after)
qed

lemma freq_fold:
  assumes "''runs_per_day'' \<notin> fst ` set upd" "''frequency'' \<notin> fst ` set upd"
  shows "frequency_interval_seconds (fold (\<lambda>(k, v) m. dict_set m k v) upd t) = frequency_interval_seconds t"
proof (rule freq_cong)
  have "map_of (rev upd) ''runs_per_day'' = None" "map_of (rev upd) ''frequency'' = None"
    using assms by (simp_all add: map_of_eq_None_iff)
  then show "dict_get (fold (\<lambda>(k, v) m. dict_set m k v) upd t) ''runs_per_day'' = dict_get t ''runs_per_day''"
      "dict_get (fold (\<lambda>(k, v) m. dict_set m k v) upd t) ''frequency'' = dict_get t ''frequency''"
    by (simp_all add: dict_get_fold)
qed

lemma retry_step_bounds:
  assumes "retry_step (Some p) d = Inr s" "0 \<le> p"
  shows "min 600 p \<le> s" "s \<le> p"
proof -
  let ?first = "min (min (max (p / FAILURE_BACKOFF_PERIOD_FRACTION) FAILURE_BACKOFF_BASE) FAILURE_BACKOFF_CAP_SECONDS) p"
  have s: "s = min (?first * 2 ^ d) p" using assms(1) by (simp add: retry_step_def Let_def split: if_splits)
  have first: "min 600 p \<le> ?first" "0 \<le> ?first"
    using assms(2) by (auto simp: FAILURE_BACKOFF_PERIOD_FRACTION_def FAILURE_BACKOFF_BASE_def FAILURE_BACKOFF_CAP_SECONDS_def)
  have "?first * 1 \<le> ?first * 2 ^ d" using first(2) by (intro mult_left_mono) simp_all
  then show "min 600 p \<le> s" using first(1) unfolding s by linarith
  show "s \<le> p" unfolding s by simp
qed

text \<open>What a failure writes, by its kind.\<close>

lemma count_read: "int_field t ''failure_count'' 0 = Inr n" if "dict_get t ''failure_count'' = JInt n"
  using that by (simp add: int_field_def int_of_def py_int_def)

lemma cooldown_after:
  assumes "dict_get t' ''failure_count'' = JInt n" "frequency_interval_seconds t' = frequency_interval_seconds t"
  shows "failure_cooldown_seconds t' = retry_step (frequency_interval_seconds t) (nat (max 1 n - 1))"
  using assms by (simp add: failure_cooldown_seconds_def count_read)

definition failure_fields :: "nat \<Rightarrow> int \<Rightarrow> string \<Rightarrow> json \<Rightarrow> (string \<times> json) list" where
  "failure_fields now n status next = [(''status'', JStr status), (''last_attempt'', JStr (iso_utc now)), (''updated'', JStr (iso_utc now)),
     (''failure_count'', JInt n), (''next_run'', next)]"

lemma record_task_failure:
  "record_failure z hour now ''task'' t =
     (case int_field t ''failure_count'' 0 of Inl e \<Rightarrow> Inl e
      | Inr prior \<Rightarrow> (case max_retries_budget t of Inl e \<Rightarrow> Inl e
        | Inr budget \<Rightarrow>
            if budget \<le> prior + 1
            then Inr (\<lparr>fr_failures = prior + 1, fr_disabled = True, fr_crossed = False\<rparr>, update_task_field (failure_fields now (prior + 1) ''failed'' JNull) t)
            else (case retry_step (frequency_interval_seconds t) (nat (max 1 (prior + 1) - 1)) of Inl e \<Rightarrow> Inl e
              | Inr s \<Rightarrow> Inr (\<lparr>fr_failures = prior + 1, fr_disabled = False, fr_crossed = False\<rparr>,
                  update_task_field (failure_fields now (prior + 1) ''up_next'' (iso_at (int now + delta s))) t))))"
proof -
  have "failure_cooldown_seconds (dict_set (dict_set (dict_set (dict_set t ''status'' v) ''last_attempt'' a) ''updated'' u) ''failure_count'' (JInt n))
      = retry_step (frequency_interval_seconds t) (nat (max 1 n - 1))" for v a u n
    by (rule cooldown_after [OF _ freq_cong]) (simp_all add: dict_get_set)
  then show ?thesis unfolding record_failure_def failure_fields_def
    by (simp add: Let_def split: sum.split)
qed

lemma record_other_failure:
  assumes "kind \<noteq> ''task''" "record_failure z hour now kind t = Inr (r, t')"
  shows "\<exists>infra next. (kind = ''infra'' \<longrightarrow> infra = snd (infra_fields z hour now t)) \<and> (kind \<noteq> ''infra'' \<longrightarrow> infra = [])
    \<and> fr_crossed r = (kind = ''infra'' \<and> fst (infra_fields z hour now t)) \<and> \<not> fr_disabled r
    \<and> t' = update_task_field ([(''status'', JStr ''up_next''), (''last_attempt'', JStr (iso_utc now)), (''updated'', JStr (iso_utc now))]
         @ infra @ [(''next_run'', next)]) t"
  using assms by (auto simp: record_failure_def Let_def split: sum.splits if_splits prod.splits)

lemma failure_fields_read:
  assumes "distinct (map fst t)"
  shows "dict_get (update_task_field (failure_fields now n status next) t) ''status'' = JStr status"
    "dict_get (update_task_field (failure_fields now n status next) t) ''last_attempt'' = JStr (iso_utc now)"
    "dict_get (update_task_field (failure_fields now n status next) t) ''failure_count'' = JInt n"
    "dict_get (update_task_field (failure_fields now n status next) t) ''next_run'' = next"
    "dict_get (update_task_field (failure_fields now n status next) t) ''last_run'' = dict_get t ''last_run''"
    "dict_get (update_task_field (failure_fields now n status next) t) ''id'' = dict_get t ''id''"
    "frequency_interval_seconds (update_task_field (failure_fields now n status next) t) = frequency_interval_seconds t"
    "dict_get (update_task_field (failure_fields now n status next) t) ''max_retries'' = dict_get t ''max_retries''"
  using assms by (simp_all add: field_after freq_update) (simp_all add: failure_fields_def freq_update)

section \<open>Retries\<close>

lemma cooling_not_due:
  assumes "stamp t ''last_attempt'' = Some attempt" "case stamp t ''last_run'' of None \<Rightarrow> True | Some run \<Rightarrow> run < attempt"
    and "failure_cooldown_seconds t = Inr s" "seconds_between attempt (de_now env) < s"
  shows "is_task_due env all c t \<noteq> Inr True"
  using assms by (auto simp: due_unfold in_failure_cooldown_def split: option.splits)

text \<open>
  A failure that leaves retries waits inside the task's period. The wait it schedules is at least ten
  minutes (or the whole period, if that is shorter) and at most the period, the task's \<open>next_run\<close> says so,
  and the task is not dispatched before it has passed.
\<close>

theorem failed_task_waits:
  assumes "record_failure z hour now ''task'' t = Inr (r, t')" "\<not> fr_disabled r"
    and "distinct (map fst t)" "in_range now" "case stamp t ''last_run'' of None \<Rightarrow> True | Some run \<Rightarrow> run < int now"
    and "frequency_interval_seconds t = Some p"
  shows "\<exists>s. min 600 p \<le> s \<and> s \<le> p \<and> dict_get t' ''next_run'' = iso_at (int now + delta s)
    \<and> (\<forall>env all c. seconds_between (int now) (de_now env) < s \<longrightarrow> is_task_due env all c t' \<noteq> Inr True)"
proof -
  from assms(1, 2) obtain prior s where s: "retry_step (Some p) (nat (max 1 (prior + 1) - 1)) = Inr s"
      and t': "t' = update_task_field (failure_fields now (prior + 1) ''up_next'' (iso_at (int now + delta s))) t"
    unfolding record_task_failure by (auto simp: assms(6) split: sum.splits if_splits)
  note read = failure_fields_read [OF assms(3), of now "prior + 1" "''up_next''" "iso_at (int now + delta s)", folded t']
  have "failure_cooldown_seconds t' = Inr s" using cooldown_after [OF read(3, 7)] s assms(6) by simp
  moreover have "stamp t' ''last_attempt'' = Some (int now)" "stamp t' ''last_run'' = stamp t ''last_run''"
    using assms(4) by (simp_all add: stamp_def read parse_iso_utc_json)
  ultimately have "seconds_between (int now) (de_now env) < s \<Longrightarrow> is_task_due env all c t' \<noteq> Inr True" for env all c
    using assms(5) by (intro cooling_not_due) simp_all
  then show ?thesis using retry_step_bounds [OF s interval_nonneg [OF assms(6)]] read(4) by blast
qed

section \<open>Outages\<close>

lemma resting_not_due: "stamp t ''infra_rest_until'' = Some until \<Longrightarrow> de_now env < until \<Longrightarrow> is_task_due env all c t \<noteq> Inr True"
  by (simp add: due_unfold in_infra_rest_def)

lemma rest_at_least_period: "infra_ceil_window_seconds t \<le> infra_rest_seconds z hour now t"
  by (simp add: infra_rest_seconds_def Let_def split: option.split list.split)

text \<open>
  A run of outages rests the task for at least its period. The failure that crosses the ceiling sets a
  rest of at least one period, and the task is not dispatched before it ends; the task keeps its retries,
  stays on the board, and its count of outages starts over.
\<close>

theorem outage_ceiling_rests:
  assumes "record_failure z hour now ''infra'' t = Inr (r, t')" "fr_crossed r" "distinct (map fst t)"
    and "in_range (nat (int now + delta (infra_rest_seconds z hour (int now) t)))"
    and "de_now env < int now + delta (infra_ceil_window_seconds t)"
  shows "is_task_due env all c t' \<noteq> Inr True \<and> dict_get t' ''failure_count'' = dict_get t ''failure_count''
    \<and> dict_get t' ''status'' = JStr ''up_next'' \<and> infra_failure_count t' = 0"
proof -
  let ?until = "int now + delta (infra_rest_seconds z hour (int now) t)"
  obtain slot where t': "t' = update_task_field ([(''status'', JStr ''up_next''), (''last_attempt'', JStr (iso_utc now)), (''updated'', JStr (iso_utc now))]
      @ [(''infra_rest_until'', iso_at ?until), (''infra_failure_count'', JInt 0), (''next_run'', slot)]) t"
    using record_other_failure [OF _ assms(1)] assms(2) by (auto simp: infra_fields_def Let_def split: if_splits)
  have rest: "delta (infra_ceil_window_seconds t) \<le> delta (infra_rest_seconds z hour (int now) t)"
    by (intro delta_mono rest_at_least_period)
  have "0 \<le> infra_ceil_window_seconds t"
    using interval_nonneg by (auto simp: infra_ceil_window_seconds_def either_def FAILURE_BACKOFF_CAP_SECONDS_def split: option.split)
  then have "0 \<le> ?until" using delta_nonneg rest by fastforce
  then have "stamp t' ''infra_rest_until'' = Some ?until"
    using parse_iso_utc_json [OF assms(4)] assms(3) by (simp add: stamp_def t' field_after iso_at_def)
  then have "is_task_due env all c t' \<noteq> Inr True" using resting_not_due assms(5) rest by fastforce
  then show ?thesis using assms(3) by (simp add: t' field_after infra_failure_count_def int_field_def)
qed

section \<open>The retry budget\<close>

text \<open>A run of failures with no success between them, each with its local hour, instant and kind.\<close>

fun fail_run :: "zone \<Rightarrow> (int \<times> nat \<times> string) list \<Rightarrow> task \<Rightarrow> py_error + task" where
  "fail_run z [] t = Inr t"
| "fail_run z ((hour, now, kind) # fs) t = (case record_failure z hour now kind t of Inl e \<Rightarrow> Inl e | Inr (_, t') \<Rightarrow> fail_run z fs t')"

definition own_failures :: "(int \<times> nat \<times> string) list \<Rightarrow> int" where
  "own_failures fs = int (length (filter (\<lambda>(_, _, kind). kind = ''task'') fs))"

lemma int_field_cong: "dict_get a k = dict_get b k \<Longrightarrow> int_field a k d = int_field b k d"
  by (simp add: int_field_def)

lemma infra_keys: "fst ` set (snd (infra_fields z hour now t)) \<subseteq> {''infra_rest_until'', ''infra_failure_count''}"
  by (auto simp: infra_fields_def Let_def)

text \<open>One failure, as the budget sees it.\<close>

lemma failure_step:
  assumes "record_failure z hour now kind t = Inr (r, t')" "distinct (map fst t)" "int_field t ''failure_count'' 0 = Inr n"
    and "max_retries_budget t = Inr budget"
  defines "n' \<equiv> n + (if kind = ''task'' then 1 else 0)"
  shows "int_field t' ''failure_count'' 0 = Inr n'" "max_retries_budget t' = Inr budget" "distinct (map fst t')"
    "dict_get t' ''status'' = JStr (if kind = ''task'' \<and> budget \<le> n' then ''failed'' else ''up_next'')"
proof -
  have "int_field t' ''failure_count'' 0 = Inr n' \<and> dict_get t' ''max_retries'' = dict_get t ''max_retries'' \<and> distinct (map fst t')
      \<and> dict_get t' ''status'' = JStr (if kind = ''task'' \<and> budget \<le> n' then ''failed'' else ''up_next'')"
  proof (cases "kind = ''task''")
    case True
    from assms(1) [unfolded True record_task_failure] assms(3, 4)
    obtain slot where "t' = update_task_field (failure_fields now n' (if budget \<le> n' then ''failed'' else ''up_next'') slot) t"
      by (auto simp: n'_def True split: sum.splits if_splits)
    then show ?thesis using assms(2) True count_read [OF failure_fields_read(3) [OF assms(2)]] by (simp add: failure_fields_read distinct_update)
  next
    case False
    obtain infra slot where keys: "fst ` set infra \<subseteq> {''infra_rest_until'', ''infra_failure_count''}"
      and t': "t' = update_task_field ([(''status'', JStr ''up_next''), (''last_attempt'', JStr (iso_utc now)), (''updated'', JStr (iso_utc now))]
         @ infra @ [(''next_run'', slot)]) t"
    proof -
      from record_other_failure [OF False assms(1)] obtain infra slot where
        i: "kind = ''infra'' \<longrightarrow> infra = snd (infra_fields z hour now t)" "kind \<noteq> ''infra'' \<longrightarrow> infra = []"
        and t': "t' = update_task_field ([(''status'', JStr ''up_next''), (''last_attempt'', JStr (iso_utc now)), (''updated'', JStr (iso_utc now))]
           @ infra @ [(''next_run'', slot)]) t" by blast
      have "fst ` set infra \<subseteq> {''infra_rest_until'', ''infra_failure_count''}"
        using i infra_keys [of z hour now t] by (cases "kind = ''infra''") simp_all
      then show ?thesis using that t' by blast
    qed
    then have "map_of (rev infra) k = None" if "k \<notin> {''infra_rest_until'', ''infra_failure_count''}" for k
      using that by (auto simp: map_of_eq_None_iff)
    then have same: "dict_get t' ''failure_count'' = dict_get t ''failure_count''" "dict_get t' ''max_retries'' = dict_get t ''max_retries''"
        "dict_get t' ''status'' = JStr ''up_next''"
      using assms(2) by (simp_all add: t' field_after map_add_def)
    then show ?thesis using False assms(2, 3) int_field_cong [OF same(1)] by (simp add: n'_def t' distinct_update)
  qed
  then show "int_field t' ''failure_count'' 0 = Inr n'" "max_retries_budget t' = Inr budget" "distinct (map fst t')"
    "dict_get t' ''status'' = JStr (if kind = ''task'' \<and> budget \<le> n' then ''failed'' else ''up_next'')"
    using assms(4) by (auto simp: max_retries_budget_def intro: int_field_cong [THEN trans])
qed

lemma fail_run_budget:
  "fail_run z fs t = Inr t' \<Longrightarrow> distinct (map fst t) \<Longrightarrow> int_field t ''failure_count'' 0 = Inr n \<Longrightarrow> max_retries_budget t = Inr budget \<Longrightarrow>
     int_field t' ''failure_count'' 0 = Inr (n + own_failures fs)
     \<and> (fs \<noteq> [] \<longrightarrow> dict_get t' ''status'' =
          JStr (if snd (snd (last fs)) = ''task'' \<and> budget \<le> n + own_failures fs then ''failed'' else ''up_next''))"
proof (induction z fs t arbitrary: n rule: fail_run.induct)
  case (2 z hour now kind fs t)
  obtain r u where u: "record_failure z hour now kind t = Inr (r, u)" "fail_run z fs u = Inr t'"
    using 2(2) by (auto split: sum.splits)
  note step = failure_step [OF u(1) 2(3-5)]
  have ih: "int_field t' ''failure_count'' 0 = Inr (n + (if kind = ''task'' then 1 else 0) + own_failures fs)
     \<and> (fs \<noteq> [] \<longrightarrow> dict_get t' ''status'' = JStr (if snd (snd (last fs)) = ''task''
          \<and> budget \<le> n + (if kind = ''task'' then 1 else 0) + own_failures fs then ''failed'' else ''up_next''))"
    using 2(1) [OF u(1) refl u(2) step(3, 1, 2)] by simp
  show ?case
  proof (cases fs)
    case Nil
    then show ?thesis using u(2) step(1, 4) by (simp add: own_failures_def)
  qed (use ih in \<open>simp add: own_failures_def add.assoc\<close>)
qed (simp add: own_failures_def)

text \<open>
  C26. Only a task's own failures spend its retries. Over any run of failures without a success, the
  failure count grows by the failures of kind \<open>task\<close> alone, and the task is retired exactly when the
  last of them is of that kind and brings the count to its budget: no run of outages retires a task.
\<close>

theorem own_failures_retire:
  assumes "fail_run z fs t = Inr t'" "fs \<noteq> []" "distinct (map fst t)"
    and "int_field t ''failure_count'' 0 = Inr n" "max_retries_budget t = Inr budget"
  shows "int_field t' ''failure_count'' 0 = Inr (n + own_failures fs)
    \<and> dict_get t' ''status'' = JStr (if snd (snd (last fs)) = ''task'' \<and> budget \<le> n + own_failures fs then ''failed'' else ''up_next'')"
  using fail_run_budget [OF assms(1, 3-5)] assms(2) by simp

text \<open>
  Retirement lasts one period. A task whose failure failure_fields its last retry is not dispatched, and
  the recovery scan brings it back, with a fresh budget, exactly when a whole period has passed since
  that failure; before that it leaves the file as it is.
\<close>

theorem retired_for_one_period:
  assumes "record_failure z hour now ''task'' t = Inr (r, t')" "fr_disabled r" "distinct (map fst t)" "in_range now"
    and "truthy (dict_get t ''id'')" "frequency_interval_seconds t = Some p" "0 < p"
  shows "is_task_due env all c t' \<noteq> Inr True \<and>
    (\<exists>t''. recover_task later t' = Inr (p \<le> seconds_between (int now) (int later), t'')
      \<and> (if p \<le> seconds_between (int now) (int later) then dict_get t'' ''status'' = JStr ''up_next'' \<and> int_field t'' ''failure_count'' 0 = Inr 0
         else t'' = t'))"
proof -
  obtain n where t': "t' = update_task_field (failure_fields now n ''failed'' JNull) t"
    using assms(1, 2) unfolding record_task_failure by (auto split: sum.splits if_splits)
  note read = failure_fields_read [OF assms(3), of now n "''failed''" JNull, folded t']
  have d: "distinct (map fst t')" using assms(3) by (simp add: t' distinct_update)
  have attempt: "stamp t' ''last_attempt'' = Some (int now)" using assms(4) by (simp add: stamp_def read parse_iso_utc_json)
  have status: "strip (field_text t' ''status'') = ''failed''"
  proof -
    have "map_of t' ''status'' = Some (JStr ''failed'')" using read(1) by (auto simp: dict_get_def split: option.splits)
    then show ?thesis by (simp add: field_text_def get_or_def py_str_def strip_def lstrip_def rstrip_def is_space_def)
  qed
  then have "recover_task later t' = (if p \<le> seconds_between (int now) (int later)
      then Inr (True, update_task_field [(''status'', JStr ''up_next''), (''failure_count'', JInt 0),
             (''next_run'', iso_at (int later + delta p)), (''updated'', JStr (iso_utc later))] t')
      else Inr (False, t'))"
    using assms(5-7) attempt by (simp add: recover_task_def rearm_after_one_period_def read FAILURE_REARM_PERIODS_def)
  then show ?thesis using status d by (auto simp: due_unfold field_after count_read)
qed

section \<open>Instances\<close>

definition one_try :: task where
  "one_try = [(''id'', JStr ''7''), (''status'', JStr ''in_progress''), (''frequency'', JStr ''daily''), (''max_retries'', JInt 1)]"

definition outage_task :: task where
  "outage_task = [(''id'', JStr ''7''), (''status'', JStr ''in_progress''), (''frequency'', JStr ''daily''), (''infra_failure_count'', JInt 4),
     (''last_attempt'', JStr (iso_utc 0))]"

lemma instance_periods:
  "frequency_interval_seconds one_try = Some 86400"
  "frequency_interval_seconds outage_task = Some 86400"
  by (simp_all add: daily one_try_def outage_task_def dict_get_def)

lemma instance_keys: "distinct (map fst upstream_task)" "distinct (map fst one_try)" "distinct (map fst outage_task)"
  by (simp_all add: upstream_task_def one_try_def outage_task_def)

lemma instance_counts:
  "int_field upstream_task ''failure_count'' 0 = Inr 0" "int_field one_try ''failure_count'' 0 = Inr 0"
  "int_field outage_task ''failure_count'' 0 = Inr 0" "max_retries_budget upstream_task = Inr 5" "max_retries_budget one_try = Inr 1"
  "max_retries_budget outage_task = Inr 5"
  by (simp_all add: upstream_task_def one_try_def outage_task_def int_field_def dict_get_def max_retries_budget_def int_of_def py_int_def
      DEFAULT_MAX_RETRIES_def)

theorem failed_task_waits_witness:
  "\<exists>r t' s. record_failure utc_zone 9 0 ''task'' upstream_task = Inr (r, t') \<and> \<not> fr_disabled r \<and> 600 \<le> s \<and> s \<le> 86400
     \<and> dict_get t' ''next_run'' = iso_at (delta s) \<and> is_task_due (quiet_env 1) [] None t' \<noteq> Inr True"
proof -
  obtain r t' where f: "record_failure utc_zone 9 0 ''task'' upstream_task = Inr (r, t')" "\<not> fr_disabled r"
    by (simp add: record_task_failure instance_counts upstream_daily retry_step_def Let_def)
  have "stamp upstream_task ''last_run'' = None" by (simp add: stamp_def parse_iso_def parse_iso_dt_def upstream_task_def dict_get_def)
  then obtain s where s: "600 \<le> s" "s \<le> 86400" "dict_get t' ''next_run'' = iso_at (delta s)"
      "\<forall>env all c. seconds_between 0 (de_now env) < s \<longrightarrow> is_task_due env all c t' \<noteq> Inr True"
    using failed_task_waits [OF f instance_keys(1) _ _ upstream_daily] by auto
  have "seconds_between 0 (de_now (quiet_env 1)) < s" using s(1) by (simp add: seconds_between_def quiet_env_def)
  then show ?thesis using f s by blast
qed

theorem outage_ceiling_rests_witness:
  "\<exists>r t'. record_failure utc_zone 9 0 ''infra'' outage_task = Inr (r, t') \<and> fr_crossed r \<and> is_task_due (quiet_env 1) [] None t' \<noteq> Inr True
     \<and> infra_failure_count t' = 0"
proof -
  have last: "stamp outage_task ''last_attempt'' = Some 0"
    using parse_iso_utc_json [of 0] by (simp add: stamp_def outage_task_def dict_get_def)
  have w: "infra_ceil_window_seconds outage_task = 86400"
    by (simp add: infra_ceil_window_seconds_def either_def instance_periods)
  have rest: "infra_rest_seconds utc_zone 9 0 outage_task = 86400"
  proof -
    have "effective_preferred_hours outage_task = None"
      by (simp add: effective_preferred_hours_def outage_task_def dict_get_def field_text_or_def text_or_def hhmm_hour_def lstrip_def)
    then show ?thesis by (simp add: infra_rest_seconds_def w)
  qed
  have "next_infra_failure_count 0 outage_task = 5"
    by (simp add: next_infra_failure_count_def last w seconds_between_def infra_failure_count_def)
      (simp add: int_field_def outage_task_def dict_get_def int_of_def py_int_def)
  then obtain r t' where f: "record_failure utc_zone 9 0 ''infra'' outage_task = Inr (r, t')" "fr_crossed r"
    by (simp add: record_failure_def infra_fields_def INFRA_CEILING_def instance_counts)
  then show ?thesis
    using outage_ceiling_rests [OF f instance_keys(3), of "quiet_env 1" "[]" None] by (simp add: rest w delta_whole quiet_env_def)
qed

theorem own_failures_retire_witness:
  "\<exists>t'. fail_run utc_zone [(9, 0, ''timeout''), (9, 1, ''task'')] one_try = Inr t' \<and> int_field t' ''failure_count'' 0 = Inr 1
     \<and> dict_get t' ''status'' = JStr ''failed''"
proof -
  obtain r t1 where one: "record_failure utc_zone 9 0 ''timeout'' one_try = Inr (r, t1)"
    by (simp add: record_failure_def instance_counts)
  note step = failure_step [OF one instance_keys(2) instance_counts(2, 5)]
  obtain r' t2 where "record_failure utc_zone 9 1 ''task'' t1 = Inr (r', t2)"
    using step(1, 2) by (simp add: record_task_failure)
  then have "fail_run utc_zone [(9, 0, ''timeout''), (9, 1, ''task'')] one_try = Inr t2" by (simp add: one)
  from own_failures_retire [OF this _ instance_keys(2) instance_counts(2, 5)] this show ?thesis by (simp add: own_failures_def)
qed

theorem retired_for_one_period_witness:
  "\<exists>r t' t''. record_failure utc_zone 9 0 ''task'' one_try = Inr (r, t') \<and> fr_disabled r
     \<and> recover_task 86400000000 t' = Inr (True, t'') \<and> dict_get t'' ''status'' = JStr ''up_next''"
proof -
  obtain r t' where f: "record_failure utc_zone 9 0 ''task'' one_try = Inr (r, t')" "fr_disabled r"
    by (simp add: record_task_failure instance_counts)
  have "truthy (dict_get one_try ''id'')" by (simp add: one_try_def dict_get_def)
  from retired_for_one_period [OF f instance_keys(2) _ this instance_periods(1), of "quiet_env 1" "[]" None 86400000000] f show ?thesis
    by (simp add: seconds_between_def) blast
qed

end
