(* ===== verification/Task_Windows.thy ===== *)
theory Task_Windows
  imports Task_Theorems
begin

text \<open>
  The window of local hours: the loop that measures an opening ends, the slot the scheduler plans is
  the first instant of the window, and a task is due again within its period.
\<close>

section \<open>The length of an opening\<close>

lemma window_hours_proper:
  assumes "window_hours t = Some hs"
  shows "set hs \<subseteq> {0..23}" "hs \<noteq> []" "\<exists>g \<in> {0..23}. g \<notin> set hs" "distinct hs"
proof -
  from assms obtain hours where hs: "hs = filter (\<lambda>h. h \<in> (\<lambda>x. x mod 24) ` set hours) [0..23]" "hs \<noteq> []" "length hs < 24"
    by (auto simp: window_hours_def Let_def split: option.splits if_splits)
  show "set hs \<subseteq> {0..23}" "hs \<noteq> []" "distinct hs" using hs by auto
  have "{0..23} \<subseteq> set hs \<Longrightarrow> card {0..23::int} \<le> length hs" using card_mono [of "set hs"] card_length le_trans by blast
  then show "\<exists>g \<in> {0..23}. g \<notin> set hs" using hs(3) by auto
qed

lemma opening_ends:
  assumes "h \<in> set (openings hs)" "set hs \<subseteq> {0..23}"
  shows "\<exists>n. grow (set hs) h 1 = Some n \<and> 1 \<le> n \<and> n \<le> 23 \<and> (h + n) mod 24 \<notin> set hs \<and> (\<forall>i. 0 \<le> i \<and> i < n \<longrightarrow> (h + i) mod 24 \<in> set hs)"
proof -
  have h: "h \<in> set hs" "(h - 1) mod 24 \<notin> set hs" using assms(1) by (simp_all add: openings_def)
  have "(h + 1 + int 22) mod 24 = (h - 1) mod 24" by (simp add: mod_eq_dvd_iff)
  then have "(h + 1 + int 22) mod 24 \<notin> set hs" using h(2) by simp
  from grow_reaches [OF this] obtain n where n: "grow (set hs) h 1 = Some n" "1 \<le> n" "n \<le> 23" "(h + n) mod 24 \<notin> set hs"
    "\<And>i. 1 \<le> i \<Longrightarrow> i < n \<Longrightarrow> (h + i) mod 24 \<in> set hs" by auto
  have "h mod 24 = h" using h(1) assms(2) by (intro mod_pos_pos_trivial) auto
  then have "(h + i) mod 24 \<in> set hs" if "0 \<le> i" "i < n" for i using n(5) [of i] h(1) that by (cases "i = 0") simp_all
  then show ?thesis using n by blast
qed

text \<open>
  C28. The loop that measures a window ends. For every hour at which a window opens, \<open>length\<close> stops
  growing after at most 23 turns, at the first hour outside the window. What ends it is that an opening is an hour whose
  predecessor is outside: an hour inside a run, and so every hour of a full window, is skipped before the loop.
\<close>

theorem window_run_terminates:
  assumes "window_hours t = Some hs" "h \<in> set (openings hs)"
  shows "\<exists>n. grow (set hs) h 1 = Some n \<and> 1 \<le> n \<and> n \<le> 23 \<and> (h + n) mod 24 \<notin> set hs \<and> (\<forall>i. 0 \<le> i \<and> i < n \<longrightarrow> (h + i) mod 24 \<in> set hs)"
  using opening_ends [OF assms(2)] window_hours_proper(1) [OF assms(1)] .

section \<open>Coverage\<close>

definition in_window :: "int list \<Rightarrow> int \<Rightarrow> bool" where
  "in_window hs w \<longleftrightarrow> w div hour_us mod 24 \<in> set hs"

text \<open>Every hour of the window lies behind an opening less than a day ago.\<close>

lemma opening_behind:
  assumes "set hs \<subseteq> {0..23}" "g \<in> {0..23}" "g \<notin> set hs" "q mod 24 \<in> set hs"
  shows "\<exists>j. 0 \<le> j \<and> j \<le> 22 \<and> (q - j) mod 24 \<in> set (openings hs) \<and> (\<forall>i. 0 \<le> i \<and> i \<le> j \<longrightarrow> (q - i) mod 24 \<in> set hs)"
proof -
  define outside where "outside j \<longleftrightarrow> (q - int j) mod 24 \<notin> set hs" for j
  have "outside (nat ((q - g) mod 24))"
  proof -
    have "(q - (q - g) mod 24) mod 24 = g" using assms(2) by (simp add: mod_simps)
    then show ?thesis using assms(3) by (simp add: outside_def)
  qed
  define l where "l = (LEAST j. outside j)"
  have l: "outside l" "\<And>i. i < l \<Longrightarrow> \<not> outside i" "l \<le> nat ((q - g) mod 24)"
    using LeastI [of outside] not_less_Least [of _ outside] Least_le [of outside] \<open>outside (nat ((q - g) mod 24))\<close> unfolding l_def by blast+
  have "l \<noteq> 0" using l(1) assms(4) by (intro notI) (simp add: outside_def)
  then obtain j where j: "l = Suc j" by (cases l) auto
  have "(q - int j) mod 24 \<in> set hs" using l(2) [of j] by (simp add: j outside_def)
  moreover have "((q - int j) mod 24 - 1) mod 24 \<notin> set hs" using l(1) by (simp add: j outside_def mod_simps algebra_simps)
  ultimately have "(q - int j) mod 24 \<in> set (openings hs)" by (simp add: openings_def)
  moreover have "(q - i) mod 24 \<in> set hs" if "0 \<le> i" "i \<le> int j" for i
    using l(2) [of "nat i"] that by (simp add: j outside_def)
  moreover have "int j \<le> 22" using l(3) j pos_mod_bound [of 24 "q - g"] by linarith
  ultimately show ?thesis by (intro exI [of _ "int j"]) simp
qed

lemma hour_span: "q \<le> w div hour_us \<longleftrightarrow> q * hour_us \<le> w" "w div hour_us < q \<longleftrightarrow> w < q * hour_us"
  by linarith+

lemma day_of_hours: "w div int_day_us = w div hour_us div 24"
  by (simp add: div_mult2_eq [symmetric])

lemma occurrence_span:
  assumes "from_local z = (\<lambda>w. w - k)" "grow (set hs) h 1 = Some n"
  shows "fst (occurrence z hs d h) \<le> x \<and> x < snd (occurrence z hs d h) \<longleftrightarrow>
    d * 24 + h \<le> (x + k) div hour_us \<and> (x + k) div hour_us < d * 24 + h + n"
  unfolding hour_span using assms by (simp add: occurrence_def algebra_simps)

lemma occurrence_inside:
  assumes "from_local z = (\<lambda>w. w - k)" "h \<in> set (openings hs)" "set hs \<subseteq> {0..23}"
    and "fst (occurrence z hs d h) \<le> x" "x < snd (occurrence z hs d h)"
  shows "in_window hs (x + k)"
proof -
  obtain n where n: "grow (set hs) h 1 = Some n" "\<And>i. 0 \<le> i \<Longrightarrow> i < n \<Longrightarrow> (h + i) mod 24 \<in> set hs"
    using opening_ends [OF assms(2, 3)] by blast
  let ?i = "(x + k) div hour_us - (d * 24 + h)"
  have "0 \<le> ?i" "?i < n" using occurrence_span [OF assms(1) n(1), of d x] assms(4, 5) by linarith+
  then have "(h + ?i) mod 24 \<in> set hs" by (rule n(2))
  moreover have "(h + ?i) mod 24 = (x + k) div hour_us mod 24" by (simp add: mod_eq_dvd_iff)
  ultimately show ?thesis by (simp add: in_window_def)
qed

lemma occurrence_covers:
  assumes z: "from_local z = (\<lambda>w. w - k)" and hs: "set hs \<subseteq> {0..23}" "g \<in> {0..23}" "g \<notin> set hs" and x: "in_window hs (x + k)"
  shows "\<exists>d h. h \<in> set (openings hs) \<and> (x + k) div int_day_us - 1 \<le> d \<and> d \<le> (x + k) div int_day_us
    \<and> fst (occurrence z hs d h) \<le> x \<and> x < snd (occurrence z hs d h)"
proof -
  define q where "q = (x + k) div hour_us"
  obtain j where j: "0 \<le> j" "j \<le> 22" "(q - j) mod 24 \<in> set (openings hs)" "\<And>i. 0 \<le> i \<Longrightarrow> i \<le> j \<Longrightarrow> (q - i) mod 24 \<in> set hs"
    using opening_behind [OF hs, of q] x unfolding in_window_def q_def by blast
  define h d where "h = (q - j) mod 24" and "d = (q - j) div 24"
  have qj: "q - j = d * 24 + h" unfolding h_def d_def by simp
  obtain n where n: "grow (set hs) h 1 = Some n" "1 \<le> n" "(h + n) mod 24 \<notin> set hs"
    using opening_ends [OF j(3) hs(1)] unfolding h_def by blast
  have "j < n"
  proof (rule ccontr)
    assume "\<not> j < n"
    then have "(q - (j - n)) mod 24 \<in> set hs" using n(2) by (intro j(4)) linarith+
    moreover have "(q - (j - n)) mod 24 = (h + n) mod 24" using qj by (simp add: mod_eq_dvd_iff algebra_simps)
    ultimately show False using n(3) by simp
  qed
  then have "fst (occurrence z hs d h) \<le> x \<and> x < snd (occurrence z hs d h)"
    unfolding occurrence_span [OF z n(1)] q_def [symmetric] using qj j(1) by linarith
  moreover have "q div 24 - 1 \<le> d" "d \<le> q div 24" unfolding d_def using j(1, 2) by linarith+
  ultimately show ?thesis using j(3) unfolding day_of_hours q_def [symmetric] h_def [symmetric] by blast
qed

section \<open>The first slot\<close>

lemma first_in_spec:
  assumes "sorted_wrt (\<lambda>a b. fst a \<le> fst b) occs" "\<exists>occ \<in> set occs. at' < fst occ" "\<forall>occ \<in> set occs. fst occ < snd occ"
  shows "at' \<le> first_in at' occs \<and> (\<exists>occ \<in> set occs. fst occ \<le> first_in at' occs \<and> first_in at' occs < snd occ)
    \<and> (\<forall>x. at' \<le> x \<and> x < first_in at' occs \<longrightarrow> (\<forall>occ \<in> set occs. \<not> (fst occ \<le> x \<and> x < snd occ)))"
  using assms
proof (induction at' occs rule: first_in.induct)
  case (2 at' start stop occs)
  show ?case
  proof (cases "start \<le> at' \<and> at' < stop \<or> at' < start")
    case True
    then show ?thesis using 2(2, 4) by (auto; fastforce)
  next
    case False
    then have "\<exists>occ \<in> set occs. at' < fst occ" using 2(3) by auto
    moreover have "sorted_wrt (\<lambda>a b. fst a \<le> fst b) occs" "\<forall>occ \<in> set occs. fst occ < snd occ" using 2(2, 4) by auto
    ultimately show ?thesis using 2(1) False by fastforce
  qed
qed simp

lemma occurrences_sorted: "sorted_wrt (\<lambda>a b. fst a \<le> fst b) (window_occurrences z hs at')"
proof -
  have "sorted_wrt pair_le (window_occurrences z hs at')"
    unfolding window_occurrences_def Let_def by (rule sorted_order_by) (auto simp: pair_le_def)
  then show ?thesis by (rule sorted_wrt_mono_rel [rotated]) (auto simp: pair_le_def)
qed

lemma set_day_list: "set (concat (map (\<lambda>d. map (f (b + d)) hs) [m..n])) = (\<Union>d \<in> {b + m .. b + n}. f d ` set hs)" for b m n :: int
proof -
  have "{b + m .. b + n} = (\<lambda>d. b + d) ` {m..n}" by (auto simp: image_iff intro: bexI [of _ "_ - b"])
  then show ?thesis by (simp only: image_image UN_simps) simp
qed

lemma set_occurrences:
  "set (window_occurrences z hs at') =
     (\<Union>d \<in> {to_local z at' div int_day_us - 3 .. to_local z at' div int_day_us + 2}. occurrence z hs d ` set (openings hs))"
  unfolding window_occurrences_def Let_def set_order_by set_day_list by simp

text \<open>
  The slot the scheduler plans is the first instant of the window at or after the one asked for. On
  a machine whose offset from UTC does not change, \<open>_first_in_window_at_or_after\<close> returns an
  instant not before its argument whose local hour is in the window, and no instant between has one.
\<close>

theorem next_slot_earliest:
  assumes "window_hours t = Some hs" "to_local z = (\<lambda>i. i + k)" "from_local z = (\<lambda>w. w - k)"
  shows "at' \<le> first_in_window_at_or_after z hs at'
    \<and> (first_in_window_at_or_after z hs at' + k) div hour_us mod 24 \<in> set hs
    \<and> (\<forall>x. at' \<le> x \<and> x < first_in_window_at_or_after z hs at' \<longrightarrow> (x + k) div hour_us mod 24 \<notin> set hs)"
proof -
  let ?occs = "window_occurrences z hs at'" and ?r = "first_in_window_at_or_after z hs at'" and ?b = "(at' + k) div int_day_us"
  note hs = window_hours_proper [OF assms(1)]
  obtain g where g: "g \<in> {0..23}" "g \<notin> set hs" using hs(3) by blast
  have occs: "set ?occs = (\<Union>d \<in> {?b - 3 .. ?b + 2}. occurrence z hs d ` set (openings hs))"
    by (simp add: set_occurrences assms(2))
  have span: "fst (occurrence z hs d h) = (d * 24 + h) * hour_us - k \<and> fst (occurrence z hs d h) < snd (occurrence z hs d h)"
    if "h \<in> set (openings hs)" for d h
    using opening_ends [OF that hs(1)] by (auto simp: occurrence_def assms(3) algebra_simps)
  obtain h where h: "h \<in> set (openings hs)" "0 \<le> h" "h \<le> 23"
  proof -
    obtain q where "q \<in> set hs" using hs(2) by (cases hs) auto
    then have "q mod 24 \<in> set hs" using hs(1) mod_pos_pos_trivial [of q 24] by fastforce
    then obtain j where "(q - j) mod 24 \<in> set (openings hs)" using opening_behind [OF hs(1) g] by blast
    then show ?thesis using that [of "(q - j) mod 24"] pos_mod_bound [of 24 "q - j"] by simp
  qed
  let ?nxt = "occurrence z hs (?b + 1) h"
  have nxt: "?nxt \<in> set ?occs" "at' < fst ?nxt" "fst ?nxt < snd ?nxt" "(fst ?nxt + k) div int_day_us = ?b + 1"
    using h span [OF h(1), of "?b + 1"] by (auto simp: occs day_of_hours)
  have "\<forall>occ \<in> set ?occs. fst occ < snd occ" unfolding occs using span [THEN conjunct2] by blast
  from first_in_spec [OF occurrences_sorted _ this, of at'] nxt(1, 2)
  have r: "at' \<le> ?r" "\<exists>occ \<in> set ?occs. fst occ \<le> ?r \<and> ?r < snd occ"
      and none: "\<And>x occ. at' \<le> x \<Longrightarrow> x < ?r \<Longrightarrow> occ \<in> set ?occs \<Longrightarrow> \<not> (fst occ \<le> x \<and> x < snd occ)"
    unfolding first_in_window_at_or_after_def by blast+
  have early: "?r \<le> fst ?nxt" using none [of "fst ?nxt" ?nxt] nxt by fastforce
  have "in_window hs (?r + k)" using r(2) occurrence_inside [OF assms(3) _ hs(1)] by (auto simp: occs)
  moreover have "\<not> in_window hs (x + k)" if x: "at' \<le> x" "x < ?r" for x
  proof
    assume "in_window hs (x + k)"
    from occurrence_covers [OF assms(3) hs(1) g this] obtain d h' where d: "h' \<in> set (openings hs)"
      "(x + k) div int_day_us - 1 \<le> d" "d \<le> (x + k) div int_day_us" "fst (occurrence z hs d h') \<le> x" "x < snd (occurrence z hs d h')" by blast
    have "?b \<le> (x + k) div int_day_us" using x(1) by (intro zdiv_mono1) simp_all
    moreover have "(x + k) div int_day_us \<le> (fst ?nxt + k) div int_day_us" using x(2) early by (intro zdiv_mono1) simp_all
    then have "(x + k) div int_day_us \<le> ?b + 1" by (simp only: nxt(4))
    ultimately have "occurrence z hs d h' \<in> set ?occs" using d(1-3) by (auto simp: occs)
    then show False using none [OF x] d(4, 5) by blast
  qed
  ultimately show ?thesis using r(1) unfolding in_window_def by blast
qed

section \<open>Due again\<close>

text \<open>
  A task is due again within its period and not in the first half of it: the instant
  \<open>_elapsed_due_at\<close> gives lies at most one period after the last run, and at least half a period (to
  the microsecond) after it, for a task in a window and for one without.
\<close>

theorem due_within_period:
  assumes "elapsed_due_at z t w = Some due" "frequency_interval_seconds t = Some p" "1 \<le> p"
  shows "due \<le> w + delta p \<and> delta p - 1 \<le> 2 * (due - w)"
proof
  have p: "0 \<le> p" using assms(3) by simp
  show "due \<le> w + delta p"
    using due_latest [OF assms(1, 2)] delta_nonneg [OF slack_bounds(1) [OF assms(2) p]] by linarith
  show "delta p - 1 \<le> 2 * (due - w)"
  proof (cases "case window_anchored t of None \<Rightarrow> None | Some hs \<Rightarrow> latest_window_open z hs w")
    case None
    have "due_slack_seconds t \<le> p / 4" by (rule slack_bounds(2) [OF assms(2) p])
    moreover have "p * 1000000 - 1 / 2 \<le> rat_of_int (delta p)"
        "rat_of_int (delta (due_slack_seconds t)) \<le> due_slack_seconds t * 1000000 + 1 / 2"
      using delta_near [of p] delta_near [of "due_slack_seconds t"] unfolding abs_le_iff by linarith+
    ultimately have "rat_of_int (-2) < rat_of_int (delta p) - 2 * rat_of_int (delta (due_slack_seconds t))" using assms(3) by simp
    then have "rat_of_int (-2) < rat_of_int (delta p - 2 * delta (due_slack_seconds t))" by simp
    then have "-1 \<le> delta p - 2 * delta (due_slack_seconds t)" unfolding of_int_less_iff by simp
    then show ?thesis using assms None by (auto simp: elapsed_due_at_def Let_def)
  next
    case (Some occ)
    have "rat_of_int (delta p) - 1 \<le> 2 * rat_of_int (round_half_even (rat_of_int (delta p) / 2))"
      using round_half_even_near [of "rat_of_int (delta p) / 2"] unfolding abs_le_iff by linarith
    then have "rat_of_int (delta p - 1) \<le> rat_of_int (2 * round_half_even (rat_of_int (delta p) / 2))" by simp
    then have "delta p - 1 \<le> 2 * round_half_even (rat_of_int (delta p) / 2)" by (simp only: of_int_le_iff)
    then show ?thesis using assms Some by (auto simp: elapsed_due_at_def Let_def split: prod.splits)
  qed
qed

section \<open>The scan\<close>

lemma filter_ok_Inr: "filter_ok p xs = Inr ys \<Longrightarrow> ys = filter (\<lambda>x. p x = Inr True) xs \<and> (\<forall>x \<in> set xs. \<exists>b. p x = Inr b)"
  by (induction xs arbitrary: ys) (auto simp: map_sum_Inr split: sum.splits)

lemma filter_ok_Inl: "x \<in> set xs \<Longrightarrow> p x = Inl e \<Longrightarrow> \<exists>e'. filter_ok p xs = Inl e'"
  using filter_ok_Inr [of p xs] by (cases "filter_ok p xs") auto

lemma runnable_filter: "all_runnable_tasks board = Inr ts \<Longrightarrow> ts = filter (\<lambda>t. dispatch_blocked t = Inr False) board"
proof -
  have flip: "map_sum id Not b = Inr True \<longleftrightarrow> b = Inr False" for b :: "py_error + bool" by (auto simp: map_sum_Inr)
  assume "all_runnable_tasks board = Inr ts"
  from filter_ok_Inr [OF this [unfolded all_runnable_tasks_def]] show ?thesis by (simp add: flip)
qed

lemma key_le_order: "key_le a b \<or> key_le b a" "key_le a b \<Longrightarrow> key_le b c \<Longrightarrow> key_le a c"
  by (auto simp: key_le_def)

text \<open>Every task of the board ends up in the scan as often as the board holds it, or not at all.\<close>

definition dispatched :: "due_env \<Rightarrow> store \<Rightarrow> task list \<Rightarrow> task \<Rightarrow> bool" where
  "dispatched env st board t \<longleftrightarrow> dispatch_blocked t = Inr False \<and>
     (\<exists>row. window_catch_up_row (de_now env) (window_loss_rows st) t = Inr row \<and> is_task_due env board row t = Inr True)"

lemma scan_list:
  assumes "get_due_tasks env st board = Inr ts"
  shows "ts = order_by (\<lambda>a b. key_le (priority_key (de_now env) a) (priority_key (de_now env) b))
    (filter (dispatched env st board) board)"
proof -
  let ?p = "\<lambda>t. case window_catch_up_row (de_now env) (window_loss_rows st) t of Inl e \<Rightarrow> Inl e | Inr row \<Rightarrow> is_task_due env board row t"
  let ?le = "\<lambda>a b. key_le (priority_key (de_now env) a) (priority_key (de_now env) b)"
  from assms obtain runnable due where r: "all_runnable_tasks board = Inr runnable" "filter_ok ?p runnable = Inr due" "ts = order_by ?le due"
    by (auto simp: get_due_tasks_def map_sum_Inr split: sum.splits)
  have "?p t = Inr True \<longleftrightarrow> (\<exists>row. window_catch_up_row (de_now env) (window_loss_rows st) t = Inr row \<and> is_task_due env board row t = Inr True)" for t
    by (simp split: sum.split)
  then have "due = filter (dispatched env st board) board"
    using filter_ok_Inr [OF r(2)] runnable_filter [OF r(1)] by (simp add: dispatched_def [abs_def] conj_commute)
  then show ?thesis by (simp add: r(3))
qed

text \<open>
  C27. The order of the scan. A task goes out before every other one of a lower priority (critical, high, medium,
  low, background; anything else counts as medium), and among those of one priority the one whose last success is
  longer ago goes first (a task that never succeeded counts as 999999 seconds, and equals keep the order of the
  board). Every task that goes out is runnable, nothing that \<open>hold_reason\<close> names holds it back, and its period has elapsed; and a
  task of which that is true goes out as often as the board holds it.
\<close>

theorem due_scan_order:
  fixes env :: due_env
  assumes "get_due_tasks env st board = Inr ts"
  defines "rank \<equiv> \<lambda>t. case map_of [(''critical'', 4 :: int), (''high'', 3), (''medium'', 2), (''low'', 1), (''background'', 0)]
      (lower (py_str (get_or t ''priority'' (JStr ''medium'')))) of None \<Rightarrow> 2 | Some p \<Rightarrow> p"
  defines "waited \<equiv> \<lambda>t. case stamp t ''last_run'' of None \<Rightarrow> 999999 | Some run \<Rightarrow> seconds_between run (de_now env)"
  shows "(\<forall>i j. i < j \<longrightarrow> j < length ts \<longrightarrow> rank (ts ! j) < rank (ts ! i)
      \<or> (rank (ts ! j) = rank (ts ! i) \<and> waited (ts ! j) \<le> waited (ts ! i)))
    \<and> (\<forall>r w. filter (\<lambda>t. rank t = r \<and> waited t = w) ts = filter (\<lambda>t. rank t = r \<and> waited t = w \<and> dispatch_blocked t = Inr False
        \<and> (\<exists>row. window_catch_up_row (de_now env) (window_loss_rows st) t = Inr row \<and> hold_reason env board row t = Inr None)
        \<and> (case stamp t ''last_run'' of None \<Rightarrow> True | Some run \<Rightarrow> (case elapsed_due_at (de_zone env) t run of
             None \<Rightarrow> True | Some due \<Rightarrow> due \<le> de_now env))) board)"
proof
  let ?le = "\<lambda>a b. key_le (priority_key (de_now env) a) (priority_key (de_now env) b)"
  have key: "priority_key (de_now env) t = (- rank t, - waited t)" for t
    by (simp add: priority_key_def rank_def waited_def prio_map_def Let_def)
  have "sorted_wrt ?le ts" unfolding scan_list [OF assms(1)]
    by (rule sorted_order_by) (fact key_le_order(1), rule key_le_order(2))
  then show "\<forall>i j. i < j \<longrightarrow> j < length ts \<longrightarrow> rank (ts ! j) < rank (ts ! i)
      \<or> (rank (ts ! j) = rank (ts ! i) \<and> waited (ts ! j) \<le> waited (ts ! i))"
    unfolding sorted_wrt_iff_nth_less by (force simp: key key_le_def)
  have "filter (\<lambda>t. rank t = r \<and> waited t = w) ts
      = filter (\<lambda>t. rank t = r \<and> waited t = w) (filter (dispatched env st board) board)" for r w
    unfolding scan_list [OF assms(1)] by (rule filter_order_by) (simp add: key key_le_def)
  then show "\<forall>r w. filter (\<lambda>t. rank t = r \<and> waited t = w) ts = filter (\<lambda>t. rank t = r \<and> waited t = w \<and> dispatch_blocked t = Inr False
        \<and> (\<exists>row. window_catch_up_row (de_now env) (window_loss_rows st) t = Inr row \<and> hold_reason env board row t = Inr None)
        \<and> (case stamp t ''last_run'' of None \<Rightarrow> True | Some run \<Rightarrow> (case elapsed_due_at (de_zone env) t run of
             None \<Rightarrow> True | Some due \<Rightarrow> due \<le> de_now env))) board"
    by (auto simp: dispatched_def due_agrees elapsed_def intro!: filter_cong)
qed

text \<open>
  C29. One unreadable failure count stops the whole scan. When a runnable task of the board has a skill and a frequency, is
  up next, rests from no outage, has its period behind it and a last attempt after its last success, and its
  \<open>failure_count\<close> is not a number, \<open>get_due_tasks\<close> raises, so no task of the board is dispatched. (Of a task that is not
  due yet, or whose last attempt succeeded, the count is not read.)
\<close>

theorem unreadable_count_stops_scan:
  assumes "t \<in> set board" "dispatch_blocked t = Inr False"
    and "has_skill t" "strip (field_text t ''status'') = ''up_next''" "frequency_interval_seconds t = Some p"
    and "case stamp t ''last_run'' of None \<Rightarrow> True
      | Some run \<Rightarrow> run < attempt \<and> (case elapsed_due_at (de_zone env) t run of None \<Rightarrow> True | Some due \<Rightarrow> due \<le> de_now env)"
    and "\<not> in_infra_rest (de_now env) t" "stamp t ''last_attempt'' = Some attempt"
    and "int_field t ''failure_count'' 0 = Inl e"
  shows "\<exists>e'. get_due_tasks env st board = Inl e'"
proof -
  let ?p = "\<lambda>t. case window_catch_up_row (de_now env) (window_loss_rows st) t of Inl e \<Rightarrow> Inl e | Inr row \<Rightarrow> is_task_due env board row t"
  have cool: "in_failure_cooldown (de_now env) t = Inl e"
    using assms(6, 8, 9) by (auto simp: in_failure_cooldown_def failure_cooldown_seconds_def split: option.splits)
  have "elapsed env t" using assms(6) by (auto simp: elapsed_def split: option.splits)
  then have "is_task_due env board row t = Inl e" for row
    using assms(3-5, 7) cool by (simp add: is_task_due_def elapsed_gate)
  then have "\<exists>e'. ?p t = Inl e'" by (simp split: sum.split)
  moreover have "t \<in> set runnable" if "all_runnable_tasks board = Inr runnable" for runnable
    using runnable_filter [OF that] assms(1, 2) by simp
  ultimately show ?thesis
    by (cases "all_runnable_tasks board") (auto simp: get_due_tasks_def map_sum_Inl dest: filter_ok_Inl)
qed

section \<open>Instances\<close>

definition night_task :: task where
  "night_task = [(''id'', JStr ''3''), (''status'', JStr ''up_next''), (''skill_name'', JStr ''digest''), (''frequency'', JStr ''daily''),
     (''preferred_hours'', JArr [JInt 23, JInt 0, JInt 1])]"

lemma night_window: "dict_get t ''preferred_hours'' = JArr [JInt 23, JInt 0, JInt 1] \<Longrightarrow> window_hours t = Some [0, 1, 23]"
proof -
  assume "dict_get t ''preferred_hours'' = JArr [JInt 23, JInt 0, JInt 1]"
  then have "effective_preferred_hours t = Some [23, 0, 1]" by (simp add: effective_preferred_hours_def int_of_def py_int_def)
  moreover have "[0..23::int] = [0, 1, 2, 3, 4, 5, 6, 7, 8, 9, 10, 11, 12, 13, 14, 15, 16, 17, 18, 19, 20, 21, 22, 23]" by code_simp
  ultimately show ?thesis by (simp add: window_hours_def)
qed

lemma night_hours: "window_hours night_task = Some [0, 1, 23]"
  by (rule night_window) (simp add: night_task_def dict_get_def)

lemma night_openings: "openings [0, 1, 23] = [23]"
  by (simp add: openings_def)

theorem window_run_terminates_witness: "\<exists>n. grow (set [0, 1, 23]) 23 1 = Some n \<and> n \<le> 23 \<and> (23 + n) mod 24 \<notin> set [0, 1, 23]"
  using window_run_terminates [OF night_hours, of 23] by (auto simp: night_openings)

theorem next_slot_earliest_witness:
  "2 * hour_us \<le> first_in_window_at_or_after utc_zone [0, 1, 23] (2 * hour_us)
   \<and> first_in_window_at_or_after utc_zone [0, 1, 23] (2 * hour_us) div hour_us mod 24 \<in> set [0, 1, 23]"
  using next_slot_earliest [OF night_hours, of utc_zone 0 "2 * hour_us"] by simp

theorem due_within_period_witness:
  "\<exists>due. elapsed_due_at utc_zone upstream_task 0 = Some due \<and> due \<le> delta 86400 \<and> delta 86400 - 1 \<le> 2 * due"
proof -
  obtain due where "elapsed_due_at utc_zone upstream_task 0 = Some due" by (simp add: elapsed_due_at_def upstream_daily Let_def)
  from due_within_period [OF this upstream_daily] this show ?thesis by simp
qed

lemma upstream_scans: "is_task_due (quiet_env 0) board None upstream_task = Inr True" "window_hours upstream_task = None"
proof -
  show w: "window_hours upstream_task = None" by (simp add: window_hours_def upstream_unwindowed)
  have no_stamp: "stamp upstream_task k = None" if "dict_get upstream_task k = JNull" for k
    using that by (simp add: stamp_def parse_iso_def parse_iso_dt_def)
  have unset: "dict_get upstream_task ''last_run'' = JNull" "dict_get upstream_task ''last_attempt'' = JNull"
      "dict_get upstream_task ''infra_rest_until'' = JNull" "dict_get upstream_task ''depends_on'' = JNull"
    by (simp_all add: upstream_task_def dict_get_def)
  have "has_skill upstream_task"
    by (simp add: has_skill_def upstream_task_def field_text_or_def text_or_def dict_get_def py_str_def strip_def lstrip_def rstrip_def is_space_def)
  moreover have "strip (field_text upstream_task ''status'') = ''up_next''"
    by (simp add: upstream_task_fields strip_def lstrip_def rstrip_def is_space_def)
  moreover have "is_dependency_met (quiet_env 0) board upstream_task = Inr True"
    by (simp add: is_dependency_met_def dependency_gate_def unset)
  moreover have "already_ran_this_period (quiet_env 0) upstream_task = []"
    by (simp add: already_ran_this_period_def quiet_env_def newest_successful_run_def newest_record_def split: option.split)
  ultimately show "is_task_due (quiet_env 0) board None upstream_task = Inr True"
    by (simp add: due_unfold upstream_daily elapsed_def no_stamp unset in_infra_rest_def in_failure_cooldown_def is_preferred_hour_def upstream_unwindowed)
qed

lemma upstream_dispatched: "get_due_tasks (quiet_env 0) st [upstream_task] = Inr [upstream_task]"
proof -
  have "dispatch_blocked upstream_task = Inr False"
    by (simp add: dispatch_blocked_def upstream_task_fields strip_def lstrip_def rstrip_def is_space_def RUNNABLE_STATUSES_def)
  moreover have "window_catch_up_row (de_now (quiet_env 0)) (window_loss_rows st) upstream_task = Inr None"
    by (simp add: window_catch_up_row_def upstream_scans)
  ultimately show ?thesis by (simp add: get_due_tasks_def all_runnable_tasks_def upstream_scans)
qed

text \<open>Two tasks that differ in their priority: the critical one goes out first although it stands last.\<close>

definition ranked_task :: "string \<Rightarrow> task" where
  "ranked_task p = upstream_task @ [(''priority'', JStr p)]"

lemma ranked_reads:
  assumes "k \<noteq> ''priority''"
  shows "dict_get (ranked_task p) k = dict_get upstream_task k" "field_text (ranked_task p) k = field_text upstream_task k"
    "field_text_or (ranked_task p) k = field_text_or upstream_task k"
  using assms
  by (simp_all add: ranked_task_def dict_get_def field_text_def field_text_or_def get_or_def map_add_def split: option.split)

lemma ranked_daily: "frequency_interval_seconds (ranked_task p) = Some 86400"
  by (rule daily) (simp_all add: ranked_reads, simp_all add: upstream_task_def dict_get_def)

lemma ranked_dispatched: "dispatched (quiet_env 0) st board (ranked_task p)"
proof -
  have same: "effective_preferred_hours (ranked_task p) = effective_preferred_hours upstream_task"
    unfolding effective_preferred_hours_def ranked_reads(1) [of "''preferred_hours''", simplified]
      ranked_reads(3) [of "''scheduled_at''", simplified] ..
  have no_stamp: "stamp (ranked_task p) k = None" if "dict_get (ranked_task p) k = JNull" for k
    using that by (simp add: stamp_def parse_iso_def parse_iso_dt_def)
  have unset: "dict_get (ranked_task p) ''last_run'' = JNull" "dict_get (ranked_task p) ''last_attempt'' = JNull"
      "dict_get (ranked_task p) ''infra_rest_until'' = JNull" "dict_get (ranked_task p) ''depends_on'' = JNull"
    by (simp_all add: ranked_reads) (simp_all add: upstream_task_def dict_get_def)
  have up: "strip (field_text upstream_task ''status'') = ''up_next''" "has_skill upstream_task"
    using upstream_scans(1) [of "[]"] by (simp_all add: due_unfold)
  have "is_dependency_met (quiet_env 0) board (ranked_task p) = Inr True"
    by (simp add: is_dependency_met_def dependency_gate_def unset)
  moreover have "already_ran_this_period (quiet_env 0) (ranked_task p) = []"
    by (simp add: already_ran_this_period_def quiet_env_def newest_successful_run_def newest_record_def split: option.split)
  ultimately have "is_task_due (quiet_env 0) board None (ranked_task p) = Inr True"
    using up by (simp add: due_unfold ranked_daily elapsed_def no_stamp unset in_infra_rest_def in_failure_cooldown_def
        is_preferred_hour_def same upstream_unwindowed has_skill_def ranked_reads)
  moreover have "dispatch_blocked (ranked_task p) = Inr False"
    by (simp add: dispatch_blocked_def ranked_reads upstream_task_fields strip_def lstrip_def rstrip_def is_space_def RUNNABLE_STATUSES_def
        grant_block_errors_def) (simp add: ranked_task_def upstream_task_def)
  moreover have "window_catch_up_row (de_now (quiet_env 0)) (window_loss_rows st) (ranked_task p) = Inr None"
    by (simp add: window_catch_up_row_def window_hours_def same upstream_unwindowed)
  ultimately show ?thesis by (auto simp: dispatched_def)
qed

lemma ranked_fields [simp]:
  "lower (py_str (get_or (ranked_task ''low'') ''priority'' (JStr ''medium''))) = ''low''"
  "lower (py_str (get_or (ranked_task ''critical'') ''priority'' (JStr ''medium''))) = ''critical''"
  "stamp (ranked_task p) ''last_run'' = None"
proof -
  have "dict_get (ranked_task p) ''last_run'' = JNull" by (simp add: ranked_reads upstream_task_fields)
  then show "stamp (ranked_task p) ''last_run'' = None" by (simp add: stamp_def parse_iso_def parse_iso_dt_def)
qed (simp_all add: ranked_task_def upstream_task_def get_or_def py_str_def lower_def lower_char_def)

lemma ranked_key: "priority_key now (ranked_task ''low'') = (- 1, - 999999)" "priority_key now (ranked_task ''critical'') = (- 4, - 999999)"
  by (simp_all add: priority_key_def prio_map_def)

lemma ranked_scan:
  "get_due_tasks (quiet_env 0) st [ranked_task ''low'', ranked_task ''critical''] = Inr [ranked_task ''critical'', ranked_task ''low'']"
proof -
  have d: "dispatch_blocked (ranked_task p) = Inr False" "\<exists>row. window_catch_up_row (de_now (quiet_env 0)) (window_loss_rows st) (ranked_task p) = Inr row
      \<and> is_task_due (quiet_env 0) board row (ranked_task p) = Inr True" for p board
    using ranked_dispatched by (auto simp: dispatched_def)
  have "(case window_catch_up_row (de_now (quiet_env 0)) (window_loss_rows st) (ranked_task p) of Inl e \<Rightarrow> Inl e
      | Inr row \<Rightarrow> is_task_due (quiet_env 0) board row (ranked_task p)) = Inr True" for p board
    using d(2) [of p board] by auto
  then show ?thesis by (simp add: get_due_tasks_def all_runnable_tasks_def d(1) ranked_key key_le_def)
qed

theorem due_scan_order_witness:
  "\<forall>st. get_due_tasks (quiet_env 0) st [ranked_task ''low'', ranked_task ''critical''] = Inr [ranked_task ''critical'', ranked_task ''low'']
     \<and> dispatch_blocked (ranked_task ''low'') = Inr False"
proof
  fix st
  from due_scan_order [OF ranked_scan [of st], THEN conjunct2, THEN spec [of _ 1], THEN spec [of _ 999999]]
  have "dispatch_blocked (ranked_task ''low'') = Inr False" by (simp split: if_splits)
  with ranked_scan show "get_due_tasks (quiet_env 0) st [ranked_task ''low'', ranked_task ''critical''] = Inr [ranked_task ''critical'', ranked_task ''low'']
     \<and> dispatch_blocked (ranked_task ''low'') = Inr False" by blast
qed

definition unreadable_task :: task where
  "unreadable_task = upstream_task @ [(''last_attempt'', JStr (iso_utc 0)), (''failure_count'', JStr ''many'')]"

lemma unreadable_reads:
  assumes "k \<noteq> ''last_attempt''" "k \<noteq> ''failure_count''"
  shows "dict_get unreadable_task k = dict_get upstream_task k" "field_text unreadable_task k = field_text upstream_task k"
    "field_text_or unreadable_task k = field_text_or upstream_task k"
  using assms
  by (simp_all add: unreadable_task_def dict_get_def field_text_def field_text_or_def get_or_def map_add_def split: option.split)

theorem unreadable_count_stops_scan_witness:
  "\<forall>st. \<exists>e. get_due_tasks (quiet_env 0) st [unreadable_task, upstream_task] = Inl e"
proof
  fix st
  have up: "strip (field_text upstream_task ''status'') = ''up_next''" "has_skill upstream_task"
    using upstream_scans(1) [of "[]"] by (simp_all add: due_unfold)
  have no_stamp: "stamp unreadable_task k = None" if "dict_get unreadable_task k = JNull" for k
    using that by (simp add: stamp_def parse_iso_def parse_iso_dt_def)
  have "dispatch_blocked unreadable_task = Inr False"
    by (simp add: dispatch_blocked_def unreadable_reads upstream_task_fields strip_def lstrip_def rstrip_def is_space_def RUNNABLE_STATUSES_def
        grant_block_errors_def) (simp add: unreadable_task_def upstream_task_def)
  moreover have "frequency_interval_seconds unreadable_task = Some 86400"
    by (rule daily) (simp_all add: unreadable_reads, simp_all add: upstream_task_def dict_get_def)
  moreover have "stamp unreadable_task ''last_run'' = None" "stamp unreadable_task ''infra_rest_until'' = None"
    by (rule no_stamp, simp add: unreadable_task_def upstream_task_def dict_get_def)+
  moreover have "stamp unreadable_task ''last_attempt'' = Some 0"
    using parse_iso_utc_json [of 0] by (simp add: stamp_def unreadable_task_def upstream_task_def dict_get_def)
  moreover have "int_field unreadable_task ''failure_count'' 0 = Inl ValueError"
    by (simp add: int_field_def unreadable_task_def upstream_task_def dict_get_def int_of_def py_int_def Let_def startswith_def all_digits_def
        strip_def lstrip_def rstrip_def is_space_def is_digit_def)
  ultimately show "\<exists>e. get_due_tasks (quiet_env 0) st [unreadable_task, upstream_task] = Inl e"
    using up by (intro unreadable_count_stops_scan [where t = unreadable_task and attempt = 0])
      (simp_all add: has_skill_def unreadable_reads in_infra_rest_def)
qed

end
