(* ===== verification/Source_Theorems.thy ===== *)
theory Source_Theorems
  imports Task_Source Task_Outcomes Task_Windows Queue_Theorems Pool_Facts
begin

text \<open>
  What the source of the autonomy tasks promises the queue and the pool: a healthy tick leaves a live row
  for exactly the tasks that are due, an outage of the model server is announced once, a lost window is
  recorded once, only under a standing hold, and caught up at most once.
\<close>

section \<open>A tick\<close>

lemma enqueue_live:
  assumes "queue_inv st" "key \<noteq> []"
  shows "\<exists>r st'. enqueue now src kd payload prio (Some key) st = Inr (r, st') \<and> queue_inv st'
    \<and> (\<forall>k. has_live k st' \<longleftrightarrow> has_live k st \<or> k = key)"
proof (cases "has_live key st")
  case True
  then show ?thesis using enqueue_coalesce [OF assms] assms(1) by blast
next
  case False
  note ins = enqueue_insert [OF assms False, of now src kd payload prio]
  have "queue_inv ((release_key key st)\<lparr>queue := queue (release_key key st) @
      [new_row now src kd payload prio (Some key) (Suc (queue_seq st))], queue_seq := Suc (queue_seq st)\<rparr>)"
    by (rule queue_inv_enqueue [OF assms(1) ins])
  then show ?thesis unfolding ins
    by (auto simp: has_live_def release_key_def upd_where_def new_row_def live_state_def list_ex_iff)
qed

text \<open>
  The queue as the source uses it: an inbox with one live entry per key. A put that finds its key live is
  absorbed, and any other makes it live, so a run of puts makes exactly their keys live.
\<close>

fun put_all :: "('x \<Rightarrow> 's \<Rightarrow> 'e + ('r \<times> 's)) \<Rightarrow> 'x list \<Rightarrow> 's \<Rightarrow> 'e option \<times> 's" where
  "put_all put [] st = (None, st)"
| "put_all put (x # xs) st = (case put x st of Inl e \<Rightarrow> (Some e, st) | Inr (_, st') \<Rightarrow> put_all put xs st')"

locale inbox =
  fixes put :: "'x \<Rightarrow> 's \<Rightarrow> 'e + ('r \<times> 's)" and key :: "'x \<Rightarrow> 'k" and live :: "'k \<Rightarrow> 's \<Rightarrow> bool" and inv :: "'s \<Rightarrow> bool"
  assumes put_live: "inv st \<Longrightarrow> \<exists>r st'. put x st = Inr (r, st') \<and> inv st' \<and> (\<forall>k. live k st' \<longleftrightarrow> live k st \<or> k = key x)"
begin

lemma puts_live: "inv st \<Longrightarrow> \<exists>st'. put_all put xs st = (None, st') \<and> inv st' \<and> (\<forall>k. live k st' \<longleftrightarrow> live k st \<or> k \<in> key ` set xs)"
proof (induction xs arbitrary: st)
  case (Cons x xs)
  from put_live [OF Cons.prems, of x] obtain r st1 where
    st1: "put x st = Inr (r, st1)" "inv st1" "\<And>k. live k st1 \<longleftrightarrow> live k st \<or> k = key x" by blast
  from Cons.IH [OF st1(2)] show ?case using st1 by auto
qed simp

end

definition put_task :: "nat \<Rightarrow> task \<Rightarrow> store \<Rightarrow> py_error + (nat option \<times> store)" where
  "put_task now t = enqueue now TASK_SOURCE_NAME ''run'' [(''task_id'', dict_get t ''id''), (''name'', dict_get t ''name'')]
     (task_priority t) (Some (task_key t))"

interpretation task_inbox: inbox "put_task now" task_key has_live queue_inv for now
  by unfold_locales (simp add: put_task_def enqueue_live task_key_def)

lemma enqueue_tasks_puts: "enqueue_tasks se now ts st = put_all (put_task now) (filter (dispatchable se) ts) st"
  by (induction ts arbitrary: st) (auto simp: put_task_def split: sum.split prod.split)

text \<open>
  C30. A healthy tick of the source leaves the queue with a live row for exactly the tasks it should: the
  dedup keys that are live after it are those live before and those of the due tasks whose model is
  configured and answering, and no key is live twice.
\<close>

theorem tick_enqueues_due:
  assumes "queue_inv st" "recover_stuck_tasks now board = (None, ids, board')" "se_primary_ok se"
    and "get_due_tasks env st board' = Inr due"
  shows "tr_error (enqueue_if_due se env now s board st) = None \<and> tr_board (enqueue_if_due se env now s board st) = board'
    \<and> queue_inv (tr_store (enqueue_if_due se env now s board st))
    \<and> (\<forall>k. has_live k (tr_store (enqueue_if_due se env now s board st)) \<longleftrightarrow>
          has_live k st \<or> (\<exists>t \<in> set due. dispatchable se t \<and> k = task_key t))"
  using task_inbox.puts_live [OF assms(1), of now "filter (dispatchable se) due"] assms(2-4)
  by (auto simp: enqueue_if_due_def enqueue_tasks_puts)

section \<open>The outage\<close>

fun outage_run :: "(int \<times> rat option) list \<Rightarrow> source_state \<Rightarrow> nat \<times> source_state" where
  "outage_run [] s = (0, s)"
| "outage_run ((now, probe) # ticks) s = (case note_vllm_outage now probe s of (alert, s1) \<Rightarrow>
     (case outage_run ticks s1 of (n, s2) \<Rightarrow> ((if alert then Suc n else n), s2)))"

lemma alerted_silent: "vllm_down_logged s \<Longrightarrow> vllm_down_alerted s \<Longrightarrow> outage_run ticks s = (0, s)"
  by (induction ticks s rule: outage_run.induct) (auto simp: note_vllm_outage_def)

lemma outage_counts:
  assumes "vllm_down_logged s" "\<not> vllm_down_alerted s" "vllm_down_since s = Some start"
  shows "fst (outage_run ticks s) = (if \<exists>(now, probe) \<in> set ticks. VLLM_DOWN_ALERT_SECONDS \<le> (case probe of None \<Rightarrow> seconds_between start now | Some d \<Rightarrow> d)
     then 1 else 0)"
  using assms
proof (induction ticks s rule: outage_run.induct)
  case (2 now probe ticks s)
  show ?case
  proof (cases "VLLM_DOWN_ALERT_SECONDS \<le> (case probe of None \<Rightarrow> seconds_between start now | Some d \<Rightarrow> d)")
    case True
    then have "note_vllm_outage now probe s = (True, s\<lparr>vllm_down_alerted := True\<rparr>)" using 2(2-4) by (simp add: note_vllm_outage_def Let_def)
    then show ?thesis using True 2(2) by (simp add: alerted_silent)
  next
    case False
    then have "note_vllm_outage now probe s = (False, s)" using 2(2-4) by (simp add: note_vllm_outage_def Let_def)
    then show ?thesis using False 2 by (simp split: prod.split)
  qed
qed simp

text \<open>
  An outage of the model server is announced once: over the unhealthy ticks that follow a healthy one there
  is exactly one alert if the outage ever measures 45 minutes (on the service probe's streak, or on the ticks
  themselves when the probe has none), and none otherwise.
\<close>

theorem outage_alerts_once:
  assumes "\<not> vllm_down_logged s"
  shows "fst (outage_run ((start, probe) # ticks) s) =
    (if \<exists>(now, p) \<in> set ((start, probe) # ticks). VLLM_DOWN_ALERT_SECONDS \<le> (case p of None \<Rightarrow> seconds_between start now | Some d \<Rightarrow> d) then 1 else 0)"
proof -
  let ?s = "\<lparr>vllm_down_logged = True, vllm_down_since = Some start, vllm_down_alerted = False\<rparr>"
  have "note_vllm_outage start probe s = note_vllm_outage start probe ?s" using assms by (simp add: note_vllm_outage_def)
  then have "outage_run ((start, probe) # ticks) s = outage_run ((start, probe) # ticks) ?s" by simp
  then show ?thesis using outage_counts [of ?s start "(start, probe) # ticks"] by simp
qed

theorem outage_alerts_once_witness:
  "fst (outage_run [(0, None), (1000000, Some 3000), (9000000000, None)] new_source) = 1"
  using outage_alerts_once [of new_source 0 None "[(1000000, Some 3000), (9000000000, None)]"]
  by (simp add: new_source_def VLLM_DOWN_ALERT_SECONDS_def)

section \<open>Lost windows\<close>

definition wm_keeps :: "store \<Rightarrow> store \<Rightarrow> bool" where
  "wm_keeps st st' \<longleftrightarrow> (\<forall>src key v. wm_get src key st = Some v \<longrightarrow> wm_get src key st' = Some v)"

lemma wm_keeps_trans: "wm_keeps a b \<Longrightarrow> wm_keeps b c \<Longrightarrow> wm_keeps a c"
  by (simp add: wm_keeps_def)

lemma wm_keeps_refl [simp]: "wm_keeps st st"
  by (simp add: wm_keeps_def)

lemma wm_keeps_set: "wm_get src key st = None \<Longrightarrow> wm_keeps st (wm_set now src key v st)"
  unfolding wm_keeps_def by (metis wm_get_set_other option.distinct(1) prod.inject)

text \<open>A pass over a list that only adds: what it kept, where its new rows come from, and what it settled.\<close>

definition grew :: "((string \<times> json) list \<Rightarrow> store \<Rightarrow> bool) \<Rightarrow> losses \<Rightarrow> losses \<Rightarrow> bool" where
  "grew P acc acc' \<longleftrightarrow> wm_keeps (snd acc) (snd acc') \<and> (\<forall>row \<in> set (fst acc'). row \<in> set (fst acc) \<or> P row (snd acc'))"

lemma grew_fold:
  assumes step: "\<And>x acc. x \<in> set xs \<Longrightarrow> grew P acc (f x acc) \<and> Q x (snd (f x acc))"
    and mono: "\<And>row st st'. P row st \<Longrightarrow> wm_keeps st st' \<Longrightarrow> P row st'" "\<And>x st st'. Q x st \<Longrightarrow> wm_keeps st st' \<Longrightarrow> Q x st'"
  shows "grew P acc (fold f xs acc) \<and> (\<forall>x \<in> set xs. Q x (snd (fold f xs acc)))"
  using step
proof (induction xs arbitrary: acc)
  case Nil
  then show ?case by (simp add: grew_def)
next
  case (Cons x xs)
  have one: "grew P acc (f x acc)" "Q x (snd (f x acc))" using Cons.prems [of x acc] by simp_all
  have rest: "grew P (f x acc) (fold f xs (f x acc))" "\<forall>y \<in> set xs. Q y (snd (fold f xs (f x acc)))"
    using Cons.IH [of "f x acc"] Cons.prems by simp_all
  have "grew P acc (fold f xs (f x acc))"
    using one(1) rest(1) mono(1) wm_keeps_trans unfolding grew_def by blast
  moreover have "Q x (snd (fold f xs (f x acc)))" using one(2) rest(1) mono(2) by (auto simp: grew_def)
  ultimately show ?case using rest(2) by simp
qed

definition loss_key :: "zone \<Rightarrow> task \<Rightarrow> int \<times> int \<Rightarrow> string" where
  "loss_key z t occ = window_loss_key z (py_str (dict_get t ''id'')) (fst occ)"

text \<open>A window of a task that a standing hold covered from its opening to its close, and that did not run in it.\<close>

definition lost_window :: "zone \<Rightarrow> nat \<Rightarrow> int \<Rightarrow> task \<Rightarrow> int list \<Rightarrow> int \<times> int \<Rightarrow> bool" where
  "lost_window z now since t hours occ \<longleftrightarrow> strip (field_text t ''status'') = ''up_next'' \<and> parked_declaration t = []
     \<and> window_hours t = Some hours \<and> occ \<in> set (window_occurrences z hours (int now))
     \<and> (truthy (dict_get t ''last_run'') \<longrightarrow> stamp t ''last_run'' \<noteq> None) \<and> occurrence_lost (int now) since (stamp t ''last_run'') occ"

definition loss_witness :: "zone \<Rightarrow> nat \<Rightarrow> int \<Rightarrow> string \<Rightarrow> task \<Rightarrow> (string \<times> json) list \<Rightarrow> store \<Rightarrow> bool" where
  "loss_witness z now since since_t t row st \<longleftrightarrow> (\<exists>hours occ. lost_window z now since t hours occ \<and> row = loss_row now since_t t hours occ
     \<and> wm_get WINDOW_LOSS_WM_SOURCE (loss_key z t occ) st = Some (JDoc (JObj row)))"

definition losses_settled :: "zone \<Rightarrow> nat \<Rightarrow> int \<Rightarrow> task \<Rightarrow> store \<Rightarrow> bool" where
  "losses_settled z now since t st \<longleftrightarrow>
     (\<forall>hours occ. lost_window z now since t hours occ \<longrightarrow> wm_get WINDOW_LOSS_WM_SOURCE (loss_key z t occ) st \<noteq> None)"

lemma loss_witness_keeps: "loss_witness z now since since_t t row st \<Longrightarrow> wm_keeps st st' \<Longrightarrow> loss_witness z now since since_t t row st'"
  unfolding loss_witness_def wm_keeps_def by blast

lemma loss_witness_set:
  "lost_window z now since t hours occ \<Longrightarrow> loss_witness z now since since_t t (loss_row now since_t t hours occ)
     (wm_set now WINDOW_LOSS_WM_SOURCE (loss_key z t occ) (JDoc (JObj (loss_row now since_t t hours occ))) st)"
  unfolding loss_witness_def by (intro exI [of _ hours] exI [of _ occ]) (simp add: wm_get_set)

lemma losses_settled_keeps: "losses_settled z now since t st \<Longrightarrow> wm_keeps st st' \<Longrightarrow> losses_settled z now since t st'"
  unfolding losses_settled_def wm_keeps_def by blast

lemma task_losses_grew:
  "grew (loss_witness z now since since_t t) acc (task_losses z now since_t since t acc)
   \<and> losses_settled z now since t (snd (task_losses z now since_t since t acc))"
proof (cases "strip (field_text t ''status'') = ''up_next'' \<and> parked_declaration t = [] \<and> window_hours t \<noteq> None
    \<and> (truthy (dict_get t ''last_run'') \<longrightarrow> stamp t ''last_run'' \<noteq> None)")
  case True
  then obtain hours where hours: "window_hours t = Some hours" by blast
  let ?R = "\<lambda>occ st. occurrence_lost (int now) since (stamp t ''last_run'') occ \<longrightarrow> wm_get WINDOW_LOSS_WM_SOURCE (loss_key z t occ) st \<noteq> None"
  let ?f = "record_loss z now since_t since t hours"
  have eq: "task_losses z now since_t since t acc = fold ?f (window_occurrences z hours (int now)) acc"
    using True hours by (auto simp: task_losses_def)
  have step: "grew (loss_witness z now since since_t t) acc (?f occ acc) \<and> ?R occ (snd (?f occ acc))" if occ: "occ \<in> set (window_occurrences z hours (int now))" for occ acc
  proof -
    obtain w st where acc: "acc = (w, st)" by (cases acc)
    have "lost_window z now since t hours occ" if "occurrence_lost (int now) since (stamp t ''last_run'') occ"
      using True hours occ that by (simp add: lost_window_def)
    then show ?thesis
      by (auto simp: acc record_loss_def Let_def loss_key_def [symmetric] grew_def wm_get_set wm_keeps_set loss_witness_set)
  qed
  have R_keeps: "?R occ st \<Longrightarrow> wm_keeps st st' \<Longrightarrow> ?R occ st'" for occ st st' unfolding wm_keeps_def by blast
  have "grew (loss_witness z now since since_t t) acc (fold ?f (window_occurrences z hours (int now)) acc)
      \<and> (\<forall>occ \<in> set (window_occurrences z hours (int now)). ?R occ (snd (fold ?f (window_occurrences z hours (int now)) acc)))"
    by (rule grew_fold [where Q = ?R, OF step loss_witness_keeps R_keeps])
  then show ?thesis unfolding eq losses_settled_def by (auto simp: lost_window_def hours)
next
  case False
  then have "task_losses z now since_t since t acc = acc" by (auto simp: task_losses_def split: option.split)
  then show ?thesis using False by (auto simp: grew_def losses_settled_def lost_window_def)
qed

text \<open>
  C31. The ledger of lost windows is complete, witnessed and written once. While an operator hold stands since
  \<open>since\<close>, a pass leaves a record for every window the hold covered and in which its task did not run; every record
  it writes is of such a window; and no watermark that was there is changed.
\<close>

theorem lost_windows_recorded_once:
  assumes "ps_paused (operator_pause_state now st)" "ps_since (operator_pause_state now st) = Some since_t"
    and "parse_iso (JStr since_t) = Some since" "window_losses z now board st = (rows, st')"
  shows "(\<forall>src key v. wm_get src key st = Some v \<longrightarrow> wm_get src key st' = Some v)
    \<and> (\<forall>t \<in> set board. \<forall>hours occ. lost_window z now since t hours occ \<longrightarrow> wm_get WINDOW_LOSS_WM_SOURCE (loss_key z t occ) st' \<noteq> None)
    \<and> (\<forall>row \<in> set rows. \<exists>t \<in> set board. \<exists>hours occ. lost_window z now since t hours occ \<and> row = loss_row now since_t t hours occ
         \<and> wm_get WINDOW_LOSS_WM_SOURCE (loss_key z t occ) st' = Some (JDoc (JObj row)))"
proof -
  let ?P = "\<lambda>row st. \<exists>t \<in> set board. loss_witness z now since since_t t row st"
  have "grew ?P acc (task_losses z now since_t since t acc) \<and> losses_settled z now since t (snd (task_losses z now since_t since t acc))"
    if "t \<in> set board" for t acc
    using task_losses_grew [of z now since since_t t acc] that unfolding grew_def by blast
  then have "grew ?P ([], st) (fold (task_losses z now since_t since) board ([], st))
      \<and> (\<forall>t \<in> set board. losses_settled z now since t (snd (fold (task_losses z now since_t since) board ([], st))))"
    by (rule grew_fold) (blast intro: loss_witness_keeps losses_settled_keeps)+
  moreover have "fold (task_losses z now since_t since) board ([], st) = (rows, st')"
    using assms by (simp add: window_losses_def)
  ultimately show ?thesis by (simp add: grew_def wm_keeps_def losses_settled_def loss_witness_def)
qed

lemma catch_up_owed:
  assumes "window_catch_up_row now rows t = Inr (Some row)"
  shows "\<exists>close. parse_iso (dict_get row ''window_close'') = Some close \<and> (case stamp t ''last_run'' of None \<Rightarrow> True | Some run \<Rightarrow> run < close)"
proof -
  from assms obtain found where "loss_for rows (dict_get t ''id'') = Inr found" and
    f: "Some row = (case found of None \<Rightarrow> None | Some row \<Rightarrow>
            if row = [] \<or> \<not> truthy (dict_get row ''pause_since'') then None
            else (case parse_iso (dict_get row ''window_close'') of None \<Rightarrow> None
              | Some close \<Rightarrow>
                  if delta (either (frequency_interval_seconds t) (2 * 86400)) < now - close then None
                  else if (case stamp t ''last_run'' of None \<Rightarrow> True | Some run \<Rightarrow> run < close) then Some row else None))"
    unfolding window_catch_up_row_def map_sum_Inr by (auto simp: map_sum_Inr split: if_splits)
  then show ?thesis
    by (cases found; cases "parse_iso (dict_get row ''window_close'')")
      (simp_all split: if_splits option.splits)
qed

text \<open>
  A lost window is caught up at most once: after a success of the task, whatever the ledger holds, the
  task is granted a run outside its hours only for a window that closes after that success.
\<close>

theorem catch_up_spent:
  assumes "distinct (map fst t)" "in_range now" "window_catch_up_row later rows (record_success z now t) = Inr (Some row)"
  shows "\<exists>close. parse_iso (dict_get row ''window_close'') = Some close \<and> int now < close"
proof -
  have "dict_get (record_success z now t) ''last_run'' = JStr (iso_utc now)"
    using assms(1) by (simp add: record_success_def Let_def field_after split: option.split)
  then have "stamp (record_success z now t) ''last_run'' = Some (int now)" using assms(2) by (simp add: stamp_def parse_iso_utc_json)
  then show ?thesis using catch_up_owed [OF assms(3)] by simp
qed

section \<open>The verdict of a run\<close>

lemma run_output_reads:
  "dict_get (run_output task_id d r) ''skipped'' = JNull" "dict_get (run_output task_id d r) ''claims'' = (case rr_claims r of None \<Rightarrow> JNull | Some vs \<Rightarrow> JArr vs)"
  "dict_get (run_output task_id d r) ''status'' = JStr (if rr_status r \<noteq> [] then rr_status r else if rr_success r then ''success'' else ''failed'')"
  by (simp_all add: run_output_def dict_get_def split: option.split)

text \<open>
  C32. The verdict of a run reaches its record. Of an item whose \<open>execute\<close> returned, the pool records \<open>skipped\<close> and no
  claims if the task's model pin was refused, and else the verdict and the claims of a run of that task: a run is
  recorded as a success only if \<open>run_task\<close> said so, and has a bundle exactly when \<open>run_task\<close> sent one.
\<close>

theorem run_verdict_recorded:
  assumes "execute refusal polls run d it = Inr out" "normalize_result it (JObj out) = Inr n"
    and known: "\<forall>i r. run i = Inr r \<longrightarrow> rr_status r = [] \<or> rr_status r \<in> set RUN_STATUSES"
  shows "(\<exists>task_id why. payload_get it ''task_id'' = Inr task_id \<and> refusal task_id = Some why \<and> n_status n = ''skipped'' \<and> n_claims n = None)
    \<or> (\<exists>task_id i r. payload_get it ''task_id'' = Inr task_id \<and> int_of task_id = Inr i \<and> run i = Inr r \<and> n_claims n = rr_claims r
        \<and> n_status n = (if rr_status r \<noteq> [] then rr_status r else if rr_success r then ''success'' else ''failed''))"
proof -
  have n: "n_status n = result_status out" "n_claims n = (case dict_get out ''claims'' of JArr vs \<Rightarrow> Some vs | _ \<Rightarrow> None)"
    using assms(2) by (auto simp: normalize_result_def Let_def split: sum.splits)
  from assms(1) consider task_id why where "payload_get it ''task_id'' = Inr task_id" "refusal task_id = Some why" "out = refused_result task_id why"
    | task_id i r where "payload_get it ''task_id'' = Inr task_id" "int_of task_id = Inr i" "run i = Inr r" "out = run_output task_id d r"
    by (auto simp: execute_def map_sum_Inr split: sum.splits if_splits option.splits)
  then show ?thesis
  proof cases
    case 1
    then show ?thesis using n by (simp add: refused_result_def result_status_def RUN_STATUSES_def dict_get_def)
  next
    case 2
    have "rr_status r = [] \<or> rr_status r \<in> set RUN_STATUSES" using known 2(3) by blast
    then have "n_status n = (if rr_status r \<noteq> [] then rr_status r else if rr_success r then ''success'' else ''failed'')"
      using n(1) by (auto simp: 2(4) result_status_def run_output_reads RUN_STATUSES_def)
    moreover have "n_claims n = rr_claims r" using n(2) by (simp add: 2(4) run_output_reads split: option.split)
    ultimately show ?thesis using 2 by blast
  qed
qed

section \<open>Instances\<close>

definition ready_env :: source_env where
  "ready_env = \<lparr>se_primary_ok = True, se_probe_down = None, se_pin_refused = (\<lambda>_. False), se_url = (\<lambda>_. ''primary''), se_healthy = (\<lambda>_. True)\<rparr>"

theorem tick_enqueues_due_witness:
  "tr_error (enqueue_if_due ready_env (quiet_env 0) T0 new_source [upstream_task] demo) = None
   \<and> has_live ''scheduled-task:7'' (tr_store (enqueue_if_due ready_env (quiet_env 0) T0 new_source [upstream_task] demo))"
proof -
  have "recover_stuck_tasks T0 [upstream_task] = (None, [], [upstream_task])"
    by (simp add: recover_task_def upstream_task_fields strip_def lstrip_def rstrip_def is_space_def)
  moreover have "dispatchable ready_env upstream_task" "task_key upstream_task = ''scheduled-task:7''"
    by (simp_all add: dispatchable_def ready_env_def task_key_def upstream_task_def dict_get_def py_str_def)
  moreover have "se_primary_ok ready_env" by (simp add: ready_env_def)
  ultimately show ?thesis
    using tick_enqueues_due [OF demo_inv _ _ upstream_dispatched, of T0 "[upstream_task]" "[]" ready_env new_source] by auto
qed

lemma night_succeeds:
  "dict_get (record_success utc_zone 5 night_task) ''id'' = JStr ''3''" "window_hours (record_success utc_zone 5 night_task) = Some [0, 1, 23]"
  "frequency_interval_seconds (record_success utc_zone 5 night_task) = Some 86400"
  "stamp (record_success utc_zone 5 night_task) ''last_run'' = Some 5"
proof -
  have d: "distinct (map fst night_task)" by (simp add: night_task_def)
  have read: "dict_get (record_success utc_zone 5 night_task) k = dict_get night_task k"
    if "k \<notin> set [''status'', ''last_run'', ''last_attempt'', ''updated'', ''failure_count'', ''infra_failure_count'', ''infra_rest_until'', ''next_run'']"
      "\<not> startswith k ''_''" for k
    using that d by (simp add: record_success_def Let_def field_after split: option.split)
  show "dict_get (record_success utc_zone 5 night_task) ''id'' = JStr ''3''" by (simp add: read) (simp add: night_task_def dict_get_def)
  show "window_hours (record_success utc_zone 5 night_task) = Some [0, 1, 23]"
    by (rule night_window) (simp add: read startswith_def, simp add: night_task_def dict_get_def)
  show "frequency_interval_seconds (record_success utc_zone 5 night_task) = Some 86400"
    by (rule daily) (simp_all add: read startswith_def, simp_all add: night_task_def dict_get_def)
  have "dict_get (record_success utc_zone 5 night_task) ''last_run'' = JStr (iso_utc 5)"
    using d by (simp add: record_success_def Let_def field_after split: option.split)
  then show "stamp (record_success utc_zone 5 night_task) ''last_run'' = Some 5" using parse_iso_utc_json [of 5] by (simp add: stamp_def)
qed

theorem catch_up_spent_witness:
  "\<exists>row. window_catch_up_row 8 [(3, [(''pause_since'', JStr ''x''), (''window_close'', JStr (iso_utc 7))])]
      (record_success utc_zone 5 night_task) = Inr (Some row) \<and> (\<exists>close. parse_iso (dict_get row ''window_close'') = Some close \<and> 5 < close)"
proof -
  let ?row = "[(''pause_since'', JStr ''x''), (''window_close'', JStr (iso_utc 7))]"
  have "py_int (JStr ''3'') = Some 3"
    by (simp add: py_int_def Let_def strip_def lstrip_def rstrip_def is_space_def startswith_def all_digits_def is_digit_def digits_val_def digit_val_def)
  have granted: "window_catch_up_row 8 [(3, ?row)] (record_success utc_zone 5 night_task) = Inr (Some ?row)"
  proof -
    have "dict_get ?row ''pause_since'' = JStr ''x''" "parse_iso (dict_get ?row ''window_close'') = Some 7"
      using parse_iso_utc_json [of 7] by (simp_all add: dict_get_def)
    moreover have "loss_for [(3, ?row)] (JStr ''3'') = Inr (Some ?row)" using \<open>py_int (JStr ''3'') = Some 3\<close> by (simp add: loss_for_def)
    ultimately show ?thesis by (simp add: window_catch_up_row_def night_succeeds either_def delta_whole)
  qed
  have "distinct (map fst night_task)" by (simp add: night_task_def)
  from catch_up_spent [OF this _ granted] granted show ?thesis by auto
qed

definition held_store :: store where
  "held_store = wm_set 0 PAUSE_WM_SOURCE PAUSE_WM_KEY (pause_flag True) demo"

theorem lost_windows_recorded_once_witness:
  "\<exists>rows st'. window_losses utc_zone 97200000000 [night_task] held_store = (rows, st')
     \<and> wm_get WINDOW_LOSS_WM_SOURCE (loss_key utc_zone night_task (82800000000, 93600000000)) st' \<noteq> None"
proof -
  have paused: "ps_paused (operator_pause_state 97200000000 held_store)"
      "ps_since (operator_pause_state 97200000000 held_store) = Some (iso_utc 0)"
    by (simp_all add: operator_pause_state_def held_store_def wm_read now_iso_def Let_def)
  have len: "grow (set [0, 1, 23]) 23 1 = Some 3" by (simp add: grow.simps)
  have "occurrence utc_zone [0, 1, 23] 0 23 = (82800000000, 93600000000)" using len by (simp add: occurrence_def)
  then have "(82800000000, 93600000000) \<in> set (window_occurrences utc_zone [0, 1, 23] (int 97200000000))"
    unfolding set_occurrences by (auto simp: night_openings intro!: bexI [of _ 0])
  moreover have "strip (field_text night_task ''status'') = ''up_next''" "parked_declaration night_task = []" "dict_get night_task ''last_run'' = JNull"
    by (simp_all add: night_task_def field_text_def get_or_def py_str_def strip_def lstrip_def rstrip_def is_space_def parked_declaration_def dict_get_def)
  ultimately have "lost_window utc_zone 97200000000 0 night_task [0, 1, 23] (82800000000, 93600000000)"
    by (simp add: lost_window_def night_hours stamp_def parse_iso_def parse_iso_dt_def occurrence_lost_def seconds_between_def
        WINDOW_LOSS_LOOKBACK_SECONDS_def)
  moreover obtain rows st' where r: "window_losses utc_zone 97200000000 [night_task] held_store = (rows, st')" by fastforce
  ultimately show ?thesis
    using lost_windows_recorded_once [OF paused _ r, of 0] parse_iso_utc_json [of 0] by auto
qed

definition ran_result :: run_result where
  "ran_result = \<lparr>rr_success = True, rr_status = [], rr_preview = ''ok'', rr_error = [], rr_run_id = ''run_1'', rr_meta = [], rr_claims = Some [],
     rr_grade = None, rr_alarm = JNull\<rparr>"

definition ran_item :: queue_item where
  "ran_item = \<lparr>i_id = 1, i_source = TASK_SOURCE_NAME, i_kind = ''run'', i_priority = 30, i_payload = JObj [(''task_id'', JInt 7)], i_dedup_key = None,
     i_state = Running, i_attempts = 1, i_enqueued_at = [], i_claimed_at = None, i_claimed_by = None, i_completed_at = None, i_error = None,
     i_not_before = None, i_triaged_at = None, i_triage = None\<rparr>"

theorem run_verdict_recorded_witness:
  "\<exists>out n. execute (\<lambda>_. None) [False, True] (\<lambda>_. Inr ran_result) True ran_item = Inr out \<and> normalize_result ran_item (JObj out) = Inr n
     \<and> n_claims n = Some [] \<and> n_status n = ''success''"
proof -
  let ?out = "run_output (JInt 7) True ran_result"
  have pay: "payload_get ran_item ''task_id'' = Inr (JInt 7)" by (simp add: ran_item_def payload_get_def dict_get_def)
  have out: "execute (\<lambda>_. None) [False, True] (\<lambda>_. Inr ran_result) True ran_item = Inr ?out"
    using pay by (simp add: execute_def HEALTH_POLLS_def int_of_def py_int_def)
  obtain n where n: "normalize_result ran_item (JObj ?out) = Inr n"
  proof -
    have "result_summary ?out (result_status ?out) = ''ok''" "defer_seconds_of ?out (result_status ?out) = Inr None"
      by (simp_all add: result_summary_def result_status_def run_output_def ran_result_def RUN_STATUSES_def defer_seconds_of_def dict_get_def text_or_def py_str_def)
    moreover have "dict_get ?out ''task_id'' = JStr (py_str (JInt 7))" by (simp add: run_output_def dict_get_def)
    ultimately show ?thesis using that shorten_500 [of "''ok''"] by (auto simp: normalize_result_def Let_def task_id_of_def)
  qed
  have "\<forall>i r. Inr ran_result = (Inr r :: py_error + run_result) \<longrightarrow> rr_status r = [] \<or> rr_status r \<in> set RUN_STATUSES" by (auto simp: ran_result_def)
  from run_verdict_recorded [OF out n, simplified] this out n show ?thesis by (auto simp: ran_result_def)
qed

end
