(* ===== verification/Service_Probe.thy ===== *)
theory Service_Probe
  imports Task_Source
begin

text \<open>
  The co-watcher of the services' ports (\<open>workers/service_probe.py\<close>): a streak per service that supervisord holds and
  whose port stays closed, announced once its grace has passed, and the reading of it that the dispatch
  gate alerts on. The registry, supervisord's states and the ports are arguments of a tick; the body of an
  announcement and the channels it went out on are left out.
\<close>

section \<open>Streaks\<close>

definition PRIMARY_ENGINE :: string where "PRIMARY_ENGINE = ''agent-llm-primary''"
definition DEFAULT_GRACE_S :: rat where "DEFAULT_GRACE_S = 15 * 60"
definition GRACE_S :: "(string \<times> rat) list" where "GRACE_S = [(PRIMARY_ENGINE, 30 * 60)]"
definition STOPPED :: string where "STOPPED = ''STOPPED''"

record streak =
  sk_since :: rat
  sk_state :: string
  sk_announced :: bool
  sk_announcement :: string
  sk_display :: string
  sk_port :: nat

datatype event_kind = Down | Recovered

record probe_event =
  pe_kind :: event_kind
  pe_service :: string
  pe_title :: string

record outage_view =
  ov_display :: string
  ov_port :: nat
  ov_down_seconds :: rat
  ov_announced :: bool
  ov_announcement :: string

type_synonym streaks = "string \<Rightarrow> streak option"

record probe_world =
  pw_services :: "(string \<times> string \<times> nat) list"
  pw_procs :: "string \<Rightarrow> string option"
  pw_open :: "nat \<Rightarrow> bool"

definition grace_of :: "string \<Rightarrow> rat" where
  "grace_of name = (case map_of GRACE_S name of None \<Rightarrow> DEFAULT_GRACE_S | Some g \<Rightarrow> g)"

definition recovered_event :: "string \<Rightarrow> string \<Rightarrow> nat \<Rightarrow> probe_event" where
  "recovered_event name display port =
     \<lparr>pe_kind = Recovered, pe_service = name, pe_title = display @ '' is answering on :'' @ nat_text port @ '' again''\<rparr>"

definition down_title :: "string \<Rightarrow> nat \<Rightarrow> string \<Rightarrow> string" where
  "down_title display port state = display @ '' is not serving: :'' @ nat_text port @ '' closed while supervisord says '' @ state"

definition down_event :: "string \<Rightarrow> string \<Rightarrow> nat \<Rightarrow> string \<Rightarrow> probe_event" where
  "down_event name display port state = \<lparr>pe_kind = Down, pe_service = name, pe_title = down_title display port state\<rparr>"

definition probe_service :: "rat \<Rightarrow> probe_world \<Rightarrow> string \<times> string \<times> nat \<Rightarrow> streaks \<Rightarrow> probe_event list \<times> streaks" where
  "probe_service now w = (\<lambda>(name, display, port) ks.
     if port = 0 then ([], ks)
     else let proc = pw_procs w name; state = (case proc of None \<Rightarrow> [] | Some s \<Rightarrow> s) in
     if proc = None \<or> state = STOPPED \<or> pw_open w port
     then ((case ks name of None \<Rightarrow> []
            | Some k \<Rightarrow> if sk_announced k \<and> proc \<noteq> None \<and> state \<noteq> STOPPED then [recovered_event name display port] else []),
           ks(name := None))
     else case ks name of
       None \<Rightarrow> ([], ks(name \<mapsto> \<lparr>sk_since = now, sk_state = state, sk_announced = False, sk_announcement = [],
                             sk_display = display, sk_port = port\<rparr>))
     | Some k \<Rightarrow>
         let k1 = k\<lparr>sk_state := state\<rparr> in
         if \<not> sk_announced k \<and> grace_of name \<le> now - sk_since k
         then ([down_event name display port state],
               ks(name \<mapsto> k1\<lparr>sk_announced := True, sk_announcement := down_title display port state\<rparr>))
         else ([], ks(name \<mapsto> k1)))"

fun probe_services :: "rat \<Rightarrow> probe_world \<Rightarrow> (string \<times> string \<times> nat) list \<Rightarrow> streaks \<Rightarrow> probe_event list \<times> streaks" where
  "probe_services now w [] ks = ([], ks)"
| "probe_services now w (s # ss) ks =
     (case probe_service now w s ks of (es, ks1) \<Rightarrow> case probe_services now w ss ks1 of (es', ks2) \<Rightarrow> (es @ es', ks2))"

definition seen_services :: "probe_world \<Rightarrow> string set" where
  "seen_services w = fst ` set (filter (\<lambda>(_, _, port). port \<noteq> 0) (pw_services w))"

definition probe_tick :: "rat \<Rightarrow> probe_world \<Rightarrow> streaks \<Rightarrow> probe_event list \<times> streaks" where
  "probe_tick now w ks = (case probe_services now w (pw_services w) ks of
     (es, ks') \<Rightarrow> (es, \<lambda>name. if name \<in> seen_services w then ks' name else None))"

definition outage_of :: "rat \<Rightarrow> string \<Rightarrow> streaks \<Rightarrow> outage_view option" where
  "outage_of clock name ks = (case ks name of None \<Rightarrow> None
     | Some k \<Rightarrow> Some \<lparr>ov_display = (if sk_display k = [] then name else sk_display k), ov_port = sk_port k,
         ov_down_seconds = clock - sk_since k, ov_announced = sk_announced k, ov_announcement = sk_announcement k\<rparr>)"

section \<open>One service\<close>

text \<open>A tick at which supervisord holds the service and its port is closed.\<close>

definition failing :: "string \<Rightarrow> probe_world \<Rightarrow> bool" where
  "failing name w \<longleftrightarrow> distinct (map fst (pw_services w)) \<and>
     (\<exists>display port. (name, display, port) \<in> set (pw_services w) \<and> port \<noteq> 0 \<and> \<not> pw_open w port)
     \<and> (\<exists>state. pw_procs w name = Some state \<and> state \<noteq> STOPPED)"

definition downs :: "string \<Rightarrow> probe_event list \<Rightarrow> nat" where
  "downs name es = length (filter (\<lambda>e. pe_kind e = Down \<and> pe_service e = name) es)"

lemma downs_append [simp]: "downs name (a @ b) = downs name a + downs name b" "downs name [] = 0"
  by (simp_all add: downs_def)

lemma probe_service_other:
  "probe_service now w (m, d, p) ks = (es, ks') \<Longrightarrow> m \<noteq> name \<Longrightarrow> ks' name = ks name \<and> downs name es = 0"
  by (auto simp: probe_service_def downs_def recovered_event_def down_event_def Let_def split: if_splits option.splits)

lemma probe_services_other:
  "probe_services now w ss ks = (es, ks') \<Longrightarrow> name \<notin> fst ` set ss \<Longrightarrow> ks' name = ks name \<and> downs name es = 0"
proof (induction ss arbitrary: ks es)
  case (Cons s ss)
  obtain m d p where s: "s = (m, d, p)" by (cases s)
  obtain es1 ks1 es2 where j: "probe_service now w s ks = (es1, ks1)" "probe_services now w ss ks1 = (es2, ks')" "es = es1 @ es2"
    using Cons.prems(1) by (auto split: prod.splits)
  show ?case using Cons.IH [OF j(2)] probe_service_other [OF j(1) [unfolded s]] Cons.prems(2) j(3) s by auto
qed simp

text \<open>What a failing tick does to the service's streak and how often it announces it.\<close>

definition streak_step :: "string \<Rightarrow> rat \<Rightarrow> streak option \<Rightarrow> nat \<Rightarrow> streak option \<Rightarrow> bool" where
  "streak_step name now k n k' \<longleftrightarrow> (case k of
     None \<Rightarrow> n = 0 \<and> (\<exists>s. k' = Some s \<and> sk_since s = now \<and> \<not> sk_announced s)
   | Some s \<Rightarrow> (let due = (\<not> sk_announced s \<and> grace_of name \<le> now - sk_since s) in
       n = (if due then 1 else 0) \<and> (\<exists>s'. k' = Some s' \<and> sk_since s' = sk_since s \<and> (sk_announced s' \<longleftrightarrow> sk_announced s \<or> due))))"

lemma probe_service_step:
  assumes "port \<noteq> 0" "\<not> pw_open w port" "pw_procs w name = Some state" "state \<noteq> STOPPED"
  shows "streak_step name now (ks name) (downs name (fst (probe_service now w (name, display, port) ks)))
     (snd (probe_service now w (name, display, port) ks) name)"
  using assms by (cases "ks name") (auto simp: probe_service_def streak_step_def downs_def down_event_def Let_def)

lemma probe_services_step:
  assumes "distinct (map fst ss)" "(name, display, port) \<in> set ss" "port \<noteq> 0" "\<not> pw_open w port" "pw_procs w name = Some state" "state \<noteq> STOPPED"
    and "probe_services now w ss ks = (es, ks')"
  shows "streak_step name now (ks name) (downs name es) (ks' name)"
  using assms
proof (induction ss arbitrary: ks es)
  case (Cons s ss)
  obtain m d p where s: "s = (m, d, p)" by (cases s)
  obtain es1 ks1 es2 where j: "probe_service now w s ks = (es1, ks1)" "probe_services now w ss ks1 = (es2, ks')" "es = es1 @ es2"
    using Cons.prems(7) by (auto split: prod.splits)
  show ?case
  proof (cases "s = (name, display, port)")
    case True
    then have "name \<notin> fst ` set ss" using Cons.prems(1) by simp
    then show ?thesis
      using probe_services_other [OF j(2)] probe_service_step [OF Cons.prems(3-6), of now ks display] j(1, 3) True by simp
  next
    case False
    then have "m \<noteq> name" using Cons.prems(1, 2) s by (auto simp: image_iff)
    then show ?thesis
      using probe_service_other [OF j(1) [unfolded s], of name] Cons.IH [OF _ _ Cons.prems(3-6) j(2)] Cons.prems(1, 2) False j(3) by auto
  qed
qed simp

lemma tick_step:
  assumes "failing name w" "probe_tick now w ks = (es, ks')"
  shows "streak_step name now (ks name) (downs name es) (ks' name)"
proof -
  obtain d p st where f: "distinct (map fst (pw_services w))" "(name, d, p) \<in> set (pw_services w)" "p \<noteq> 0" "\<not> pw_open w p"
    "pw_procs w name = Some st" "st \<noteq> STOPPED" using assms(1) by (auto simp: failing_def)
  obtain ks1 where ks1: "probe_services now w (pw_services w) ks = (es, ks1)" using assms(2) by (auto simp: probe_tick_def split: prod.splits)
  have "name \<in> seen_services w" using f(2, 3) by (force simp: seen_services_def)
  then have "ks' name = ks1 name" using assms(2) ks1 by (auto simp: probe_tick_def)
  then show ?thesis using probe_services_step [OF f ks1] by simp
qed

section \<open>A run of failing ticks\<close>

fun probe_run :: "(rat \<times> probe_world) list \<Rightarrow> streaks \<Rightarrow> probe_event list \<times> streaks" where
  "probe_run [] ks = ([], ks)"
| "probe_run ((now, w) # ticks) ks = (case probe_tick now w ks of (es, ks1) \<Rightarrow> case probe_run ticks ks1 of (es', ks2) \<Rightarrow> (es @ es', ks2))"

lemma run_announced:
  "\<forall>(now, w) \<in> set ticks. failing name w \<Longrightarrow> ks name = Some k \<Longrightarrow>
     \<exists>k'. snd (probe_run ticks ks) name = Some k' \<and> sk_since k' = sk_since k \<and>
       downs name (fst (probe_run ticks ks)) =
         (if \<not> sk_announced k \<and> list_ex (\<lambda>(now, _). grace_of name \<le> now - sk_since k) ticks then 1 else 0)"
proof (induction ticks arbitrary: ks k)
  case (Cons t ticks)
  obtain now w where t: "t = (now, w)" by (cases t)
  obtain es ks1 where j: "probe_tick now w ks = (es, ks1)" by fastforce
  have "failing name w" using Cons.prems(1) t by simp
  from tick_step [OF this j] Cons.prems(2) obtain k1 where k1: "ks1 name = Some k1" "sk_since k1 = sk_since k"
    "downs name es = (if \<not> sk_announced k \<and> grace_of name \<le> now - sk_since k then 1 else 0)"
    "sk_announced k1 \<longleftrightarrow> sk_announced k \<or> grace_of name \<le> now - sk_since k"
    by (auto simp: streak_step_def Let_def)
  have "\<forall>(now, w) \<in> set ticks. failing name w" using Cons.prems(1) by simp
  from Cons.IH [of ks1 k1, OF this k1(1)] show ?case using t j k1(2-4) by (auto split: prod.splits)
qed simp

text \<open>
  An outage of a service is announced once, and not before its grace: over a run of ticks at which
  supervisord holds the service and its port is closed, the probe announces it exactly once if a tick
  comes a grace after the first one, and not at all otherwise; the length it reports to the dispatch
  gate is the time since that first tick.
\<close>

theorem outage_announced_after_grace:
  assumes "failing name w" "\<forall>(now, w) \<in> set ticks. failing name w" "ks name = None" "0 < grace_of name"
  shows "downs name (fst (probe_run ((start, w) # ticks) ks)) = (if list_ex (\<lambda>(now, _). grace_of name \<le> now - start) ((start, w) # ticks) then 1 else 0)
    \<and> (\<exists>ov. outage_of clock name (snd (probe_run ((start, w) # ticks) ks)) = Some ov \<and> ov_down_seconds ov = clock - start)"
proof -
  obtain es ks1 where j: "probe_tick start w ks = (es, ks1)" by fastforce
  from tick_step [OF assms(1) j] assms(3) obtain k where k: "ks1 name = Some k" "sk_since k = start" "\<not> sk_announced k" "downs name es = 0"
    by (auto simp: streak_step_def)
  from run_announced [of ticks name ks1 k, OF assms(2) k(1)] k(2-4) j assms(4) show ?thesis
    by (auto simp: outage_of_def split: prod.splits)
qed

definition closed_world :: probe_world where
  "closed_world = \<lparr>pw_services = [(''web'', ''Web'', 80)], pw_procs = (\<lambda>_. Some ''RUNNING''), pw_open = (\<lambda>_. False)\<rparr>"

theorem outage_announced_after_grace_witness:
  "downs ''web'' (fst (probe_run [(0, closed_world), (600, closed_world), (1000, closed_world), (1100, closed_world)] (\<lambda>_. None))) = 1"
proof -
  have f: "failing ''web'' closed_world" by (simp add: failing_def closed_world_def STOPPED_def)
  have g: "grace_of ''web'' = 900" by (simp add: grace_of_def GRACE_S_def PRIMARY_ENGINE_def DEFAULT_GRACE_S_def)
  show ?thesis
    using outage_announced_after_grace [OF f, of "[(600, closed_world), (1000, closed_world), (1100, closed_world)]" "\<lambda>_. None" 0] f g by simp
qed

end
