(* ===== verification/Conversation.thy ===== *)
theory Conversation
  imports Json
begin

text \<open>
  The messages of a model turn and their size (\<open>app/compaction.py\<close>): the token estimate, the
  threshold above which a conversation is cut, the grouping into turns, and the cut that keeps whole turns.

  A message is the dictionary the harness builds, keys in insertion order. Where the code joins the
  texts of content blocks they are strings; \<open>py_str\<close> stands for the formatting of any other value, on which
  \<open>join\<close> would raise. Integers are Python's.
\<close>

type_synonym message = "(string \<times> json) list"

abbreviation NL :: string where "NL \<equiv> [CHR 0x0A]"

definition message_role :: "message \<Rightarrow> string" where
  "message_role m = (case get_or m ''role'' (JStr []) of JStr r \<Rightarrow> r | _ \<Rightarrow> [])"

section \<open>Token accounting\<close>

definition TOKENS_PER_CHAR :: int where "TOKENS_PER_CHAR = 4"
definition OUTPUT_TOKENS_RESERVED :: int where "OUTPUT_TOKENS_RESERVED = 20000"
definition TRUNCATION_BUFFER_TOKENS :: int where "TRUNCATION_BUFFER_TOKENS = 32000"
definition TURNS_TO_KEEP :: nat where "TURNS_TO_KEEP = 20"
definition FALLBACK_IMAGE_TOKENS :: int where "FALLBACK_IMAGE_TOKENS = 1500"

definition estimate_tokens :: "string \<Rightarrow> int" where
  "estimate_tokens s = (if s = [] then 0 else max 1 (int (length s) div TOKENS_PER_CHAR))"

definition tool_result_part :: "json \<Rightarrow> string list" where
  "tool_result_part b = (case b of
     JObj kvs \<Rightarrow>
       if dict_get kvs ''type'' = JStr ''text''
       then [''[tool_result: '' @ py_str (get_or kvs ''text'' (JStr [])) @ '']'']
       else [''[tool_result: '' @ dumps b @ '']'']
   | _ \<Rightarrow> [])"

definition content_part :: "json \<Rightarrow> string list" where
  "content_part b = (case b of
     JStr s \<Rightarrow> [s]
   | JObj kvs \<Rightarrow>
       (let btype = get_or kvs ''type'' (JStr []) in
        if btype = JStr ''text'' then [py_str (get_or kvs ''text'' (JStr []))]
        else if btype = JStr ''tool_use'' then
          [''[tool_call: '' @ py_str (get_or kvs ''name'' (JStr [])) @ ''('' @ dumps (get_or kvs ''input'' (JObj [])) @ '')]'']
        else if btype = JStr ''tool_result'' then
          (case get_or kvs ''content'' (JStr []) of
             JStr r \<Rightarrow> [''[tool_result: '' @ r @ '']'']
           | JArr rs \<Rightarrow> concat (map tool_result_part rs)
           | _ \<Rightarrow> [])
        else if btype = JStr ''thinking'' then [''[thinking: '' @ py_str (get_or kvs ''thinking'' (JStr [])) @ '']'']
        else if btype = JStr ''image'' then [''[image]'']
        else [dumps b])
   | _ \<Rightarrow> [py_str b])"

definition message_text :: "message \<Rightarrow> string" where
  "message_text m = (case get_or m ''content'' (JStr []) of
     JStr s \<Rightarrow> s
   | JArr bs \<Rightarrow> join NL (filter (\<lambda>p. p \<noteq> []) (concat (map content_part bs)))
   | v \<Rightarrow> py_str v)"

text \<open>The per-image figure is configuration (\<open>image_token_estimate\<close>), or the fixed one when it cannot be read.\<close>

definition image_tokens :: "int option \<Rightarrow> json \<Rightarrow> int" where
  "image_tokens per_image refs =
     (let per = (case per_image of None \<Rightarrow> FALLBACK_IMAGE_TOKENS | Some n \<Rightarrow> n)
      in case refs of JArr rs \<Rightarrow> per * int (length rs) | JObj kvs \<Rightarrow> per * int (length kvs)
         | JStr s \<Rightarrow> per * int (length s) | _ \<Rightarrow> 0)"

definition estimate_message_tokens :: "int option \<Rightarrow> message \<Rightarrow> int" where
  "estimate_message_tokens per_image m =
     (if m = [] then 0
      else let body = message_text m;
               full = (case dict_get m ''reasoning'' of
                   JStr r \<Rightarrow> if r = [] then body else body @ NL @ ''[thinking: '' @ r @ '']''
                 | _ \<Rightarrow> body)
           in estimate_tokens full + image_tokens per_image (dict_get m ''_image_refs''))"

definition estimate_conversation_tokens :: "int option \<Rightarrow> message list \<Rightarrow> string \<Rightarrow> int" where
  "estimate_conversation_tokens per_image ms system_prompt =
     estimate_tokens system_prompt + sum_list (map (estimate_message_tokens per_image) ms)"

definition truncation_threshold :: "int \<Rightarrow> int" where
  "truncation_threshold window = max 1000 (window - OUTPUT_TOKENS_RESERVED - TRUNCATION_BUFFER_TOKENS)"

definition DEFAULT_CONTEXT_WINDOW :: int where "DEFAULT_CONTEXT_WINDOW = 128000"

text \<open>\<open>get_context_window\<close> on the model's configuration entry, empty when there is none.\<close>

definition context_window_of :: "(string \<times> json) list \<Rightarrow> int" where
  "context_window_of cfg = (case dict_get cfg ''context_length'' of
     JInt n \<Rightarrow> if 0 < n then n else DEFAULT_CONTEXT_WINDOW
   | JBool True \<Rightarrow> 1
   | _ \<Rightarrow> DEFAULT_CONTEXT_WINDOW)"

section \<open>Turns\<close>

fun turns_from :: "message list \<Rightarrow> message list \<Rightarrow> message list list" where
  "turns_from current [] = (if current = [] then [] else [current])"
| "turns_from current (m # ms) =
     (if message_role m = ''user'' \<and> current \<noteq> [] then current # turns_from [m] ms
      else turns_from (current @ [m]) ms)"

definition group_into_turns :: "message list \<Rightarrow> message list list" where
  "group_into_turns ms = turns_from [] ms"

definition flatten_turns :: "message list list \<Rightarrow> message list" where
  "flatten_turns turns = concat turns"

definition split_for_summary :: "message list \<Rightarrow> nat \<Rightarrow> message list \<times> message list" where
  "split_for_summary ms keep_recent =
     (let turns = group_into_turns ms in
      if length turns \<le> keep_recent then ([], flatten_turns turns)
      else let cutoff = length turns - keep_recent
           in (flatten_turns (take cutoff turns), flatten_turns (drop cutoff turns)))"

text \<open>\<open>turns[-k:]\<close>, which is the whole list for \<open>k = 0\<close>.\<close>

definition newest :: "nat \<Rightarrow> 'a list \<Rightarrow> 'a list" where
  "newest k xs = (if k = 0 then xs else drop (length xs - k) xs)"

fun drop_oldest :: "(message list \<Rightarrow> int) \<Rightarrow> int \<Rightarrow> message list list \<Rightarrow> message list list" where
  "drop_oldest est limit (t # u # ts) =
     (if est (flatten_turns (t # u # ts)) > limit then drop_oldest est limit (u # ts) else t # u # ts)"
| "drop_oldest est limit ts = ts"

definition omission_note :: "int \<Rightarrow> int \<Rightarrow> message" where
  "omission_note tokens turns =
     [(''role'', JStr ''user''),
      (''content'', JArr [JObj [(''type'', JStr ''text''), (''text'', JStr
         (''[compaction: '' @ int_text tokens @ '' tokens of earlier conversation omitted to fit the context window. ''
          @ int_text turns @ '' turns were dropped.]''))]])]"

definition truncate_conversation ::
    "int option \<Rightarrow> message list \<Rightarrow> int \<Rightarrow> nat \<Rightarrow> string \<Rightarrow> message list \<times> int" where
  "truncate_conversation per_image ms max_tokens turns_to_keep system_prompt =
     (let est = (\<lambda>xs. estimate_conversation_tokens per_image xs system_prompt);
          current = est ms; turns = group_into_turns ms
      in if current \<le> max_tokens \<or> turns = [] then (ms, 0)
         else
           let kept = drop_oldest est max_tokens
                 (if turns_to_keep < length turns then newest turns_to_keep turns else turns);
               truncated = flatten_turns kept; dropped = current - est truncated
           in if 0 < dropped
              then (omission_note dropped (int (length turns) - int (length kept)) # truncated, dropped)
              else (truncated, dropped))"

end
