(* ===== verification/Conversation_Facts.thy ===== *)
theory Conversation_Facts
  imports Conversation
begin

text \<open>
  Facts about turns and the estimate. \<open>estimator\<close> is what the callers of an injected \<open>estimate_fn\<close> rely on:
  a message costs the same wherever it stands. The code's estimate provides it.
\<close>

section \<open>What a caller of the estimate relies on\<close>

locale estimator =
  fixes est :: "message list \<Rightarrow> int"
  assumes est_append: "est (xs @ ys) + est [] = est xs + est ys"
begin

lemma est_swap: "est (xs @ [m] @ ys) - est (xs @ [m'] @ ys) = est [m] - est [m']"
  using est_append [of xs "[m] @ ys"] est_append [of xs "[m'] @ ys"]
    est_append [of "[m]" ys] est_append [of "[m']" ys] by linarith

lemma est_update: "i < length ms \<Longrightarrow> est ms - est (ms[i := m']) = est [ms ! i] - est [m']"
  using est_swap [of "take i ms" "ms ! i" "drop (Suc i) ms" m']
  by (simp add: id_take_nth_drop [symmetric] upd_conv_take_nth_drop)

lemma est_concat: "est (concat (ts @ us)) + est [] = est (concat ts) + est (concat us)"
  by (simp add: est_append)

end

lemma estimate_append:
  "estimate_conversation_tokens k (xs @ ys) s + estimate_conversation_tokens k [] s
   = estimate_conversation_tokens k xs s + estimate_conversation_tokens k ys s"
  by (simp add: estimate_conversation_tokens_def)

interpretation convo: estimator "\<lambda>ms. estimate_conversation_tokens k ms s" for k s
  by unfold_locales (rule estimate_append)

lemma estimate_tokens_nonneg: "0 \<le> estimate_tokens s"
  by (auto simp: estimate_tokens_def max_def)

section \<open>Turns\<close>

lemma concat_turns_from: "concat (turns_from current ms) = current @ ms"
  by (induction current ms rule: turns_from.induct) auto

lemma concat_group [simp]: "concat (group_into_turns ms) = ms"
  by (simp add: group_into_turns_def concat_turns_from)

lemma turns_from_nonempty: "t \<in> set (turns_from current ms) \<Longrightarrow> t \<noteq> []"
  by (induction current ms rule: turns_from.induct) (auto split: if_splits)

lemma group_nonempty: "t \<in> set (group_into_turns ms) \<Longrightarrow> t \<noteq> []"
  unfolding group_into_turns_def by (rule turns_from_nonempty)

lemma turns_from_Nil: "turns_from current ms = [] \<longleftrightarrow> current = [] \<and> ms = []"
  by (induction current ms rule: turns_from.induct) auto

lemma group_Nil [simp]: "group_into_turns ms = [] \<longleftrightarrow> ms = []"
  by (simp add: group_into_turns_def turns_from_Nil)

definition one_turn :: "message list \<Rightarrow> bool" where
  "one_turn t \<longleftrightarrow> t \<noteq> [] \<and> list_all (\<lambda>m. message_role m \<noteq> ''user'') (tl t)"

text \<open>Every turn but the first opens with a user message, and no turn holds a second one.\<close>

lemma turns_from_shape:
  "current = [] \<or> one_turn current \<Longrightarrow>
   list_all one_turn (turns_from current ms)
   \<and> list_all (\<lambda>t. message_role (hd t) = ''user'') (tl (turns_from current ms))
   \<and> (current \<noteq> [] \<longrightarrow> (\<exists>rest. hd (turns_from current ms) = current @ rest))"
proof (induction current ms rule: turns_from.induct)
  case (1 current)
  then show ?case by auto
next
  case (2 current m ms)
  show ?case
  proof (cases "message_role m = ''user'' \<and> current \<noteq> []")
    case True
    have "one_turn [m]" by (simp add: one_turn_def)
    with 2(1) True have IH: "list_all one_turn (turns_from [m] ms)"
      "list_all (\<lambda>t. message_role (hd t) = ''user'') (tl (turns_from [m] ms))"
      "\<exists>rest. hd (turns_from [m] ms) = [m] @ rest" by auto
    obtain t ts where ts: "turns_from [m] ms = t # ts"
      using turns_from_Nil [of "[m]" ms] by (cases "turns_from [m] ms") auto
    with IH True 2(3) show ?thesis by auto
  next
    case False
    then have "one_turn (current @ [m])" using 2(3) by (cases current) (auto simp: one_turn_def)
    with 2(2) False have IH: "list_all one_turn (turns_from (current @ [m]) ms)"
      "list_all (\<lambda>t. message_role (hd t) = ''user'') (tl (turns_from (current @ [m]) ms))"
      "\<exists>rest. hd (turns_from (current @ [m]) ms) = (current @ [m]) @ rest" by auto
    with False show ?thesis by auto
  qed
qed

lemma group_shape:
  "list_all one_turn (group_into_turns ms)"
  "list_all (\<lambda>t. message_role (hd t) = ''user'') (tl (group_into_turns ms))"
  using turns_from_shape [of "[]" ms] by (simp_all add: group_into_turns_def)

text \<open>A turn after the first starts with the person's message, so a cut there orphans no tool result.\<close>

lemma cut_at_user:
  assumes "group_into_turns ms = gone @ kept" "gone \<noteq> []" "kept \<noteq> []"
  shows "message_role (hd (concat kept)) = ''user''"
proof -
  obtain t ts where kept: "kept = t # ts" using assms(3) by (cases kept) auto
  then have "t \<in> set (tl (group_into_turns ms))" using assms(1, 2) by (cases gone) auto
  then have "message_role (hd t) = ''user''" using group_shape(2) [of ms] by (auto simp: list_all_iff)
  moreover have "t \<noteq> []" using group_nonempty [of t ms] assms(1) kept by simp
  ultimately show ?thesis using kept by simp
qed

section \<open>Dropping from the front\<close>

lemma drop_oldest_suffix: "\<exists>gone. ts = gone @ drop_oldest est limit ts"
proof (induction est limit ts rule: drop_oldest.induct)
  case (1 est limit t u ts)
  then show ?case by (auto, metis append_Cons)
qed auto

lemma drop_oldest_Nil [simp]: "drop_oldest est limit ts = [] \<longleftrightarrow> ts = []"
  by (induction est limit ts rule: drop_oldest.induct) auto

lemma drop_oldest_fits:
  "ts \<noteq> [] \<Longrightarrow> length (drop_oldest est limit ts) = 1 \<or> est (concat (drop_oldest est limit ts)) \<le> limit"
  by (induction est limit ts rule: drop_oldest.induct) (auto simp: flatten_turns_def)

lemma drop_oldest_no_more:
  "ts = gone @ drop_oldest est limit ts \<Longrightarrow> gone \<noteq> [] \<Longrightarrow>
   limit < est (concat (last gone # drop_oldest est limit ts))"
proof (induction est limit ts arbitrary: gone rule: drop_oldest.induct)
  case (1 est limit t u ts)
  show ?case
  proof (cases "est (flatten_turns (t # u # ts)) > limit")
    case True
    obtain g gs where gone: "gone = g # gs" using 1(3) by (cases gone) auto
    have eq: "u # ts = gs @ drop_oldest est limit (u # ts)" "g = t"
      using 1(2) True gone by auto
    show ?thesis
    proof (cases "gs = []")
      case True2: True
      then have "drop_oldest est limit (u # ts) = u # ts" using eq by simp
      then show ?thesis using True True2 gone eq by (simp add: flatten_turns_def)
    next
      case False
      then show ?thesis using 1(1) [OF True eq(1) False] True gone by simp
    qed
  next
    case False
    then have "gone = []" using 1(2) by simp
    with 1(3) show ?thesis by simp
  qed
qed auto

lemma newest_suffix: "xs = take (length xs - length (newest k xs)) xs @ newest k xs"
  by (simp add: newest_def)

lemma newest_Nil [simp]: "newest k xs = [] \<longleftrightarrow> xs = []"
  by (cases xs) (auto simp: newest_def)

end
