(* ===== verification/Context_Spill.thy ===== *)
theory Context_Spill
  imports Conversation_Facts Evidence
begin

text \<open>
  Tool results on disk (\<open>app/harness/tool_result_spill.py\<close>): where a result is written, the
  \<open><persisted-output>\<close> block that replaces an oversized one, the sentence that says how to get the rest
  back, and the route to the session's own record.

  \<open>spill_env\<close> is what the code takes from its surroundings: the directory of the sessions, the paths the
  file system lets it write, \<open>json.loads\<close> on a text, and \<open>Path.resolve\<close> on a directory (\<open>None\<close> for an
  \<open>OSError\<close>). A path is its text; a session id is one path component. The disk maps the path of a regular file to its
  content, \<open>Json v\<close> for a file written with \<open>json.dumps(v)\<close>. \<open>dash\<close> is the em dash.
\<close>

datatype stored = Text string | Json json

type_synonym disk = "string \<Rightarrow> stored option"

record spill_env =
  sessions_dir :: string
  can_write :: "string \<Rightarrow> bool"
  loads_text :: "string \<Rightarrow> json option"
  real_dir :: "string \<Rightarrow> string option"

definition file_text :: "stored \<Rightarrow> string" where
  "file_text f = (case f of Text s \<Rightarrow> s | Json v \<Rightarrow> dumps v)"

definition file_json :: "spill_env \<Rightarrow> stored \<Rightarrow> json option" where
  "file_json env f = (case f of Text s \<Rightarrow> loads_text env s | Json v \<Rightarrow> Some v)"

section \<open>Text searches\<close>

text \<open>\<open>str.find\<close> and \<open>str.rfind\<close> on a character.\<close>

fun find_sub :: "string \<Rightarrow> string \<Rightarrow> nat option" where
  "find_sub needle [] = (if needle = [] then Some 0 else None)"
| "find_sub needle (c # cs) =
     (if startswith (c # cs) needle then Some 0 else map_option Suc (find_sub needle cs))"

definition contains :: "string \<Rightarrow> string \<Rightarrow> bool" where
  "contains s needle \<longleftrightarrow> find_sub needle s \<noteq> None"

definition rfind_char :: "char \<Rightarrow> string \<Rightarrow> nat option" where
  "rfind_char c s =
     (if c \<in> set s then Some (length s - 1 - length (takeWhile (\<lambda>x. x \<noteq> c) (rev s))) else None)"

text \<open>What follows the last \<open>__\<close>, the \<open>rsplit("__", 1)[-1]\<close> of the code.\<close>

fun after_dunder :: "string \<Rightarrow> string option" where
  "after_dunder [] = None"
| "after_dunder (c # cs) =
     (case after_dunder cs of
        Some t \<Rightarrow> Some t
      | None \<Rightarrow> if c = CHR ''_'' \<and> startswith cs ''_'' then Some (tl cs) else None)"

definition bare_tool_name :: "string \<Rightarrow> string" where
  "bare_tool_name name = (case after_dunder name of None \<Rightarrow> name | Some t \<Rightarrow> t)"

section \<open>Constants\<close>

definition SPILL_THRESHOLD_CHARS :: nat where "SPILL_THRESHOLD_CHARS = 50000"
definition PREVIEW_CHARS :: nat where "PREVIEW_CHARS = 2000"
definition PERSISTED_OUTPUT_TAG :: string where "PERSISTED_OUTPUT_TAG = ''<persisted-output>''"
definition PERSISTED_OUTPUT_CLOSING_TAG :: string where
  "PERSISTED_OUTPUT_CLOSING_TAG = ''</persisted-output>''"
definition READ_TOOL :: string where "READ_TOOL = ''Read''"
definition GREP_TOOL :: string where "GREP_TOOL = ''Grep''"
definition HEAD_ONLY_TOOLS :: "string list" where "HEAD_ONLY_TOOLS = [''http_fetch'', ''http_request'']"

section \<open>Where a result is written\<close>

definition spill_dir :: "spill_env \<Rightarrow> string \<Rightarrow> string" where
  "spill_dir env session_id = sessions_dir env @ ''/'' @ session_id @ ''.tool-results''"

definition safe_char :: "char \<Rightarrow> char" where
  "safe_char c =
     (let n = of_char c :: nat in
      if (65 \<le> n \<and> n \<le> 90) \<or> (97 \<le> n \<and> n \<le> 122) \<or> (48 \<le> n \<and> n \<le> 57) \<or> n = 95 \<or> n = 46 \<or> n = 45
      then c else CHR ''_'')"

definition safe_id :: "string \<Rightarrow> string" where
  "safe_id tool_use_id =
     (let s = take 128 (map safe_char tool_use_id) in if s = [] then ''unknown'' else s)"

definition spill_path :: "spill_env \<Rightarrow> string \<Rightarrow> string \<Rightarrow> bool \<Rightarrow> string" where
  "spill_path env session_id tool_use_id is_json =
     spill_dir env session_id @ ''/'' @ safe_id tool_use_id @ ''.'' @ (if is_json then ''json'' else ''txt'')"

definition looks_like_json :: "string \<Rightarrow> bool" where
  "looks_like_json content =
     (case lstrip content of [] \<Rightarrow> False | c # _ \<Rightarrow> c = CHR ''{'' \<or> c = CHR ''['')"

text \<open>\<open>f"{n / d:.1f}"\<close> for a power of two \<open>d\<close>: the quotient is exact, a tie rounds to even.\<close>

definition tenths :: "nat \<Rightarrow> nat \<Rightarrow> nat" where
  "tenths n d =
     (let q = 10 * n div d; r = 10 * n mod d in if d < 2 * r \<or> (2 * r = d \<and> odd q) then q + 1 else q)"

definition one_decimal :: "nat \<Rightarrow> nat \<Rightarrow> string" where
  "one_decimal n d = (let t = tenths n d in nat_text (t div 10) @ ''.'' @ nat_text (t mod 10))"

definition format_size :: "nat \<Rightarrow> string" where
  "format_size n =
     (if n < 1024 then nat_text n @ '' B''
      else if n < 1024 * 1024 then one_decimal n 1024 @ '' KB''
      else one_decimal n (1024 * 1024) @ '' MB'')"

definition generate_preview :: "string \<Rightarrow> nat \<Rightarrow> string \<times> bool" where
  "generate_preview content max_chars =
     (if length content \<le> max_chars then (content, False)
      else let head = take max_chars content;
               cut = (case rfind_char (CHR 0x0A) head of
                   Some nl \<Rightarrow> if max_chars div 2 < nl then nl else max_chars
                 | None \<Rightarrow> max_chars)
           in (take cut content, True))"

section \<open>The way back\<close>

definition tool_is_denied :: "string \<Rightarrow> string list \<Rightarrow> bool" where
  "tool_is_denied name disallowed \<longleftrightarrow>
     name \<in> set disallowed \<or> list_ex (\<lambda>t. endswith t (''__'' @ name)) disallowed"

definition recovery_with_read :: string where
  "recovery_with_read =
     ''Read the full file with the Read tool if you need more than the preview. If you don''
     @ [CHR 0x27] @ ''t actually need it all, narrow your next query (smaller hops, higher min_confidence, --glob, --type, head_limit, etc.).''
     @ NL"

definition recovery_without_read :: string where
  "recovery_without_read =
     ''The Read tool is not available on this turn, so the path above cannot be opened from here''
     @ dash @ ''do not reach for it. Re-run the call with a narrower query (smaller hops, higher min_confidence, --glob, --type, head_limit, etc.); that is the only way to see more of it from here.''
     @ NL"

definition recovery_with_read_head_only :: "string \<Rightarrow> string" where
  "recovery_with_read_head_only tool =
     ''Read the full file with the Read tool if you need more than the preview; '' @ tool
     @ '' takes no argument that selects part of its answer, so that file is the only way past the preview.'' @ NL"

definition recovery_without_read_head_only :: "string \<Rightarrow> string \<Rightarrow> string" where
  "recovery_without_read_head_only tool path =
     ''The Read tool is not available on this turn, so the path above cannot be opened from here''
     @ dash @ ''do not reach for it. '' @ tool @ '' takes no argument that selects part of its answer'' @ dash
     @ ''every one of its arguments returns less of the same text from the beginning'' @ dash
     @ ''so re-running this call cannot recover the part past this preview: '' @ path
     @ '' is the only copy of it, and nothing on this turn can open it.'' @ NL"

definition recovery_notice :: "string list \<Rightarrow> string \<Rightarrow> string \<Rightarrow> string" where
  "recovery_notice disallowed tool_name saved_path =
     (let read_denied = tool_is_denied READ_TOOL disallowed; bare = bare_tool_name tool_name in
      if bare \<in> set HEAD_ONLY_TOOLS then
        (if read_denied
         then recovery_without_read_head_only bare (if saved_path = [] then ''the saved file'' else saved_path)
         else recovery_with_read_head_only bare)
      else if read_denied then recovery_without_read else recovery_with_read)"

section \<open>Writing\<close>

text \<open>A write: the new disk, or \<open>None\<close> when the file system refuses.\<close>

definition write_file :: "spill_env \<Rightarrow> string \<Rightarrow> stored \<Rightarrow> disk \<Rightarrow> disk option" where
  "write_file env path f d = (if can_write env path then Some (d(path \<mapsto> f)) else None)"

definition saved_line :: "nat \<Rightarrow> string \<Rightarrow> string" where
  "saved_line n path =
     ''Output too large ('' @ format_size n @ '', '' @ commas n @ '' chars). Full output saved to: '' @ path"

definition spill_block :: "string \<Rightarrow> string \<Rightarrow> string list \<Rightarrow> string \<Rightarrow> string" where
  "spill_block content path disallowed tool_name =
     (let (preview, has_more) = generate_preview content PREVIEW_CHARS in
      PERSISTED_OUTPUT_TAG @ NL @ saved_line (length content) path @ NL @ NL
      @ ''Preview (first '' @ format_size PREVIEW_CHARS @ ''):'' @ NL @ preview
      @ (if has_more then NL @ ''...'' @ NL else NL)
      @ recovery_notice disallowed tool_name path @ PERSISTED_OUTPUT_CLOSING_TAG)"

definition maybe_spill ::
    "spill_env \<Rightarrow> string \<Rightarrow> string \<Rightarrow> string \<Rightarrow> string \<Rightarrow> nat \<Rightarrow> string list \<Rightarrow> disk \<Rightarrow> string \<times> disk" where
  "maybe_spill env content tool_name tool_use_id session_id threshold disallowed d =
     (if length content \<le> threshold then (content, d)
      else let path = spill_path env session_id tool_use_id (looks_like_json content) in
           case write_file env path (Text content) d of
             None \<Rightarrow> (content, d)
           | Some d' \<Rightarrow> (spill_block content path disallowed tool_name, d'))"

definition persist_for_compaction ::
    "spill_env \<Rightarrow> string \<Rightarrow> string \<Rightarrow> string \<Rightarrow> disk \<Rightarrow> string option \<times> disk" where
  "persist_for_compaction env content tool_use_id session_id d =
     (if content = [] \<or> session_id = [] \<or> tool_use_id = [] then (None, d)
      else let path = spill_path env session_id tool_use_id (looks_like_json content) in
           case write_file env path (Text content) d of None \<Rightarrow> (None, d) | Some d' \<Rightarrow> (Some path, d'))"

definition session_record_paths :: "spill_env \<Rightarrow> string \<Rightarrow> string \<times> string" where
  "session_record_paths env session_id =
     (sessions_dir env @ ''/'' @ session_id @ ''.json'', spill_dir env session_id)"

definition session_record_route :: "spill_env \<Rightarrow> disk \<Rightarrow> string \<Rightarrow> string list \<Rightarrow> string" where
  "session_record_route env d session_id disallowed =
     (if session_id = [] then []
      else let (record_path, spill) = session_record_paths env session_id; has_record = (d record_path \<noteq> None) in
        if \<not> tool_is_denied GREP_TOOL disallowed then
          ''This session'' @ [CHR 0x27] @ ''s own record is on disk: Grep ''
          @ (if has_record then record_path @ '' (the conversation) and '' @ spill @ ''/ (every spilled or cleared result)''
             else spill @ ''/'')
          @ '' for a phrase you no longer have in context.''
        else if \<not> tool_is_denied READ_TOOL disallowed \<and> has_record then
          ''This session'' @ [CHR 0x27] @ ''s own record is on disk at '' @ record_path
          @ ''; Read it for text you no longer have in context.''
        else [])"

definition fallback_for_empty_result :: "string option \<Rightarrow> string \<Rightarrow> string" where
  "fallback_for_empty_result content tool_name =
     (case content of
        Some s \<Rightarrow> if strip s = [] then ''('' @ bare_tool_name tool_name @ '' completed with no output)'' else s
      | None \<Rightarrow> ''('' @ bare_tool_name tool_name @ '' completed with no output)'')"

end
