(* ===== verification/Microcompact.thy ===== *)
theory Microcompact
  imports Context_Spill
begin

text \<open>
  The pass that clears stale tool results out of the prompt (\<open>app/harness/microcompact.py\<close>): which results may
  go, in which order and how many, what each leaves behind, and the file its content is written to first.

  Ids, names and texts are strings (\<open>str_of\<close>); a result of another type does not occur in what the harness
  builds. \<open>estimate_fn\<close> is the caller's, and with no budget there is none. The pass returns the messages,
  the number of clears, the ids of the results reduced to their header, the ids cleared, and the disk.
\<close>

section \<open>Reading a message\<close>

definition message_call :: "message \<Rightarrow> string" where
  "message_call m = str_of (py_or (dict_get m ''tool_call_id'') (py_or (dict_get m ''call_id'') (JStr [])))"

definition text_blocks :: "json \<Rightarrow> string list" where
  "text_blocks b = (case b of
     JObj kvs \<Rightarrow> if dict_get kvs ''type'' = JStr ''text'' then [str_of (get_or kvs ''text'' (JStr []))] else []
   | JStr s \<Rightarrow> [s] | _ \<Rightarrow> [])"

definition tool_result_text :: "message \<Rightarrow> string" where
  "tool_result_text m = (case get_or m ''content'' (JStr []) of
     JStr s \<Rightarrow> s
   | JArr bs \<Rightarrow> join NL (concat (map text_blocks bs))
   | _ \<Rightarrow> [])"

text \<open>\<open>tc_id_to_name\<close> and \<open>tc_id_to_args\<close>: a later call of the same id wins.\<close>

definition call_entry :: "json \<Rightarrow> (string \<times> string \<times> json) list" where
  "call_entry tc =
     (let kvs = obj_items tc; cid = str_of (py_or (dict_get kvs ''id'') (dict_get kvs ''call_id''));
          fn = obj_items (dict_get kvs ''function'');
          name = str_of (py_or (dict_get fn ''name'') (py_or (dict_get kvs ''name'') (JStr [])))
      in if cid = [] then [] else [(cid, name, get_or fn ''arguments'' (dict_get kvs ''arguments''))])"

definition calls_of :: "message list \<Rightarrow> (string \<times> string \<times> json) list" where
  "calls_of ms = concat (map (\<lambda>m. if message_role m = ''assistant''
     then concat (map call_entry (json_items (dict_get m ''tool_calls''))) else []) ms)"

definition call_named :: "(string \<times> string \<times> json) list \<Rightarrow> string \<Rightarrow> string \<times> json" where
  "call_named calls cid = (case map_of (rev calls) cid of None \<Rightarrow> ([], JNull) | Some p \<Rightarrow> p)"

section \<open>Markers\<close>

definition CLEARED_MARKER :: string where
  "CLEARED_MARKER = ''[Old tool result content cleared'' @ dash @ ''retrieve via Read if needed]''"
definition PREVIEW_DROPPED :: string where
  "PREVIEW_DROPPED = ''[preview dropped'' @ dash @ ''Read the path above for the full content]''"
definition OBSERVATION_STUB_PREFIX :: string where "OBSERVATION_STUB_PREFIX = ''[observation ''"
definition SAVED_TO :: string where "SAVED_TO = ''Full output saved to: ''"
definition DEFAULT_MIN_CHARS_TO_CLEAR :: int where "DEFAULT_MIN_CHARS_TO_CLEAR = 2000"
definition DEFAULT_KEEP_RECENT_TOOLS :: int where "DEFAULT_KEEP_RECENT_TOOLS = 15"
definition DEFAULT_OBSERVATION_HEAD_CHARS :: int where "DEFAULT_OBSERVATION_HEAD_CHARS = 400"
definition DEFAULT_COMPACTABLE_TOOLS :: "string list" where
  "DEFAULT_COMPACTABLE_TOOLS = [''Read'', ''Bash'', ''Grep'', ''Glob'', ''Edit'', ''Write'']"
definition DEFAULT_NON_COMPACTABLE :: "string list" where
  "DEFAULT_NON_COMPACTABLE =
     [''TodoWrite'', ''ToolSearch'', ''EnterPlanMode'', ''ExitPlanMode'', ''SetGoal'', ''ClearGoal'']"

text \<open>The digest of the arguments of a call.\<close>

definition clip_digest :: "nat \<Rightarrow> string \<Rightarrow> string" where
  "clip_digest cap s = (if length s \<le> cap then s else take (cap - 3) s @ ''...'')"

definition args_text :: "json \<Rightarrow> string" where
  "args_text v = (case v of
     JObj kvs \<Rightarrow> join '' '' (map (\<lambda>k. k @ ''='' @ py_repr (dict_get kvs k))
        (filter (\<lambda>k. k \<noteq> ''description'' \<and> dict_get kvs k \<noteq> JNull \<and> dict_get kvs k \<noteq> JStr [])
           (order_by text_le (map fst kvs))))
   | _ \<Rightarrow> if truthy v then py_str v else [])"

definition args_digest :: "spill_env \<Rightarrow> json \<Rightarrow> string" where
  "args_digest env raw = (case raw of
     JStr s \<Rightarrow> (case loads_text env s of
         None \<Rightarrow> clip_digest 120 (squash s)
       | Some v \<Rightarrow> clip_digest 120 (squash (args_text v)))
   | _ \<Rightarrow> clip_digest 120 (squash (args_text raw)))"

definition cleared_marker ::
    "spill_env \<Rightarrow> string \<Rightarrow> json \<Rightarrow> nat \<Rightarrow> string option \<Rightarrow> bool \<Rightarrow> string \<Rightarrow> string" where
  "cleared_marker env tool_name raw_args n path read_denied route =
     (if tool_name = [] then CLEARED_MARKER
      else let head = strip (tool_name @ '' '' @ args_digest env raw_args);
               tail = (if route \<noteq> [] \<and> path \<noteq> None then '' '' @ route else [])
           in case path of
                Some p \<Rightarrow>
                  if read_denied then
                    ''['' @ head @ dash @ commas n @ '' chars cleared from context; full content at '' @ p
                    @ ''. The Read tool is not available on this turn, so that path cannot be opened from here''
                    @ dash @ ''re-run the call with a narrower query for the part you need.'' @ tail @ '']''
                  else
                    ''['' @ head @ dash @ commas n @ '' chars cleared from context; full content at '' @ p
                    @ ''. Read that path if you need it again.'' @ tail @ '']''
              | None \<Rightarrow>
                  ''['' @ head @ dash @ commas n
                  @ '' chars of output cleared from context. Re-run the call if you need it again.]'')"

definition is_cleared_stub :: "string \<Rightarrow> bool" where
  "is_cleared_stub s \<longleftrightarrow> startswith s OBSERVATION_STUB_PREFIX
     \<or> (contains s PERSISTED_OUTPUT_TAG \<and> contains s PREVIEW_DROPPED)"

definition persisted_block_only :: "string \<Rightarrow> string" where
  "persisted_block_only s = (case find_sub PERSISTED_OUTPUT_TAG s of
     None \<Rightarrow> s
   | Some start \<Rightarrow>
       if is_cleared_stub s then s
       else join NL (filter (\<lambda>ln. strip ln \<noteq> []) (take 3 (splitlines (drop start s)))) @ NL @ PREVIEW_DROPPED)"

definition pointer_path :: "string \<Rightarrow> string" where
  "pointer_path s = (case find_sub SAVED_TO s of
     None \<Rightarrow> []
   | Some pos \<Rightarrow> strip (takeWhile (\<lambda>c. c \<noteq> CHR 0x0A) (drop (pos + length SAVED_TO) s)))"

section \<open>Observation stubs\<close>

text \<open>The group of \<open>([0-9][0-9,]*) chars\)\<close> at its leftmost match.\<close>

fun size_match :: "string \<Rightarrow> string option" where
  "size_match [] = None"
| "size_match (c # cs) =
     (let run = takeWhile (\<lambda>x. is_digit x \<or> x = CHR '','') cs in
      if is_digit c \<and> startswith (drop (length run) cs) '' chars)'' then Some (c # run) else size_match cs)"

definition pointer_size :: "disk \<Rightarrow> string \<Rightarrow> string \<Rightarrow> nat" where
  "pointer_size d s pointer = (case size_match s of
     Some g \<Rightarrow> nat (digits_val (filter (\<lambda>c. c \<noteq> CHR '','') g))
   | None \<Rightarrow> (case d pointer of None \<Rightarrow> 0 | Some f \<Rightarrow> length (file_text f)))"

definition preview_end :: "string \<Rightarrow> string" where
  "preview_end body = (case find_sub (NL @ ''...'' @ NL) body of
     Some n \<Rightarrow> take n body
   | None \<Rightarrow> (case find_sub (NL @ ''Read the full file'') body of
       Some n \<Rightarrow> take n body
     | None \<Rightarrow> (case find_sub (NL @ ''The Read tool is not'') body of
         Some n \<Rightarrow> take n body
       | None \<Rightarrow> body)))"

definition pointer_preview :: "string \<Rightarrow> string" where
  "pointer_preview s = (case find_sub ''Preview (first '' s of
     None \<Rightarrow> []
   | Some pos \<Rightarrow> (case find_sub NL (drop pos s) of
       None \<Rightarrow> []
     | Some k \<Rightarrow> preview_end (drop (pos + k + 1) s)))"

definition path_name :: "string \<Rightarrow> string" where
  "path_name p = (case rfind_char (CHR ''/'') p of None \<Rightarrow> p | Some i \<Rightarrow> drop (i + 1) p)"

definition path_parent :: "string \<Rightarrow> string" where
  "path_parent p = (case rfind_char (CHR ''/'') p of
     None \<Rightarrow> ''.'' | Some i \<Rightarrow> if i = 0 then ''/'' else take i p)"

definition path_stem :: "string \<Rightarrow> string" where
  "path_stem p =
     (let name = path_name p in
      case rfind_char (CHR ''.'') name of
        None \<Rightarrow> name | Some i \<Rightarrow> if 0 < i \<and> i + 1 < length name then take i name else name)"

definition observation_id_for_path :: "spill_env \<Rightarrow> string \<Rightarrow> string \<Rightarrow> string" where
  "observation_id_for_path env path session_id =
     (if path = [] \<or> session_id = [] then []
      else case (real_dir env (path_parent path), real_dir env (spill_dir env session_id)) of
             (Some a, Some b) \<Rightarrow> if a = b then path_stem path else []
           | _ \<Rightarrow> [])"

definition ellipsis :: string where "ellipsis = [CHR 0x85]"

definition observation_stub ::
    "spill_env \<Rightarrow> string \<Rightarrow> string \<Rightarrow> json \<Rightarrow> nat \<Rightarrow> string \<Rightarrow> int \<Rightarrow> string \<Rightarrow> string" where
  "observation_stub env obs_id tool_name raw_args n head_src head_chars route =
     (let head = fst (generate_preview head_src (nat head_chars));
          named = strip (tool_name @ '' '' @ args_digest env raw_args);
          call = (if named = [] then ''tool result'' else named);
          lines =
            [OBSERVATION_STUB_PREFIX @ obs_id @ dash @ call @ dash @ commas n
               @ '' chars cleared from context. Its first '' @ commas (length head) @ '' chars, verbatim:'',
             head,
             ellipsis @ '' recall_observation(id='' @ [CHR 0x22] @ obs_id @ [CHR 0x22] @ '') returns the full text.'']
      in join NL (if route = [] then lines else lines @ [route]) @ '']'')"

section \<open>Replacing a result\<close>

definition dict_pop :: "string \<Rightarrow> message \<Rightarrow> message" where
  "dict_pop k m = filter (\<lambda>(k', v). k' \<noteq> k) m"

definition evicted_ref :: "json \<Rightarrow> json" where
  "evicted_ref r = (case r of JObj kvs \<Rightarrow> JObj (dict_set kvs ''evicted'' (JBool True)) | _ \<Rightarrow> r)"

definition replace_tool_content :: "message \<Rightarrow> string \<Rightarrow> message" where
  "replace_tool_content m new_text =
     (let out = dict_pop ''_image_refs'' m;
          out2 = (case dict_get m ''images'' of
              JArr rs \<Rightarrow> dict_set out ''images'' (JArr (map evicted_ref rs)) | _ \<Rightarrow> out)
      in case dict_get m ''content'' of
           JStr _ \<Rightarrow> dict_set out2 ''content'' (JStr new_text)
         | _ \<Rightarrow> dict_set out2 ''content'' (JArr [JObj [(''type'', JStr ''text''), (''text'', JStr new_text)]]))"

section \<open>The pass\<close>

record pass_options =
  keep_recent_tools :: int
  count_threshold :: nat
  compactable_tools :: "string list"
  token_budget :: "int option"
  estimate_fn :: "(message list \<Rightarrow> int) option"
  min_chars_to_clear :: int
  session_id :: string
  legacy_count_rule :: bool
  disallowed_tools :: "string list"
  non_compactable_tools :: "string list option"
  observation_stubs :: bool
  observation_head_chars :: int
  name_session_record :: bool
  already_cleared :: "string list"

record pass_result =
  out_messages :: "message list"
  out_cleared :: nat
  out_reduced :: "string list"
  out_cleared_calls :: "string list"
  out_disk :: disk

definition is_compactable_tool_call :: "string \<Rightarrow> string list \<Rightarrow> string list option \<Rightarrow> bool" where
  "is_compactable_tool_call name allow deny \<longleftrightarrow> name \<noteq> [] \<and>
     (case deny of
        Some ds \<Rightarrow> name \<notin> set ds \<and> bare_tool_name name \<notin> set ds
      | None \<Rightarrow> name \<in> set allow \<or> bare_tool_name name \<in> set allow)"

definition compactable :: "pass_options \<Rightarrow> (string \<times> string \<times> json) list \<Rightarrow> message \<Rightarrow> bool" where
  "compactable opts calls m \<longleftrightarrow> message_role m = ''tool'' \<and>
     is_compactable_tool_call (fst (call_named calls (message_call m))) (compactable_tools opts)
       (non_compactable_tools opts)"

definition compactable_indices :: "pass_options \<Rightarrow> message list \<Rightarrow> nat list" where
  "compactable_indices opts ms =
     (let calls = calls_of ms in filter (\<lambda>i. compactable opts calls (ms ! i)) [0..<length ms])"

definition stale_candidates :: "pass_options \<Rightarrow> message list \<Rightarrow> nat list" where
  "stale_candidates opts ms =
     (let idxs = compactable_indices opts ms; cutoff = length idxs - nat (keep_recent_tools opts)
      in filter (\<lambda>i. \<not> is_cleared_stub (tool_result_text (ms ! i))) (take cutoff idxs))"

definition sizeable :: "pass_options \<Rightarrow> message list \<Rightarrow> nat list" where
  "sizeable opts ms =
     filter (\<lambda>i. min_chars_to_clear opts \<le> int (length (tool_result_text (ms ! i)))) (stale_candidates opts ms)"

definition stubs_on :: "pass_options \<Rightarrow> bool" where
  "stubs_on opts \<longleftrightarrow> observation_stubs opts \<and> session_id opts \<noteq> []"

definition stand_in :: "pass_options \<Rightarrow> string" where
  "stand_in opts =
     (if stubs_on opts then CLEARED_MARKER @ replicate (nat (observation_head_chars opts) + 200) (CHR '' '')
      else CLEARED_MARKER)"

definition saving :: "(message list \<Rightarrow> int) \<Rightarrow> string \<Rightarrow> message \<Rightarrow> int" where
  "saving est marker m = est [m] - est [replace_tool_content m marker]"

text \<open>The budget rule: oldest first, skipping what would not save, until the estimate fits.\<close>

fun choose_until :: "(nat \<Rightarrow> int) \<Rightarrow> int \<Rightarrow> int \<Rightarrow> nat list \<Rightarrow> nat list" where
  "choose_until saved budget current [] = []"
| "choose_until saved budget current (i # is) =
     (if saved i \<le> 0 then choose_until saved budget current is
      else i # (if current - saved i \<le> budget then [] else choose_until saved budget (current - saved i) is))"

definition chosen_by_rule :: "pass_options \<Rightarrow> message list \<Rightarrow> nat list" where
  "chosen_by_rule opts ms =
     (case (token_budget opts, estimate_fn opts) of
        (Some budget, Some est) \<Rightarrow>
          if budget < est ms
          then choose_until (\<lambda>i. saving est (stand_in opts) (ms ! i)) budget (est ms) (sizeable opts ms)
          else []
      | _ \<Rightarrow> if legacy_count_rule opts \<and> count_threshold opts < length (compactable_indices opts ms)
             then sizeable opts ms else [])"

definition to_clear :: "pass_options \<Rightarrow> message list \<Rightarrow> nat list" where
  "to_clear opts ms =
     chosen_by_rule opts ms
     @ filter (\<lambda>i. contains (tool_result_text (ms ! i)) PERSISTED_OUTPUT_TAG) (stale_candidates opts ms)"

text \<open>
  One chosen row: \<open>None\<close> leaves it as it is; otherwise the new message and whether it is the reduction to
  the header alone, which the next turn can redo from the id.
\<close>

definition clear_spilled ::
    "spill_env \<Rightarrow> pass_options \<Rightarrow> (string \<times> string \<times> json) list \<Rightarrow> string \<Rightarrow> disk \<Rightarrow> message
     \<Rightarrow> (message \<times> bool) option" where
  "clear_spilled env opts calls route d m =
     (let s = tool_result_text m; (tool_name, raw_args) = call_named calls (message_call m);
          pointer = pointer_path s;
          obs_id = (if stubs_on opts then observation_id_for_path env pointer (session_id opts) else []);
          (new_text, header_only) =
            (if obs_id \<noteq> [] then
               (observation_stub env obs_id tool_name raw_args (pointer_size d s pointer) (pointer_preview s)
                  (observation_head_chars opts) route, False)
             else if route \<noteq> [] then (persisted_block_only s @ '' '' @ route, False)
             else (persisted_block_only s, True))
      in if new_text = s then None else Some (replace_tool_content m new_text, header_only))"

definition clear_fresh ::
    "spill_env \<Rightarrow> pass_options \<Rightarrow> (string \<times> string \<times> json) list \<Rightarrow> string \<Rightarrow> disk \<Rightarrow> message
     \<Rightarrow> message option \<times> disk" where
  "clear_fresh env opts calls route d m =
     (let s = tool_result_text m; cid = message_call m; (tool_name, raw_args) = call_named calls cid;
          read_denied = tool_is_denied READ_TOOL (disallowed_tools opts);
          finish = (\<lambda>path.
            let obs_id = (case path of Some p \<Rightarrow>
                    if stubs_on opts then observation_id_for_path env p (session_id opts) else [] | None \<Rightarrow> [])
            in replace_tool_content m
                 (if obs_id \<noteq> []
                  then observation_stub env obs_id tool_name raw_args (length s) s (observation_head_chars opts) route
                  else cleared_marker env tool_name raw_args (length s) path read_denied route))
      in if session_id opts \<noteq> [] \<and> cid \<noteq> [] then
           (case persist_for_compaction env s cid (session_id opts) d of
              (None, d') \<Rightarrow> (None, d')
            | (Some p, d') \<Rightarrow> (Some (finish (Some p)), d'))
         else (Some (finish None), d))"

definition clear_row ::
    "spill_env \<Rightarrow> pass_options \<Rightarrow> (string \<times> string \<times> json) list \<Rightarrow> string \<Rightarrow> disk \<Rightarrow> message
     \<Rightarrow> (message \<times> bool) option \<times> disk" where
  "clear_row env opts calls route d m =
     (if contains (tool_result_text m) PERSISTED_OUTPUT_TAG
      then (clear_spilled env opts calls route d m, d)
      else map_prod (map_option (\<lambda>m'. (m', False))) id (clear_fresh env opts calls route d m))"

fun clear_rows ::
    "spill_env \<Rightarrow> pass_options \<Rightarrow> (string \<times> string \<times> json) list \<Rightarrow> string \<Rightarrow> nat list \<Rightarrow> nat
     \<Rightarrow> message list \<Rightarrow> disk \<Rightarrow> pass_result" where
  "clear_rows env opts calls route chosen i [] d = \<lparr>out_messages = [], out_cleared = 0, out_reduced = [],
     out_cleared_calls = [], out_disk = d\<rparr>"
| "clear_rows env opts calls route chosen i (m # ms) d =
     (let (change, d') = (if i \<in> set chosen then clear_row env opts calls route d m else (None, d));
          rest = clear_rows env opts calls route chosen (i + 1) ms d'
      in case change of
           None \<Rightarrow> rest\<lparr>out_messages := m # out_messages rest\<rparr>
         | Some (m', header_only) \<Rightarrow>
             (let cid = message_call m; sticky = (cid \<notin> set (already_cleared opts)) in
              rest\<lparr>out_messages := m' # out_messages rest,
                   out_cleared := (if sticky then 1 else 0) + out_cleared rest,
                   out_reduced := (if header_only \<and> cid \<noteq> [] then [cid] else []) @ out_reduced rest,
                   out_cleared_calls := (if sticky \<and> cid \<noteq> [] then [cid] else []) @ out_cleared_calls rest\<rparr>))"

definition session_route :: "spill_env \<Rightarrow> pass_options \<Rightarrow> disk \<Rightarrow> string" where
  "session_route env opts d =
     (if name_session_record opts \<and> session_id opts \<noteq> []
      then session_record_route env d (session_id opts) (disallowed_tools opts) else [])"

definition microcompact :: "spill_env \<Rightarrow> pass_options \<Rightarrow> message list \<Rightarrow> disk \<Rightarrow> pass_result" where
  "microcompact env opts ms d =
     (if to_clear opts ms = [] then
        \<lparr>out_messages = ms, out_cleared = 0, out_reduced = [], out_cleared_calls = [], out_disk = d\<rparr>
      else clear_rows env opts (calls_of ms) (session_route env opts d) (to_clear opts ms) 0 ms d)"

end
