(* ===== verification/Microcompact_Facts.thy ===== *)
theory Microcompact_Facts
  imports Microcompact
begin

text \<open>
  Facts about the pass: searching in texts, what replacing a result leaves alone, the rows of the output one by one,
  the files written, and the arithmetic of the budget.
\<close>

section \<open>Searching\<close>

lemma find_sub_Nil [simp]: "find_sub [] s = Some 0"
  by (cases s) (simp_all add: startswith_def)

lemma find_sub_append: "find_sub n (n @ b) = Some 0"
proof (cases n)
  case (Cons c cs)
  then show ?thesis by (simp add: startswith_def)
qed simp

lemma find_sub_skip:
  assumes "n \<noteq> []" "hd n \<notin> set a"
  shows "find_sub n (a @ s) = map_option ((+) (length a)) (find_sub n s)"
  using assms(2)
proof (induction a)
  case Nil
  show ?case by (cases "find_sub n s") auto
next
  case (Cons c a)
  have "\<not> startswith ((c # a) @ s) n" using assms(1) Cons.prems by (cases n) (auto simp: startswith_def)
  then show ?case using Cons by (simp add: option.map_comp comp_def)
qed

lemma contains_middle: "contains (a @ n @ b) n"
proof (induction a)
  case Nil
  show ?case by (simp add: contains_def find_sub_append)
next
  case (Cons c a)
  then show ?case by (simp add: contains_def)
qed

lemma contains_split: "contains s n \<longleftrightarrow> (\<exists>a b. s = a @ n @ b)"
proof
  show "contains s n \<Longrightarrow> \<exists>a b. s = a @ n @ b"
  proof (induction s)
    case Nil
    then show ?case by (auto simp: contains_def split: if_splits)
  next
    case (Cons c cs)
    show ?case
    proof (cases "startswith (c # cs) n")
      case True
      then have "c # cs = [] @ n @ drop (length n) (c # cs)"
        unfolding startswith_def by (metis append_Nil append_take_drop_id)
      then show ?thesis by blast
    next
      case False
      then have "contains cs n" using Cons.prems by (auto simp: contains_def)
      then obtain a b where "cs = a @ n @ b" using Cons.IH by blast
      then have "c # cs = (c # a) @ n @ b" by simp
      then show ?thesis by blast
    qed
  qed
next
  show "\<exists>a b. s = a @ n @ b \<Longrightarrow> contains s n" using contains_middle by blast
qed

lemma contains_appendI: "contains b n \<Longrightarrow> contains (a @ b) n" "contains a n \<Longrightarrow> contains (a @ b) n"
  unfolding contains_split by (metis append_assoc)+

lemma contains_here: "contains (n @ b) n"
  using contains_middle [of "[]" n b] by simp

lemma contains_Cons: "contains s n \<Longrightarrow> contains (c # s) n"
  using contains_appendI(1) [of s n "[c]"] by simp

lemma contains_self [simp]: "contains n n"
  using contains_middle [of "[]" n "[]"] by simp

lemma find_sub_at: "find_sub n s = Some i \<Longrightarrow> \<exists>b. drop i s = n @ b"
proof (induction s arbitrary: i)
  case Nil
  then show ?case by (auto split: if_splits)
next
  case (Cons c cs)
  show ?case
  proof (cases "startswith (c # cs) n")
    case True
    then have "i = 0" using Cons.prems by simp
    then show ?thesis using True unfolding startswith_def by (metis append_take_drop_id drop0)
  next
    case False
    then obtain j where "find_sub n cs = Some j" "i = Suc j" using Cons.prems by auto
    then show ?thesis using Cons.IH by simp
  qed
qed

section \<open>Replacing a result\<close>

lemma map_of_dict_pop: "map_of (dict_pop k m) k' = (if k' = k then None else map_of m k')"
  by (induction m) (auto simp: dict_pop_def)

lemma join_single [simp]: "join sep [x] = x"
  by simp

lemma replaced_text [simp]: "tool_result_text (replace_tool_content m s) = s"
  by (auto simp: replace_tool_content_def tool_result_text_def get_or_def map_of_dict_set text_blocks_def
      dict_get_def str_of_def Let_def split: json.splits)

lemma replaced_key:
  "k \<notin> {''content'', ''_image_refs'', ''images''} \<Longrightarrow> map_of (replace_tool_content m s) k = map_of m k"
  by (auto simp: replace_tool_content_def Let_def map_of_dict_set map_of_dict_pop split: json.splits)

lemma replaced_role [simp]: "message_role (replace_tool_content m s) = message_role m"
  by (simp add: message_role_def get_or_def replaced_key)

lemma replaced_call [simp]: "message_call (replace_tool_content m s) = message_call m"
  by (simp add: message_call_def dict_get_def replaced_key)

lemma replaced_calls: "dict_get (replace_tool_content m s) ''tool_calls'' = dict_get m ''tool_calls''"
  by (simp add: dict_get_def replaced_key)

section \<open>Paths\<close>

lemma spill_path_inj:
  assumes "spill_path env sid a p = spill_path env sid b q"
  shows "safe_id a = safe_id b"
proof -
  have eq: "safe_id a @ ''.'' @ (if p then ''json'' else ''txt'') = safe_id b @ ''.'' @ (if q then ''json'' else ''txt'')"
    using assms by (simp add: spill_path_def)
  from arg_cong [OF eq, of last] have "p = q" by (cases p; cases q) simp_all
  then show ?thesis using eq by simp
qed

lemma persist_cases:
  assumes "persist_for_compaction env s cid sid d = (r, d')"
  obtains "r = None" "d' = d"
  | "r = Some (spill_path env sid cid (looks_like_json s))" "d' = d(spill_path env sid cid (looks_like_json s) \<mapsto> Text s)"
    "can_write env (spill_path env sid cid (looks_like_json s))"
  using assms by (auto simp: persist_for_compaction_def write_file_def Let_def split: if_splits)

section \<open>The rows of the output\<close>

lemma clear_row_shape:
  "fst (clear_row env opts calls route d m) = Some (m', h) \<Longrightarrow> \<exists>s. m' = replace_tool_content m s"
  by (auto simp: clear_row_def clear_spilled_def clear_fresh_def Let_def map_prod_def
      split: if_splits prod.splits option.splits)

lemma clear_row_disk:
  "snd (clear_row env opts calls route d m) =
     (if contains (tool_result_text m) PERSISTED_OUTPUT_TAG \<or> session_id opts = [] \<or> message_call m = [] then d
      else snd (persist_for_compaction env (tool_result_text m) (message_call m) (session_id opts) d))"
  by (auto simp: clear_row_def clear_fresh_def Let_def split: prod.splits option.splits)

lemma clear_row_writes:
  obtains "snd (clear_row env opts calls route d m) = d"
  | b where "snd (clear_row env opts calls route d m)
              = d(spill_path env (session_id opts) (message_call m) b \<mapsto> Text (tool_result_text m))"
proof -
  obtain r d' where p: "persist_for_compaction env (tool_result_text m) (message_call m) (session_id opts) d = (r, d')"
    by fastforce
  show thesis
  proof (cases "snd (clear_row env opts calls route d m) = d")
    case False
    then have "snd (clear_row env opts calls route d m) = d'" using p by (simp add: clear_row_disk split: if_splits)
    then show thesis using False by (cases rule: persist_cases [OF p]) (auto intro: that(2))
  qed (rule that(1))
qed

lemma clear_rows_Cons:
  "out_messages (clear_rows env opts calls route chosen i (m # ms) d) =
     (case fst (if i \<in> set chosen then clear_row env opts calls route d m else (None, d)) of
        None \<Rightarrow> m | Some (m', h) \<Rightarrow> m')
     # out_messages (clear_rows env opts calls route chosen (i + 1) ms
         (snd (if i \<in> set chosen then clear_row env opts calls route d m else (None, d))))"
  "out_disk (clear_rows env opts calls route chosen i (m # ms) d) =
     out_disk (clear_rows env opts calls route chosen (i + 1) ms
         (snd (if i \<in> set chosen then clear_row env opts calls route d m else (None, d))))"
  by (simp_all add: Let_def split: prod.splits option.splits)

lemmas clear_rows_simps = clear_rows.simps(1) clear_rows_Cons

lemma clear_rows_length [simp]:
  "length (out_messages (clear_rows env opts calls route chosen i ms d)) = length ms"
  by (induction ms arbitrary: i d) (simp_all only: clear_rows_simps list.size pass_result.simps)

lemma clear_rows_nth:
  "j < length ms \<Longrightarrow> \<exists>d'. out_messages (clear_rows env opts calls route chosen i ms d) ! j =
     (case fst (if i + j \<in> set chosen then clear_row env opts calls route d' (ms ! j) else (None, d')) of
        None \<Rightarrow> ms ! j | Some (m', h) \<Rightarrow> m')"
proof (induction ms arbitrary: i j d)
  case (Cons m ms)
  show ?case
  proof (cases j)
    case 0
    then show ?thesis by (auto simp only: clear_rows_Cons nth_Cons_0 add_0_right)
  next
    case (Suc k)
    with Cons.prems have "k < length ms" by simp
    have eq: "i + 1 + k = i + Suc k" by simp
    from Cons.IH [OF \<open>k < length ms\<close>, of "i + 1"] show ?thesis
      unfolding clear_rows_Cons Suc nth_Cons_Suc eq by blast
  qed
qed simp

lemma clear_rows_row:
  assumes "j < length ms"
  shows "out_messages (clear_rows env opts calls route chosen i ms d) ! j = ms ! j
     \<or> i + j \<in> set chosen \<and>
       (\<exists>s. out_messages (clear_rows env opts calls route chosen i ms d) ! j = replace_tool_content (ms ! j) s)"
  using clear_rows_nth [OF assms, of env opts calls route chosen i d] clear_row_shape
  by (auto split: option.splits if_splits)

lemma clear_rows_other_path:
  "(\<And>j b. j < length ms \<Longrightarrow> i + j \<in> set chosen \<Longrightarrow>
      spill_path env (session_id opts) (message_call (ms ! j)) b \<noteq> p) \<Longrightarrow>
   out_disk (clear_rows env opts calls route chosen i ms d) p = d p"
proof (induction ms arbitrary: i d)
  case (Cons m ms)
  let ?step = "if i \<in> set chosen then clear_row env opts calls route d m else (None, d)"
  have "out_disk (clear_rows env opts calls route chosen (i + 1) ms (snd ?step)) p = snd ?step p"
    by (rule Cons.IH) (use Cons.prems [of "Suc _"] in auto)
  moreover have "snd ?step p = d p"
    using Cons.prems [of 0] by (cases rule: clear_row_writes [of env opts calls route d m]) auto
  ultimately show ?case by (simp only: clear_rows_Cons)
qed simp

lemma clear_rows_grows:
  "d p \<noteq> None \<Longrightarrow> out_disk (clear_rows env opts calls route chosen i ms d) p \<noteq> None"
proof (induction ms arbitrary: i d)
  case (Cons m ms)
  let ?step = "if i \<in> set chosen then clear_row env opts calls route d m else (None, d)"
  have "snd ?step p \<noteq> None"
    using Cons.prems by (cases rule: clear_row_writes [of env opts calls route d m]) auto
  then have "out_disk (clear_rows env opts calls route chosen (i + 1) ms (snd ?step)) p \<noteq> None" by (rule Cons.IH)
  then show ?case by (simp only: clear_rows_Cons not_False_eq_True)
qed simp

text \<open>A chosen result without a block is replaced by a text in brackets, unless its own text could not be saved.\<close>

lemma marker_bracket: "hd (cleared_marker env tool_name raw n path denied route) = CHR ''[''"
  by (simp add: cleared_marker_def CLEARED_MARKER_def Let_def split: option.splits)

lemma stub_bracket: "hd (observation_stub env obs_id tool_name raw n src k route) = CHR ''[''"
  by (simp add: observation_stub_def OBSERVATION_STUB_PREFIX_def Let_def)

lemma fresh_row_marked:
  assumes "\<not> contains (tool_result_text m) PERSISTED_OUTPUT_TAG" "tool_result_text m \<noteq> []"
    and "session_id opts = [] \<or> (\<forall>p. can_write env p)"
  shows "\<exists>s. fst (clear_row env opts calls route d m) = Some (replace_tool_content m s, False) \<and> hd s = CHR ''[''"
proof -
  obtain r d' where p: "persist_for_compaction env (tool_result_text m) (message_call m) (session_id opts) d = (r, d')"
    by fastforce
  have "r \<noteq> None" if "session_id opts \<noteq> []" "message_call m \<noteq> []"
    using p that assms(2, 3) by (auto simp: persist_for_compaction_def write_file_def Let_def split: if_splits)
  then show ?thesis using assms(1) p marker_bracket stub_bracket
    by (auto simp: clear_row_def clear_fresh_def map_prod_def Let_def split: prod.splits option.splits)
qed

lemma clear_rows_marked:
  assumes "j < length ms" "i + j \<in> set chosen" "\<not> contains (tool_result_text (ms ! j)) PERSISTED_OUTPUT_TAG"
    and "tool_result_text (ms ! j) \<noteq> []" "session_id opts = [] \<or> (\<forall>p. can_write env p)"
  shows "\<exists>s. out_messages (clear_rows env opts calls route chosen i ms d) ! j = replace_tool_content (ms ! j) s \<and> hd s = CHR ''[''"
proof -
  obtain d' where d': "out_messages (clear_rows env opts calls route chosen i ms d) ! j =
     (case fst (clear_row env opts calls route d' (ms ! j)) of None \<Rightarrow> ms ! j | Some (m', h) \<Rightarrow> m')"
    using clear_rows_nth [OF assms(1), of env opts calls route chosen i d] assms(2) by auto
  obtain s where "fst (clear_row env opts calls route d' (ms ! j)) = Some (replace_tool_content (ms ! j) s, False)"
    "hd s = CHR ''[''" using fresh_row_marked [OF assms(3-5)] by blast
  then show ?thesis unfolding d' by auto
qed

section \<open>Nothing leaves without being saved\<close>

definition names_file :: "string \<Rightarrow> string \<Rightarrow> bool" where
  "names_file s p \<longleftrightarrow> contains s p \<or> contains s (path_stem p)"

lemma marker_names_path: "tool_name \<noteq> [] \<Longrightarrow> contains (cleared_marker env tool_name raw n (Some p) denied route) p"
  by (simp add: cleared_marker_def Let_def)
    (intro conjI impI; (rule contains_here | rule contains_appendI(1) | rule contains_Cons)+)

lemma stub_names_id: "contains (observation_stub env obs_id tool_name raw n src k route) obs_id"
proof -
  have "contains (OBSERVATION_STUB_PREFIX @ obs_id @ b) obs_id" for b by (rule contains_middle)
  then show ?thesis by (simp add: observation_stub_def Let_def)
qed

lemma fresh_row_saved:
  assumes "fst (clear_row env opts calls route d m) = Some (m', h)"
    and "\<not> contains (tool_result_text m) PERSISTED_OUTPUT_TAG"
    and "session_id opts \<noteq> []" "message_call m \<noteq> []" "fst (call_named calls (message_call m)) \<noteq> []"
  obtains p b where "p = spill_path env (session_id opts) (message_call m) b"
    "snd (clear_row env opts calls route d m) = d(p \<mapsto> Text (tool_result_text m))"
    "names_file (tool_result_text m') p"
proof -
  obtain r d' where p: "persist_for_compaction env (tool_result_text m) (message_call m) (session_id opts) d = (r, d')"
    by fastforce
  have r: "r \<noteq> None"
    using assms p by (auto simp: clear_row_def clear_fresh_def Let_def split: prod.splits option.splits)
  show thesis
  proof (cases rule: persist_cases [OF p])
    case 2
    then have "names_file (tool_result_text m') (the r)"
      using assms p
      by (auto simp: clear_row_def clear_fresh_def Let_def observation_id_for_path_def names_file_def
          marker_names_path stub_names_id split: prod.splits if_splits option.splits)
    with 2 show thesis using that clear_row_disk [of env opts calls route d m] assms p by auto
  qed (use r in simp)
qed

definition writes_row :: "message \<Rightarrow> bool" where
  "writes_row m \<longleftrightarrow> \<not> contains (tool_result_text m) PERSISTED_OUTPUT_TAG"

lemma clear_rows_saved:
  assumes "session_id opts \<noteq> []"
    and "\<And>j. j < length ms \<Longrightarrow> i + j \<in> set chosen \<Longrightarrow>
       message_call (ms ! j) \<noteq> [] \<and> fst (call_named calls (message_call (ms ! j))) \<noteq> []"
    and "\<And>j k. j < k \<Longrightarrow> k < length ms \<Longrightarrow> i + j \<in> set chosen \<Longrightarrow> i + k \<in> set chosen \<Longrightarrow>
       safe_id (message_call (ms ! j)) \<noteq> safe_id (message_call (ms ! k))"
    and "j < length ms" "writes_row (ms ! j)"
    and "out_messages (clear_rows env opts calls route chosen i ms d) ! j \<noteq> ms ! j"
  shows "\<exists>p. out_disk (clear_rows env opts calls route chosen i ms d) p = Some (Text (tool_result_text (ms ! j)))
     \<and> names_file (tool_result_text (out_messages (clear_rows env opts calls route chosen i ms d) ! j)) p"
  using assms
proof (induction ms arbitrary: i j d)
  case (Cons m ms)
  note rows = Cons.prems(2) and apart = Cons.prems(3) and change = Cons.prems(6)
  let ?step = "if i \<in> set chosen then clear_row env opts calls route d m else (None, d)"
  let ?rest = "clear_rows env opts calls route chosen (i + 1) ms (snd ?step)"
  show ?case
  proof (cases j)
    case 0
    then have i: "i \<in> set chosen" and w: "\<not> contains (tool_result_text m) PERSISTED_OUTPUT_TAG"
      using change Cons.prems(5) unfolding clear_rows_Cons by (auto simp: writes_row_def split: if_splits)
    then obtain m' h where m': "fst (clear_row env opts calls route d m) = Some (m', h)"
      using change 0 unfolding clear_rows_Cons by (auto split: option.splits)
    have mc: "message_call m \<noteq> []" "fst (call_named calls (message_call m)) \<noteq> []"
      using rows [of 0] i by auto
    obtain p b where p: "p = spill_path env (session_id opts) (message_call m) b"
      "snd (clear_row env opts calls route d m) = d(p \<mapsto> Text (tool_result_text m))"
      "names_file (tool_result_text m') p"
      by (rule fresh_row_saved [OF m' w Cons.prems(1) mc])
    have "out_disk ?rest p = snd ?step p"
    proof (rule clear_rows_other_path)
      fix k b' assume k: "k < length ms" "i + 1 + k \<in> set chosen"
      then have "safe_id (message_call m) \<noteq> safe_id (message_call (ms ! k))"
        using apart [of 0 "Suc k"] i by simp
      then show "spill_path env (session_id opts) (message_call (ms ! k)) b' \<noteq> p"
        unfolding p(1) by (metis spill_path_inj)
    qed
    then show ?thesis using 0 i m' p(2, 3) unfolding clear_rows_Cons by auto
  next
    case (Suc k)
    have "\<exists>p. out_disk ?rest p = Some (Text (tool_result_text (ms ! k)))
        \<and> names_file (tool_result_text (out_messages ?rest ! k)) p"
    proof (rule Cons.IH)
      show "message_call (ms ! l) \<noteq> [] \<and> fst (call_named calls (message_call (ms ! l))) \<noteq> []"
        if "l < length ms" "i + 1 + l \<in> set chosen" for l
        using rows [of "Suc l"] that by simp
      show "safe_id (message_call (ms ! a)) \<noteq> safe_id (message_call (ms ! b))"
        if "a < b" "b < length ms" "i + 1 + a \<in> set chosen" "i + 1 + b \<in> set chosen" for a b
        using apart [of "Suc a" "Suc b"] that by simp
    qed (use Cons.prems Suc in \<open>simp_all add: clear_rows_Cons del: clear_rows.simps\<close>)
    then show ?thesis unfolding clear_rows_Cons Suc by simp
  qed
qed simp

section \<open>Which rows are chosen\<close>

lemma choose_until_subset: "set (choose_until saved budget current is) \<subseteq> set is"
  by (induction saved budget current "is" rule: choose_until.induct) auto

lemma sizeable_subset: "set (sizeable opts ms) \<subseteq> set (stale_candidates opts ms)"
  by (auto simp: sizeable_def)

lemma chosen_subset: "set (chosen_by_rule opts ms) \<subseteq> set (sizeable opts ms)"
  using choose_until_subset by (fastforce simp: chosen_by_rule_def split: option.splits)

lemma to_clear_subset: "set (to_clear opts ms) \<subseteq> set (stale_candidates opts ms)"
  using chosen_subset [of opts ms] sizeable_subset [of opts ms] by (auto simp: to_clear_def)

lemma candidates_subset: "set (stale_candidates opts ms) \<subseteq> set (compactable_indices opts ms)"
  by (auto simp: stale_candidates_def Let_def dest: in_set_takeD)

lemma calls_of_id: "(cid, p) \<in> set (calls_of ms) \<Longrightarrow> cid \<noteq> []"
  by (auto simp: calls_of_def call_entry_def Let_def split: if_splits)

lemma unnamed_call: "call_named (calls_of ms) [] = ([], JNull)"
proof -
  have "map_of (rev (calls_of ms)) [] = None"
    using calls_of_id [of "[]" _ ms] by (auto simp: map_of_eq_None_iff)
  then show ?thesis by (simp add: call_named_def)
qed

lemma compactable_facts:
  assumes "compactable opts (calls_of ms) m"
  shows "message_role m = ''tool''" "message_call m \<noteq> []" "fst (call_named (calls_of ms) (message_call m)) \<noteq> []"
proof -
  show name: "fst (call_named (calls_of ms) (message_call m)) \<noteq> []" and "message_role m = ''tool''"
    using assms by (auto simp: compactable_def is_compactable_tool_call_def)
  show "message_call m \<noteq> []" using name unnamed_call [of ms] by auto
qed

lemma to_clear_facts:
  assumes "i \<in> set (to_clear opts ms)"
  shows "i < length ms" "compactable opts (calls_of ms) (ms ! i)" "\<not> is_cleared_stub (tool_result_text (ms ! i))"
    "i \<in> set (take (length (compactable_indices opts ms) - nat (keep_recent_tools opts)) (compactable_indices opts ms))"
proof -
  have c: "i \<in> set (stale_candidates opts ms)" using assms to_clear_subset by blast
  then show "\<not> is_cleared_stub (tool_result_text (ms ! i))"
    and "i \<in> set (take (length (compactable_indices opts ms) - nat (keep_recent_tools opts)) (compactable_indices opts ms))"
    by (auto simp: stale_candidates_def Let_def)
  show "i < length ms" "compactable opts (calls_of ms) (ms ! i)"
    using c candidates_subset by (fastforce simp: compactable_indices_def Let_def)+
qed

lemma sorted_indices: "sorted (compactable_indices opts ms)" "distinct (compactable_indices opts ms)"
  by (simp_all add: compactable_indices_def Let_def sorted_wrt_filter)

lemma distinct_sizeable: "distinct (sizeable opts ms)"
  using sorted_indices(2) by (simp add: sizeable_def stale_candidates_def Let_def)

section \<open>The rows of the whole pass\<close>

lemma no_rows_chosen:
  "clear_rows env opts calls route [] i ms d = \<lparr>out_messages = ms, out_cleared = 0, out_reduced = [],
     out_cleared_calls = [], out_disk = d\<rparr>"
  by (induction ms arbitrary: i) simp_all

lemma microcompact_rows:
  "microcompact env opts ms d =
     clear_rows env opts (calls_of ms) (session_route env opts d) (to_clear opts ms) 0 ms d"
  by (simp add: microcompact_def no_rows_chosen)

lemma microcompact_length [simp]: "length (out_messages (microcompact env opts ms d)) = length ms"
  by (simp add: microcompact_rows)

lemma microcompact_row:
  assumes "i < length ms"
  shows "out_messages (microcompact env opts ms d) ! i = ms ! i
     \<or> i \<in> set (to_clear opts ms) \<and> (\<exists>s. out_messages (microcompact env opts ms d) ! i = replace_tool_content (ms ! i) s)"
  using clear_rows_row [OF assms, of env opts "calls_of ms" "session_route env opts d" "to_clear opts ms" 0 d]
  by (simp add: microcompact_rows)

section \<open>The arithmetic of the budget\<close>

definition with_markers :: "string \<Rightarrow> nat list \<Rightarrow> message list \<Rightarrow> message list" where
  "with_markers marker chosen ms =
     map (\<lambda>i. if i \<in> set chosen then replace_tool_content (ms ! i) marker else ms ! i) [0..<length ms]"

lemma with_markers_Nil [simp]: "with_markers marker [] ms = ms"
  by (simp add: with_markers_def map_nth)

lemma with_markers_Cons:
  "i < length ms \<Longrightarrow>
   with_markers marker (i # chosen) ms = (with_markers marker chosen ms)[i := replace_tool_content (ms ! i) marker]"
  by (rule nth_equalityI) (auto simp: with_markers_def nth_list_update)

context estimator
begin

lemma est_with_markers:
  "distinct chosen \<Longrightarrow> set chosen \<subseteq> {..<length ms} \<Longrightarrow>
   est (with_markers marker chosen ms) = est ms - (\<Sum>i\<leftarrow>chosen. saving est marker (ms ! i))"
proof (induction chosen)
  case (Cons i chosen)
  have i: "i < length (with_markers marker chosen ms)" "with_markers marker chosen ms ! i = ms ! i"
    using Cons.prems by (auto simp: with_markers_def)
  show ?case
    using est_update [OF i(1), of "replace_tool_content (ms ! i) marker"] Cons i
    by (simp add: with_markers_Cons saving_def)
qed simp

end

lemma choose_until_prefix:
  "\<exists>rest. filter (\<lambda>i. 0 < saved i) is = choose_until saved budget current is @ rest"
  by (induction saved budget current "is" rule: choose_until.induct) auto

lemma choose_until_enough:
  "current - (\<Sum>i\<leftarrow>choose_until saved budget current is. saved i) \<le> budget
   \<or> choose_until saved budget current is = filter (\<lambda>i. 0 < saved i) is"
proof (induction saved budget current "is" rule: choose_until.induct)
  case (2 saved budget current i "is")
  then show ?case by (cases "saved i \<le> 0"; cases "current - saved i \<le> budget") (auto simp: algebra_simps)
qed simp

lemma choose_until_minimal:
  "budget < current \<Longrightarrow> choose_until saved budget current is \<noteq> [] \<Longrightarrow>
   budget < current - (\<Sum>i\<leftarrow>butlast (choose_until saved budget current is). saved i)"
proof (induction saved budget current "is" rule: choose_until.induct)
  case (2 saved budget current i "is")
  then show ?case by (cases "saved i \<le> 0"; cases "current - saved i \<le> budget") (auto simp: algebra_simps)
qed simp

end
