(* ===== verification/Block_Facts.thy ===== *)
theory Block_Facts
  imports Microcompact_Facts
begin

text \<open>
  The \<open><persisted-output>\<close> block: what its reduction keeps, that reducing twice is reducing once, and that block and
  reduction name the file the result was written to.
\<close>

section \<open>Lines\<close>

definition unbroken :: "string \<Rightarrow> bool" where
  "unbroken s \<longleftrightarrow> list_all (\<lambda>c. \<not> is_break c) s"

lemma unbroken_simps [simp]:
  "unbroken []" "unbroken (c # s) \<longleftrightarrow> \<not> is_break c \<and> unbroken s" "unbroken (a @ b) \<longleftrightarrow> unbroken a \<and> unbroken b"
  by (simp_all add: unbroken_def)

lemma lines_from_unbroken: "unbroken p \<Longrightarrow> lines_from acc (p @ s) = lines_from (rev p @ acc) s"
proof (induction p arbitrary: acc)
  case (Cons c p)
  then have "\<not> is_break c" "c \<noteq> CHR 0x0D" by (auto simp: is_break_def)
  with Cons show ?case by simp
qed simp

lemma lines_from_NL: "lines_from acc (CHR 0x0A # s) = rev acc # lines_from [] s"
  by (simp add: is_break_def)

lemma lines_from_first:
  "acc \<noteq> [] \<Longrightarrow> \<exists>x ls. lines_from acc s = (rev acc @ x) # ls"
proof (induction acc s rule: lines_from.induct)
  case (2 acc c cs)
  show ?case
  proof (cases "c = CHR 0x0D \<and> startswith cs [CHR 0x0A] \<or> is_break c")
    case True
    then show ?thesis by auto
  next
    case False
    then have "lines_from acc (c # cs) = lines_from (c # acc) cs" by auto
    with 2(3) False show ?thesis by (metis append_assoc list.discI rev.simps(2))
  qed
qed auto

lemma lstrip_eq_Nil: "lstrip s = [] \<longleftrightarrow> (\<forall>c \<in> set s. is_space c)"
  by (simp add: lstrip_def dropWhile_eq_Nil_conv)

lemma strip_eq_Nil: "strip s = [] \<longleftrightarrow> (\<forall>c \<in> set s. is_space c)"
proof
  assume "strip s = []"
  then have "\<forall>c \<in> set (lstrip s). is_space c" by (simp add: strip_def rstrip_eq_Nil)
  then have "lstrip s = []" using hd_dropWhile [of is_space s] hd_in_set [of "lstrip s"] by (auto simp: lstrip_def)
  then show "\<forall>c \<in> set s. is_space c" by (simp add: lstrip_eq_Nil)
next
  assume "\<forall>c \<in> set s. is_space c"
  then show "strip s = []" using lstrip_eq_Nil [of s] by (simp add: strip_def rstrip_eq_Nil)
qed

lemma strip_same: "s \<noteq> [] \<Longrightarrow> \<not> is_space (hd s) \<Longrightarrow> \<not> is_space (last s) \<Longrightarrow> strip s = s"
  by (cases s) (auto simp: strip_def lstrip_def rstrip_last)

section \<open>Reducing a block\<close>

lemma unbroken_tag [simp]: "unbroken PERSISTED_OUTPUT_TAG"
  by (simp add: PERSISTED_OUTPUT_TAG_def is_break_def)

lemma tag_not_blank: "strip (PERSISTED_OUTPUT_TAG @ x) \<noteq> []"
  by (simp add: strip_eq_Nil PERSISTED_OUTPUT_TAG_def is_space_def Let_def)

lemma splitlines_tag: "\<exists>x ls. splitlines (PERSISTED_OUTPUT_TAG @ b) = (PERSISTED_OUTPUT_TAG @ x) # ls"
proof -
  have "splitlines (PERSISTED_OUTPUT_TAG @ b) = lines_from (rev PERSISTED_OUTPUT_TAG) b"
    by (simp add: splitlines_def lines_from_unbroken)
  then show ?thesis using lines_from_first [of "rev PERSISTED_OUTPUT_TAG" b]
    by (simp add: PERSISTED_OUTPUT_TAG_def)
qed

lemma join_first: "\<exists>y. join sep (x # xs) = x @ y"
  by (cases xs) auto

lemma reduced_is_stub:
  assumes "contains s PERSISTED_OUTPUT_TAG"
  shows "is_cleared_stub (persisted_block_only s)"
proof (cases "is_cleared_stub s")
  case True
  then show ?thesis by (simp add: persisted_block_only_def split: option.splits)
next
  case False
  obtain i where i: "find_sub PERSISTED_OUTPUT_TAG s = Some i" using assms by (auto simp: contains_def)
  obtain b where b: "drop i s = PERSISTED_OUTPUT_TAG @ b" using find_sub_at [OF i] by blast
  obtain x ls where ls: "splitlines (drop i s) = (PERSISTED_OUTPUT_TAG @ x) # ls"
    using splitlines_tag [of b] b by auto
  obtain y where "join NL (filter (\<lambda>ln. strip ln \<noteq> []) (take 3 (splitlines (drop i s)))) = PERSISTED_OUTPUT_TAG @ y"
    using join_first [of NL "PERSISTED_OUTPUT_TAG @ x" "filter (\<lambda>ln. strip ln \<noteq> []) (take 2 ls)"]
      tag_not_blank [of x] ls by (auto simp: numeral_3_eq_3 numeral_2_eq_2)
  then have "persisted_block_only s = PERSISTED_OUTPUT_TAG @ y @ NL @ PREVIEW_DROPPED"
    using i False by (simp add: persisted_block_only_def)
  then show ?thesis using contains_appendI(1) [of PREVIEW_DROPPED PREVIEW_DROPPED "PERSISTED_OUTPUT_TAG @ y @ NL"]
    by (simp add: is_cleared_stub_def contains_here)
qed

lemma reduce_twice: "persisted_block_only (persisted_block_only s) = persisted_block_only s"
proof (cases "contains s PERSISTED_OUTPUT_TAG")
  case True
  then show ?thesis using reduced_is_stub [of s]
    by (simp add: persisted_block_only_def [of "persisted_block_only s"] split: option.splits)
next
  case False
  then show ?thesis by (simp add: persisted_block_only_def contains_def)
qed

section \<open>The file a block names\<close>

definition plain_path :: "string \<Rightarrow> bool" where
  "plain_path p \<longleftrightarrow> p \<noteq> [] \<and> unbroken p \<and> \<not> is_space (hd p) \<and> \<not> is_space (last p)"

text \<open>The characters before a path in its line: none breaks the line, none is the first of \<open>Full output saved to\<close>.\<close>

definition quiet :: "char \<Rightarrow> bool" where
  "quiet c \<longleftrightarrow> \<not> is_break c \<and> c \<noteq> CHR ''F''"

lemma digit_quiet: "is_digit c \<Longrightarrow> quiet c"
  by (auto simp: is_digit_def quiet_def is_break_def)

lemma digits_quiet: "list_all is_digit s \<Longrightarrow> list_all quiet s"
  by (auto simp: list_all_iff digit_quiet)

lemma nat_text_all_digits: "list_all is_digit (nat_text n)"
proof (induction n rule: nat_text.induct)
  case (1 n)
  have "is_digit (''0123456789'' ! k)" if "k < 10" for k
    using that by (auto simp: is_digit_def numeral_eq_Suc less_Suc_eq)
  with 1 show ?case by (subst nat_text.simps) auto
qed

lemma quiet_literals [simp]:
  "quiet (CHR '','')" "quiet (CHR ''.'')" "quiet (CHR '' '')" "quiet (CHR ''B'')" "quiet (CHR ''K'')" "quiet (CHR ''M'')"
  by (simp_all add: quiet_def is_break_def)

lemma commas_quiet: "list_all quiet (commas n)"
proof (induction n rule: commas.induct)
  case (1 n)
  then show ?case using digits_quiet nat_text_all_digits list_all_pad
    by (subst commas.simps) auto
qed

lemma format_size_quiet: "list_all quiet (format_size n)"
  using digits_quiet [OF nat_text_all_digits]
  by (simp add: format_size_def one_decimal_def Let_def)

definition size_prefix :: "nat \<Rightarrow> string" where
  "size_prefix n = ''Output too large ('' @ format_size n @ '', '' @ commas n @ '' chars). ''"

lemma saved_line_split: "saved_line n path = size_prefix n @ SAVED_TO @ path"
  by (simp add: saved_line_def size_prefix_def SAVED_TO_def)

lemma size_prefix_quiet: "list_all quiet (size_prefix n)"
proof -
  have "list_all quiet ''Output too large (''" "list_all quiet '', ''" "list_all quiet '' chars). ''"
    by (simp_all add: quiet_def is_break_def)
  then show ?thesis unfolding size_prefix_def list_all_append
    using format_size_quiet commas_quiet by blast
qed

lemma unbroken_saved_line:
  assumes "unbroken path"
  shows "unbroken (saved_line n path)"
proof -
  have "unbroken (size_prefix n)"
    using size_prefix_quiet [of n] by (auto simp: unbroken_def list_all_iff quiet_def)
  moreover have "unbroken SAVED_TO" by (simp add: SAVED_TO_def is_break_def)
  ultimately show ?thesis using assms by (simp add: saved_line_split)
qed

lemma block_pointer:
  assumes "plain_path path"
  shows "pointer_path (PERSISTED_OUTPUT_TAG @ NL @ saved_line n path @ NL @ s) = path"
proof -
  let ?pre = "PERSISTED_OUTPUT_TAG @ NL @ size_prefix n"
  have "CHR ''F'' \<notin> set (size_prefix n)" using size_prefix_quiet [of n] by (auto simp: list_all_iff quiet_def)
  then have F: "hd SAVED_TO \<notin> set ?pre" by (simp add: PERSISTED_OUTPUT_TAG_def SAVED_TO_def)
  have "find_sub SAVED_TO (?pre @ SAVED_TO @ path @ NL @ s) = Some (length ?pre)"
    using find_sub_skip [OF _ F, of "SAVED_TO @ path @ NL @ s"] find_sub_append [of SAVED_TO "path @ NL @ s"]
    by (simp add: SAVED_TO_def [THEN arg_cong [of _ _ "\<lambda>x. x = []"]])
  then have "find_sub SAVED_TO (PERSISTED_OUTPUT_TAG @ NL @ saved_line n path @ NL @ s) = Some (length ?pre)"
    by (simp add: saved_line_split)
  moreover have "drop (length ?pre + length SAVED_TO) (PERSISTED_OUTPUT_TAG @ NL @ saved_line n path @ NL @ s)
      = path @ NL @ s"
    by (simp add: saved_line_split)
  moreover have "takeWhile (\<lambda>c. c \<noteq> CHR 0x0A) (path @ NL @ s) = path"
    using assms by (subst takeWhile_append2) (auto simp: plain_path_def unbroken_def list_all_iff is_break_def)
  ultimately show ?thesis using assms by (simp add: pointer_path_def strip_same plain_path_def)
qed

lemma spill_block_shape:
  "\<exists>s. spill_block content path disallowed tool_name
     = PERSISTED_OUTPUT_TAG @ NL @ saved_line (length content) path @ NL @ NL @ s"
  by (auto simp: spill_block_def split: prod.splits)

lemma reduced_block:
  assumes "unbroken path" "\<not> is_cleared_stub (PERSISTED_OUTPUT_TAG @ NL @ saved_line n path @ NL @ NL @ s)"
  shows "persisted_block_only (PERSISTED_OUTPUT_TAG @ NL @ saved_line n path @ NL @ NL @ s)
     = PERSISTED_OUTPUT_TAG @ NL @ saved_line n path @ NL @ PREVIEW_DROPPED"
proof -
  have lines: "take 3 (splitlines (PERSISTED_OUTPUT_TAG @ NL @ saved_line n path @ NL @ NL @ s))
      = [PERSISTED_OUTPUT_TAG, saved_line n path, []]"
    using unbroken_saved_line [OF assms(1), of n]
    by (simp add: splitlines_def lines_from_unbroken lines_from_NL numeral_3_eq_3 del: lines_from.simps(2))
  have "strip (saved_line n path) \<noteq> []"
    by (simp add: strip_eq_Nil saved_line_def is_space_def)
  then show ?thesis using lines tag_not_blank [of "[]"] assms(2)
    by (simp add: persisted_block_only_def find_sub_append strip_eq_Nil)
qed

text \<open>Whatever is done to a block, the path it names is the path its content was written to.\<close>

lemma block_pointers:
  assumes "plain_path path"
  shows "pointer_path (spill_block content path disallowed tool_name) = path"
    "pointer_path (persisted_block_only (spill_block content path disallowed tool_name)) = path"
proof -
  obtain s where s: "spill_block content path disallowed tool_name
      = PERSISTED_OUTPUT_TAG @ NL @ saved_line (length content) path @ NL @ NL @ s"
    using spill_block_shape by blast
  show block: "pointer_path (spill_block content path disallowed tool_name) = path"
    using block_pointer [OF assms, of "length content" "NL @ s"] s by simp
  show "pointer_path (persisted_block_only (spill_block content path disallowed tool_name)) = path"
  proof (cases "is_cleared_stub (spill_block content path disallowed tool_name)")
    case True
    then show ?thesis using block by (simp add: persisted_block_only_def split: option.splits)
  next
    case False
    then show ?thesis using reduced_block [of path "length content" s] block_pointer [OF assms] s assms
      by (simp add: plain_path_def)
  qed
qed

end
