(* ===== verification/Reduction_Sidecar.thy ===== *)
theory Reduction_Sidecar
  imports Microcompact_Facts
begin

text \<open>
  The record a session keeps of what was cleared (\<open>sessions/<sid>.microcompact-reduced.json\<close>, written and
  read by \<open>app/harness/microcompact.py\<close>): two lists of call ids in one file, each rewritten with the other one as it was
  read, and the pass that replays the first list on the rows of the next turn.

  The writes of the code that fail with an \<open>OSError\<close> leave the file as it was. \<open>two_lists\<close> is the contract of the file.
\<close>

section \<open>The file\<close>

definition REDUCTION_SIDECAR_SUFFIX :: string where
  "REDUCTION_SIDECAR_SUFFIX = ''.microcompact-reduced.json''"

definition reduction_sidecar_path :: "spill_env \<Rightarrow> string \<Rightarrow> string option" where
  "reduction_sidecar_path env sid =
     (if sid = [] then None else Some (sessions_dir env @ ''/'' @ sid @ REDUCTION_SIDECAR_SUFFIX))"

definition is_reduction_sidecar :: "string \<Rightarrow> bool" where
  "is_reduction_sidecar name \<longleftrightarrow> endswith name REDUCTION_SIDECAR_SUFFIX"

definition sidecar_payload :: "spill_env \<Rightarrow> disk \<Rightarrow> string \<Rightarrow> (string \<times> json) list option" where
  "sidecar_payload env d sid = (case reduction_sidecar_path env sid of
     None \<Rightarrow> None
   | Some path \<Rightarrow> (case d path of
       None \<Rightarrow> None
     | Some f \<Rightarrow> (case file_json env f of Some (JObj kvs) \<Rightarrow> Some kvs | _ \<Rightarrow> None)))"

definition nonempty_text :: "json \<Rightarrow> string list" where
  "nonempty_text v = (case v of JStr s \<Rightarrow> if s = [] then [] else [s] | _ \<Rightarrow> [])"

definition sidecar_list :: "(string \<times> json) list option \<Rightarrow> string \<Rightarrow> string list" where
  "sidecar_list data key = (case data of
     None \<Rightarrow> []
   | Some kvs \<Rightarrow> (case dict_get kvs key of JArr vs \<Rightarrow> concat (map nonempty_text vs) | _ \<Rightarrow> []))"

definition sidecar_json :: "string list \<Rightarrow> string list \<Rightarrow> json" where
  "sidecar_json reduced cleared =
     JObj [(''schema'', JInt 1), (''reduced_call_ids'', JArr (map JStr reduced)),
           (''cleared_call_ids'', JArr (map JStr cleared))]"

definition read_reduced_calls :: "spill_env \<Rightarrow> string \<Rightarrow> disk \<Rightarrow> string list" where
  "read_reduced_calls env sid d = sidecar_list (sidecar_payload env d sid) ''reduced_call_ids''"

definition read_cleared_calls :: "spill_env \<Rightarrow> string \<Rightarrow> disk \<Rightarrow> string list" where
  "read_cleared_calls env sid d = sidecar_list (sidecar_payload env d sid) ''cleared_call_ids''"

definition merge_ids :: "string list \<Rightarrow> string list \<Rightarrow> string list" where
  "merge_ids old new = foldl (\<lambda>acc cid. if cid \<in> set acc then acc else acc @ [cid]) old new"

definition record_reduced_calls :: "spill_env \<Rightarrow> string \<Rightarrow> string list \<Rightarrow> disk \<Rightarrow> nat \<times> disk" where
  "record_reduced_calls env sid ids d =
     (let new = filter (\<lambda>cid. cid \<noteq> []) ids in
      case reduction_sidecar_path env sid of
        None \<Rightarrow> (0, d)
      | Some path \<Rightarrow>
          if new = [] then (0, d)
          else let merged = merge_ids (read_reduced_calls env sid d) new in
            case write_file env path (Json (sidecar_json merged (read_cleared_calls env sid d))) d of
              None \<Rightarrow> (length (read_reduced_calls env sid d), d)
            | Some d' \<Rightarrow> (length merged, d'))"

definition record_cleared_calls :: "spill_env \<Rightarrow> string \<Rightarrow> string list \<Rightarrow> disk \<Rightarrow> nat \<times> disk" where
  "record_cleared_calls env sid ids d =
     (let new = filter (\<lambda>cid. cid \<noteq> []) ids in
      case reduction_sidecar_path env sid of
        None \<Rightarrow> (0, d)
      | Some path \<Rightarrow>
          if new = [] then (0, d)
          else let merged = merge_ids (read_cleared_calls env sid d) new in
            case write_file env path (Json (sidecar_json (read_reduced_calls env sid d) merged)) d of
              None \<Rightarrow> (length (read_cleared_calls env sid d), d)
            | Some d' \<Rightarrow> (length merged, d'))"

section \<open>The replay\<close>

definition replay_row :: "disk \<Rightarrow> string list \<Rightarrow> message \<Rightarrow> message option" where
  "replay_row d reduced m =
     (let s = tool_result_text m in
      if message_role m \<noteq> ''tool'' \<or> message_call m \<notin> set reduced then None
      else if \<not> contains s PERSISTED_OUTPUT_TAG \<or> is_cleared_stub s then None
      else if pointer_path s = [] \<or> d (pointer_path s) = None then None
      else if persisted_block_only s = s then None
      else Some (replace_tool_content m (persisted_block_only s)))"

definition apply_reduction_sidecar :: "spill_env \<Rightarrow> string \<Rightarrow> message list \<Rightarrow> disk \<Rightarrow> message list \<times> nat" where
  "apply_reduction_sidecar env sid ms d =
     (let reduced = read_reduced_calls env sid d; rows = map (replay_row d reduced) ms in
      if reduced = [] \<or> ms = [] then (ms, 0)
      else (map (\<lambda>(m, r). case r of None \<Rightarrow> m | Some m' \<Rightarrow> m') (zip ms rows),
            length (filter (\<lambda>r. r \<noteq> None) rows)))"

section \<open>Two lists in one file\<close>

locale two_lists =
  fixes read1 :: "'d \<Rightarrow> string list" and read2 :: "'d \<Rightarrow> string list"
    and add1 :: "string list \<Rightarrow> 'd \<Rightarrow> 'd" and add2 :: "string list \<Rightarrow> 'd \<Rightarrow> 'd"
    and usable :: "string list \<Rightarrow> bool"
  assumes read1_add1: "usable ids \<Longrightarrow> read1 (add1 ids d) = merge_ids (read1 d) ids"
    and read2_add1: "usable ids \<Longrightarrow> read2 (add1 ids d) = read2 d"
    and read1_add2: "usable ids \<Longrightarrow> read1 (add2 ids d) = read1 d"
    and read2_add2: "usable ids \<Longrightarrow> read2 (add2 ids d) = merge_ids (read2 d) ids"
begin

lemma set_merge_ids: "set (merge_ids old new) = set old \<union> set new"
  unfolding merge_ids_def by (induction new arbitrary: old) auto

lemma merge_ids_keeps: "\<exists>more. merge_ids old new = old @ more"
  unfolding merge_ids_def
proof (induction new arbitrary: old)
  case (Cons c cs)
  from Cons.IH [of "if c \<in> set old then old else old @ [c]"] show ?case by (auto split: if_splits)
qed simp

lemma distinct_merge_ids: "distinct old \<Longrightarrow> distinct (merge_ids old new)"
  unfolding merge_ids_def by (induction new arbitrary: old) auto

text \<open>A run of writes on either list, in any order, ends with the same two lists.\<close>

lemma written_lists:
  "list_all (\<lambda>(first, ids). usable ids) ops \<Longrightarrow>
   read1 (fold (\<lambda>(first, ids) d. if first then add1 ids d else add2 ids d) ops d)
     = foldl merge_ids (read1 d) (map snd (filter fst ops))
   \<and> read2 (fold (\<lambda>(first, ids) d. if first then add1 ids d else add2 ids d) ops d)
     = foldl merge_ids (read2 d) (map snd (filter (\<lambda>p. \<not> fst p) ops))"
  by (induction ops arbitrary: d) (auto simp: read1_add1 read1_add2 read2_add1 read2_add2)

end

lemma nonempty_text_JStr: "concat (map nonempty_text (map JStr ids)) = filter (\<lambda>cid. cid \<noteq> []) ids"
  by (induction ids) (auto simp: nonempty_text_def)

lemma sidecar_list_nonempty: "[] \<notin> set (sidecar_list data key)"
  by (auto simp: sidecar_list_def nonempty_text_def split: option.splits json.splits if_splits)

lemma set_merged: "set (merge_ids old new) = set old \<union> set new"
  unfolding merge_ids_def by (induction new arbitrary: old) auto

lemma sidecar_read_back:
  assumes "sid \<noteq> []" "[] \<notin> set reduced" "[] \<notin> set cleared"
    and d': "d' = d(sessions_dir env @ ''/'' @ sid @ REDUCTION_SIDECAR_SUFFIX \<mapsto> Json (sidecar_json reduced cleared))"
  shows "read_reduced_calls env sid d' = reduced" "read_cleared_calls env sid d' = cleared"
proof -
  have "filter (\<lambda>cid. cid \<noteq> []) reduced = reduced" "filter (\<lambda>cid. cid \<noteq> []) cleared = cleared"
    using assms(2, 3) by (metis (mono_tags, lifting) filter_True)+
  then show "read_reduced_calls env sid d' = reduced" "read_cleared_calls env sid d' = cleared"
    using assms(1) nonempty_text_JStr
    by (simp_all add: d' read_reduced_calls_def read_cleared_calls_def sidecar_payload_def
        reduction_sidecar_path_def file_json_def sidecar_json_def sidecar_list_def dict_get_def)
qed

definition sidecar_usable :: "spill_env \<Rightarrow> string \<Rightarrow> string list \<Rightarrow> bool" where
  "sidecar_usable env sid ids \<longleftrightarrow> sid \<noteq> [] \<and> ids \<noteq> [] \<and> [] \<notin> set ids
     \<and> can_write env (sessions_dir env @ ''/'' @ sid @ REDUCTION_SIDECAR_SUFFIX)"

lemma usable_ids: "sidecar_usable env sid ids \<Longrightarrow> filter (\<lambda>cid. cid \<noteq> []) ids = ids"
  unfolding sidecar_usable_def by (metis (mono_tags, lifting) filter_True)

lemma reads_nonempty: "[] \<notin> set (read_reduced_calls env sid d)" "[] \<notin> set (read_cleared_calls env sid d)"
  by (simp_all add: read_reduced_calls_def read_cleared_calls_def sidecar_list_nonempty)

lemma merged_nonempty: "[] \<notin> set old \<Longrightarrow> sidecar_usable env sid ids \<Longrightarrow> [] \<notin> set (merge_ids old ids)"
  by (simp add: set_merged sidecar_usable_def)

lemma recorded_disk:
  assumes "sidecar_usable env sid ids"
  shows "snd (record_reduced_calls env sid ids d) =
      d(sessions_dir env @ ''/'' @ sid @ REDUCTION_SIDECAR_SUFFIX \<mapsto>
        Json (sidecar_json (merge_ids (read_reduced_calls env sid d) ids) (read_cleared_calls env sid d)))"
    "snd (record_cleared_calls env sid ids d) =
      d(sessions_dir env @ ''/'' @ sid @ REDUCTION_SIDECAR_SUFFIX \<mapsto>
        Json (sidecar_json (read_reduced_calls env sid d) (merge_ids (read_cleared_calls env sid d) ids)))"
  using assms usable_ids [OF assms]
  by (simp_all add: record_reduced_calls_def record_cleared_calls_def reduction_sidecar_path_def write_file_def
      sidecar_usable_def Let_def)

interpretation sidecar: two_lists "read_reduced_calls env sid" "read_cleared_calls env sid"
    "\<lambda>ids d. snd (record_reduced_calls env sid ids d)" "\<lambda>ids d. snd (record_cleared_calls env sid ids d)"
    "sidecar_usable env sid" for env sid
proof unfold_locales
  fix ids d assume u: "sidecar_usable env sid ids"
  then have sid: "sid \<noteq> []" by (simp add: sidecar_usable_def)
  show "read_reduced_calls env sid (snd (record_reduced_calls env sid ids d)) = merge_ids (read_reduced_calls env sid d) ids"
    "read_cleared_calls env sid (snd (record_reduced_calls env sid ids d)) = read_cleared_calls env sid d"
    "read_reduced_calls env sid (snd (record_cleared_calls env sid ids d)) = read_reduced_calls env sid d"
    "read_cleared_calls env sid (snd (record_cleared_calls env sid ids d)) = merge_ids (read_cleared_calls env sid d) ids"
    unfolding recorded_disk [OF u]
    by (rule sidecar_read_back [OF sid _ _ refl]; simp add: reads_nonempty merged_nonempty [OF _ u])+
qed

section \<open>The replay row by row\<close>

lemma replay_nth:
  assumes "i < length ms"
  shows "fst (apply_reduction_sidecar env sid ms d) ! i =
    (case replay_row d (read_reduced_calls env sid d) (ms ! i) of None \<Rightarrow> ms ! i | Some m' \<Rightarrow> m')"
  using assms by (auto simp: apply_reduction_sidecar_def Let_def replay_row_def)

lemma replay_length [simp]: "length (fst (apply_reduction_sidecar env sid ms d)) = length ms"
  by (simp add: apply_reduction_sidecar_def Let_def)

lemma replay_row_shape:
  "replay_row d ids m = Some m' \<Longrightarrow> m' = replace_tool_content m (persisted_block_only (tool_result_text m))
     \<and> contains (tool_result_text m) PERSISTED_OUTPUT_TAG"
  by (auto simp: replay_row_def Let_def split: if_splits)

lemma replay_keeps:
  assumes "i < length ms"
  shows "message_role (fst (apply_reduction_sidecar env sid ms d) ! i) = message_role (ms ! i)"
    "message_call (fst (apply_reduction_sidecar env sid ms d) ! i) = message_call (ms ! i)"
  by (auto simp: replay_nth [OF assms] split: option.splits dest!: replay_row_shape)

text \<open>Once replayed, a row stays replayed as long as ids and files are only added.\<close>

lemma replay_row_mono:
  assumes "replay_row d ids m = Some m'" "set ids \<subseteq> set ids'" "\<And>p. d p \<noteq> None \<Longrightarrow> d' p \<noteq> None"
  shows "replay_row d' ids' m = Some m'"
  using assms by (auto simp: replay_row_def Let_def split: if_splits)

text \<open>The files of results and the sidecar have different names, so a pass leaves the sidecar alone.\<close>

lemma pass_keeps_sidecar:
  assumes "session_id opts = sid"
  shows "read_reduced_calls env sid (out_disk (microcompact env opts ms d)) = read_reduced_calls env sid d"
proof -
  have "spill_path env sid cid b \<noteq> sessions_dir env @ ''/'' @ sid @ REDUCTION_SIDECAR_SUFFIX" for cid b
    by (simp add: spill_path_def spill_dir_def REDUCTION_SIDECAR_SUFFIX_def)
  then have "out_disk (microcompact env opts ms d) (sessions_dir env @ ''/'' @ sid @ REDUCTION_SIDECAR_SUFFIX)
      = d (sessions_dir env @ ''/'' @ sid @ REDUCTION_SIDECAR_SUFFIX)"
    unfolding microcompact_rows using assms by (intro clear_rows_other_path) auto
  then show ?thesis by (simp add: read_reduced_calls_def sidecar_payload_def reduction_sidecar_path_def)
qed

section \<open>What the pass reports\<close>

text \<open>An id in \<open>out_reduced\<close> belongs to a row that now is its block cut to the header.\<close>

lemma clear_rows_reduced:
  assumes "cid \<in> set (out_reduced (clear_rows env opts calls route chosen i ms d))"
  shows "\<exists>j < length ms. i + j \<in> set chosen \<and> message_call (ms ! j) = cid
     \<and> contains (tool_result_text (ms ! j)) PERSISTED_OUTPUT_TAG
     \<and> persisted_block_only (tool_result_text (ms ! j)) \<noteq> tool_result_text (ms ! j)
     \<and> out_messages (clear_rows env opts calls route chosen i ms d) ! j
         = replace_tool_content (ms ! j) (persisted_block_only (tool_result_text (ms ! j)))"
  using assms
proof (induction ms arbitrary: i d)
  case (Cons m ms)
  let ?step = "if i \<in> set chosen then clear_row env opts calls route d m else (None, d)"
  let ?rest = "clear_rows env opts calls route chosen (i + 1) ms (snd ?step)"
  let ?here = "i \<in> set chosen \<and> message_call m = cid \<and> contains (tool_result_text m) PERSISTED_OUTPUT_TAG
     \<and> persisted_block_only (tool_result_text m) \<noteq> tool_result_text m
     \<and> fst ?step = Some (replace_tool_content m (persisted_block_only (tool_result_text m)), True)"
  have "cid \<in> set (out_reduced ?rest) \<or> ?here"
    using Cons.prems
    by (auto simp: Let_def clear_row_def clear_spilled_def map_prod_def split: prod.splits option.splits if_splits)
  then show ?case
  proof
    assume "cid \<in> set (out_reduced ?rest)"
    from Cons.IH [OF this] obtain j where j: "j < length ms" "i + 1 + j \<in> set chosen" "message_call (ms ! j) = cid"
      "contains (tool_result_text (ms ! j)) PERSISTED_OUTPUT_TAG"
      "persisted_block_only (tool_result_text (ms ! j)) \<noteq> tool_result_text (ms ! j)"
      "out_messages ?rest ! j = replace_tool_content (ms ! j) (persisted_block_only (tool_result_text (ms ! j)))"
      by blast
    then show ?thesis
      by (intro exI [of _ "Suc j"]) (simp add: clear_rows_Cons del: clear_rows.simps)
  next
    assume h: ?here
    then show ?thesis
      by (intro exI [of _ 0]) (auto simp add: clear_rows_Cons simp del: clear_rows.simps)
  qed
qed simp

end
