(* ===== verification/Compact_Theorems.thy ===== *)
theory Compact_Theorems
  imports Block_Facts Reduction_Sidecar
begin

text \<open>
  The properties of the pass that clears tool results, of the record it leaves for the next turn, and of the cut that
  drops whole turns, with a concrete conversation for the hypotheses.
\<close>

lemma distinct_filtered:
  "distinct (map f (filter P xs)) \<Longrightarrow> j < k \<Longrightarrow> k < length xs \<Longrightarrow> P (xs ! j) \<Longrightarrow> P (xs ! k) \<Longrightarrow> f (xs ! j) \<noteq> f (xs ! k)"
proof (induction xs arbitrary: j k)
  case (Cons x xs)
  then obtain k' where k: "k = Suc k'" "k' < length xs" by (cases k) auto
  show ?case
  proof (cases j)
    case 0
    then have "f (xs ! k') \<in> f ` set (filter P xs)" using Cons.prems k by simp
    then show ?thesis using Cons.prems 0 k by auto
  next
    case (Suc j')
    then show ?thesis using Cons k by (auto split: if_splits)
  qed
qed simp

lemma distinct_index:
  "distinct (map f (filter P xs)) \<Longrightarrow> j < length xs \<Longrightarrow> k < length xs \<Longrightarrow> P (xs ! j) \<Longrightarrow> P (xs ! k) \<Longrightarrow>
   f (xs ! j) = f (xs ! k) \<Longrightarrow> j = k"
  using distinct_filtered [of f P xs j k] distinct_filtered [of f P xs k j] by (metis linorder_neqE_nat)

section \<open>A concrete conversation\<close>

definition demo_env :: spill_env where
  "demo_env = \<lparr>sessions_dir = ''/s'', can_write = (\<lambda>p. True), loads_text = (\<lambda>s. None), real_dir = (\<lambda>p. Some p)\<rparr>"

definition demo_call :: "string \<Rightarrow> json" where
  "demo_call cid = JObj [(''id'', JStr cid), (''function'', JObj [(''name'', JStr ''Read'')])]"

definition demo_row :: "string \<Rightarrow> string \<Rightarrow> message" where
  "demo_row cid s = [(''role'', JStr ''tool''), (''tool_call_id'', JStr cid), (''content'', JStr s)]"

definition demo_ask :: message where
  "demo_ask = [(''role'', JStr ''assistant''), (''tool_calls'', JArr [demo_call ''a'', demo_call ''b''])]"

definition demo_messages :: "message list" where
  "demo_messages = [demo_ask, demo_row ''a'' ''old result'', demo_row ''b'' ''new result'']"

definition demo_options :: pass_options where
  "demo_options = \<lparr>keep_recent_tools = 1, count_threshold = 1, compactable_tools = DEFAULT_COMPACTABLE_TOOLS,
     token_budget = None, estimate_fn = None, min_chars_to_clear = 5, session_id = ''x'', legacy_count_rule = True,
     disallowed_tools = [], non_compactable_tools = None, observation_stubs = False, observation_head_chars = 400,
     name_session_record = False, already_cleared = []\<rparr>"

lemma demo_simps:
  "message_role demo_ask = ''assistant''" "message_role (demo_row cid s) = ''tool''"
  "message_call (demo_row cid s) = cid" "tool_result_text (demo_row cid s) = s"
  by (simp_all add: demo_ask_def demo_row_def message_role_def get_or_def message_call_def dict_get_def py_or_def
      str_of_def tool_result_text_def)

lemma demo_calls: "calls_of demo_messages = [(''a'', ''Read'', JNull), (''b'', ''Read'', JNull)]"
  by (simp add: calls_of_def demo_messages_def demo_simps)
    (simp add: demo_ask_def demo_call_def dict_get_def call_entry_def json_items_def obj_items_def py_or_def str_of_def
      get_or_def Let_def)

lemma demo_no_tag: "\<not> contains ''old result'' PERSISTED_OUTPUT_TAG" "\<not> contains ''new result'' PERSISTED_OUTPUT_TAG"
  "\<not> is_cleared_stub ''old result''"
  by (simp_all add: contains_def startswith_def PERSISTED_OUTPUT_TAG_def is_cleared_stub_def OBSERVATION_STUB_PREFIX_def)

lemma demo_indices: "compactable_indices demo_options demo_messages = [1, 2]"
  by (simp add: compactable_indices_def demo_calls Let_def)
    (simp add: demo_messages_def compactable_def demo_simps call_named_def is_compactable_tool_call_def demo_options_def
      DEFAULT_COMPACTABLE_TOOLS_def upt_rec numeral_2_eq_2)

lemma demo_to_clear: "to_clear demo_options demo_messages = [1]"
proof -
  have c: "stale_candidates demo_options demo_messages = [1]"
    by (simp add: stale_candidates_def demo_indices Let_def)
      (simp add: demo_messages_def demo_simps demo_no_tag demo_options_def)
  then have "sizeable demo_options demo_messages = [1]"
    by (simp add: sizeable_def) (simp add: demo_messages_def demo_simps demo_options_def)
  with c show ?thesis
    by (simp add: to_clear_def chosen_by_rule_def demo_indices)
      (simp add: demo_messages_def demo_simps demo_no_tag demo_options_def)
qed

lemma demo_changed: "out_messages (microcompact demo_env demo_options demo_messages d) ! 1 \<noteq> demo_messages ! 1"
proof -
  have "out_messages (microcompact demo_env demo_options demo_messages d) ! 1
      = replace_tool_content (demo_row ''a'' ''old result'')
          (cleared_marker demo_env ''Read'' JNull (length ''old result'') (Some ''/s/x.tool-results/a.txt'') False [])"
    by (simp add: microcompact_rows demo_to_clear clear_rows_Cons demo_calls del: clear_rows.simps)
      (simp add: demo_messages_def clear_rows_Cons clear_row_def clear_fresh_def demo_simps demo_no_tag demo_options_def
        session_route_def call_named_def persist_for_compaction_def write_file_def spill_path_def spill_dir_def
        demo_env_def safe_id_def safe_char_def looks_like_json_def lstrip_def is_space_def stubs_on_def
        tool_is_denied_def READ_TOOL_def Let_def)
  then have changed: "tool_result_text (out_messages (microcompact demo_env demo_options demo_messages d) ! 1)
      = cleared_marker demo_env ''Read'' JNull (length ''old result'') (Some ''/s/x.tool-results/a.txt'') False []"
    by (simp only: replaced_text)
  have head: "hd (cleared_marker demo_env ''Read'' JNull n (Some ''/s/x.tool-results/a.txt'') False []) = CHR ''[''" for n
    by (simp add: cleared_marker_def Let_def)
  show ?thesis
  proof
    assume "out_messages (microcompact demo_env demo_options demo_messages d) ! 1 = demo_messages ! 1"
    then have "hd (tool_result_text (demo_messages ! 1)) = CHR ''[''" using changed head by (simp only:)
    then show False by (simp add: demo_messages_def demo_simps)
  qed
qed

section \<open>The pass\<close>

text \<open>
  C15. Nothing leaves the prompt without a copy. In a session, a result whose text does not contain the tag \<open><persisted-output>\<close>
  and that the pass replaced is on disk, whole, in a file that its marker names (by path, or by the id the file is called
  after), provided that the ids of the list's tool results sanitise to different file names. A result that contains the tag is
  taken for a spilled block and cut without being saved, and of two results of one file name the later overwrites the earlier.
\<close>
theorem cleared_is_recoverable:
  assumes "session_id opts \<noteq> []"
    and "distinct (map (\<lambda>m. safe_id (message_call m)) (filter (\<lambda>m. message_role m = ''tool'') ms))"
    and "i < length ms" "\<not> contains (tool_result_text (ms ! i)) PERSISTED_OUTPUT_TAG"
    and "out_messages (microcompact env opts ms d) ! i \<noteq> ms ! i"
  shows "\<exists>p. out_disk (microcompact env opts ms d) p = Some (Text (tool_result_text (ms ! i)))
     \<and> names_file (tool_result_text (out_messages (microcompact env opts ms d) ! i)) p"
proof -
  have row: "message_role (ms ! j) = ''tool'' \<and> message_call (ms ! j) \<noteq> []
      \<and> fst (call_named (calls_of ms) (message_call (ms ! j))) \<noteq> []" if "j \<in> set (to_clear opts ms)" for j
    using to_clear_facts(2) [OF that] compactable_facts [of opts ms "ms ! j"] by blast
  show ?thesis unfolding microcompact_rows
  proof (rule clear_rows_saved [OF assms(1)])
    show "safe_id (message_call (ms ! j)) \<noteq> safe_id (message_call (ms ! k))"
      if "j < k" "k < length ms" "0 + j \<in> set (to_clear opts ms)" "0 + k \<in> set (to_clear opts ms)" for j k
      using distinct_filtered [OF assms(2) that(1, 2)] row that by simp
  qed (use row assms in \<open>simp_all add: microcompact_rows writes_row_def\<close>)
qed

lemma cleared_is_recoverable_witness:
  "\<exists>p. out_disk (microcompact demo_env demo_options demo_messages Map.empty) p = Some (Text ''old result'')
     \<and> names_file (tool_result_text (out_messages (microcompact demo_env demo_options demo_messages Map.empty) ! 1)) p"
proof -
  have "session_id demo_options \<noteq> []" by (simp add: demo_options_def)
  moreover have "distinct (map (\<lambda>m. safe_id (message_call m)) (filter (\<lambda>m. message_role m = ''tool'') demo_messages))"
    by (simp add: demo_messages_def demo_simps safe_id_def safe_char_def Let_def)
  moreover have "1 < length demo_messages" "tool_result_text (demo_messages ! 1) = ''old result''"
    by (simp_all add: demo_messages_def demo_simps)
  ultimately show ?thesis
    using cleared_is_recoverable [of demo_options demo_messages 1 demo_env Map.empty] demo_no_tag(1) demo_changed by simp
qed

text \<open>
  C16. The pass changes what it is meant to change and nothing else: as many messages, in their places; a message that is
  no tool result, a result already cleared, and the last \<open>keep_recent_tools\<close> results that may be cleared are the same
  message; of any other only the content and the references to its images can differ.
\<close>
theorem pass_leaves_the_rest:
  fixes opts :: pass_options
  assumes "i < length ms"
  defines "recent \<equiv> drop (length (compactable_indices opts ms) - nat (keep_recent_tools opts)) (compactable_indices opts ms)"
  shows "length (out_messages (microcompact env opts ms d)) = length ms
     \<and> (message_role (ms ! i) \<noteq> ''tool'' \<or> is_cleared_stub (tool_result_text (ms ! i)) \<or> i \<in> set recent \<longrightarrow>
          out_messages (microcompact env opts ms d) ! i = ms ! i)
     \<and> (k \<notin> {''content'', ''_image_refs'', ''images''} \<longrightarrow>
          map_of (out_messages (microcompact env opts ms d) ! i) k = map_of (ms ! i) k)"
proof (intro conjI impI)
  show "map_of (out_messages (microcompact env opts ms d) ! i) k = map_of (ms ! i) k"
    if "k \<notin> {''content'', ''_image_refs'', ''images''}"
    using microcompact_row [OF assms(1), of env opts d] replaced_key [OF that] by auto
  show "out_messages (microcompact env opts ms d) ! i = ms ! i"
    if a: "message_role (ms ! i) \<noteq> ''tool'' \<or> is_cleared_stub (tool_result_text (ms ! i)) \<or> i \<in> set recent"
  proof (rule ccontr)
    assume "out_messages (microcompact env opts ms d) ! i \<noteq> ms ! i"
    then have t: "i \<in> set (to_clear opts ms)" using microcompact_row [OF assms(1), of env opts d] by blast
    let ?ix = "compactable_indices opts ms"
    let ?n = "length ?ix - nat (keep_recent_tools opts)"
    have "set (take ?n ?ix) \<inter> set (drop ?n ?ix) = {}"
      using sorted_indices(2) by (metis append_take_drop_id distinct_append)
    then show False using a to_clear_facts [OF t] compactable_facts(1) unfolding recent_def by blast
  qed
qed simp

lemma pass_leaves_the_rest_witness:
  "out_messages (microcompact demo_env demo_options demo_messages Map.empty) ! 2 = demo_row ''b'' ''new result''
   \<and> map_of (out_messages (microcompact demo_env demo_options demo_messages Map.empty) ! 1) ''tool_call_id'' = Some (JStr ''a'')"
proof -
  have r: "2 \<in> set (drop (length (compactable_indices demo_options demo_messages) - nat (keep_recent_tools demo_options))
      (compactable_indices demo_options demo_messages))"
    unfolding demo_indices by (simp add: demo_options_def)
  have l: "2 < length demo_messages" "1 < length demo_messages" by (simp_all add: demo_messages_def)
  show ?thesis
    using pass_leaves_the_rest [OF l(1), where opts = demo_options and env = demo_env and d = Map.empty] r
      pass_leaves_the_rest [OF l(2), where opts = demo_options and env = demo_env and d = Map.empty and k = "''tool_call_id''"]
    by (simp add: demo_messages_def demo_row_def)
qed





section \<open>Blocks and the record of the session\<close>

lemma plain_spill_path:
  assumes "plain_path (sessions_dir env)" "unbroken sid"
  shows "plain_path (spill_path env sid cid is_json)"
proof -
  have "\<not> is_break (safe_char c)" for c
    by (auto simp: safe_char_def Let_def is_break_def)
  then have "unbroken (safe_id cid)"
    by (auto simp: safe_id_def Let_def unbroken_def list_all_iff is_break_def dest!: in_set_takeD)
  then show ?thesis using assms
    by (auto simp: plain_path_def spill_path_def spill_dir_def is_break_def is_space_def)
qed

text \<open>
  C18. A spilled result can be read back. When \<open>maybe_spill\<close> replaces a result, the path that its block names holds the
  whole result, and so does the path the block still names after a later pass has cut it to its header.
\<close>
theorem spilled_block_round_trip:
  assumes "maybe_spill env content tool_name cid sid threshold disallowed d = (block, d')" "block \<noteq> content"
    and "plain_path (sessions_dir env)" "unbroken sid"
  shows "d' (pointer_path block) = Some (Text content)
     \<and> d' (pointer_path (persisted_block_only block)) = Some (Text content)"
proof -
  let ?path = "spill_path env sid cid (looks_like_json content)"
  have "block = spill_block content ?path disallowed tool_name" "d' = d(?path \<mapsto> Text content)"
    using assms(1, 2) by (auto simp: maybe_spill_def write_file_def Let_def split: if_splits)
  then show ?thesis using block_pointers [OF plain_spill_path [OF assms(3, 4)]] by simp
qed

lemma spilled_block_round_trip_witness:
  "\<exists>block d'. maybe_spill demo_env ''long'' ''Read'' ''a'' ''x'' 3 [] Map.empty = (block, d')
     \<and> d' (pointer_path (persisted_block_only block)) = Some (Text ''long'')"
proof -
  obtain block d' where m: "maybe_spill demo_env ''long'' ''Read'' ''a'' ''x'' 3 [] Map.empty = (block, d')" by fastforce
  have "hd block = CHR ''<''"
    using m spill_block_shape by (auto simp: maybe_spill_def write_file_def demo_env_def Let_def spill_block_def
        PERSISTED_OUTPUT_TAG_def split: prod.splits)
  then have "block \<noteq> ''long''" by auto
  moreover have "plain_path (sessions_dir demo_env)" "unbroken ''x''"
    by (simp_all add: plain_path_def demo_env_def is_break_def is_space_def)
  ultimately show ?thesis using spilled_block_round_trip [OF m] m by blast
qed

text \<open>A run of writes: \<open>True\<close> for relief's list, \<open>False\<close> for the one of the turn-start pass.\<close>

definition record_all :: "spill_env \<Rightarrow> string \<Rightarrow> (bool \<times> string list) list \<Rightarrow> disk \<Rightarrow> disk" where
  "record_all env sid writes d = fold (\<lambda>(relief, ids) d'. if relief then snd (record_reduced_calls env sid ids d')
     else snd (record_cleared_calls env sid ids d')) writes d"

text \<open>
  The two lists of the sidecar file are independent: after any run of writes to either, in any order, each list is what its
  own writes made of it, and nothing recorded is lost.
\<close>
theorem sidecar_lists_independent:
  assumes "list_all (\<lambda>(relief, ids). sidecar_usable env sid ids) writes"
  shows "read_reduced_calls env sid (record_all env sid writes d)
       = foldl merge_ids (read_reduced_calls env sid d) (map snd (filter fst writes))
     \<and> read_cleared_calls env sid (record_all env sid writes d)
       = foldl merge_ids (read_cleared_calls env sid d) (map snd (filter (\<lambda>w. \<not> fst w) writes))"
  unfolding record_all_def using assms by (rule sidecar.written_lists)

lemma sidecar_lists_independent_witness:
  "read_reduced_calls demo_env ''x'' (record_all demo_env ''x'' [(True, [''a'']), (False, [''b'']), (True, [''a'', ''c''])] Map.empty)
     = [''a'', ''c'']"
proof -
  have "list_all (\<lambda>(relief, ids). sidecar_usable demo_env ''x'' ids) [(True, [''a'']), (False, [''b'']), (True, [''a'', ''c''])]"
    by (simp add: sidecar_usable_def demo_env_def)
  moreover have "read_reduced_calls demo_env ''x'' Map.empty = []"
    by (simp add: read_reduced_calls_def sidecar_payload_def reduction_sidecar_path_def sidecar_list_def)
  ultimately show ?thesis
    using sidecar_lists_independent [of demo_env "''x''" "[(True, [''a'']), (False, [''b'']), (True, [''a'', ''c''])]" Map.empty]
    by (simp add: merge_ids_def)
qed

text \<open>A row whose id the pass reports, when no other result has that id: the replay makes of it what the pass did.\<close>

lemma reduced_row:
  assumes "i < length ms" "message_call (ms ! i) \<in> set (out_reduced (microcompact env opts ms d))"
    and "message_role (ms ! i) = ''tool''" "message_call (ms ! i) \<in> set ids"
    and "\<And>j. j < length ms \<Longrightarrow> message_role (ms ! j) = ''tool'' \<Longrightarrow> message_call (ms ! j) = message_call (ms ! i) \<Longrightarrow> j = i"
    and "pointer_path (tool_result_text (ms ! i)) \<noteq> []" "d' (pointer_path (tool_result_text (ms ! i))) \<noteq> None"
  shows "replay_row d' ids (ms ! i) = Some (out_messages (microcompact env opts ms d) ! i)"
proof -
  obtain j where j: "j < length ms" "j \<in> set (to_clear opts ms)" "message_call (ms ! j) = message_call (ms ! i)"
    "contains (tool_result_text (ms ! j)) PERSISTED_OUTPUT_TAG"
    "persisted_block_only (tool_result_text (ms ! j)) \<noteq> tool_result_text (ms ! j)"
    "out_messages (microcompact env opts ms d) ! j = replace_tool_content (ms ! j) (persisted_block_only (tool_result_text (ms ! j)))"
    using clear_rows_reduced [of "message_call (ms ! i)" env opts "calls_of ms" "session_route env opts d"
        "to_clear opts ms" 0 ms d] assms(2) by (auto simp: microcompact_rows)
  have "j = i" using assms(5) [OF j(1) _ j(3)] compactable_facts(1) to_clear_facts(2) [OF j(2)] by blast
  then show ?thesis using j to_clear_facts(3) [OF j(2)] assms by (simp add: replay_row_def Let_def)
qed

text \<open>
  C19. The next turn sees what the engine saw. The prompt of a turn is the replay of the session's rows with the ids recorded
  so far (\<open>old\<close>). When relief has run on that prompt under the session's id and recorded the ids it reduced, the replay of
  the next turn gives, for every tool result recorded now or earlier, exactly the message relief left in the prompt, and leaves
  every other row as it was written. Needed are: different ids for the tool results of the rows, a sidecar file that can be
  written and something to record, that every result recorded earlier was replayed in this turn's prompt, and that the file
  named by a result recorded now is there.
\<close>
theorem replay_matches_relief:
  fixes opts :: pass_options and rows :: "message list" and env :: spill_env and d :: disk
  defines "old \<equiv> read_reduced_calls env (session_id opts) d"
  defines "prompt \<equiv> fst (apply_reduction_sidecar env (session_id opts) rows d)"
  defines "r \<equiv> microcompact env opts prompt d"
  defines "after \<equiv> snd (record_reduced_calls env (session_id opts) (out_reduced r) (out_disk r))"
  assumes "distinct (map message_call (filter (\<lambda>m. message_role m = ''tool'') rows))"
    and "sidecar_usable env (session_id opts) (out_reduced r)"
    and "\<And>m. m \<in> set rows \<Longrightarrow> message_role m = ''tool'' \<Longrightarrow> message_call m \<in> set old \<Longrightarrow> replay_row d old m \<noteq> None"
    and "\<And>m. m \<in> set rows \<Longrightarrow> message_call m \<in> set (out_reduced r) \<Longrightarrow>
       pointer_path (tool_result_text m) \<noteq> [] \<and> out_disk r (pointer_path (tool_result_text m)) \<noteq> None"
    and "i < length rows"
  shows "fst (apply_reduction_sidecar env (session_id opts) rows after) ! i
     = (if message_role (rows ! i) = ''tool'' \<and> message_call (rows ! i) \<in> set old \<union> set (out_reduced r)
        then out_messages r ! i else rows ! i)"
proof -
  let ?ids = "read_reduced_calls env (session_id opts) after"
  have ids: "set ?ids = set old \<union> set (out_reduced r)"
    unfolding after_def sidecar.read1_add1 [OF assms(6)] set_merged by (simp add: r_def pass_keeps_sidecar old_def)
  have more: "after p \<noteq> None" if "out_disk r p \<noteq> None" for p
    using that unfolding after_def recorded_disk [OF assms(6)] by simp
  have grows: "after p \<noteq> None" if "d p \<noteq> None" for p
    by (rule more) (use clear_rows_grows [of d p, OF that] in \<open>simp add: r_def microcompact_rows\<close>)
  have prompt: "prompt ! i = (case replay_row d old (rows ! i) of None \<Rightarrow> rows ! i | Some m' \<Rightarrow> m')"
    using replay_nth [OF assms(9)] by (simp add: prompt_def old_def)
  have result: "fst (apply_reduction_sidecar env (session_id opts) rows after) ! i
      = (case replay_row after ?ids (rows ! i) of None \<Rightarrow> rows ! i | Some m' \<Rightarrow> m')"
    by (rule replay_nth [OF assms(9)])
  consider (earlier) "message_role (rows ! i) = ''tool''" "message_call (rows ! i) \<in> set old"
    | (fresh) "message_role (rows ! i) = ''tool''" "message_call (rows ! i) \<notin> set old" "message_call (rows ! i) \<in> set (out_reduced r)"
    | (neither) "message_role (rows ! i) \<noteq> ''tool'' \<or> message_call (rows ! i) \<notin> set ?ids" using ids by blast
  then show ?thesis
  proof cases
    case earlier
    then obtain m' where m': "replay_row d old (rows ! i) = Some m'" using assms(7) [OF nth_mem [OF assms(9)]] by auto
    have "is_cleared_stub (tool_result_text (prompt ! i))" using replay_row_shape [OF m'] reduced_is_stub prompt m' by simp
    then have "i \<notin> set (to_clear opts prompt)" using to_clear_facts(3) by blast
    then have same: "out_messages r ! i = m'"
      using microcompact_row [of i prompt env opts d] assms(9) prompt m' by (auto simp: r_def prompt_def)
    have "replay_row after ?ids (rows ! i) = Some m'"
      by (rule replay_row_mono [OF m']) (simp add: ids, rule grows)
    then show ?thesis using earlier result same by simp
  next
    case fresh
    then have p: "prompt ! i = rows ! i" unfolding prompt by (simp add: replay_row_def)
    have only: "j = i" if "j < length prompt" "message_role (prompt ! j) = ''tool''" "message_call (prompt ! j) = message_call (prompt ! i)" for j
    proof (rule distinct_index [OF assms(5)])
      show "j < length rows" using that(1) by (simp add: prompt_def)
      then show "message_role (rows ! j) = ''tool''" "message_call (rows ! j) = message_call (rows ! i)"
        using that(2, 3) unfolding p unfolding prompt_def by (simp_all add: replay_keeps)
    qed (use fresh assms(9) in simp_all)
    have "replay_row after ?ids (prompt ! i) = Some (out_messages (microcompact env opts prompt d) ! i)"
    proof (rule reduced_row)
      show "i < length prompt" using assms(9) by (simp add: prompt_def)
      show "after (pointer_path (tool_result_text (prompt ! i))) \<noteq> None" "pointer_path (tool_result_text (prompt ! i)) \<noteq> []"
        using more assms(8) [OF nth_mem [OF assms(9)] fresh(3)] unfolding p by blast+
    qed (use fresh ids only in \<open>simp_all add: p r_def\<close>)
    then have "replay_row after ?ids (rows ! i) = Some (out_messages r ! i)" unfolding p r_def .
    then show ?thesis using fresh result by simp
  next
    case neither
    then have "replay_row after ?ids (rows ! i) = None" by (auto simp: replay_row_def Let_def)
    then show ?thesis using neither ids result by auto
  qed
qed

definition demo_path :: string where "demo_path = ''/s/x.tool-results/a.txt''"

definition demo_block :: string where
  "demo_block = PERSISTED_OUTPUT_TAG @ NL @ saved_line 4 demo_path @ NL @ NL @ ''lo''"

definition demo_spilled :: "message list" where
  "demo_spilled = [demo_ask, demo_row ''a'' demo_block, demo_row ''b'' demo_block]"

definition demo_all :: pass_options where
  "demo_all = demo_options\<lparr>keep_recent_tools := 0\<rparr>"

text \<open>The file of the block is there, and an earlier turn has recorded the first row.\<close>

definition demo_disk :: disk where
  "demo_disk = [demo_path \<mapsto> Text ''long'', ''/s/x.microcompact-reduced.json'' \<mapsto> Json (sidecar_json [''a''] [])]"

definition demo_cut :: "string \<Rightarrow> message" where
  "demo_cut cid = replace_tool_content (demo_row cid demo_block) (persisted_block_only demo_block)"

lemma demo_block_facts:
  "contains demo_block PERSISTED_OUTPUT_TAG" "\<not> is_cleared_stub demo_block" "pointer_path demo_block = demo_path"
  "persisted_block_only demo_block \<noteq> demo_block"
proof -
  show tag: "contains demo_block PERSISTED_OUTPUT_TAG" by (simp add: demo_block_def contains_here)
  have "CHR ''['' \<notin> set demo_block"
    by (simp add: demo_block_def PERSISTED_OUTPUT_TAG_def saved_line_def format_size_def nat_text.simps commas.simps
        demo_path_def)
  then have "find_sub PREVIEW_DROPPED demo_block = None"
    using find_sub_skip [of PREVIEW_DROPPED demo_block "[]"] by (simp add: PREVIEW_DROPPED_def)
  then show stub: "\<not> is_cleared_stub demo_block"
    by (simp add: is_cleared_stub_def contains_def demo_block_def startswith_def PERSISTED_OUTPUT_TAG_def
        OBSERVATION_STUB_PREFIX_def)
  have plain: "plain_path demo_path" by (simp add: plain_path_def demo_path_def is_break_def is_space_def)
  then show "pointer_path demo_block = demo_path" unfolding demo_block_def by (rule block_pointer)
  show "persisted_block_only demo_block \<noteq> demo_block" using reduced_is_stub [OF tag] stub by metis
qed

lemma demo_cut_facts:
  "message_role (demo_cut cid) = ''tool''" "message_call (demo_cut cid) = cid" "is_cleared_stub (tool_result_text (demo_cut cid))"
  "dict_get (demo_cut cid) ''tool_calls'' = dict_get (demo_row cid demo_block) ''tool_calls''"
  using reduced_is_stub [OF demo_block_facts(1)] by (simp_all add: demo_cut_def demo_simps replaced_calls)

lemma demo_recorded: "read_reduced_calls demo_env ''x'' demo_disk = [''a'']"
  by (simp add: read_reduced_calls_def sidecar_payload_def reduction_sidecar_path_def sidecar_list_def demo_env_def
      demo_disk_def REDUCTION_SIDECAR_SUFFIX_def file_json_def sidecar_json_def dict_get_def nonempty_text_def)

lemma demo_replay: "replay_row demo_disk [''a''] (demo_row ''a'' demo_block) = Some (demo_cut ''a'')"
  by (simp add: replay_row_def demo_simps demo_block_facts demo_disk_def demo_cut_def Let_def) (simp add: demo_path_def)

lemma demo_prompt:
  "fst (apply_reduction_sidecar demo_env ''x'' demo_spilled demo_disk) = [demo_ask, demo_cut ''a'', demo_row ''b'' demo_block]"
  by (simp add: apply_reduction_sidecar_def demo_recorded demo_spilled_def demo_replay Let_def)
    (simp add: replay_row_def demo_simps)

lemma demo_prompt_calls: "calls_of [demo_ask, demo_cut ''a'', demo_row ''b'' demo_block] = [(''a'', ''Read'', JNull), (''b'', ''Read'', JNull)]"
  using demo_calls by (simp add: calls_of_def demo_messages_def demo_simps demo_cut_facts)

lemma demo_spilled_pass:
  defines "prompt \<equiv> [demo_ask, demo_cut ''a'', demo_row ''b'' demo_block]"
  shows "out_reduced (microcompact demo_env demo_all prompt demo_disk) = [''b'']"
    "out_disk (microcompact demo_env demo_all prompt demo_disk) = demo_disk"
    "out_messages (microcompact demo_env demo_all prompt demo_disk) = [demo_ask, demo_cut ''a'', demo_cut ''b'']"
proof -
  have ix: "compactable_indices demo_all prompt = [1, 2]"
    by (simp add: compactable_indices_def demo_prompt_calls prompt_def Let_def)
      (simp add: compactable_def demo_simps demo_cut_facts call_named_def is_compactable_tool_call_def demo_options_def
        demo_all_def DEFAULT_COMPACTABLE_TOOLS_def upt_rec numeral_2_eq_2)
  then have "stale_candidates demo_all prompt = [2]"
    by (simp add: stale_candidates_def Let_def)
      (simp add: prompt_def demo_simps demo_block_facts demo_cut_facts demo_options_def demo_all_def)
  then have tc: "set (to_clear demo_all prompt) = {2}"
    using chosen_subset [of demo_all prompt] sizeable_subset [of demo_all prompt]
    by (simp add: to_clear_def) (auto simp: prompt_def demo_simps demo_block_facts)
  have opts: "session_route demo_env demo_all demo_disk = []" "stubs_on demo_all = False" "already_cleared demo_all = []"
    by (simp_all add: session_route_def stubs_on_def demo_all_def demo_options_def)
  have row: "clear_row demo_env demo_all calls [] d (demo_row ''b'' demo_block) = (Some (demo_cut ''b'', True), d)" for calls d
    by (simp add: clear_row_def clear_spilled_def demo_simps demo_block_facts opts demo_cut_def Let_def split: prod.split)
  have "clear_rows demo_env demo_all calls [] c 0 prompt demo_disk
      = \<lparr>out_messages = [demo_ask, demo_cut ''a'', demo_cut ''b''],
         out_cleared = 1, out_reduced = [''b''], out_cleared_calls = [''b''], out_disk = demo_disk\<rparr>"
    if "set c = {2}" for calls c
    unfolding prompt_def by (simp add: that row demo_simps opts Let_def)
  from this [OF tc]
  show "out_reduced (microcompact demo_env demo_all prompt demo_disk) = [''b'']"
    "out_disk (microcompact demo_env demo_all prompt demo_disk) = demo_disk"
    "out_messages (microcompact demo_env demo_all prompt demo_disk) = [demo_ask, demo_cut ''a'', demo_cut ''b'']"
    unfolding microcompact_rows opts by simp_all
qed

text \<open>Row \<open>a\<close> was recorded a turn ago, row \<open>b\<close> by this turn's relief: the next turn sees both cut.\<close>

lemma replay_matches_relief_witness:
  "fst (apply_reduction_sidecar demo_env ''x'' demo_spilled
       (snd (record_reduced_calls demo_env ''x'' [''b''] demo_disk))) ! 1 = demo_cut ''a''
   \<and> fst (apply_reduction_sidecar demo_env ''x'' demo_spilled
       (snd (record_reduced_calls demo_env ''x'' [''b''] demo_disk))) ! 2 = demo_cut ''b''"
proof -
  have sid: "session_id demo_all = ''x''" by (simp add: demo_all_def demo_options_def)
  have call: "message_call demo_ask = []"
    by (simp add: demo_ask_def message_call_def dict_get_def py_or_def str_of_def)
  let ?next = "fst (apply_reduction_sidecar demo_env ''x'' demo_spilled (snd (record_reduced_calls demo_env ''x'' [''b''] demo_disk)))"
  have "?next ! i = (if message_role (demo_spilled ! i) = ''tool'' \<and> message_call (demo_spilled ! i) \<in> {''a'', ''b''}
      then [demo_ask, demo_cut ''a'', demo_cut ''b''] ! i else demo_spilled ! i)" if "i < length demo_spilled" for i
  proof (rule replay_matches_relief [of demo_spilled demo_env demo_all demo_disk i, unfolded sid demo_recorded demo_prompt
        demo_spilled_pass, THEN trans, OF _ _ _ _ that])
    show "distinct (map message_call (filter (\<lambda>m. message_role m = ''tool'') demo_spilled))"
      by (simp add: demo_spilled_def demo_simps)
    show "sidecar_usable demo_env ''x'' [''b'']" by (simp add: sidecar_usable_def demo_env_def)
    show "replay_row demo_disk [''a''] m \<noteq> None" if "m \<in> set demo_spilled" "message_role m = ''tool''" "message_call m \<in> set [''a'']" for m
      using that call by (auto simp: demo_spilled_def demo_simps demo_replay)
    show "pointer_path (tool_result_text m) \<noteq> [] \<and> demo_disk (pointer_path (tool_result_text m)) \<noteq> None"
      if "m \<in> set demo_spilled" "message_call m \<in> set [''b'']" for m
      using that call by (auto simp: demo_spilled_def demo_simps demo_block_facts demo_disk_def) (simp_all add: demo_path_def)
  qed auto
  from this [of 1] this [of 2] show ?thesis by (simp add: demo_spilled_def demo_simps)
qed

section \<open>Cutting whole turns\<close>

lemma kept_turns:
  fixes ms :: "message list" and keep :: nat
  assumes "group_into_turns ms \<noteq> []"
  defines "turns \<equiv> group_into_turns ms"
  defines "start \<equiv> if keep < length turns then newest keep turns else turns"
  obtains gone where "turns = gone @ drop_oldest est limit start" "drop_oldest est limit start \<noteq> []"
    "gone \<noteq> [] \<Longrightarrow> length (drop_oldest est limit start) = keep
       \<or> limit < est (concat (last gone # drop_oldest est limit start))"
proof -
  let ?old = "take (length turns - length start) turns"
  have start: "start \<noteq> []" using assms(1) by (auto simp: start_def turns_def)
  have old: "turns = ?old @ start" "?old = [] \<or> length start = keep" by (auto simp: start_def newest_def)
  obtain dropped where dropped: "start = dropped @ drop_oldest est limit start" using drop_oldest_suffix by blast
  show thesis
  proof (rule that)
    show "turns = (?old @ dropped) @ drop_oldest est limit start" using old(1) dropped by simp
    show "drop_oldest est limit start \<noteq> []" using start by simp
    show "length (drop_oldest est limit start) = keep
       \<or> limit < est (concat (last (?old @ dropped) # drop_oldest est limit start))" if "?old @ dropped \<noteq> []"
    proof (cases "dropped = []")
      case True
      then show ?thesis using old(2) dropped that by simp
    next
      case False
      then show ?thesis using drop_oldest_no_more [OF dropped False] by simp
    qed
  qed
qed

lemma truncation_cuts:
  assumes est: "est = (\<lambda>xs. estimate_conversation_tokens per_image xs prompt)"
    and "\<not> est ms \<le> limit" "group_into_turns ms = gone @ kept" "kept \<noteq> []"
    and "drop_oldest est limit (if keep < length (group_into_turns ms) then newest keep (group_into_turns ms)
           else group_into_turns ms) = kept"
  shows "truncate_conversation per_image ms limit keep prompt =
      ((if 0 < est ms - est (concat kept)
        then [omission_note (est ms - est (concat kept)) (int (length gone))] else []) @ concat kept,
       est ms - est (concat kept))"
proof -
  have len: "int (length (group_into_turns ms)) - int (length kept) = int (length gone)" unfolding assms(3) by simp
  have over: "\<not> (estimate_conversation_tokens per_image ms prompt \<le> limit \<or> group_into_turns ms = [])"
    using assms(2-4) by (simp add: est)
  show ?thesis
    unfolding truncate_conversation_def Let_def if_not_P [OF over] assms(5) [unfolded est] flatten_turns_def len est
    by (simp only: append_Cons append_Nil split: if_split) simp
qed

text \<open>
  C40. The cut that drops history keeps whole turns. What is returned is the newest turns of the conversation in order, at
  least one of them, after one note that counts what is gone; the kept turns fit the budget unless only one is left; a cut
  starts at a message of the person, so no tool result loses its call; and no further turn could have been kept (of the
  \<open>turns_to_keep\<close> newest).
\<close>
theorem truncation_keeps_whole_turns:
  fixes ms :: "message list" and per_image :: "int option" and prompt :: string
  assumes "ms \<noteq> []"
  defines "est \<equiv> \<lambda>xs. estimate_conversation_tokens per_image xs prompt"
  shows "\<exists>gone kept note. group_into_turns ms = gone @ kept \<and> kept \<noteq> []
     \<and> fst (truncate_conversation per_image ms limit keep prompt) = note @ concat kept
     \<and> snd (truncate_conversation per_image ms limit keep prompt) = est ms - est (concat kept)
     \<and> note = (if 0 < est ms - est (concat kept)
          then [omission_note (est ms - est (concat kept)) (int (length gone))] else [])
     \<and> (est (concat kept) \<le> limit \<or> length kept = 1)
     \<and> (gone = [] \<or> message_role (hd (concat kept)) = ''user''
          \<and> (length kept = keep \<or> limit < est (concat (last gone # kept))))"
proof (cases "est ms \<le> limit")
  case True
  then have "truncate_conversation per_image ms limit keep prompt = (ms, 0)"
    by (simp add: truncate_conversation_def est_def Let_def)
  then show ?thesis using True assms(1)
    by (intro exI [of _ "[]"] exI [of _ "group_into_turns ms"]) simp
next
  case False
  let ?start = "if keep < length (group_into_turns ms) then newest keep (group_into_turns ms) else group_into_turns ms"
  let ?kept = "drop_oldest est limit ?start"
  have "group_into_turns ms \<noteq> []" using assms(1) by simp
  then obtain gone where turns: "group_into_turns ms = gone @ ?kept" and kept: "?kept \<noteq> []"
    and more: "gone \<noteq> [] \<Longrightarrow> length ?kept = keep \<or> limit < est (concat (last gone # ?kept))"
    using kept_turns [where keep = keep and est = est and limit = limit] by metis
  have fits: "est (concat ?kept) \<le> limit \<or> length ?kept = 1"
    using drop_oldest_fits [of ?start est limit] kept by fastforce
  have cut: "gone = [] \<or> message_role (hd (concat ?kept)) = ''user''
      \<and> (length ?kept = keep \<or> limit < est (concat (last gone # ?kept)))"
    using cut_at_user [OF turns _ kept] more by blast
  note result = truncation_cuts [OF est_def [THEN meta_eq_to_obj_eq] False turns kept refl]
  show ?thesis unfolding result fst_conv snd_conv
    by (rule exI [of _ gone], rule exI [of _ ?kept], rule exI, intro conjI) (rule turns kept refl fits cut)+
qed

definition demo_chat :: "message list" where
  "demo_chat = [[(''role'', JStr ''user''), (''content'', JStr ''one'')], [(''role'', JStr ''assistant''), (''content'', JStr ''two'')],
     [(''role'', JStr ''user''), (''content'', JStr ''three'')]]"

lemma truncation_keeps_whole_turns_witness:
  "\<exists>gone kept. group_into_turns demo_chat = gone @ kept \<and> kept \<noteq> []
     \<and> snd (truncate_conversation None demo_chat 1 20 []) =
         estimate_conversation_tokens None demo_chat [] - estimate_conversation_tokens None (concat kept) []"
proof -
  have "demo_chat \<noteq> []" by (simp add: demo_chat_def)
  from truncation_keeps_whole_turns [OF this, of None 1 20 "[]"] show ?thesis by blast
qed

end
