(* ===== verification/Context_Meter.thy ===== *)
theory Context_Meter
  imports Conversation_Facts Complex_Main
begin

text \<open>
  The meter of one turn (\<open>app/harness/context_meter.py\<close>) and the latch on the relief of a turn
  (\<open>_ReliefLatch\<close>, \<open>_relief_target\<close>, \<open>_relief_rearm_level\<close> of \<open>app/harness/loop.py\<close>).

  The estimate is the one of \<open>app/compaction.py\<close> with an empty system prompt. A fraction of the configuration is a
  rational; \<open>int(a * f)\<close> is the floor of the exact product.
\<close>

section \<open>The meter\<close>

record meter =
  window :: int
  reported :: int
  reported_at_len :: nat
  appended :: int
  offset :: int

definition new_meter :: "int \<Rightarrow> int \<Rightarrow> int \<Rightarrow> int \<Rightarrow> meter" where
  "new_meter win reported_tokens at_len appended_estimate =
     \<lparr>window = (if 0 < win then win else DEFAULT_CONTEXT_WINDOW), reported = max 0 reported_tokens,
      reported_at_len = nat at_len, appended = max 0 appended_estimate, offset = 0\<rparr>"

definition measured :: "meter \<Rightarrow> bool" where
  "measured mt \<longleftrightarrow> 0 < reported mt"

definition used :: "meter \<Rightarrow> int" where
  "used mt = (if measured mt then reported mt + appended mt else 0)"

definition headroom :: "meter \<Rightarrow> int" where
  "headroom mt = (if measured mt then max 0 (window mt - used mt) else window mt)"

definition fraction :: "meter \<Rightarrow> rat" where
  "fraction mt = (if \<not> measured mt \<or> window mt \<le> 0 then 0 else of_int (used mt) / of_int (window mt))"

definition threshold :: "meter \<Rightarrow> int" where
  "threshold mt = truncation_threshold (window mt)"

definition threshold_fraction :: "meter \<Rightarrow> rat" where
  "threshold_fraction mt =
     (if \<not> measured mt \<or> threshold mt \<le> 0 then 0 else of_int (used mt) / of_int (threshold mt))"

definition estimate_list :: "int option \<Rightarrow> message list \<Rightarrow> int" where
  "estimate_list k ms = estimate_conversation_tokens k ms []"

definition observe_usage :: "(string \<times> json) list \<Rightarrow> nat \<Rightarrow> meter \<Rightarrow> meter" where
  "observe_usage usage n_messages mt =
     (let v = get_or usage ''input_tokens'' (JInt 0); n = (case py_int (if truthy v then v else JInt 0) of Some i \<Rightarrow> i | None \<Rightarrow> 0)
      in if n \<le> 0 then mt else mt\<lparr>reported := n, reported_at_len := n_messages, appended := 0\<rparr>)"

definition observe_append :: "int option \<Rightarrow> message list \<Rightarrow> meter \<Rightarrow> meter" where
  "observe_append k ms mt =
     (if \<not> measured mt then mt
      else let tail = drop (reported_at_len mt) ms; new = (if tail = [] then 0 else estimate_list k tail);
               prefix_est = max 0 (estimate_list k ms - new)
           in mt\<lparr>appended := new, offset := max 0 (reported mt - prefix_est)\<rparr>)"

definition resync :: "int option \<Rightarrow> message list \<Rightarrow> meter \<Rightarrow> meter" where
  "resync k ms mt =
     (if \<not> measured mt then mt
      else mt\<lparr>reported := max 1 (offset mt + estimate_list k ms), reported_at_len := length ms, appended := 0\<rparr>)"

section \<open>The latch\<close>

definition part_of :: "int \<Rightarrow> rat \<Rightarrow> int" where
  "part_of n f = \<lfloor>of_int n * f\<rfloor>"

definition relief_target :: "rat \<Rightarrow> meter \<Rightarrow> int" where
  "relief_target target_fraction mt = part_of (threshold mt) target_fraction"

definition relief_rearm_level :: "rat \<Rightarrow> meter \<Rightarrow> int" where
  "relief_rearm_level trigger_fraction mt = part_of (threshold mt) trigger_fraction"

record relief_latch =
  passes :: nat
  rearm :: int

definition new_latch :: relief_latch where
  "new_latch = \<lparr>passes = 0, rearm = 0\<rparr>"

definition latch_closed :: "int \<Rightarrow> relief_latch \<Rightarrow> bool" where
  "latch_closed n latch \<longleftrightarrow> 0 < passes latch \<and> n < rearm latch"

text \<open>The end of a pass: the latch arms unless no level can be named.\<close>

definition arm :: "int \<Rightarrow> relief_latch \<Rightarrow> relief_latch" where
  "arm level latch = (if level \<le> 0 then latch else latch\<lparr>passes := passes latch + 1, rearm := level\<rparr>)"

section \<open>Facts\<close>

lemma estimate_nonneg: "0 \<le> estimate_message_tokens k m \<or> (\<exists>n < 0. k = Some n)"
  using estimate_tokens_nonneg
  by (cases k) (auto simp: estimate_message_tokens_def image_tokens_def FALLBACK_IMAGE_TOKENS_def Let_def not_less
      split: json.splits intro!: add_nonneg_nonneg)

lemma estimate_list_append: "estimate_list k (xs @ ys) = estimate_list k xs + estimate_list k ys"
  using estimate_append [of k xs ys "[]"]
  by (simp add: estimate_list_def estimate_conversation_tokens_def estimate_tokens_def)

lemma estimate_list_Nil [simp]: "estimate_list k [] = 0"
  by (simp add: estimate_list_def estimate_conversation_tokens_def estimate_tokens_def)

lemma estimate_list_nonneg: "(\<And>n. k = Some n \<Longrightarrow> 0 \<le> n) \<Longrightarrow> 0 \<le> estimate_list k ms"
proof (induction ms)
  case (Cons m ms)
  have "0 \<le> estimate_message_tokens k m" using estimate_nonneg [of k m] Cons.prems by fastforce
  moreover have "estimate_list k (m # ms) = estimate_message_tokens k m + estimate_list k ms"
    by (simp add: estimate_list_def estimate_conversation_tokens_def)
  ultimately show ?case using Cons by simp
qed simp

lemma truncation_threshold_pos: "1000 \<le> truncation_threshold w"
  by (simp add: truncation_threshold_def)

end
