(* ===== verification/Relief_Ladder.thy ===== *)
theory Relief_Ladder
  imports Reduction_Sidecar Context_Meter
begin

text \<open>
  Relief of context pressure inside a turn: the bodies spilled out of a call's arguments
  (\<open>shrink_assistant_arguments\<close> of \<open>app/harness/microcompact.py\<close>), the screenshots dropped (\<open>app/harness/tool_images.py\<close>), and
  the ladder \<open>_relieve_context\<close> with its other rungs (\<open>app/harness/loop.py\<close>), cheapest first.

  The list of messages, the meter, the disk and the latch are the state. The \<open>try\<close> around every rung
  guards against bugs of the rung; the rungs below raise nothing. The event a pass publishes is not modelled.
\<close>

section \<open>Bodies in the arguments of a call\<close>

definition SHRUNK_ARG_MARKER :: string where "SHRUNK_ARG_MARKER = ''[argument cleared from context]''"

definition SHRINKABLE_ARGS :: "(string \<times> string list) list" where
  "SHRINKABLE_ARGS = [(''Write'', [''content'']), (''Edit'', [''old_string'', ''new_string''])]"

definition shrinkable_fields :: "string \<Rightarrow> string list \<Rightarrow> string list" where
  "shrinkable_fields tool_name allow =
     (let bare = bare_tool_name tool_name in
      if tool_name = [] \<or> bare \<notin> set allow then []
      else (case map_of SHRINKABLE_ARGS bare of None \<Rightarrow> [] | Some fs \<Rightarrow> fs))"

definition landed_calls :: "message list \<Rightarrow> string list" where
  "landed_calls ms =
     filter (\<lambda>cid. cid \<noteq> []) (map message_call (filter (\<lambda>m. message_role m = ''tool'') ms))"

definition call_id :: "json \<Rightarrow> string" where
  "call_id tc = str_of (py_or (dict_get (obj_items tc) ''id'') (JStr []))"

definition message_calls :: "message \<Rightarrow> json list" where
  "message_calls m = (if message_role m = ''assistant'' then json_items (dict_get m ''tool_calls'') else [])"

definition ordered_calls :: "message list \<Rightarrow> string list" where
  "ordered_calls ms =
     filter (\<lambda>cid. cid \<noteq> [] \<and> cid \<in> set (landed_calls ms)) (map call_id (concat (map message_calls ms)))"

definition recent_calls :: "int \<Rightarrow> message list \<Rightarrow> string list" where
  "recent_calls keep ms =
     (let xs = ordered_calls ms in if 0 < keep then drop (length xs - nat keep) xs else [])"

definition shrunk_text :: "string \<Rightarrow> string \<Rightarrow> (string \<times> json) list \<Rightarrow> string" where
  "shrunk_text body path args =
     (let tgt = py_or (dict_get args ''file_path'') (py_or (dict_get args ''path'') (JStr [])) in
      SHRUNK_ARG_MARKER @ '' '' @ commas (length body) @ '' chars''
      @ (if truthy tgt then '' written to '' @ py_str tgt else [])
      @ ''; the text is at '' @ path @ ''. Read that path if you need it again.'')"

record shrink_state =
  sh_args :: "(string \<times> json) list"
  sh_changed :: bool
  sh_freed :: int
  sh_disk :: disk

fun shrink_fields :: "spill_env \<Rightarrow> string \<Rightarrow> int \<Rightarrow> string \<Rightarrow> string list \<Rightarrow> shrink_state \<Rightarrow> shrink_state" where
  "shrink_fields env sid min_chars cid [] st = st"
| "shrink_fields env sid min_chars cid (f # fs) st =
     (case dict_get (sh_args st) f of
        JStr body \<Rightarrow>
          if int (length body) < min_chars \<or> sid = [] then shrink_fields env sid min_chars cid fs st
          else (case persist_for_compaction env body (cid @ ''.args.'' @ f) sid (sh_disk st) of
              (None, d') \<Rightarrow> shrink_fields env sid min_chars cid fs (st\<lparr>sh_disk := d'\<rparr>)
            | (Some path, d') \<Rightarrow>
                let t = shrunk_text body path (sh_args st) in
                shrink_fields env sid min_chars cid fs
                  \<lparr>sh_args = dict_set (sh_args st) f (JStr t), sh_changed = True,
                   sh_freed = sh_freed st + (int (length body) - int (length t)), sh_disk = d'\<rparr>)
      | _ \<Rightarrow> shrink_fields env sid min_chars cid fs st)"

text \<open>One call: the new call if a body left it, the characters freed, the disk.\<close>

definition shrink_call ::
    "spill_env \<Rightarrow> string \<Rightarrow> int \<Rightarrow> string list \<Rightarrow> string list \<Rightarrow> string list \<Rightarrow> json \<Rightarrow> disk \<Rightarrow> json option \<times> int \<times> disk" where
  "shrink_call env sid min_chars allow landed recent tc d =
     (let cid = call_id tc; kvs = obj_items tc; fn = obj_items (dict_get kvs ''function'');
          fields_of = shrinkable_fields (str_of (dict_get fn ''name'')) allow
      in if fields_of = [] \<or> cid = [] \<or> cid \<notin> set landed \<or> cid \<in> set recent then (None, 0, d)
         else case dict_get fn ''arguments'' of
           JStr raw \<Rightarrow>
             if int (length raw) < min_chars then (None, 0, d)
             else (case loads_text env raw of
                 Some (JObj args) \<Rightarrow>
                   let st = shrink_fields env sid min_chars cid fields_of
                         \<lparr>sh_args = args, sh_changed = False, sh_freed = 0, sh_disk = d\<rparr>
                   in if sh_changed st
                      then (Some (JObj (dict_set kvs ''function''
                              (JObj (dict_set fn ''arguments'' (JStr (dumps (JObj (sh_args st)))))))),
                            sh_freed st, sh_disk st)
                      else (None, 0, sh_disk st)
               | _ \<Rightarrow> (None, 0, d))
         | _ \<Rightarrow> (None, 0, d))"

fun shrink_calls ::
    "spill_env \<Rightarrow> string \<Rightarrow> int \<Rightarrow> string list \<Rightarrow> string list \<Rightarrow> string list \<Rightarrow> json list \<Rightarrow> disk
     \<Rightarrow> json list \<times> nat \<times> int \<times> disk" where
  "shrink_calls env sid min_chars allow landed recent [] d = ([], 0, 0, d)"
| "shrink_calls env sid min_chars allow landed recent (tc # tcs) d =
     (let (change, freed, d') = shrink_call env sid min_chars allow landed recent tc d;
          (tcs', n, f, d'') = shrink_calls env sid min_chars allow landed recent tcs d'
      in case change of None \<Rightarrow> (tc # tcs', n, freed + f, d'') | Some tc' \<Rightarrow> (tc' # tcs', n + 1, freed + f, d''))"

fun shrink_messages ::
    "spill_env \<Rightarrow> string \<Rightarrow> int \<Rightarrow> string list \<Rightarrow> string list \<Rightarrow> string list \<Rightarrow> message list \<Rightarrow> disk
     \<Rightarrow> message list \<times> nat \<times> int \<times> disk" where
  "shrink_messages env sid min_chars allow landed recent [] d = ([], 0, 0, d)"
| "shrink_messages env sid min_chars allow landed recent (m # ms) d =
     (let (tcs', n, f, d') = shrink_calls env sid min_chars allow landed recent (message_calls m) d;
          (ms', n', f', d'') = shrink_messages env sid min_chars allow landed recent ms d'
      in ((if n = 0 then m else dict_set m ''tool_calls'' (JArr tcs')) # ms', n + n', f + f', d''))"

definition shrink_assistant_arguments ::
    "spill_env \<Rightarrow> message list \<Rightarrow> int \<Rightarrow> int \<Rightarrow> string \<Rightarrow> string list \<Rightarrow> disk \<Rightarrow> message list \<times> nat \<times> int \<times> disk" where
  "shrink_assistant_arguments env ms keep min_chars sid tools d =
     (let allow = filter (\<lambda>t. t \<noteq> []) tools in
      if allow = [] \<or> ms = [] then (ms, 0, 0, d)
      else shrink_messages env sid min_chars allow (landed_calls ms) (recent_calls keep ms) ms d)"

section \<open>Screenshots\<close>

definition EVICTED_PLACEHOLDER :: string where
  "EVICTED_PLACEHOLDER = ''[screenshot removed to save context]''"

definition evict :: "message \<Rightarrow> message" where
  "evict m =
     (let m' = dict_pop ''_image_refs'' m in
      case dict_get m ''content'' of
        JStr c \<Rightarrow> if contains c EVICTED_PLACEHOLDER then m'
                   else dict_set m' ''content'' (JStr (c @ NL @ EVICTED_PLACEHOLDER))
      | _ \<Rightarrow> m')"

definition image_indices :: "message list \<Rightarrow> nat list" where
  "image_indices ms = filter (\<lambda>i. truthy (dict_get (ms ! i) ''_image_refs'')) [0..<length ms]"

definition keep_newest :: "int \<Rightarrow> message list \<Rightarrow> message list \<times> nat" where
  "keep_newest keep ms =
     (let idx = image_indices ms; gone = (if 0 < keep then take (length idx - nat keep) idx else idx)
      in (map (\<lambda>i. if i \<in> set gone then evict (ms ! i) else ms ! i) [0..<length ms], length gone))"

section \<open>Preserved reasoning\<close>

definition has_reasoning :: "message \<Rightarrow> bool" where
  "has_reasoning m \<longleftrightarrow> message_role m = ''assistant''
     \<and> (map_of m ''reasoning'' \<noteq> None \<or> map_of m ''reasoning_content'' \<noteq> None)"

text \<open>The walk of \<open>_prune_reasoning\<close> from the newest message; \<open>seen\<close> counts those that carry reasoning.\<close>

fun prune_from :: "nat \<Rightarrow> int \<Rightarrow> message list \<Rightarrow> message list" where
  "prune_from seen keep [] = []"
| "prune_from seen keep (m # ms) =
     (if has_reasoning m
      then (if keep < int (seen + 1) then dict_pop ''reasoning_content'' (dict_pop ''reasoning'' m) else m)
             # prune_from (seen + 1) keep ms
      else m # prune_from seen keep ms)"

definition prune_reasoning :: "int \<Rightarrow> message list \<Rightarrow> message list" where
  "prune_reasoning keep ms = rev (prune_from 0 keep (rev ms))"

section \<open>Truncating the largest results\<close>

definition block_texts :: "message \<Rightarrow> string list" where
  "block_texts m = concat (map (\<lambda>b. case b of JObj kvs \<Rightarrow> [str_of (get_or kvs ''text'' (JStr []))] | _ \<Rightarrow> [])
     (json_items (dict_get m ''content'')))"

definition result_body :: "message \<Rightarrow> string" where
  "result_body m = (case dict_get m ''content'' of JStr s \<Rightarrow> s | JArr bs \<Rightarrow> concat (block_texts m) | _ \<Rightarrow> [])"

definition truncation_candidates :: "int \<Rightarrow> message list \<Rightarrow> (nat \<times> nat) list" where
  "truncation_candidates min_chars ms =
     order_by (\<lambda>(a, i) (b, j). b < a \<or> (a = b \<and> j \<le> i))
       (map (\<lambda>i. (length (result_body (ms ! i)), i))
         (filter (\<lambda>i. message_role (ms ! i) = ''tool'' \<and> min_chars < int (length (result_body (ms ! i)))) [0..<length ms]))"

definition truncation_notice :: "nat \<Rightarrow> string option \<Rightarrow> bool \<Rightarrow> string \<Rightarrow> string" where
  "truncation_notice n path read_denied route = (case path of
     Some p \<Rightarrow>
       (let recovery = (if read_denied
              then ''the Read tool is not available on this turn, so that path cannot be opened from here'' @ dash
                @ ''re-run the call with a narrower query (fewer hops, higher min_confidence, fewer max_results) for the part you need.''
              else ''Read that path if you need it again.'')
        in ''[harness: tool result cleared under context pressure'' @ dash @ commas n @ '' chars, full content at '' @ p @ ''. ''
           @ recovery @ (if route = [] then [] else '' '' @ route) @ '']'')
   | None \<Rightarrow>
       ''[harness: tool result truncated by context-overflow recovery'' @ dash @ ''original was '' @ nat_text n
       @ '' chars. The combined tool history exceeded the model'' @ [CHR 0x27]
       @ ''s context window. Re-run the call with a narrower query (smaller hops, higher min_confidence, fewer max_results) or use a more targeted tool.]'')"

definition cut_result :: "message \<Rightarrow> string \<Rightarrow> message" where
  "cut_result m notice =
     dict_pop ''_image_refs'' (dict_set m ''content'' (case dict_get m ''content'' of
       JArr bs \<Rightarrow> JArr [JObj [(''type'', JStr ''text''), (''text'', JStr notice)]] | _ \<Rightarrow> JStr notice))"

definition save_cut :: "spill_env \<Rightarrow> string \<Rightarrow> message \<Rightarrow> disk \<Rightarrow> string option \<times> disk" where
  "save_cut env sid m d =
     (if sid = [] \<or> message_call m = [] \<or> result_body m = [] then (None, d)
      else persist_for_compaction env (result_body m) (message_call m @ ''.truncated'') sid d)"

fun truncate_rows ::
    "spill_env \<Rightarrow> string \<Rightarrow> bool \<Rightarrow> string \<Rightarrow> int \<Rightarrow> (nat \<times> nat) list \<Rightarrow> message list \<Rightarrow> int \<Rightarrow> disk
     \<Rightarrow> message list \<times> nat \<times> int \<times> disk" where
  "truncate_rows env sid denied route target_chars [] ms freed d = (ms, 0, freed, d)"
| "truncate_rows env sid denied route target_chars ((n, i) # rest) ms freed d =
     (let (path, d') = save_cut env sid (ms ! i) d; notice = truncation_notice n path denied route;
          ms' = ms[i := cut_result (ms ! i) notice]; freed' = freed + (int n - int (length notice))
      in if target_chars \<le> freed' then (ms', 1, freed', d')
         else let (ms'', k, f, d'') = truncate_rows env sid denied route target_chars rest ms' freed' d'
              in (ms'', k + 1, f, d''))"

definition truncate_largest_tool_results ::
    "spill_env \<Rightarrow> message list \<Rightarrow> int \<Rightarrow> string \<Rightarrow> int \<Rightarrow> string list \<Rightarrow> bool \<Rightarrow> disk
     \<Rightarrow> message list \<times> nat \<times> int \<times> disk" where
  "truncate_largest_tool_results env ms target_chars sid min_chars disallowed name_record d =
     truncate_rows env sid (tool_is_denied READ_TOOL disallowed)
       (if name_record \<and> sid \<noteq> [] then session_record_route env d sid disallowed else [])
       target_chars (truncation_candidates min_chars ms) ms 0 d"

section \<open>The ladder\<close>

record relief_options =
  relief_enabled :: bool
  target_fraction :: rat
  trigger_fraction :: rat
  model_window :: int
  relief_session :: string
  relief_min_chars :: int
  relief_disallowed :: "string list"
  relief_non_compactable :: "string list option"
  relief_stubs :: bool
  relief_head_chars :: int
  relief_name_record :: bool
  relief_sidecar :: bool
  keep_images :: int
  thinking_iterations :: int
  reasoning_under_pressure :: int
  shrink_arguments :: bool
  shrink_min_chars :: int
  shrink_tools :: "string list"
  per_image_tokens :: "int option"

record relief_state =
  chat :: "message list"
  gauge :: meter
  store_disk :: disk

datatype rung = Images nat | Tool_results nat | Reasoning int | Arguments nat | Truncated nat

record relief_report =
  rungs :: "rung list"
  latched :: bool
  used_before :: int
  used_after :: int
  freed_tokens :: int

definition rung_one_options :: "relief_options \<Rightarrow> int \<Rightarrow> int \<Rightarrow> pass_options" where
  "rung_one_options o' keep_recent budget =
     \<lparr>keep_recent_tools = keep_recent, count_threshold = 20, compactable_tools = DEFAULT_COMPACTABLE_TOOLS,
      token_budget = Some budget, estimate_fn = Some (estimate_list (per_image_tokens o')),
      min_chars_to_clear = relief_min_chars o', session_id = relief_session o', legacy_count_rule = False,
      disallowed_tools = relief_disallowed o', non_compactable_tools = relief_non_compactable o',
      observation_stubs = relief_stubs o', observation_head_chars = relief_head_chars o',
      name_session_record = relief_name_record o', already_cleared = []\<rparr>"

text \<open>Rung 1, \<open>_intra_turn_microcompact\<close>: gated on its own trigger, recorded in the sidecar.\<close>

definition intra_turn_microcompact ::
    "spill_env \<Rightarrow> relief_options \<Rightarrow> int \<Rightarrow> relief_state \<Rightarrow> relief_state \<times> nat" where
  "intra_turn_microcompact env o' keep_recent st =
     (let k = per_image_tokens o'; thr = truncation_threshold (model_window o');
          trigger = part_of thr (trigger_fraction o'); tgt = part_of thr (target_fraction o');
          mt = (if measured (gauge st) then observe_append k (chat st) (gauge st) else gauge st);
          current = (if measured (gauge st) then used mt else estimate_list k (chat st));
          off = (if measured (gauge st) then offset mt else 0);
          st1 = st\<lparr>gauge := mt\<rparr>
      in if current \<le> trigger then (st1, 0)
         else let r = microcompact env (rung_one_options o' keep_recent (max 1 (tgt - off))) (chat st) (store_disk st);
                  d = (if relief_sidecar o' \<and> out_reduced r \<noteq> []
                       then snd (record_reduced_calls env (relief_session o') (out_reduced r) (out_disk r)) else out_disk r)
              in (st1\<lparr>chat := (if out_cleared r = 0 then chat st else out_messages r), store_disk := d\<rparr>, out_cleared r))"

definition over :: "int \<Rightarrow> relief_state \<Rightarrow> bool" where
  "over tgt st \<longleftrightarrow> measured (gauge st) \<and> tgt < used (gauge st)"

definition resynced :: "relief_options \<Rightarrow> relief_state \<Rightarrow> relief_state" where
  "resynced o' st = st\<lparr>gauge := resync (per_image_tokens o') (chat st) (gauge st)\<rparr>"

definition rung_images :: "relief_options \<Rightarrow> int \<Rightarrow> relief_state \<Rightarrow> relief_state \<times> rung list" where
  "rung_images o' tgt st =
     (if over tgt st then
        let (ms, dropped) = keep_newest (if keep_images o' = 0 then 3 else keep_images o') (chat st) in
        if 0 < dropped then (resynced o' (st\<lparr>chat := ms\<rparr>), [Images dropped]) else (st, [])
      else (st, []))"

definition rung_results :: "spill_env \<Rightarrow> relief_options \<Rightarrow> int \<Rightarrow> relief_state \<Rightarrow> relief_state \<times> rung list" where
  "rung_results env o' keep_recent st =
     (let (st', cleared) = intra_turn_microcompact env o' keep_recent st
      in (resynced o' st', if 0 < cleared then [Tool_results cleared] else []))"

definition rung_reasoning :: "relief_options \<Rightarrow> int \<Rightarrow> int \<Rightarrow> relief_state \<Rightarrow> relief_state \<times> rung list" where
  "rung_reasoning o' tgt keep st =
     (if over tgt st \<and> 0 < keep then (resynced o' (st\<lparr>chat := prune_reasoning keep (chat st)\<rparr>), [Reasoning keep])
      else (st, []))"

definition rung_arguments :: "spill_env \<Rightarrow> relief_options \<Rightarrow> int \<Rightarrow> int \<Rightarrow> relief_state \<Rightarrow> relief_state \<times> rung list" where
  "rung_arguments env o' tgt keep_recent st =
     (if over tgt st \<and> shrink_arguments o' then
        let (ms, n, freed, d) = shrink_assistant_arguments env (chat st) keep_recent (shrink_min_chars o')
              (relief_session o') (shrink_tools o') (store_disk st)
        in if 0 < n then (resynced o' (st\<lparr>chat := ms, store_disk := d\<rparr>), [Arguments n])
           else (st\<lparr>store_disk := d\<rparr>, [])
      else (st, []))"

definition rung_truncate :: "spill_env \<Rightarrow> relief_options \<Rightarrow> int \<Rightarrow> relief_state \<Rightarrow> relief_state \<times> rung list" where
  "rung_truncate env o' tgt st =
     (if over tgt st then
        let (ms, n, freed, d) = truncate_largest_tool_results env (chat st) (max 20000 (max 0 (used (gauge st) - tgt) * 4))
              (relief_session o') (relief_min_chars o') (relief_disallowed o') (relief_name_record o') (store_disk st)
        in if 0 < n then (resynced o' (st\<lparr>chat := ms, store_disk := d\<rparr>), [Truncated n])
           else (st\<lparr>store_disk := d\<rparr>, [])
      else (st, []))"

definition then_rung ::
    "(relief_state \<Rightarrow> relief_state \<times> rung list) \<Rightarrow> relief_state \<times> rung list \<Rightarrow> relief_state \<times> rung list" where
  "then_rung f p = (let (st, rs) = p; (st', rs') = f st in (st', rs @ rs'))"

definition climb :: "spill_env \<Rightarrow> relief_options \<Rightarrow> int \<Rightarrow> int \<Rightarrow> relief_state \<Rightarrow> relief_state \<times> rung list" where
  "climb env o' tgt keep_recent st =
     then_rung (rung_truncate env o' tgt)
       (then_rung (rung_arguments env o' tgt keep_recent)
         (then_rung (rung_reasoning o' tgt (reasoning_under_pressure o'))
           (then_rung (rung_reasoning o' tgt (thinking_iterations o'))
             (then_rung (rung_results env o' keep_recent)
               (rung_images o' tgt st)))))"

definition no_report :: relief_report where
  "no_report = \<lparr>rungs = [], latched = False, used_before = 0, used_after = 0, freed_tokens = 0\<rparr>"

definition relieve_context ::
    "spill_env \<Rightarrow> relief_options \<Rightarrow> int \<Rightarrow> int \<Rightarrow> relief_latch option \<Rightarrow> relief_state
     \<Rightarrow> relief_report \<times> relief_latch option \<times> relief_state" where
  "relieve_context env o' given_target keep_recent latch st =
     (if \<not> relief_enabled o' then (no_report, latch, st)
      else
        let before = used (gauge st);
            tgt = (if given_target = 0 then relief_target (target_fraction o') (gauge st) else given_target);
            level = relief_rearm_level (trigger_fraction o') (gauge st)
        in if measured (gauge st) \<and> (case latch of None \<Rightarrow> False | Some l \<Rightarrow> latch_closed before l)
           then (no_report\<lparr>latched := True\<rparr>, latch, st)
           else let (st', rs) = climb env o' tgt keep_recent st; after = used (gauge st')
             in (\<lparr>rungs = rs, latched = False, used_before = before, used_after = after, freed_tokens = max 0 (before - after)\<rparr>,
                 map_option (arm level) latch, st'))"

end
