(* ===== verification/Relief_Theorems.thy ===== *)
theory Relief_Theorems
  imports Relief_Ladder Block_Facts
begin

text \<open>
  The properties of the meter, of the latch and of the ladder: what the meter reads is what the prompt costs, a pass waits for
  the prompt to regrow, a rung after the first runs only under pressure, and what the last two rungs take out
  of the prompt is on disk.
\<close>

section \<open>The meter\<close>

text \<open>
  C39. The meter reads the prompt. After an append has been observed on a measured meter, what it says is used is the fixed cost
  it learned plus the estimate of the whole list, less the amount by which the estimate of the part the engine was sent is over
  the engine's own count (nothing, unless the estimate over-reports). Observing again changes nothing; and re-anchoring on
  a rewritten list reads the same fixed cost plus the estimate of the new list, at least 1.
\<close>
theorem meter_reads_prompt:
  fixes mt :: meter and ms ms2 :: "message list" and per_image :: "int option"
  assumes "measured mt" "\<And>n. per_image = Some n \<Longrightarrow> 0 \<le> n"
  defines "mt' \<equiv> observe_append per_image ms mt"
  shows "used mt' = offset mt' + estimate_list per_image ms
       - max 0 (estimate_list per_image (take (reported_at_len mt) ms) - reported mt)
     \<and> used (resync per_image ms2 mt') = max 1 (offset mt' + estimate_list per_image ms2)
     \<and> observe_append per_image ms mt' = mt'
     \<and> offset (resync per_image ms2 mt') = offset mt'"
proof -
  let ?est = "estimate_list per_image"
  let ?head = "take (reported_at_len mt) ms" and ?tail = "drop (reported_at_len mt) ms"
  have split: "?est ms = ?est ?head + ?est ?tail"
    using estimate_list_append [of per_image ?head ?tail] by simp
  have nonneg: "0 \<le> ?est ?head" using estimate_list_nonneg [of per_image] assms(2) by blast
  have prefix: "max 0 (?est ms - ?est ?tail) = ?est ?head" using split nonneg by linarith
  have tail: "(if ?tail = [] then 0 else ?est ?tail) = ?est ?tail" by simp
  have mt': "mt' = mt\<lparr>appended := ?est ?tail, offset := max 0 (reported mt - ?est ?head)\<rparr>"
    unfolding mt'_def observe_append_def Let_def tail prefix using assms(1) by simp
  have m: "measured mt'" using assms(1) by (simp add: mt' measured_def)
  have parts: "reported mt' = reported mt" "appended mt' = ?est ?tail" "reported_at_len mt' = reported_at_len mt"
    and o: "offset mt' = max 0 (reported mt - ?est ?head)" by (simp_all add: mt')
  have u: "used mt' = reported mt + ?est ?tail" using m by (simp only: used_def parts if_True)
  have again: "observe_append per_image ms mt' = mt'"
    unfolding observe_append_def Let_def parts tail prefix using m by (simp add: mt')
  have r: "used (resync per_image ms' mt') = max 1 (offset mt' + ?est ms')" for ms'
    using m by (auto simp: resync_def used_def measured_def)
  have fixed: "offset (resync per_image ms2 mt') = offset mt'" using m by (simp add: resync_def)
  have "used mt' = offset mt' + ?est ms - max 0 (?est ?head - reported mt)"
    unfolding u o split by linarith
  with again fixed r show ?thesis by blast
qed

definition demo_meter :: meter where
  "demo_meter = \<lparr>window = 128000, reported = 50, reported_at_len = 1, appended = 0, offset = 0\<rparr>"

definition demo_user :: "string \<Rightarrow> message" where
  "demo_user s = [(''role'', JStr ''user''), (''content'', JStr s)]"

lemma demo_user_estimate: "estimate_list None [demo_user s] = estimate_tokens s"
  by (simp add: estimate_list_def estimate_conversation_tokens_def estimate_message_tokens_def demo_user_def
      message_text_def get_or_def dict_get_def image_tokens_def estimate_tokens_def)

lemma meter_reads_prompt_witness:
  "used (observe_append None [demo_user ''abcd'', demo_user ''abcdefgh''] demo_meter) = 52
   \<and> offset (observe_append None [demo_user ''abcd'', demo_user ''abcdefgh''] demo_meter) = 49"
proof -
  have m: "measured demo_meter" by (simp add: demo_meter_def measured_def)
  have two: "estimate_list None [demo_user ''abcd'', demo_user ''abcdefgh''] = 3"
    using estimate_list_append [of None "[demo_user ''abcd'']" "[demo_user ''abcdefgh'']"]
    by (simp add: demo_user_estimate estimate_tokens_def TOKENS_PER_CHAR_def)
  have one: "estimate_list None [demo_user ''abcd''] = 1" "estimate_list None [demo_user ''abcdefgh''] = 2"
    by (simp_all add: demo_user_estimate estimate_tokens_def TOKENS_PER_CHAR_def)
  have off: "offset (observe_append None [demo_user ''abcd'', demo_user ''abcdefgh''] demo_meter) = 49"
    using m by (simp add: observe_append_def two one Let_def demo_meter_def)
  show ?thesis
    using meter_reads_prompt [OF m, of None "[demo_user ''abcd'', demo_user ''abcdefgh'']"] two one off
    by (simp add: demo_meter_def)
qed

section \<open>The latch\<close>

text \<open>
  The calls of one turn, with the latch carried along: \<open>True\<close> marks the proactive calls at the head of an iteration, which
  carry the turn's latch, \<open>False\<close> the calls at the wall (an overflow, a request about to be sent, a terminal inject), which
  carry none. For every proactive call that ran the ladder: the reading it ran at and the level it armed the latch with.
\<close>

fun turn_passes ::
    "spill_env \<Rightarrow> relief_options \<Rightarrow> (bool \<times> int \<times> int \<times> relief_state) list \<Rightarrow> relief_latch \<Rightarrow> (int \<times> int) list" where
  "turn_passes env o' [] latch = []"
| "turn_passes env o' ((carries, tgt, keep, st) # calls) latch =
     (if \<not> carries then turn_passes env o' calls latch
      else let (report, latch', st') = relieve_context env o' tgt keep (Some latch) st
           in (if latched report then []
               else [(used (gauge st), relief_rearm_level (trigger_fraction o') (gauge st))])
              @ turn_passes env o' calls (case latch' of None \<Rightarrow> latch | Some l \<Rightarrow> l))"

text \<open>Each pass runs at the level the one before it set, or above.\<close>

definition regrown :: "(int \<times> int) list \<Rightarrow> bool" where
  "regrown ps \<longleftrightarrow> (\<forall>i. Suc i < length ps \<longrightarrow> snd (ps ! i) \<le> fst (ps ! Suc i))"

lemma regrown_Cons: "regrown (p # q # ps) \<longleftrightarrow> snd p \<le> fst q \<and> regrown (q # ps)"
  unfolding regrown_def by (auto simp: nth_Cons split: nat.splits)

lemma regrown_single [simp]: "regrown []" "regrown [p]"
  by (simp_all add: regrown_def)

lemma relieve_latch:
  assumes "relief_enabled o'" "measured (gauge st)"
  shows "latched (fst (relieve_context env o' tgt keep (Some l) st)) = latch_closed (used (gauge st)) l"
    and "fst (snd (relieve_context env o' tgt keep (Some l) st)) =
      Some (if latch_closed (used (gauge st)) l then l
            else arm (relief_rearm_level (trigger_fraction o') (gauge st)) l)"
    and "latch_closed (used (gauge st)) l \<Longrightarrow> snd (snd (relieve_context env o' tgt keep (Some l) st)) = st"
  using assms by (auto simp: relieve_context_def no_report_def Let_def split: prod.splits)

lemma turn_passes_carried:
  assumes "relief_enabled o'" "measured (gauge st)"
  shows "turn_passes env o' ((True, tgt, keep, st) # calls) l =
    (if latch_closed (used (gauge st)) l then turn_passes env o' calls l
     else (used (gauge st), relief_rearm_level (trigger_fraction o') (gauge st))
       # turn_passes env o' calls (arm (relief_rearm_level (trigger_fraction o') (gauge st)) l))"
  using relieve_latch [OF assms, where env = env and tgt = tgt and keep = keep and l = l]
  by (cases "relieve_context env o' tgt keep (Some l) st") auto

lemma turn_passes_armed:
  assumes "relief_enabled o'" "0 < passes l"
    and "\<And>tgt keep st. (True, tgt, keep, st) \<in> set calls \<Longrightarrow>
       measured (gauge st) \<and> 0 < relief_rearm_level (trigger_fraction o') (gauge st)"
  shows "regrown ((n, rearm l) # turn_passes env o' calls l)"
  using assms(2-)
proof (induction calls arbitrary: n l)
  case (Cons c calls)
  obtain carries tgt keep st where c: "c = (carries, tgt, keep, st)" by (cases c)
  show ?case
  proof (cases carries)
    case False
    then show ?thesis using Cons c by simp
  next
    case True
    let ?level = "relief_rearm_level (trigger_fraction o') (gauge st)"
    have m: "measured (gauge st)" "0 < ?level" using Cons.prems(2) c True by auto
    have "regrown ((used (gauge st), ?level) # turn_passes env o' calls (arm ?level l))"
      using Cons.IH [of "arm ?level l" "used (gauge st)"] Cons.prems m by (auto simp: arm_def)
    moreover have "rearm l \<le> used (gauge st)" if "\<not> latch_closed (used (gauge st)) l"
      using that Cons.prems(1) by (simp add: latch_closed_def)
    moreover have "regrown ((n, rearm l) # turn_passes env o' calls l)"
      using Cons.IH [of l n] Cons.prems by auto
    ultimately show ?thesis
      using True unfolding c by (simp add: turn_passes_carried [OF assms(1) m(1)] regrown_Cons del: turn_passes.simps)
  qed
qed simp

text \<open>
  C21. One relief per regrowth. Among the calls of a turn that carry the turn's latch, with a measured meter and a positive
  trigger, every pass of the ladder after the first runs at a reading that has regrown to the level the pass before it
  armed the latch with (the level at which rung 1 would trigger on that pass's meter), whatever calls without a latch come in
  between; a call the latch stops changes neither the messages, the meter nor the disk. The calls at the wall carry no latch and
  are never stopped by it.
\<close>
theorem relief_waits_for_regrowth:
  assumes "relief_enabled o'"
    and "\<And>tgt keep st. (True, tgt, keep, st) \<in> set calls \<Longrightarrow>
       measured (gauge st) \<and> 0 < relief_rearm_level (trigger_fraction o') (gauge st)"
  shows "(\<forall>i. Suc i < length (turn_passes env o' calls new_latch) \<longrightarrow>
       snd (turn_passes env o' calls new_latch ! i) \<le> fst (turn_passes env o' calls new_latch ! Suc i))
     \<and> (\<forall>(carries, tgt, keep, st) \<in> set calls. carries \<longrightarrow> latch_closed (used (gauge st)) l \<longrightarrow>
          snd (snd (relieve_context env o' tgt keep (Some l) st)) = st)
     \<and> (\<forall>tgt keep st. \<not> latched (fst (relieve_context env o' tgt keep None st)))"
proof (intro conjI)
  have "regrown (turn_passes env o' calls new_latch)" using assms(2)
  proof (induction calls)
    case (Cons c calls)
    obtain carries tgt keep st where c: "c = (carries, tgt, keep, st)" by (cases c)
    show ?case
    proof (cases carries)
      case True
      let ?level = "relief_rearm_level (trigger_fraction o') (gauge st)"
      have m: "measured (gauge st)" "0 < ?level" using Cons.prems c True by auto
      have "regrown ((used (gauge st), rearm (arm ?level new_latch)) # turn_passes env o' calls (arm ?level new_latch))"
        by (rule turn_passes_armed [OF assms(1)]) (use m Cons.prems in \<open>auto simp: arm_def new_latch_def\<close>)
      then show ?thesis
        using m True unfolding c turn_passes_carried [OF assms(1) m(1)]
        by (simp add: turn_passes_carried [OF assms(1) m(1)] latch_closed_def new_latch_def arm_def del: turn_passes.simps)
    qed (use Cons c in simp)
  qed simp
  then show "\<forall>i. Suc i < length (turn_passes env o' calls new_latch) \<longrightarrow>
       snd (turn_passes env o' calls new_latch ! i) \<le> fst (turn_passes env o' calls new_latch ! Suc i)"
    unfolding regrown_def .
  show "\<forall>(carries, tgt, keep, st) \<in> set calls. carries \<longrightarrow> latch_closed (used (gauge st)) l \<longrightarrow>
          snd (snd (relieve_context env o' tgt keep (Some l) st)) = st"
    by (auto intro!: relieve_latch(3) [OF assms(1)] dest: assms(2))
  show "\<forall>tgt keep st. \<not> latched (fst (relieve_context env o' tgt keep None st))"
    by (simp add: relieve_context_def no_report_def Let_def split: prod.splits)
qed

definition demo_relief :: relief_options where
  "demo_relief = \<lparr>relief_enabled = True, target_fraction = 3 / 5, trigger_fraction = 4 / 5, model_window = 128000,
     relief_session = ''x'', relief_min_chars = 2000, relief_disallowed = [], relief_non_compactable = None,
     relief_stubs = False, relief_head_chars = 400, relief_name_record = False, relief_sidecar = False, keep_images = 3,
     thinking_iterations = 6, reasoning_under_pressure = 2, shrink_arguments = True, shrink_min_chars = 2000,
     shrink_tools = [''Write'', ''Edit''], per_image_tokens = None\<rparr>"

definition demo_state :: relief_state where
  "demo_state = \<lparr>chat = [], gauge = demo_meter, store_disk = Map.empty\<rparr>"

definition demo_spill :: spill_env where
  "demo_spill = \<lparr>sessions_dir = ''/s'', can_write = (\<lambda>p. True), loads_text = (\<lambda>s. None), real_dir = (\<lambda>p. Some p)\<rparr>"

definition demo_regrown :: relief_state where
  "demo_regrown = \<lparr>chat = [], gauge = demo_meter\<lparr>reported := 61000\<rparr>, store_disk = Map.empty\<rparr>"

text \<open>The first proactive call runs, the second is stopped, the wall does not count, and the third runs at 61000 tokens.\<close>

definition demo_turn :: "(bool \<times> int \<times> int \<times> relief_state) list" where
  "demo_turn = [(True, 0, 15, demo_state), (True, 0, 15, demo_state), (False, 0, 15, demo_state), (True, 0, 15, demo_regrown)]"

lemma demo_levels: "relief_rearm_level (trigger_fraction demo_relief) (gauge demo_state) = 60800"
    "relief_rearm_level (trigger_fraction demo_relief) (gauge demo_regrown) = 60800"
    "measured (gauge demo_state)" "measured (gauge demo_regrown)" "relief_enabled demo_relief"
  by (simp_all add: relief_rearm_level_def part_of_def demo_relief_def demo_state_def demo_regrown_def demo_meter_def
      threshold_def truncation_threshold_def OUTPUT_TOKENS_RESERVED_def TRUNCATION_BUFFER_TOKENS_def measured_def)

lemma demo_turn_passes: "turn_passes demo_spill demo_relief demo_turn new_latch = [(50, 60800), (61000, 60800)]"
proof -
  have u: "used (gauge demo_state) = 50" "used (gauge demo_regrown) = 61000"
    by (simp_all add: demo_state_def demo_regrown_def demo_meter_def used_def measured_def)
  have wall: "turn_passes env o' ((False, tgt, keep, st) # calls) l = turn_passes env o' calls l" for env o' tgt keep st calls l
    by simp
  show ?thesis
    by (simp add: demo_turn_def turn_passes_carried [OF demo_levels(5, 3)] turn_passes_carried [OF demo_levels(5, 4)] wall
        demo_levels u latch_closed_def new_latch_def arm_def del: turn_passes.simps(2))
qed

lemma relief_waits_for_regrowth_witness:
  "turn_passes demo_spill demo_relief demo_turn new_latch = [(50, 60800), (61000, 60800)] \<and> (60800 :: int) \<le> 61000"
proof -
  have "measured (gauge st) \<and> 0 < relief_rearm_level (trigger_fraction demo_relief) (gauge st)"
    if "(True, tgt, keep, st) \<in> set demo_turn" for tgt keep st
    using that by (auto simp: demo_turn_def demo_levels)
  note r = conjunct1 [OF relief_waits_for_regrowth [OF demo_levels(5) this, where env = demo_spill], unfolded demo_turn_passes]
  from r [THEN spec [of _ 0]] show ?thesis by (simp add: demo_turn_passes)
qed

section \<open>The shape of the conversation\<close>

text \<open>What pairs calls with results: the role of a message, the id it answers, the ids it calls.\<close>

definition row_shape :: "message \<Rightarrow> string \<times> string \<times> string list" where
  "row_shape m = (message_role m, message_call m, map call_id (message_calls m))"

lemma shape_cong:
  assumes "\<And>k. k \<in> {''role'', ''tool_call_id'', ''call_id'', ''tool_calls''} \<Longrightarrow> map_of m' k = map_of m k"
  shows "row_shape m' = row_shape m"
proof -
  have "message_role m' = message_role m" "dict_get m' ''tool_calls'' = dict_get m ''tool_calls''"
    using assms by (simp_all add: message_role_def get_or_def dict_get_def)
  moreover have "message_call m' = message_call m"
    using assms by (simp add: message_call_def dict_get_def)
  ultimately show ?thesis by (simp add: row_shape_def message_calls_def)
qed

lemma shape_evict: "row_shape (evict m) = row_shape m"
  by (rule shape_cong) (auto simp: evict_def Let_def map_of_dict_set map_of_dict_pop split: json.splits)

lemma shape_pruned: "row_shape (dict_pop ''reasoning_content'' (dict_pop ''reasoning'' m)) = row_shape m"
  by (rule shape_cong) (auto simp: map_of_dict_pop)

lemma shape_replaced: "row_shape (replace_tool_content m s) = row_shape m"
  by (rule shape_cong) (auto simp: replaced_key)

lemma shape_cut: "row_shape (cut_result m s) = row_shape m"
  by (rule shape_cong) (auto simp: cut_result_def map_of_dict_set map_of_dict_pop)

lemma shapes_images: "map row_shape (fst (keep_newest keep ms)) = map row_shape ms"
  by (rule nth_equalityI) (auto simp: keep_newest_def Let_def shape_evict)

lemma shapes_pruned: "map row_shape (prune_reasoning keep ms) = map row_shape ms"
proof -
  have "map row_shape (prune_from seen keep xs) = map row_shape xs" for seen xs
    by (induction seen keep xs rule: prune_from.induct) (auto simp: shape_pruned)
  then show ?thesis by (simp add: prune_reasoning_def rev_map [symmetric])
qed

lemma shapes_compacted: "map row_shape (out_messages (microcompact env opts ms d)) = map row_shape ms"
proof (rule nth_equalityI)
  fix i assume "i < length (map row_shape (out_messages (microcompact env opts ms d)))"
  then have i: "i < length ms" by simp
  then show "map row_shape (out_messages (microcompact env opts ms d)) ! i = map row_shape ms ! i"
    using microcompact_row [OF i, of env opts d] by (auto simp: shape_replaced)
qed simp

lemma shrunk_call_form:
  "shrink_call env sid mc allow landed recent tc d = (Some tc', f, d') \<Longrightarrow>
   \<exists>fn. tc' = JObj (dict_set (obj_items tc) ''function'' fn)"
  by (auto simp: shrink_call_def Let_def split: if_splits json.splits option.splits)

lemma call_id_shrunk:
  "shrink_call env sid mc allow landed recent tc d = (Some tc', f, d') \<Longrightarrow> call_id tc' = call_id tc"
  by (drule shrunk_call_form) (auto simp: call_id_def obj_items_def dict_get_set)

lemma call_ids_shrunk:
  "map call_id (fst (shrink_calls env sid mc allow landed recent tcs d)) = map call_id tcs"
proof (induction tcs arbitrary: d)
  case (Cons tc tcs)
  obtain change freed d' where c: "shrink_call env sid mc allow landed recent tc d = (change, freed, d')"
    by (metis prod_cases3)
  have "call_id tc' = call_id tc" if "change = Some tc'" for tc'
    using call_id_shrunk c that by blast
  then show ?case using Cons [of d'] by (auto simp: c Let_def split: prod.splits option.splits)
qed simp

lemma shapes_shrunk: "map row_shape (fst (shrink_messages env sid mc allow landed recent ms d)) = map row_shape ms"
proof (induction ms arbitrary: d)
  case (Cons m ms)
  obtain tcs n f d' where tcs: "shrink_calls env sid mc allow landed recent (message_calls m) d = (tcs, n, f, d')"
    by (metis prod_cases4)
  have "row_shape (if n = 0 then m else dict_set m ''tool_calls'' (JArr tcs)) = row_shape m"
  proof (cases "n = 0")
    case False
    have r: "message_role m = ''assistant''"
    proof (rule ccontr)
      assume "message_role m \<noteq> ''assistant''"
      then have "message_calls m = []" by (simp add: message_calls_def)
      then show False using tcs False by simp
    qed
    have ids: "map call_id tcs = map call_id (message_calls m)"
      using call_ids_shrunk [of env sid mc allow landed recent "message_calls m" d] tcs by simp
    let ?m = "dict_set m ''tool_calls'' (JArr tcs)"
    have "message_role ?m = message_role m" "message_call ?m = message_call m" "dict_get ?m ''tool_calls'' = JArr tcs"
      by (simp_all add: message_role_def get_or_def message_call_def dict_get_def map_of_dict_set)
    then show ?thesis using False r ids by (simp add: row_shape_def message_calls_def json_items_def)
  qed simp
  then show ?case using Cons [of d'] by (auto simp: tcs Let_def split: prod.splits)
qed simp

lemma shapes_truncated:
  "list_all (\<lambda>(n, i). i < length ms) rows \<Longrightarrow>
   map row_shape (fst (truncate_rows env sid denied route tgt rows ms freed d)) = map row_shape ms"
proof (induction env sid denied route tgt rows ms freed d rule: truncate_rows.induct)
  case (2 env sid denied route tgt n i rest ms freed d)
  have "map row_shape (ms[i := cut_result (ms ! i) s]) = map row_shape ms" for s
    using 2(2) by (intro nth_equalityI) (auto simp: nth_list_update shape_cut)
  with 2 show ?case by (auto simp: Let_def split: prod.splits)
qed simp

lemma truncation_candidates_range:
  "list_all (\<lambda>(n, i). i < length ms) (truncation_candidates mc ms)"
  by (auto simp: truncation_candidates_def list_all_iff)

definition same_shape :: "relief_state \<Rightarrow> relief_state \<times> rung list \<Rightarrow> bool" where
  "same_shape st p \<longleftrightarrow> map row_shape (chat (fst p)) = map row_shape (chat st)"

lemma same_shape_then: "same_shape st p \<Longrightarrow> (\<And>s. same_shape s (f s)) \<Longrightarrow> same_shape st (then_rung f p)"
  by (auto simp: same_shape_def then_rung_def split: prod.splits) (metis fst_conv)

lemma chat_resynced [simp]: "chat (resynced o' st) = chat st"
  by (simp add: resynced_def)

lemma rung_shapes:
  "same_shape st (rung_images o' tgt st)"
  "same_shape st (rung_results env o' keep st)"
  "same_shape st (rung_reasoning o' tgt k st)"
  "same_shape st (rung_arguments env o' tgt keep st)"
  "same_shape st (rung_truncate env o' tgt st)"
proof -
  have images: "keep_newest k ms = (ms', n) \<Longrightarrow> map row_shape ms' = map row_shape ms" for k ms ms' n
    using shapes_images by (metis fst_conv)
  show "same_shape st (rung_images o' tgt st)"
    by (simp add: same_shape_def rung_images_def split: prod.split) (auto dest: images)
  show "same_shape st (rung_results env o' keep st)"
    using shapes_compacted
    by (auto simp: same_shape_def rung_results_def intra_turn_microcompact_def Let_def split: prod.splits if_splits)
  show "same_shape st (rung_reasoning o' tgt k st)"
    using shapes_pruned by (auto simp: same_shape_def rung_reasoning_def)
  have "map row_shape (fst (shrink_assistant_arguments env ms k mc sid tools d)) = map row_shape ms" for ms k mc sid tools d
    using shapes_shrunk by (simp add: shrink_assistant_arguments_def Let_def)
  then have shrunk: "shrink_assistant_arguments env ms k mc sid tools d = (ms', n) \<Longrightarrow> map row_shape ms' = map row_shape ms"
    for ms k mc sid tools d ms' n by (metis fst_conv)
  show "same_shape st (rung_arguments env o' tgt keep st)"
    by (simp add: same_shape_def rung_arguments_def split: prod.split) (auto dest: shrunk)
  have "map row_shape (fst (truncate_largest_tool_results env ms t sid mc dis nr d)) = map row_shape ms" for ms t sid mc dis nr d
    using shapes_truncated [OF truncation_candidates_range] by (simp add: truncate_largest_tool_results_def)
  then have cut: "truncate_largest_tool_results env ms t sid mc dis nr d = (ms', n) \<Longrightarrow> map row_shape ms' = map row_shape ms"
    for ms t sid mc dis nr d ms' n by (metis fst_conv)
  show "same_shape st (rung_truncate env o' tgt st)"
    by (simp add: same_shape_def rung_truncate_def split: prod.split) (auto dest: cut)
qed

lemma climb_shape: "same_shape st (climb env o' tgt keep st)"
  unfolding climb_def by (intro same_shape_then rung_shapes)

text \<open>
  C20. Relief never breaks the conversation. Whatever rungs run, the list keeps its length and its order, every message its role
  and the id it answers, every call its id: a result still answers the call before it.
\<close>
theorem relief_keeps_structure:
  "map row_shape (chat (snd (snd (relieve_context env o' given_target keep latch st)))) = map row_shape (chat st)"
proof -
  have "climb env o' t keep st = (st', rs) \<Longrightarrow> map row_shape (chat st') = map row_shape (chat st)" for t st' rs
    using climb_shape [of st env o' t keep] by (simp add: same_shape_def)
  then show ?thesis unfolding relieve_context_def Let_def by (simp split: prod.split)
qed

section \<open>What the last rungs take out\<close>

lemma result_body_cut: "result_body (cut_result m s) = s"
  by (auto simp: result_body_def cut_result_def dict_get_def map_of_dict_set map_of_dict_pop block_texts_def
      json_items_def get_or_def str_of_def split: json.splits)

lemma cut_call [simp]: "message_call (cut_result m s) = message_call m"
  using shape_cut [of m s] by (simp add: row_shape_def)

lemma notice_names_path: "contains (truncation_notice n (Some p) denied route) p"
  unfolding truncation_notice_def option.case Let_def
  by (rule contains_here | rule contains_appendI(1))+

definition cut_path :: "spill_env \<Rightarrow> string \<Rightarrow> message \<Rightarrow> string" where
  "cut_path env sid m =
     spill_path env sid (message_call m @ ''.truncated'') (looks_like_json (result_body m))"

lemma save_cut_cases:
  assumes "save_cut env sid m d = (r, d')"
  obtains "r = Some (cut_path env sid m)" "d' = d(cut_path env sid m \<mapsto> Text (result_body m))"
      "sid \<noteq> []" "message_call m \<noteq> []" "result_body m \<noteq> []" "can_write env (cut_path env sid m)"
  | "r = None" "d' = d" "sid = [] \<or> message_call m = [] \<or> result_body m = [] \<or> \<not> can_write env (cut_path env sid m)"
  using assms
  by (auto simp: save_cut_def persist_for_compaction_def write_file_def cut_path_def Let_def split: if_splits)

lemma truncate_rows_other:
  "i \<notin> snd ` set rows \<Longrightarrow> fst (truncate_rows env sid denied route tgt rows ms freed d) ! i = ms ! i"
  by (induction env sid denied route tgt rows ms freed d rule: truncate_rows.induct)
    (auto simp: Let_def split: prod.splits)

lemma message_call_updated: "message_call (ms[i := cut_result (ms ! i) s] ! j) = message_call (ms ! j)"
  by (cases "i < length ms") (auto simp: nth_list_update list_update_beyond)

lemma truncate_rows_disk:
  "(\<And>n j b. (n, j) \<in> set rows \<Longrightarrow> message_call (ms ! j) \<noteq> [] \<Longrightarrow> spill_path env sid (message_call (ms ! j) @ ''.truncated'') b \<noteq> p) \<Longrightarrow>
   snd (snd (snd (truncate_rows env sid denied route tgt rows ms freed d))) p = d p"
proof (induction env sid denied route tgt rows ms freed d rule: truncate_rows.induct)
  case (2 env sid denied route tgt n i rest ms freed d)
  obtain r d' where r: "save_cut env sid (ms ! i) d = (r, d')" by fastforce
  have "d' p = d p"
    using 2(2) [of n i] by (cases rule: save_cut_cases [OF r]) (auto simp: cut_path_def)
  moreover have "snd (snd (snd (truncate_rows env sid denied route tgt rest ms' f d'))) p = d' p"
    if "ms' = ms[i := cut_result (ms ! i) (truncation_notice n r denied route)]"
      "f = freed + (int n - int (length (truncation_notice n r denied route)))" "\<not> tgt \<le> f" for ms' f
    by (rule 2(1) [OF r [symmetric] refl refl that(1) that(2) that(3)])
      (use 2(2) in \<open>auto simp: that(1) message_call_updated\<close>)
  ultimately show ?case by (auto simp: r Let_def split: prod.splits)
qed simp

lemma truncate_rows_saved:
  assumes "distinct (map snd rows)" "i \<in> snd ` set rows" "list_all (\<lambda>(n, j). j < length ms) rows"
    and "\<And>j k. j \<in> snd ` set rows \<Longrightarrow> k \<in> snd ` set rows \<Longrightarrow> j \<noteq> k \<Longrightarrow>
       message_call (ms ! j) \<noteq> [] \<Longrightarrow> message_call (ms ! k) \<noteq> [] \<Longrightarrow>
       safe_id (message_call (ms ! j) @ ''.truncated'') \<noteq> safe_id (message_call (ms ! k) @ ''.truncated'')"
    and "sid \<noteq> []" "message_call (ms ! i) \<noteq> []" "result_body (ms ! i) \<noteq> []" "can_write env (cut_path env sid (ms ! i))"
    and "fst (truncate_rows env sid denied route tgt rows ms freed d) ! i \<noteq> ms ! i"
  shows "snd (snd (snd (truncate_rows env sid denied route tgt rows ms freed d))) (cut_path env sid (ms ! i))
       = Some (Text (result_body (ms ! i)))
     \<and> contains (result_body (fst (truncate_rows env sid denied route tgt rows ms freed d) ! i)) (cut_path env sid (ms ! i))"
  using assms
proof (induction env sid denied route tgt rows ms freed d rule: truncate_rows.induct)
  case (2 env sid denied route tgt n j rest ms freed d)
  note apart = 2(5)
  obtain r d' where r: "save_cut env sid (ms ! j) d = (r, d')" by fastforce
  let ?notice = "truncation_notice n r denied route"
  let ?ms = "ms[j := cut_result (ms ! j) ?notice]"
  let ?f = "freed + (int n - int (length ?notice))"
  let ?rest = "truncate_rows env sid denied route tgt rest ?ms ?f d'"
  have len: "j < length ms" using 2(4) by simp
  have out: "fst (truncate_rows env sid denied route tgt ((n, j) # rest) ms freed d)
      = (if tgt \<le> ?f then ?ms else fst ?rest)"
    "snd (snd (snd (truncate_rows env sid denied route tgt ((n, j) # rest) ms freed d)))
      = (if tgt \<le> ?f then d' else snd (snd (snd ?rest)))"
    by (auto simp: r Let_def split: prod.splits)
  show ?case
  proof (cases "i = j")
    case True
    then have new: "i \<notin> snd ` set rest" using 2(2) by simp
    have r': "r = Some (cut_path env sid (ms ! i))" "d' (cut_path env sid (ms ! i)) = Some (Text (result_body (ms ! i)))"
      using 2(6, 7, 8, 9) True by (auto intro: save_cut_cases [OF r])
    have "snd (snd (snd ?rest)) (cut_path env sid (ms ! i)) = d' (cut_path env sid (ms ! i))"
    proof (rule truncate_rows_disk)
      fix n' k b assume k: "(n', k) \<in> set rest" and call: "message_call (?ms ! k) \<noteq> []"
      then have "k \<noteq> i" "k \<in> snd ` set ((n, j) # rest)" using new by force+
      then show "spill_path env sid (message_call (?ms ! k) @ ''.truncated'') b \<noteq> cut_path env sid (ms ! i)"
        using apart [of k i] 2(3, 7) call unfolding cut_path_def message_call_updated by (metis spill_path_inj)
    qed
    moreover have "fst ?rest ! i = ?ms ! i" by (rule truncate_rows_other [OF new])
    moreover have "?ms ! i = cut_result (ms ! i) ?notice" using True len by simp
    ultimately show ?thesis using r' notice_names_path unfolding out by (simp add: result_body_cut)
  next
    case False
    then have rest: "i \<in> snd ` set rest" using 2(3) by simp
    have same: "?ms ! i = ms ! i" using False by simp
    have more: "\<not> tgt \<le> ?f" using 2(10) same unfolding out by auto
    have "snd (snd (snd ?rest)) (cut_path env sid (?ms ! i)) = Some (Text (result_body (?ms ! i)))
        \<and> contains (result_body (fst ?rest ! i)) (cut_path env sid (?ms ! i))"
    proof (rule 2(1) [OF r [symmetric] refl refl refl refl more])
      show "distinct (map snd rest)" using 2(2) by simp
      show "list_all (\<lambda>(n, k). k < length ?ms) rest" using 2(4) by simp
      show "safe_id (message_call (?ms ! a) @ ''.truncated'') \<noteq> safe_id (message_call (?ms ! b) @ ''.truncated'')"
        if "a \<in> snd ` set rest" "b \<in> snd ` set rest" "a \<noteq> b" "message_call (?ms ! a) \<noteq> []" "message_call (?ms ! b) \<noteq> []" for a b
        using apart [of a b] that unfolding message_call_updated by simp
      show "fst ?rest ! i \<noteq> ?ms ! i" using 2(10) more same unfolding out by simp
    qed (use rest 2(6-9) same in simp_all)
    then show ?thesis using more unfolding out same by simp
  qed
qed simp

text \<open>A result that cannot be saved is cut all the same, and its notice names no file.\<close>

lemma truncate_rows_unsaved:
  assumes "distinct (map snd rows)" "(n, i) \<in> set rows" "list_all (\<lambda>(n, j). j < length ms) rows"
    and "sid = [] \<or> message_call (ms ! i) = [] \<or> \<not> can_write env (cut_path env sid (ms ! i))"
    and "fst (truncate_rows env sid denied route tgt rows ms freed d) ! i \<noteq> ms ! i"
  shows "result_body (fst (truncate_rows env sid denied route tgt rows ms freed d) ! i) = truncation_notice n None denied route"
  using assms
proof (induction env sid denied route tgt rows ms freed d rule: truncate_rows.induct)
  case (2 env sid denied route tgt n' j rest ms freed d)
  obtain r d' where r: "save_cut env sid (ms ! j) d = (r, d')" by fastforce
  let ?notice = "truncation_notice n' r denied route"
  let ?ms = "ms[j := cut_result (ms ! j) ?notice]"
  let ?f = "freed + (int n' - int (length ?notice))"
  let ?rest = "truncate_rows env sid denied route tgt rest ?ms ?f d'"
  have out: "fst (truncate_rows env sid denied route tgt ((n', j) # rest) ms freed d) = (if tgt \<le> ?f then ?ms else fst ?rest)"
    by (auto simp: r Let_def split: prod.splits)
  show ?case
  proof (cases "i = j")
    case True
    then have new: "i \<notin> snd ` set rest" "n = n'" "j < length ms" using 2(2-4) by force+
    have "r = None" using 2(5) True by (auto intro: save_cut_cases [OF r])
    then show ?thesis using truncate_rows_other [OF new(1)] new True unfolding out by (simp add: result_body_cut)
  next
    case False
    then have rest: "(n, i) \<in> set rest" and same: "?ms ! i = ms ! i" using 2(3) by auto
    have more: "\<not> tgt \<le> ?f" using 2(6) same unfolding out by auto
    have "result_body (fst ?rest ! i) = truncation_notice n None denied route"
      by (rule 2(1) [OF r [symmetric] refl refl refl refl more]) (use 2(2, 4-6) rest same more out in auto)
    then show ?thesis using more unfolding out by simp
  qed
qed simp

lemma candidates_rows:
  "distinct (map snd (truncation_candidates mc ms))"
  "(n, i) \<in> set (truncation_candidates mc ms) \<Longrightarrow>
     i < length ms \<and> n = length (result_body (ms ! i)) \<and> message_role (ms ! i) = ''tool'' \<and> mc < int (length (result_body (ms ! i)))"
proof -
  let ?rows = "map (\<lambda>i. (length (result_body (ms ! i)), i))
      (filter (\<lambda>i. message_role (ms ! i) = ''tool'' \<and> mc < int (length (result_body (ms ! i)))) [0..<length ms])"
  have "distinct (map snd (order_by le xs)) = distinct (map snd xs)" for le and xs :: "(nat \<times> nat) list"
  proof (induction xs)
    case (Cons x xs)
    have "distinct (map snd (insert_by le x ys)) \<longleftrightarrow> snd x \<notin> snd ` set ys \<and> distinct (map snd ys)" for ys
      by (induction ys) auto
    with Cons show ?case by simp
  qed simp
  moreover have "map snd ?rows = filter (\<lambda>i. message_role (ms ! i) = ''tool'' \<and> mc < int (length (result_body (ms ! i)))) [0..<length ms]"
    by (simp add: comp_def)
  ultimately show "distinct (map snd (truncation_candidates mc ms))"
    unfolding truncation_candidates_def by simp
  show "(n, i) \<in> set (truncation_candidates mc ms) \<Longrightarrow>
     i < length ms \<and> n = length (result_body (ms ! i)) \<and> message_role (ms ! i) = ''tool'' \<and> mc < int (length (result_body (ms ! i)))"
    by (auto simp: truncation_candidates_def)
qed

text \<open>
  C22. The last rung destroys nothing it can save. Whatever \<open>_truncate_largest_tool_results\<close> cuts is a tool result over the size
  limit. When the pass has a session, the result an id and its file can be written, the whole result is on disk under the
  path its notice names; in every other case (a failed save still truncates) the notice names no file: it gives the
  original size and asks for a narrower call. (Two ids must not sanitise to one file name.)
\<close>
theorem truncated_results_saved:
  fixes env :: spill_env and ms :: "message list" and sid :: string
  defines "body \<equiv> \<lambda>i. result_body (ms ! i)" and "path \<equiv> \<lambda>i. cut_path env sid (ms ! i)"
  assumes "0 \<le> min_chars"
    and "\<And>j k. j < length ms \<Longrightarrow> k < length ms \<Longrightarrow> message_role (ms ! j) = ''tool'' \<Longrightarrow> message_role (ms ! k) = ''tool'' \<Longrightarrow>
       j \<noteq> k \<Longrightarrow> message_call (ms ! j) \<noteq> [] \<Longrightarrow> message_call (ms ! k) \<noteq> [] \<Longrightarrow>
       safe_id (message_call (ms ! j) @ ''.truncated'') \<noteq> safe_id (message_call (ms ! k) @ ''.truncated'')"
    and "i < length ms"
    and "truncate_largest_tool_results env ms target_chars sid min_chars disallowed name_record d = (ms', n, freed, d')"
    and "ms' ! i \<noteq> ms ! i"
  shows "message_role (ms ! i) = ''tool'' \<and> min_chars < int (length (body i))
     \<and> (if sid \<noteq> [] \<and> message_call (ms ! i) \<noteq> [] \<and> can_write env (path i)
        then d' (path i) = Some (Text (body i)) \<and> contains (result_body (ms' ! i)) (path i)
        else result_body (ms' ! i) = truncation_notice (length (body i)) None False [])"
proof -
  let ?rows = "truncation_candidates min_chars ms"
  let ?denied = "tool_is_denied READ_TOOL disallowed"
  let ?route = "if name_record \<and> sid \<noteq> [] then session_record_route env d sid disallowed else []"
  let ?out = "truncate_rows env sid ?denied ?route target_chars ?rows ms 0 d"
  have run: "?out = (ms', n, freed, d')"
    using assms(6) by (simp add: truncate_largest_tool_results_def)
  have i: "i \<in> snd ` set ?rows"
    using truncate_rows_other [of i ?rows env sid ?denied ?route target_chars ms 0 d] run assms(7) by auto
  then obtain sz where sz: "(sz, i) \<in> set ?rows" by auto
  note cand = candidates_rows(2) [OF sz]
  have tools: "message_role (ms ! j) = ''tool''" "j < length ms" if "j \<in> snd ` set ?rows" for j
    using that candidates_rows(2) by auto
  have changed: "fst ?out ! i \<noteq> ms ! i" using run assms(7) by simp
  show ?thesis
  proof (cases "sid \<noteq> [] \<and> message_call (ms ! i) \<noteq> [] \<and> can_write env (path i)")
    case True
    have "snd (snd (snd ?out)) (path i) = Some (Text (body i)) \<and> contains (result_body (fst ?out ! i)) (path i)"
      unfolding path_def body_def
    proof (rule truncate_rows_saved [OF candidates_rows(1) i truncation_candidates_range _ _ _ _ _ changed])
      show "result_body (ms ! i) \<noteq> []" using cand assms(3) by auto
    qed (use True assms(4) tools in \<open>simp_all add: path_def\<close>)
    then show ?thesis using True run cand by (simp add: body_def)
  next
    case False
    have "result_body (fst ?out ! i) = truncation_notice sz None ?denied ?route"
      by (rule truncate_rows_unsaved [OF candidates_rows(1) sz truncation_candidates_range _ changed])
        (use False in \<open>simp add: path_def\<close>)
    then show ?thesis using False run cand by (auto simp: body_def truncation_notice_def)
  qed
qed

lemma truncated_results_saved_witness:
  "\<exists>ms' n freed d'. truncate_largest_tool_results demo_spill
       [[(''role'', JStr ''tool''), (''tool_call_id'', JStr ''a''), (''content'', JStr ''long'')]] 1 ''x'' 3 [] False Map.empty
       = (ms', n, freed, d') \<and> (\<exists>p. d' p = Some (Text ''long'') \<and> contains (result_body (ms' ! 0)) p)"
proof -
  let ?m = "[(''role'', JStr ''tool''), (''tool_call_id'', JStr ''a''), (''content'', JStr ''long'')]"
  have m: "message_role ?m = ''tool''" "message_call ?m = ''a''" "result_body ?m = ''long''"
    by (simp_all add: message_role_def get_or_def message_call_def dict_get_def py_or_def str_of_def result_body_def)
  obtain ms' n freed d' where run: "truncate_largest_tool_results demo_spill [?m] 1 ''x'' 3 [] False Map.empty = (ms', n, freed, d')"
    by (metis prod_cases4)
  have "truncation_candidates 3 [?m] = [(4, 0)]" using m by (simp add: truncation_candidates_def)
  then have "ms' ! 0 = cut_result ?m (truncation_notice 4 (fst (save_cut demo_spill ''x'' ?m Map.empty)) False [])"
    using run by (auto simp: truncate_largest_tool_results_def tool_is_denied_def READ_TOOL_def Let_def split: prod.splits if_splits)
  then have "result_body (ms' ! 0) = truncation_notice 4 (fst (save_cut demo_spill ''x'' ?m Map.empty)) False []"
    by (simp add: result_body_cut)
  moreover have "hd (truncation_notice 4 p False []) = CHR ''[''" for p
    by (simp add: truncation_notice_def Let_def split: option.split)
  ultimately have "hd (result_body (ms' ! 0)) = CHR ''[''" by simp
  then have "ms' ! 0 \<noteq> [?m] ! 0" using m(3) by auto
  from truncated_results_saved [OF _ _ _ run this] m show ?thesis using run
    by (auto simp: demo_spill_def)
qed

section \<open>Bodies in arguments\<close>

definition arg_path :: "spill_env \<Rightarrow> string \<Rightarrow> string \<Rightarrow> string \<Rightarrow> bool \<Rightarrow> string" where
  "arg_path env sid cid f = spill_path env sid (cid @ ''.args.'' @ f)"

lemma shrunk_text_names: "contains (shrunk_text body path args) path"
  unfolding shrunk_text_def Let_def by (rule contains_here | rule contains_appendI(1))+

definition body_saved :: "disk \<Rightarrow> string list \<Rightarrow> (string \<times> json) list \<Rightarrow> (string \<times> json) list \<Rightarrow> string \<Rightarrow> bool" where
  "body_saved d fs args args' k \<longleftrightarrow> dict_get args' k = dict_get args k
     \<or> k \<in> set fs \<and> (\<exists>body p t. dict_get args k = JStr body \<and> d p = Some (Text body)
          \<and> dict_get args' k = JStr t \<and> contains t p)"

lemma shrink_fields_disk:
  "(\<And>f b. f \<in> set fs \<Longrightarrow> arg_path env sid cid f b \<noteq> p) \<Longrightarrow>
   sh_disk (shrink_fields env sid mc cid fs st) p = sh_disk st p"
proof (induction fs arbitrary: st)
  case (Cons f fs)
  have IH: "sh_disk (shrink_fields env sid mc cid fs st') p = sh_disk st' p" for st'
    using Cons.IH Cons.prems by simp
  show ?case
  proof (cases "dict_get (sh_args st) f")
    case (JStr body)
    obtain r d' where r: "persist_for_compaction env body (cid @ ''.args.'' @ f) sid (sh_disk st) = (r, d')" by fastforce
    have "arg_path env sid cid f b \<noteq> p" for b using Cons.prems by simp
    then have d: "d' p = sh_disk st p" by (cases rule: persist_cases [OF r]) (auto simp: arg_path_def)
    show ?thesis using JStr r d IH by (simp add: Let_def split: option.split)
  qed (use IH in simp_all)
qed simp

lemma shrink_fields_saved:
  assumes "distinct fs"
    and "\<And>f g. f \<in> set fs \<Longrightarrow> g \<in> set fs \<Longrightarrow> f \<noteq> g \<Longrightarrow> safe_id (cid @ ''.args.'' @ f) \<noteq> safe_id (cid @ ''.args.'' @ g)"
  shows "body_saved (sh_disk (shrink_fields env sid mc cid fs st)) fs (sh_args st)
     (sh_args (shrink_fields env sid mc cid fs st)) k"
  using assms
proof (induction fs arbitrary: st)
  case (Cons f fs)
  have skip: "body_saved (sh_disk (shrink_fields env sid mc cid fs st')) (f # fs) (sh_args st)
     (sh_args (shrink_fields env sid mc cid fs st')) k" if "sh_args st' = sh_args st" for st'
    using Cons.IH [of st'] Cons.prems that by (auto simp: body_saved_def)
  show ?case
  proof (cases "dict_get (sh_args st) f")
    case (JStr body)
    show ?thesis
    proof (cases "int (length body) < mc \<or> sid = []")
      case True
      then show ?thesis using skip [of st] JStr by simp
    next
      case False
      obtain r d' where r: "persist_for_compaction env body (cid @ ''.args.'' @ f) sid (sh_disk st) = (r, d')" by fastforce
      show ?thesis
      proof (cases rule: persist_cases [OF r])
        case 1
        then show ?thesis using skip [of "st\<lparr>sh_disk := d'\<rparr>"] JStr False r by simp
      next
        case saved: 2
        let ?p = "spill_path env sid (cid @ ''.args.'' @ f) (looks_like_json body)"
        let ?t = "shrunk_text body ?p (sh_args st)"
        let ?st = "\<lparr>sh_args = dict_set (sh_args st) f (JStr ?t), sh_changed = True,
            sh_freed = sh_freed st + (int (length body) - int (length ?t)), sh_disk = d'\<rparr>"
        have run: "shrink_fields env sid mc cid (f # fs) st = shrink_fields env sid mc cid fs ?st"
          using JStr False r saved by (simp add: Let_def)
        have IH: "body_saved (sh_disk (shrink_fields env sid mc cid fs ?st)) fs (dict_set (sh_args st) f (JStr ?t))
            (sh_args (shrink_fields env sid mc cid fs ?st)) k"
          using Cons.IH [of ?st] Cons.prems by simp
        have "sh_disk (shrink_fields env sid mc cid fs ?st) ?p = sh_disk ?st ?p"
        proof (rule shrink_fields_disk)
          fix g b assume "g \<in> set fs"
          then have "safe_id (cid @ ''.args.'' @ g) \<noteq> safe_id (cid @ ''.args.'' @ f)"
            using Cons.prems by (auto simp: eq_commute)
          then show "arg_path env sid cid g b \<noteq> ?p" unfolding arg_path_def by (metis spill_path_inj)
        qed
        then have here: "sh_disk (shrink_fields env sid mc cid fs ?st) ?p = Some (Text body)" using saved by simp
        show ?thesis
        proof (cases "k = f")
          case True
          then have "dict_get (sh_args (shrink_fields env sid mc cid fs ?st)) k = JStr ?t"
            using IH Cons.prems(1) by (auto simp: body_saved_def dict_get_set)
          then show ?thesis unfolding run body_saved_def using here JStr True shrunk_text_names by fastforce
        next
          case False
          then show ?thesis unfolding run using IH by (auto simp: body_saved_def dict_get_set)
        qed
      qed
    qed
  qed (use skip [of st] in simp_all)
qed (simp add: body_saved_def)

lemma shrinkable_cases:
  "shrinkable_fields name allow \<in> {[], [''content''], [''old_string'', ''new_string'']}"
  by (auto simp: shrinkable_fields_def SHRINKABLE_ARGS_def Let_def)

lemma args_ids_differ:
  assumes "length cid \<le> 112" "f \<in> set (shrinkable_fields name allow)" "g \<in> set (shrinkable_fields name allow)" "f \<noteq> g"
  shows "safe_id (cid @ ''.args.'' @ f) \<noteq> safe_id (cid @ ''.args.'' @ g)"
proof -
  have fg: "f = ''old_string'' \<and> g = ''new_string'' \<or> f = ''new_string'' \<and> g = ''old_string''"
    using shrinkable_cases [of name allow] assms(2-4) by auto
  have whole: "safe_id s = map safe_char s" if "length s \<le> 128" "s \<noteq> []" for s
    using that by (simp add: safe_id_def Let_def)
  show ?thesis
    using fg assms(1) whole [of "cid @ ''.args.'' @ f"] whole [of "cid @ ''.args.'' @ g"]
    by (auto simp: safe_char_def Let_def)
qed

definition call_arguments :: "json \<Rightarrow> json" where
  "call_arguments tc = dict_get (obj_items (dict_get (obj_items tc) ''function'')) ''arguments''"

definition call_name :: "json \<Rightarrow> string" where
  "call_name tc = str_of (dict_get (obj_items (dict_get (obj_items tc) ''function'')) ''name'')"

text \<open>
  C38. A body leaves a call's arguments only after the call has its result, never among the most recent calls, and never
  unsaved: the new arguments are a JSON object that differs from the old one only in the body fields of the tool,
  and each body that left is on disk whole, under the path its replacement names.
\<close>
theorem shrunk_bodies_saved:
  assumes "shrink_call env sid min_chars allow landed recent tc d = (Some tc', freed, d')"
    and "length (call_id tc) \<le> 112"
  shows "call_id tc \<in> set landed \<and> call_id tc \<notin> set recent
     \<and> (\<exists>raw args args'. call_arguments tc = JStr raw \<and> loads_text env raw = Some (JObj args)
          \<and> call_arguments tc' = JStr (dumps (JObj args'))
          \<and> (\<forall>k. body_saved d' (shrinkable_fields (call_name tc) allow) args args' k))"
proof -
  let ?fs = "shrinkable_fields (call_name tc) allow"
  let ?fn = "obj_items (dict_get (obj_items tc) ''function'')"
  have guards: "call_id tc \<in> set landed" "call_id tc \<notin> set recent"
    using assms(1) by (auto simp: shrink_call_def Let_def split: if_splits)
  obtain raw args where ra: "dict_get ?fn ''arguments'' = JStr raw" "loads_text env raw = Some (JObj args)"
    using assms(1) by (auto simp: shrink_call_def Let_def split: if_splits json.splits option.splits)
  let ?st = "shrink_fields env sid min_chars (call_id tc) ?fs \<lparr>sh_args = args, sh_changed = False, sh_freed = 0, sh_disk = d\<rparr>"
  have out: "tc' = JObj (dict_set (obj_items tc) ''function'' (JObj (dict_set ?fn ''arguments'' (JStr (dumps (JObj (sh_args ?st)))))))"
    "d' = sh_disk ?st"
    using assms(1) ra by (auto simp: shrink_call_def Let_def call_name_def split: if_splits)
  have "call_arguments tc' = JStr (dumps (JObj (sh_args ?st)))"
    by (simp add: out(1) call_arguments_def obj_items_def dict_get_set del: dumps.simps)
  moreover have "body_saved d' ?fs args (sh_args ?st) k" for k
  proof -
    have "distinct ?fs" using shrinkable_cases [of "call_name tc" allow] by auto
    from shrink_fields_saved [OF this args_ids_differ [OF assms(2)], where env = env and sid = sid and mc = min_chars
        and st = "\<lparr>sh_args = args, sh_changed = False, sh_freed = 0, sh_disk = d\<rparr>" and k = k]
    show ?thesis using out(2) by simp
  qed
  ultimately show ?thesis using guards ra by (auto simp: call_arguments_def)
qed

definition demo_write :: spill_env where
  "demo_write = demo_spill\<lparr>loads_text := (\<lambda>s. Some (JObj [(''content'', JStr ''body'')]))\<rparr>"

definition demo_write_call :: json where
  "demo_write_call = JObj [(''id'', JStr ''a''),
     (''function'', JObj [(''name'', JStr ''Write''), (''arguments'', JStr ''{body}'')])]"

lemma shrunk_bodies_saved_witness:
  "\<exists>tc' freed d' args'. shrink_call demo_write ''x'' 3 [''Write''] [''a''] [] demo_write_call Map.empty = (Some tc', freed, d')
     \<and> call_arguments tc' = JStr (dumps (JObj args'))
     \<and> body_saved d' (shrinkable_fields ''Write'' [''Write'']) [(''content'', JStr ''body'')] args' ''content''"
proof -
  have bare: "bare_tool_name ''Write'' = ''Write''" by (simp add: bare_tool_name_def)
  have id: "call_id demo_write_call = ''a''" and name: "call_name demo_write_call = ''Write''"
    by (simp_all add: demo_write_call_def call_id_def call_name_def obj_items_def dict_get_def py_or_def str_of_def)
  obtain tc' freed d' where run: "shrink_call demo_write ''x'' 3 [''Write''] [''a''] [] demo_write_call Map.empty = (Some tc', freed, d')"
    by (simp add: shrink_call_def Let_def id)
      (simp add: demo_write_call_def obj_items_def dict_get_def str_of_def shrinkable_fields_def bare SHRINKABLE_ARGS_def
        demo_write_def demo_spill_def persist_for_compaction_def write_file_def Let_def)
  have "length (call_id demo_write_call) \<le> 112" by (simp add: id)
  from shrunk_bodies_saved [OF run this] obtain raw args args' where a:
    "loads_text demo_write raw = Some (JObj args)" "call_arguments tc' = JStr (dumps (JObj args'))"
    "body_saved d' (shrinkable_fields ''Write'' [''Write'']) args args' ''content''"
    unfolding name by blast
  moreover have "args = [(''content'', JStr ''body'')]" using a(1) by (simp add: demo_write_def)
  ultimately show ?thesis using run by blast
qed

lemma shrink_calls_keep:
  "j < length tcs \<Longrightarrow> call_id (tcs ! j) \<notin> set landed \<or> call_id (tcs ! j) \<in> set recent \<Longrightarrow>
   fst (shrink_calls env sid mc allow landed recent tcs d) ! j = tcs ! j"
proof (induction tcs arbitrary: j d)
  case (Cons tc tcs)
  obtain change freed d' where c: "shrink_call env sid mc allow landed recent tc d = (change, freed, d')"
    by (metis prod_cases3)
  show ?case
  proof (cases j)
    case 0
    then have "change = None" using Cons.prems c by (auto simp: shrink_call_def Let_def split: if_splits)
    then show ?thesis using 0 by (auto simp: c Let_def split: prod.splits)
  next
    case (Suc k)
    then show ?thesis using Cons.IH [of k d'] Cons.prems by (auto simp: c Let_def split: prod.splits option.splits)
  qed
qed simp

lemma shrink_messages_keep:
  "i < length ms \<Longrightarrow> j < length (message_calls (ms ! i)) \<Longrightarrow>
   call_id (message_calls (ms ! i) ! j) \<notin> set landed \<or> call_id (message_calls (ms ! i) ! j) \<in> set recent \<Longrightarrow>
   message_calls (fst (shrink_messages env sid mc allow landed recent ms d) ! i) ! j = message_calls (ms ! i) ! j"
proof (induction ms arbitrary: i d)
  case (Cons m ms)
  obtain tcs n f d' where tcs: "shrink_calls env sid mc allow landed recent (message_calls m) d = (tcs, n, f, d')"
    by (metis prod_cases4)
  have out: "fst (shrink_messages env sid mc allow landed recent (m # ms) d)
      = (if n = 0 then m else dict_set m ''tool_calls'' (JArr tcs)) # fst (shrink_messages env sid mc allow landed recent ms d')"
    by (auto simp: tcs Let_def split: prod.splits)
  show ?case
  proof (cases i)
    case 0
    have "tcs ! j = message_calls m ! j"
      using shrink_calls_keep [of j "message_calls m" landed recent env sid mc allow d] Cons.prems 0 tcs by simp
    moreover have "message_role m = ''assistant''"
      using Cons.prems(2) 0 by (auto simp: message_calls_def split: if_splits)
    then have "message_calls (dict_set m ''tool_calls'' (JArr tcs)) = tcs"
      by (simp add: message_calls_def message_role_def get_or_def map_of_dict_set dict_get_def json_items_def)
    ultimately show ?thesis unfolding out 0 by simp
  next
    case (Suc k)
    then show ?thesis using Cons.IH [of k d'] Cons.prems unfolding out by simp
  qed
qed simp

text \<open>
  A call still in flight keeps its arguments, and so do the most recent calls that have landed: the pass over the
  conversation leaves the call as the model wrote it.
\<close>
theorem open_calls_keep_arguments:
  assumes "i < length ms" "j < length (message_calls (ms ! i))"
    and "call_id (message_calls (ms ! i) ! j) \<notin> set (landed_calls ms)
       \<or> call_id (message_calls (ms ! i) ! j) \<in> set (recent_calls keep ms)"
  shows "message_calls (fst (shrink_assistant_arguments env ms keep min_chars sid tools d) ! i) ! j
     = message_calls (ms ! i) ! j"
  using shrink_messages_keep [OF assms] by (simp add: shrink_assistant_arguments_def Let_def)

lemma open_calls_keep_arguments_witness:
  "message_calls (fst (shrink_assistant_arguments demo_write
       [[(''role'', JStr ''assistant''), (''tool_calls'', JArr [demo_write_call])]] 5 3 ''x'' [''Write''] Map.empty) ! 0) ! 0
     = demo_write_call"
proof -
  let ?m = "[(''role'', JStr ''assistant''), (''tool_calls'', JArr [demo_write_call])]"
  have m: "message_role ?m = ''assistant''" "message_calls ?m = [demo_write_call]"
    by (simp_all add: message_role_def get_or_def message_calls_def dict_get_def json_items_def)
  have l: "landed_calls [?m] = []" using m(1) by (simp add: landed_calls_def)
  have h: "(0::nat) < length [?m]" "0 < length (message_calls ([?m] ! 0))"
    "call_id (message_calls ([?m] ! 0) ! 0) \<notin> set (landed_calls [?m])
       \<or> call_id (message_calls ([?m] ! 0) ! 0) \<in> set (recent_calls 5 [?m])"
    using m(2) by (simp_all add: l)
  show ?thesis using open_calls_keep_arguments [OF h, of demo_write 3 "''x''" "[''Write'']" Map.empty] m(2) by simp
qed

end
