(* ===== verification/Spec2Isabelle.thy ===== *)
theory Spec2Isabelle
  imports Queue_Theorems Read_Theorems Journals Sweep_Theorems Grant_Sync Pause_Theorems Run_Theorems Dispatch_Theorems
    Source_Theorems Service_Probe Compact_Theorems Relief_Theorems
begin

text \<open>
  A verification library for the unattended half of Lloyd: the durable work queue, the worker pool that
  drains it, the authority gate in front of what a worker may do, the verifier of what it claims to
  have done, the scheduler of the autonomy tasks, and the relief that keeps a long turn inside the context
  window of its model.

  \<^bold>\<open>How the parts interact.\<close> The scheduler's pass (\<open>workers/pool.py\<close>) visits every source at its interval;
  the source \<open>scheduled-task\<close> asks \<open>app/autonomy.py\<close> which task files are due and enqueues them. A worker
  polls: unless a hold stands it evaluates the claim gates and asks the queue (\<open>workers/queue.py\<close>) for the next row that is
  neither held back nor over quota. The run borrows a scope; each tool call goes through the grant check
  of \<open>app/harness/policy.py\<close>. Whatever the source returns or raises becomes one run record; the claims of a
  successful run are checked by \<open>workers/evidence.py\<close> and the gaps carried to the next run. A task's own
  front matter is updated with the outcome, which the next scan reads. Poisoned rows are triaged by
  \<open>workers/maintenance.py\<close>, and \<open>workers/dispatch_watch.py\<close> watches the stamps of the pass. Inside a run the loop of
  \<open>app/harness\<close> meters the prompt, spills large tool results to files, and when the prompt nears the window climbs a
  ladder of rungs that take old content out; the next turn replays from a sidecar file what an earlier one reduced.

  \<^bold>\<open>State.\<close> \<^typ>\<open>store\<close> is the database \<open>workers.db\<close> (queue, runs, watermarks, the two hold journals) as lists of
  rows with their \<open>AUTOINCREMENT\<close> counters; \<open>grant_store\<close> holds the grant tables; \<^typ>\<open>pool\<close> is the process
  state of \<open>WorkerPool\<close>; \<^typ>\<open>task\<close> is the front matter of one task file; a message is the dictionary the engine is sent
  (key and JSON value in order) and \<^typ>\<open>disk\<close> the files of the session directory. A clock reading is a number of
  microseconds since 0001-01-01 UTC, an argument of every operation that reads the clock.

  \<^bold>\<open>Shared.\<close>
  \<^item> \<open>Prelude\<close>: collections of simplification rules, SQL and string idioms, transition systems (\<open>reach\<close> and the locale
    \<open>invariant_system\<close>). \<open>Json\<close>, \<open>Regex\<close>, \<open>Iso_Time\<close>: the parts of the standard library the code uses; \<open>Iso_Time\<close> proves that
    stamps read back and compare as text like their instants (locale \<open>stamps\<close>).

  \<^bold>\<open>The work queue\<close> (\<open>workers/queue.py\<close>).
  \<^item> \<open>Queue_Tables\<close>, \<open>Work_Queue\<close>, \<open>Queue_Reads\<close>, \<open>Journals\<close>: rows, every operation of \<open>WorkQueue\<close>, the read side, watermarks and
    hold journals (locales for a keyed store and a stack of open holds).
  \<^item> \<open>Queue_Safety\<close>, \<open>Queue_Claims\<close>, \<open>Queue_Lifecycle\<close>, \<open>Queue_Recovery\<close>, \<open>Run_Summary\<close>: the invariant over the step relation
    \<open>qstep hi settled\<close> (every operation with any arguments; \<open>hi\<close> bounds the ceilings and counts given, \<open>settled\<close> the ids given to
    \<open>mark_completed\<close> and \<open>mark_failed\<close>, whose UPDATEs select by id alone), the order and quota of claims, races, retries,
    recovery after a crash.
  \<^item> \<open>Queue_Theorems\<close>, \<open>Read_Theorems\<close>: the properties, with a concrete store.
  \<^item> \<open>Maintenance\<close>, \<open>Sweep_Theorems\<close>: the poison sweep and its effect on the queue.

  \<^bold>\<open>The authority gate\<close> (\<open>app/harness/policy.py\<close>, \<open>agent_mcp/builtin_grants.py\<close>).
  \<^item> \<open>Grant_Language\<close>, \<open>Grant_Store\<close>, \<open>Grant_Gate\<close>: the vocabulary, the rows, \<open>check_grants\<close>, the dispatch hook, the
    \<open>grants:\<close> block of task files and the tools. \<open>Grant_Facts\<close>, \<open>Grant_Safety\<close>: lemmas, the step relation and its invariant.
  \<^item> \<open>Grant_Theorems\<close>, \<open>Grant_Sync\<close>: who pays for a dispatch, what never pays, quotas, destinations, and
    that syncing a task file twice changes nothing.

  \<^bold>\<open>The worker pool\<close> (\<open>workers/pool.py\<close>, \<open>app/engine_pressure.py\<close>).
  \<^item> \<open>Pool_Pause\<close>, \<open>Pause_Safety\<close>, \<open>Pause_Theorems\<close>: the operator and machine holds; memory, watermark and journal agree
    over restarts, and a person's hold outlives them.
  \<^item> \<open>Pool_Gates\<close>, \<open>Gate_Facts\<close>, \<open>Pool_Theorems\<close>: the three claim gates and the list they publish.
  \<^item> \<open>Evidence\<close>, \<open>Evidence_Theorems\<close>: the verifier of claims (\<open>workers/evidence.py\<close>).
  \<^item> \<open>Pool_Runs\<close>, \<open>Pool_Facts\<close>, \<open>Run_Theorems\<close>: one turn of \<open>_worker_loop\<close> (\<open>worker_poll_race\<close>, with what the
    other coroutines do between the pause test, the gates and the claim), the record it leaves, and the result that ends the loop.
  \<^item> \<open>Dispatch\<close>, \<open>Dispatch_Theorems\<close>: the scheduler's pass and the watch over it.

  \<^bold>\<open>The autonomy scheduler\<close> (\<open>app/autonomy.py\<close>).
  \<^item> \<open>Task_Schedule\<close>: periods, retry steps, rests, windows of local hours. \<open>Task_Due\<close>: the dependency gate, the veto
    of the run records, the catch-up of a lost window, \<open>_is_task_due\<close>, \<open>hold_reason\<close>, \<open>get_due_tasks\<close>. \<open>Task_Ledger\<close>: what a start, a
    success, a failure and the recovery scan write back.
  \<^item> \<open>Task_Facts\<close>: rounding, reading back written fields. \<open>Task_Theorems\<close>: board and scheduler agree, dependent runs are
    certified, a recorded success is not repeated. \<open>Task_Outcomes\<close>: retry spacing, the ceiling on outages, the budget, and
    the way back from retirement. \<open>Task_Windows\<close>: the window loop ends, the planned slot is the first of the window, the scan
    returns what is due, by priority and waiting time.
  \<^item> \<open>Task_Source\<close>, \<open>Source_Theorems\<close>: the source that joins scheduler and queue (\<open>workers/sources/scheduled_task.py\<close>) and the ledger of
    lost windows (\<open>workers/fleet_watchdog.py\<close>); the queue as an inbox with one live entry per key is the locale \<open>inbox\<close>,
    interpreted on \<open>enqueue\<close>. \<open>Service_Probe\<close>: the watcher of the services' ports whose streak the source alerts on.

  \<^bold>\<open>Context relief\<close> (\<open>app/compaction.py\<close>, \<open>app/harness\<close>).
  \<^item> \<open>Conversation\<close>, \<open>Conversation_Facts\<close>: messages, the token estimate, turns and the cut of whole turns (\<open>app/compaction.py\<close>).
    An estimate that is additive over messages is the locale \<open>estimator\<close>, interpreted on the code's estimate.
  \<^item> \<open>Context_Spill\<close>: \<open>tool_result_spill.py\<close>: a large result goes to a file and a block with its path stays.
  \<^item> \<open>Microcompact\<close>, \<open>Microcompact_Facts\<close>, \<open>Block_Facts\<close>: the pass of \<open>microcompact.py\<close> that clears old tool results, row by row, and
    what the texts it writes say when they are parsed again.
  \<^item> \<open>Reduction_Sidecar\<close>: the file in which the ids of reduced and of cleared results are kept, two lists in one file
    (locale \<open>two_lists\<close>), and the replay at the next read.
  \<^item> \<open>Context_Meter\<close>, \<open>Relief_Ladder\<close>: \<open>ContextMeter\<close>, the latch, and the rungs of \<open>_relieve_context\<close> (old images, old results,
    reasoning, argument bodies, the largest results) with the shrinking of \<open>microcompact.py\<close>.
  \<^item> \<open>Compact_Theorems\<close>, \<open>Relief_Theorems\<close>: nothing leaves the prompt unsaved, the rest is left alone, the fewest results are
    cleared, a spilled block leads back to its text, the replay gives what the engine saw, the list keeps its structure,
    a turn waits for regrowth between passes, the meter reads the prompt.

  \<^bold>\<open>Loops and bounds.\<close> Loops over rows are structural recursion. The retries of a claim that lost a race and the scan past
  capped rows run as often as the constants of the code say (\<open>CLAIM_RACE_RETRIES\<close>, \<open>CLAIM_CAP_SCAN_LIMIT\<close>). The loop that
  measures a window is a \<^theory_text>\<open>partial_function\<close> in the option type, and its end is a theorem. Integers are Python's, hence
  unbounded; a \<open>float\<close> is the rational it stands for, with its range where the code can leave it.

  \<^bold>\<open>Parameters.\<close> SHA-1, the disk and the regular-expression engine of the verifier, the Bash pattern table of the safety module,
  IPv6 parsing, the health endpoint and sample source of the engines, the outcome of a source's own code, the machine's
  time zone, and the task files and run records as their front matter parses; for context relief \<open>json.loads\<close>,
  \<open>Path.resolve\<close>, which paths can be written, and the flat estimate of an image (\<open>None\<close> where it raises). Hypotheses on them are stated where used.

  \<^bold>\<open>Not modelled.\<close> The body of \<open>run_task\<close> (a model session), prompts, alerts, activity logs, daily notes, health and status
  pages (text for display); schema migrations; the other sources; the alarms of the fleet watchdog; of the agent loop
  the stream of the model, the execution of tools and the hooks, which are asynchronous effects on services outside the
  repository; the summary of old turns by a model; the tools and the HTTP routes; automod, groundskeeper, research and index
  scripts (programs over git, the vault and an external index); voice services; the web interface and the browser
  extension. They are external effects or rendering around the state machines modelled here. Log lines are left out
  everywhere, and a rung of relief that raises is taken as one that does not. Numbers of the modelled JSON are integers (a float literal
  in a source's result or in the \<open>expected\<close> of a claim is left out); a grant's lookup and its charge, the three claim gates, and a tick of
  the task source are each one step.
\<close>

end
